(* ===== verification/Eksir_Prelude.thy ===== *)
theory Eksir_Prelude
  imports Complex_Main "HOL-Library.Sublist" "HOL-Library.List_Lexorder" "HOL-Library.Char_ord"
    "HOL-Library.Product_Lexorder" "HOL-Library.Multiset"
begin

text \<open>
  The prelude: what the component theories share and the program does not define itself.
  It holds the model of the Python string methods the code calls (\<open>lower\<close>, \<open>upper\<close>,
  \<open>strip\<close>, \<open>split\<close>, \<open>startswith\<close>, \<open>in\<close>, \<open>int()\<close>, \<open>str()\<close>),
  the type synonyms of the model (instants, identifiers), generic lemmas on lists and maps, and the
  collections that the component proofs add facts to.

  Strings are lists of 8-bit characters; case conversion and white space are those of ASCII, which
  is what every key, verdict word and rule keyword of the code is made of. An instant is an
  \<open>int\<close> number of microseconds, the resolution of a Python \<open>datetime\<close>; a float is the
  rational it denotes.
\<close>

named_theorems frame_simps \<open>which fields of the state an operation leaves unchanged\<close>
named_theorems inv_intros \<open>operations that keep an invariant\<close>

type_synonym instant = int
type_synonym uid = nat
  \<comment> \<open>a UUID; only equality and the order of its text are ever used\<close>

section \<open>Characters and strings\<close>

definition char_code :: "char \<Rightarrow> nat" where
  "char_code c = of_char c"

definition lower_char :: "char \<Rightarrow> char" where
  "lower_char c = (if 65 \<le> char_code c \<and> char_code c \<le> 90 then char_of (char_code c + 32) else c)"

definition upper_char :: "char \<Rightarrow> char" where
  "upper_char c = (if 97 \<le> char_code c \<and> char_code c \<le> 122 then char_of (char_code c - 32) else c)"

definition lower :: "string \<Rightarrow> string" where
  "lower s = map lower_char s"

definition upper :: "string \<Rightarrow> string" where
  "upper s = map upper_char s"

definition is_space :: "char \<Rightarrow> bool" where
  "is_space c \<longleftrightarrow> char_code c = 32 \<or> (9 \<le> char_code c \<and> char_code c \<le> 13) \<or>
     (28 \<le> char_code c \<and> char_code c \<le> 31)"

definition is_digit :: "char \<Rightarrow> bool" where
  "is_digit c \<longleftrightarrow> 48 \<le> char_code c \<and> char_code c \<le> 57"

definition lstrip :: "string \<Rightarrow> string" where
  "lstrip s = dropWhile is_space s"

definition rstrip :: "string \<Rightarrow> string" where
  "rstrip s = rev (dropWhile is_space (rev s))"

definition strip :: "string \<Rightarrow> string" where
  "strip s = rstrip (lstrip s)"

definition rstrip_char :: "char \<Rightarrow> string \<Rightarrow> string" where
  "rstrip_char c s = rev (dropWhile (\<lambda>d. d = c) (rev s))"

fun contains :: "string \<Rightarrow> string \<Rightarrow> bool" where
  "contains pat [] = (pat = [])"
| "contains pat (c # s) = (prefix pat (c # s) \<or> contains pat s)"

fun split_on :: "char \<Rightarrow> string \<Rightarrow> string list" where
  "split_on c [] = [[]]"
| "split_on c (d # s) =
     (if d = c then [] # split_on c s
      else (case split_on c s of [] \<Rightarrow> [[d]] | w # ws \<Rightarrow> (d # w) # ws))"

text \<open>\<open>s.split(c, 1)[0]\<close>, \<open>s.split(c, 1)[-1]\<close> and \<open>s.rsplit(c, 1)[-1]\<close>.\<close>

definition before_first :: "char \<Rightarrow> string \<Rightarrow> string" where
  "before_first c s = takeWhile (\<lambda>d. d \<noteq> c) s"

definition after_first :: "char \<Rightarrow> string \<Rightarrow> string" where
  "after_first c s = (if c \<in> set s then tl (dropWhile (\<lambda>d. d \<noteq> c) s) else s)"

definition after_last :: "char \<Rightarrow> string \<Rightarrow> string" where
  "after_last c s = rev (takeWhile (\<lambda>d. d \<noteq> c) (rev s))"

text \<open>\<open>s.split("://", 1)[1] if "://" in s else s\<close>.\<close>

fun after_scheme :: "string \<Rightarrow> string option" where
  "after_scheme [] = None"
| "after_scheme (c # s) =
     (if prefix ''://'' (c # s) then Some (drop 3 (c # s)) else after_scheme s)"

text \<open>\<open>int(s)\<close> on a string: \<open>None\<close> where Python raises \<open>ValueError\<close>.\<close>

fun parse_digits :: "bool \<Rightarrow> nat \<Rightarrow> string \<Rightarrow> nat option" where
  "parse_digits seen acc [] = (if seen then Some acc else None)"
| "parse_digits seen acc (c # cs) =
     (if is_digit c then parse_digits True (10 * acc + (char_code c - 48)) cs
      else if c = CHR ''_'' \<and> seen then parse_digits False acc cs
      else None)"

definition parse_int :: "string \<Rightarrow> int option" where
  "parse_int s =
     (case strip s of
        [] \<Rightarrow> None
      | c # cs \<Rightarrow>
          (if c = CHR ''-'' then map_option (\<lambda>n. - int n) (parse_digits False 0 cs)
           else if c = CHR ''+'' then map_option int (parse_digits False 0 cs)
           else map_option int (parse_digits False 0 (c # cs))))"

text \<open>\<open>str(n)\<close> of a natural number.\<close>

definition digit_char :: "nat \<Rightarrow> char" where
  "digit_char n = char_of (48 + n)"

fun show_nat :: "nat \<Rightarrow> string" where
  "show_nat n = (if n < 10 then [digit_char n] else show_nat (n div 10) @ [digit_char (n mod 10)])"

declare show_nat.simps [simp del]

text \<open>Python's \<open>"".join\<close> with a separator.\<close>

fun join :: "string \<Rightarrow> string list \<Rightarrow> string" where
  "join sep [] = []"
| "join sep [x] = x"
| "join sep (x # y # xs) = x @ sep @ join sep (y # xs)"

subsection \<open>Lemmas on strings\<close>

lemma char_code_less: "char_code c < 256"
  by (simp add: char_code_def)

lemma char_code_char_of: "n < 256 \<Longrightarrow> char_code (char_of n) = n"
  by (simp add: char_code_def of_char_of take_bit_eq_mod)

lemma length_lower [simp]: "length (lower s) = length s"
  by (simp add: lower_def)

lemma lower_Nil [simp]: "lower [] = []"
  by (simp add: lower_def)

lemma upper_Nil [simp]: "upper [] = []"
  by (simp add: upper_def)

lemma lower_append [simp]: "lower (s @ t) = lower s @ lower t"
  by (simp add: lower_def)

lemma lower_eq_Nil [simp]: "(lower s = []) = (s = [])"
  by (simp add: lower_def)

lemma lower_char_idem [simp]: "lower_char (lower_char c) = lower_char c"
  by (auto simp: lower_char_def char_code_char_of)

lemma lower_idem [simp]: "lower (lower s) = lower s"
  by (simp add: lower_def)

lemma lower_char_upper_char [simp]: "lower_char (upper_char c) = lower_char c"
proof (cases "97 \<le> char_code c \<and> char_code c \<le> 122")
  case True
  then have "char_code c - 32 < 256" by linarith
  with True have "char_code (upper_char c) = char_code c - 32"
    by (simp only: upper_char_def if_True simp_thms char_code_char_of)
  moreover from True have "65 \<le> char_code c - 32 \<and> char_code c - 32 \<le> 90"
    and "char_code c - 32 + 32 = char_code c" by linarith+
  ultimately have "lower_char (upper_char c) = char_of (char_code c)"
    by (simp only: lower_char_def if_True simp_thms)
  also have "\<dots> = c" by (simp add: char_code_def)
  finally show ?thesis using True by (simp add: lower_char_def)
next
  case False
  then show ?thesis by (auto simp: upper_char_def)
qed

lemma lower_upper [simp]: "lower (upper s) = lower s"
  by (simp add: lower_def upper_def)

lemma contains_iff_sublist: "contains pat s \<longleftrightarrow> sublist pat s"
proof (induction s)
  case Nil
  show ?case by auto
next
  case (Cons c s)
  then show ?case by (auto simp: sublist_Cons_right)
qed

lemma contains_Nil [simp]: "contains [] s"
  by (cases s) auto

lemma contains_append: "contains pat s \<Longrightarrow> contains pat (t @ s @ u)"
  by (simp add: contains_iff_sublist sublist_appendI sublist_order.order_trans[of pat s])

lemma lower_sublist: "sublist p s \<Longrightarrow> sublist (lower p) (lower s)"
proof -
  assume "sublist p s"
  then obtain u v where "s = u @ p @ v" by (auto simp: sublist_def)
  then have "lower s = lower u @ lower p @ lower v" by (simp add: lower_def)
  then show ?thesis by (auto simp: sublist_def)
qed

lemma split_on_neq_Nil [simp]: "split_on c s \<noteq> []"
  by (induction s) (auto split: list.splits)

lemma split_on_notin: "c \<notin> set s \<Longrightarrow> split_on c s = [s]"
  by (induction s) auto

lemma split_on_append: "c \<notin> set s \<Longrightarrow> split_on c (s @ c # t) = s # split_on c t"
  by (induction s) auto

subsection \<open>Reading back a printed number\<close>

lemma digit_char_digit: "n < 10 \<Longrightarrow> is_digit (digit_char n) \<and> char_code (digit_char n) = 48 + n"
  by (simp add: is_digit_def digit_char_def char_code_char_of)

lemma show_nat_induct [case_names small large]:
  assumes "\<And>n. n < 10 \<Longrightarrow> P n" and "\<And>n. 10 \<le> n \<Longrightarrow> P (n div 10) \<Longrightarrow> P n"
  shows "P (n::nat)"
proof (induction n rule: less_induct)
  case (less n)
  show ?case
  proof (cases "n < 10")
    case False
    then have "P (n div 10)" using less by simp
    with False show ?thesis by (simp add: assms(2))
  qed (simp add: assms(1))
qed

lemma show_nat_digits: "\<forall>c \<in> set (show_nat n). is_digit c"
proof (induction n rule: show_nat_induct)
  case (small n)
  then show ?case by (simp add: show_nat.simps[of n] digit_char_digit)
next
  case (large n)
  then show ?case by (simp add: show_nat.simps[of n] digit_char_digit)
qed

lemma show_nat_nonempty [simp]: "show_nat n \<noteq> []"
  by (subst show_nat.simps) simp

lemma parse_digits_append:
  "\<forall>c \<in> set s. is_digit c \<Longrightarrow> s \<noteq> [] \<Longrightarrow>
   parse_digits b a (s @ t) = parse_digits True (the (parse_digits b a s)) t"
proof (induction s arbitrary: b a)
  case (Cons c s)
  then show ?case by (cases "s = []") auto
qed simp

lemma parse_digits_show_nat: "parse_digits b 0 (show_nat n) = Some n"
proof (induction n arbitrary: b rule: show_nat_induct)
  case (small n)
  then show ?case by (simp add: show_nat.simps[of n] digit_char_digit)
next
  case (large n)
  have "parse_digits b 0 (show_nat n) = parse_digits True (n div 10) [digit_char (n mod 10)]"
    using large by (simp add: show_nat.simps[of n] parse_digits_append show_nat_digits)
  then show ?case by (simp add: digit_char_digit)
qed

lemma is_digit_not_space: "is_digit c \<Longrightarrow> \<not> is_space c"
  by (auto simp: is_digit_def is_space_def)

lemma strip_digits: "\<forall>c \<in> set s. is_digit c \<Longrightarrow> strip s = s"
proof -
  assume d: "\<forall>c \<in> set s. is_digit c"
  then have "dropWhile is_space s = s" and "dropWhile is_space (rev s) = rev s"
    by (cases s, auto simp: is_digit_not_space) (cases "rev s"; auto simp: is_digit_not_space)+
  then show ?thesis by (simp add: strip_def lstrip_def rstrip_def)
qed

lemma not_digit_signs [simp]:
  "\<not> is_digit (CHR ''-'')" "\<not> is_digit (CHR ''+'')" "\<not> is_digit (CHR ''/'')" "\<not> is_digit (CHR ''%'')"
  by (simp_all add: is_digit_def char_code_def)

lemma parse_int_show_nat [simp]: "parse_int (show_nat n) = Some (int n)"
proof -
  obtain c cs where s: "show_nat n = c # cs"
    by (cases "show_nat n") auto
  have "is_digit c" using show_nat_digits[of n] s by simp
  moreover have "strip (show_nat n) = show_nat n"
    by (simp add: strip_digits show_nat_digits)
  ultimately show ?thesis
    using s parse_digits_show_nat[of False n] by (auto simp: parse_int_def)
qed

lemma show_nat_inj: "show_nat n = show_nat m \<Longrightarrow> n = m"
  by (metis parse_int_show_nat option.inject of_nat_eq_iff)

lemma slash_notin_show_nat [simp]: "CHR ''/'' \<notin> set (show_nat n)"
  using show_nat_digits[of n] by auto

section \<open>Lists and maps\<close>

lemma filter_partition_perm:
  "mset (filter P xs) + mset (filter (\<lambda>x. \<not> P x) xs) = mset xs"
  by (induction xs) auto

text \<open>\<open>next((x for x in xs if p(x)), None)\<close>: the first hit of a scan.\<close>

lemma find_Some_in: "find p xs = Some x \<Longrightarrow> x \<in> set xs \<and> p x"
  by (auto simp: find_Some_iff)

lemma find_first_hit:
  "find p xs = Some x \<Longrightarrow> \<exists>ys zs. xs = ys @ x # zs \<and> p x \<and> (\<forall>y \<in> set ys. \<not> p y)"
proof (induction xs)
  case (Cons a xs)
  show ?case
  proof (cases "p a")
    case True
    with Cons.prems have "a # xs = [] @ x # xs \<and> p x" by simp
    then show ?thesis by fastforce
  next
    case False
    with Cons obtain ys zs where "xs = ys @ x # zs" "p x" "\<forall>y \<in> set ys. \<not> p y" by auto
    with False have "a # xs = (a # ys) @ x # zs \<and> p x \<and> (\<forall>y \<in> set (a # ys). \<not> p y)" by simp
    then show ?thesis by blast
  qed
qed simp

lemma find_append: "find p (xs @ ys) = (case find p xs of None \<Rightarrow> find p ys | Some x \<Rightarrow> Some x)"
  by (induction xs) auto

section \<open>Tables\<close>

text \<open>A table is the list of its rows in insertion order; \<open>key\<close> reads a row's primary key.
  \<open>get_row\<close> is \<open>session.get\<close>, \<open>upd_row\<close> the assignment to attributes of a loaded row,
  \<open>del_row\<close> the deletion of a row.\<close>

definition get_row :: "('r \<Rightarrow> 'k) \<Rightarrow> 'k \<Rightarrow> 'r list \<Rightarrow> 'r option" where
  "get_row key i rows = find (\<lambda>r. key r = i) rows"

definition upd_row :: "('r \<Rightarrow> 'k) \<Rightarrow> 'k \<Rightarrow> ('r \<Rightarrow> 'r) \<Rightarrow> 'r list \<Rightarrow> 'r list" where
  "upd_row key i f rows = map (\<lambda>r. if key r = i then f r else r) rows"

definition del_row :: "('r \<Rightarrow> 'k) \<Rightarrow> 'k \<Rightarrow> 'r list \<Rightarrow> 'r list" where
  "del_row key i rows = filter (\<lambda>r. key r \<noteq> i) rows"

lemma get_row_Nil [simp]: "get_row key i [] = None"
  by (simp add: get_row_def)

lemma get_row_Cons [simp]:
  "get_row key i (r # rows) = (if key r = i then Some r else get_row key i rows)"
  by (simp add: get_row_def)

lemma get_row_Some: "get_row key i rows = Some r \<Longrightarrow> r \<in> set rows \<and> key r = i"
  unfolding get_row_def by (rule find_Some_in)

lemma get_row_None_iff: "get_row key i rows = None \<longleftrightarrow> i \<notin> key ` set rows"
  by (auto simp: get_row_def find_None_iff)

lemma get_row_append:
  "get_row key i (rows @ rows') =
   (case get_row key i rows of None \<Rightarrow> get_row key i rows' | Some r \<Rightarrow> Some r)"
  by (simp add: get_row_def find_append split: option.split)

lemma get_upd_row [simp]:
  assumes "\<And>r. key (f r) = key r"
  shows "get_row key j (upd_row key i f rows) =
    (if j = i then map_option f (get_row key j rows) else get_row key j rows)"
  by (induction rows) (auto simp: upd_row_def assms)

lemma get_del_row [simp]:
  "get_row key j (del_row key i rows) = (if j = i then None else get_row key j rows)"
  by (induction rows) (auto simp: del_row_def)

lemma keys_upd_row [simp]: "(\<And>r. key (f r) = key r) \<Longrightarrow> map key (upd_row key i f rows) = map key rows"
  by (induction rows) (auto simp: upd_row_def)

lemma set_upd_row:
  "set (upd_row key i f rows) = {if key r = i then f r else r | r. r \<in> set rows}"
  by (auto simp: upd_row_def)

lemma set_del_row: "set (del_row key i rows) = {r \<in> set rows. key r \<noteq> i}"
  by (auto simp: del_row_def)

lemma get_row_in: "distinct (map key rows) \<Longrightarrow> r \<in> set rows \<Longrightarrow> get_row key (key r) rows = Some r"
  by (induction rows) auto

lemma distinct_upd_row:
  assumes "distinct (map g rows)" "distinct (map key rows)" "get_row key i rows = Some t"
    and "g (f t) = g t \<or> g (f t) \<notin> g ` set rows"
  shows "distinct (map g (upd_row key i f rows))"
  using assms
proof (induction rows)
  case (Cons r rows)
  show ?case
  proof (cases "key r = i")
    case True
    with Cons.prems(2) have "i \<notin> key ` set rows" by simp
    then have "x \<in> set rows \<Longrightarrow> key x \<noteq> i" for x by blast
    then have "upd_row key i f rows = rows" unfolding upd_row_def by (intro map_idI) simp
    with True Cons.prems show ?thesis by (auto simp: upd_row_def)
  next
    case False
    with Cons have d: "distinct (map g (upd_row key i f rows))" by auto
    have "t \<in> set rows" using False Cons.prems(3) get_row_Some[of key i rows t] by auto
    moreover have "x \<in> set rows \<Longrightarrow> key x = i \<Longrightarrow> x = t" for x
      using False Cons.prems(2,3) get_row_in[of key rows x] by auto
    ultimately have "g r \<notin> g ` set (upd_row key i f rows)"
      using Cons.prems(1,4) by (auto simp: set_upd_row)
    moreover have "upd_row key i f (r # rows) = r # upd_row key i f rows"
      using False by (simp add: upd_row_def)
    ultimately show ?thesis using d by simp
  qed
qed simp

end
