(* ===== verification/Py_Value.thy ===== *)
theory Py_Value
  imports Eksir_Prelude
begin

text \<open>
  Python values and the exceptions the modelled code raises or catches. A JSON document (the raw
  payload of an alert, the fields of a normalized alert, a threat-intel summary) is a \<open>pyval\<close>;
  a dictionary is an association list whose first entry for a key is its value, so \<open>d.get(k)\<close>
  is a lookup that gives \<open>PyNone\<close> for an absent key. Each operation that can raise returns a
  sum, the exception on the left.
\<close>

datatype py_exc = ValueError | TypeError | KeyError | AttributeError | RuntimeError string

datatype pyval =
    PyNone
  | PyBool bool
  | PyInt int
  | PyFloat rat
  | PyStr string
  | PyList "pyval list"
  | PyDict "(string \<times> pyval) list"

type_synonym pydict = "string \<Rightarrow> pyval option"
  \<comment> \<open>a dictionary read through \<open>get\<close> only\<close>

text \<open>Truth value testing: \<open>bool(v)\<close>, \<open>v or w\<close>, \<open>if v\<close>.\<close>

fun truthy :: "pyval \<Rightarrow> bool" where
  "truthy PyNone = False"
| "truthy (PyBool b) = b"
| "truthy (PyInt n) = (n \<noteq> 0)"
| "truthy (PyFloat x) = (x \<noteq> 0)"
| "truthy (PyStr s) = (s \<noteq> [])"
| "truthy (PyList xs) = (xs \<noteq> [])"
| "truthy (PyDict d) = (d \<noteq> [])"

definition py_or :: "pyval \<Rightarrow> pyval \<Rightarrow> pyval" where
  "py_or v w = (if truthy v then v else w)"

definition get :: "pydict \<Rightarrow> string \<Rightarrow> pyval" where
  "get d k = (case d k of None \<Rightarrow> PyNone | Some v \<Rightarrow> v)"

text \<open>Truncation towards zero, as \<open>int(x)\<close> of a float does.\<close>

definition trunc_rat :: "rat \<Rightarrow> int" where
  "trunc_rat x = (if 0 \<le> x then \<lfloor>x\<rfloor> else \<lceil>x\<rceil>)"

fun py_int :: "pyval \<Rightarrow> py_exc + int" where
  "py_int PyNone = Inl TypeError"
| "py_int (PyBool b) = Inr (if b then 1 else 0)"
| "py_int (PyInt n) = Inr n"
| "py_int (PyFloat x) = Inr (trunc_rat x)"
| "py_int (PyStr s) = (case parse_int s of None \<Rightarrow> Inl ValueError | Some n \<Rightarrow> Inr n)"
| "py_int (PyList _) = Inl TypeError"
| "py_int (PyDict _) = Inl TypeError"

text \<open>\<open>round(x)\<close> to an integer: to the nearest, ties to the even one.\<close>

definition py_round :: "'a::floor_ceiling \<Rightarrow> int" where
  "py_round x =
     (let f = \<lfloor>x\<rfloor>; d = x - of_int f
      in if d < 1/2 then f else if d > 1/2 then f + 1 else if even f then f else f + 1)"

definition py_round_digits :: "nat \<Rightarrow> 'a::floor_ceiling \<Rightarrow> 'a" where
  "py_round_digits k x = of_int (py_round (x * 10 ^ k)) / 10 ^ k"

text \<open>A value that must be a string to be used, \<open>v if isinstance(v, str) else ""\<close>.\<close>

fun str_or_empty :: "pyval \<Rightarrow> string" where
  "str_or_empty (PyStr s) = s"
| "str_or_empty _ = []"

definition opt_str :: "string option \<Rightarrow> string" where
  "opt_str s = (case s of None \<Rightarrow> [] | Some t \<Rightarrow> t)"
  \<comment> \<open>\<open>s or ""\<close> on a string that may be \<open>None\<close>\<close>

definition truthy_str :: "string option \<Rightarrow> bool" where
  "truthy_str s \<longleftrightarrow> (case s of None \<Rightarrow> False | Some t \<Rightarrow> t \<noteq> [])"

lemma opt_str_simps [simp]: "opt_str None = []" "opt_str (Some s) = s"
  by (simp_all add: opt_str_def)

lemma truthy_str_simps [simp]: "\<not> truthy_str None" "truthy_str (Some s) = (s \<noteq> [])"
  by (simp_all add: truthy_str_def)

lemma trunc_rat_of_int [simp]: "trunc_rat (of_int n) = n"
  by (simp add: trunc_rat_def)

lemma trunc_rat_nonneg: "0 \<le> x \<Longrightarrow> 0 \<le> trunc_rat x"
  by (simp add: trunc_rat_def)

lemma py_round_of_int [simp]: "py_round (of_int n) = n"
  by (simp add: py_round_def Let_def)

lemma py_round_bounds: "\<lfloor>x\<rfloor> \<le> py_round x \<and> py_round x \<le> \<lfloor>x\<rfloor> + 1"
  by (simp add: py_round_def Let_def)

lemma py_round_le:
  assumes "x \<le> of_int n" shows "py_round x \<le> n"
proof (cases "\<lfloor>x\<rfloor> = n")
  case True
  with assms have "x = of_int n" by (metis le_floor_iff order_antisym order_refl)
  then show ?thesis by simp
next
  case False
  moreover from assms have "\<lfloor>x\<rfloor> \<le> n" by (simp add: floor_le_iff)
  ultimately show ?thesis using py_round_bounds[of x] by linarith
qed

lemma py_round_ge: "of_int n \<le> x \<Longrightarrow> n \<le> py_round x"
  using py_round_bounds[of x] le_floor_iff[of n x] by linarith

lemma py_round_mono:
  assumes "x \<le> y" shows "py_round x \<le> py_round y"
proof (cases "\<lfloor>x\<rfloor> = \<lfloor>y\<rfloor>")
  case True
  with assms show ?thesis by (auto simp: py_round_def Let_def)
next
  case False
  with assms have "\<lfloor>x\<rfloor> + 1 \<le> \<lfloor>y\<rfloor>" using floor_mono[of x y] by linarith
  then show ?thesis using py_round_bounds[of x] py_round_bounds[of y] by linarith
qed

section \<open>Errors and requests\<close>

text \<open>Python's exception monad, written out where the code chains calls that can raise.\<close>

definition and_then :: "'e + 'a \<Rightarrow> ('a \<Rightarrow> 'e + 'b) \<Rightarrow> 'e + 'b" where
  "and_then r f = (case r of Inl e \<Rightarrow> Inl e | Inr x \<Rightarrow> f x)"

lemma and_then_simps [simp]: "and_then (Inl e) f = Inl e" "and_then (Inr x) f = f x"
  by (simp_all add: and_then_def)

lemma and_then_Inr: "and_then r f = Inr y \<longleftrightarrow> (\<exists>x. r = Inr x \<and> f x = Inr y)"
  by (cases r) auto

text \<open>A request handler runs inside the transaction of \<open>db/session.py\<close>, \<open>get_session\<close>: it
  commits when the handler returns and rolls back when it raises. A handler is therefore a function
  to the state after the request has been settled, paired with the HTTP error raised or the reply;
  \<open>raise_http\<close> is the raise that rolls back, \<open>reply\<close> the normal return, and the one pattern
  that commits before it raises is \<open>commit_then_raise\<close>.\<close>

datatype http_error = HTTP nat

type_synonym ('db, 'a) handled = "'db \<times> (http_error + 'a)"

definition raise_http :: "'db \<Rightarrow> nat \<Rightarrow> ('db, 'a) handled" where
  "raise_http db code = (db, Inl (HTTP code))"

definition reply :: "'db \<Rightarrow> 'a \<Rightarrow> ('db, 'a) handled" where
  "reply db x = (db, Inr x)"

definition commit_then_raise :: "'db \<Rightarrow> nat \<Rightarrow> ('db, 'a) handled" where
  "commit_then_raise db code = (db, Inl (HTTP code))"

lemmas handled_defs = raise_http_def reply_def commit_then_raise_def

end
