(* ===== verification/Rule_Engine.thy ===== *)
theory Rule_Engine
  imports Py_Value
begin

text \<open>
  The interface every first-match scan of the code shares: a list of rules tried in order, a test
  that may raise, and the result of the first rule that fires. The locale states the two laws such
  a scan obeys and proves once what its clients need: the rule found is the first that fires, no
  earlier rule raised, and rules appended at the end never change a hit. The scans of the code
  (auto-close rules, sensitive keywords, network and domain exclusions) are interpretations of it.
\<close>

locale rule_engine =
  fixes fires :: "'r \<Rightarrow> 'e + bool"
    and result :: "'r \<Rightarrow> 'e + 'res"
    and run :: "'r list \<Rightarrow> 'e + 'res option"
  assumes run_Nil: "run [] = Inr None"
    and run_Cons: "run (r # rs) =
      and_then (fires r) (\<lambda>b. if b then and_then (result r) (\<lambda>x. Inr (Some x)) else run rs)"
begin

lemma run_append:
  "run (rs @ qs) = and_then (run rs) (\<lambda>h. case h of None \<Rightarrow> run qs | Some x \<Rightarrow> Inr (Some x))"
proof (induction rs)
  case Nil
  show ?case by (simp add: run_Nil)
next
  case (Cons r rs)
  then show ?case by (cases "fires r"; cases "result r") (auto simp: run_Cons)
qed

lemma run_hit:
  assumes "run rs = Inr (Some x)"
  obtains pre r post where "rs = pre @ r # post" "\<forall>q \<in> set pre. fires q = Inr False"
    "fires r = Inr True" "result r = Inr x"
  using assms
proof (induction rs arbitrary: thesis)
  case Nil
  then show ?case by (simp add: run_Nil)
next
  case (Cons r rs)
  show ?case
  proof (cases "fires r = Inr True")
    case True
    with Cons.prems(2) have "result r = Inr x" by (simp add: run_Cons and_then_Inr)
    with True show ?thesis using Cons.prems(1)[of "[]" r rs] by simp
  next
    case False
    with Cons.prems(2) have f: "fires r = Inr False" and "run rs = Inr (Some x)"
      by (auto simp: run_Cons and_then_Inr split: if_splits)
    then obtain pre q post where "rs = pre @ q # post" "\<forall>p \<in> set pre. fires p = Inr False"
      "fires q = Inr True" "result q = Inr x" using Cons.IH by blast
    with f show ?thesis using Cons.prems(1)[of "r # pre" q post] by simp
  qed
qed

lemma run_None_iff: "run rs = Inr None \<longleftrightarrow> (\<forall>r \<in> set rs. fires r = Inr False)"
proof (induction rs)
  case Nil
  show ?case by (simp add: run_Nil)
next
  case (Cons r rs)
  then show ?case
    by (cases "fires r"; cases "result r") (auto simp: run_Cons)
qed

lemma run_skip: "\<forall>q \<in> set pre. fires q = Inr False \<Longrightarrow> run (pre @ rs) = run rs"
  by (simp add: run_append run_None_iff[THEN iffD2])

lemma run_first:
  "fires r = Inr True \<Longrightarrow> result r = Inr x \<Longrightarrow> \<forall>q \<in> set pre. fires q = Inr False \<Longrightarrow>
   run (pre @ r # post) = Inr (Some x)"
  by (simp add: run_skip run_Cons)

lemma run_stable: "run rs = Inr (Some x) \<Longrightarrow> run (rs @ qs) = Inr (Some x)"
  by (simp add: run_append)

lemma run_hit_in:
  assumes "run rs = Inr (Some x)"
  shows "\<exists>r \<in> set rs. fires r = Inr True \<and> result r = Inr x"
  using assms by (rule run_hit) auto

end

end
