(* ===== verification/Sensitive.thy ===== *)
theory Sensitive
  imports Rule_Engine
begin

text \<open>
  \<open>pipeline/sensitive_rules.py\<close>: the keywords that force an alert through the deep model, and the
  scan that looks for one of them in the alert's names and description.
\<close>

definition sensitive_keywords :: "string list" where
  "sensitive_keywords =
    [''admin login'', ''administrator login'', ''root login'', ''privileged login'',
     ''privilege escalation'', ''elevation of privilege'', ''suspicious login'',
     ''anomalous login'', ''after-hours login'', ''off-hours login'', ''brute force'',
     ''credential dump'', ''credential theft'', ''credential harvest'', ''lsass'', ''mimikatz'',
     ''secretsdump'',
     ''lateral movement'', ''psexec'', ''wmic exec'', ''wmi exec'', ''pass the hash'',
     ''pass-the-hash'', ''pass the ticket'', ''pass-the-ticket'', ''golden ticket'',
     ''silver ticket'', ''kerberoast'',
     ''exfiltration'', ''data leak'', ''dlp violation'',
     ''ransomware'', ''shadow copy delet'', ''vssadmin delete'', ''wiper'', ''destructive'',
     ''persistence'', ''scheduled task creation'', ''service install'', ''registry persistence'',
     ''startup folder'',
     ''disable defender'', ''disable av'', ''amsi bypass'', ''etw bypass'', ''tamper protection'',
     ''command and control'', ''c2 beacon'',
     ''sql injection'', ''command injection'', ''rce'', ''remote code execution'', ''deserializ'',
     ''webshell'', ''web shell'']"

fun text_of :: "pyval \<Rightarrow> string option" where
  "text_of (PyStr s) = Some s"
| "text_of _ = None"

definition haystack :: "pyval list \<Rightarrow> string" where
  "haystack texts = strip (join '' '' (map lower (List.map_filter text_of texts)))"

fun first_keyword :: "string \<Rightarrow> string list \<Rightarrow> string option" where
  "first_keyword hay [] = None"
| "first_keyword hay (kw # kws) = (if contains kw hay then Some kw else first_keyword hay kws)"

definition is_sensitive :: "pyval list \<Rightarrow> bool \<times> string option" where
  "is_sensitive texts =
     (let hay = haystack texts
      in if hay = [] then (False, None)
         else case first_keyword hay sensitive_keywords of
                None \<Rightarrow> (False, None)
              | Some kw \<Rightarrow> (True, Some kw))"

text \<open>The scan of the keywords is a rule engine whose test never raises.\<close>

interpretation kw: rule_engine "\<lambda>k. Inr (contains k hay)" "\<lambda>k. Inr k"
    "\<lambda>ks. Inr (first_keyword hay ks) :: py_exc + string option" for hay
  by unfold_locales auto

section \<open>Stripping keeps a keyword\<close>

lemma dropWhile_keeps_sublist:
  "p \<noteq> [] \<Longrightarrow> \<not> P (hd p) \<Longrightarrow> sublist p s \<Longrightarrow> sublist p (dropWhile P s)"
proof (induction s)
  case (Cons c s)
  show ?case
  proof (cases "P c")
    case True
    have "\<not> prefix p (c # s)" using Cons.prems True by (cases p) auto
    with Cons.prems have "sublist p s" by (simp add: sublist_Cons_right)
    with Cons True show ?thesis by simp
  qed (use Cons.prems in simp)
qed simp

lemma sublist_strip:
  assumes "p \<noteq> []" "\<not> is_space (hd p)" "\<not> is_space (last p)" "sublist p s"
  shows "sublist p (strip s)"
proof -
  have l: "sublist p (lstrip s)"
    unfolding lstrip_def using assms by (intro dropWhile_keeps_sublist) auto
  then have "sublist (rev p) (rev (lstrip s))" by simp
  then have "sublist (rev p) (dropWhile is_space (rev (lstrip s)))"
    using assms by (intro dropWhile_keeps_sublist) (auto simp: hd_rev)
  then show ?thesis
    unfolding strip_def rstrip_def by (metis rev_rev_ident sublist_rev)
qed

lemma sublist_join: "t \<in> set ts \<Longrightarrow> sublist t (join sep ts)"
proof (induction sep ts rule: join.induct)
  case (3 sep x y xs)
  show ?case
  proof (cases "t = x")
    case True
    then show ?thesis by (simp add: sublist_def) (metis append_Nil)
  next
    case False
    with 3 have "sublist t (join sep (y # xs))" by simp
    then obtain u v where "join sep (y # xs) = u @ t @ v" by (auto simp: sublist_def)
    then have "join sep (x # y # xs) = (x @ sep @ u) @ t @ v" by simp
    then show ?thesis by (metis sublist_def)
  qed
qed auto

lemma keywords_trimmed:
  "\<forall>kw \<in> set sensitive_keywords. kw \<noteq> [] \<and> \<not> is_space (hd kw) \<and> \<not> is_space (last kw) \<and> lower kw = kw"
  by code_simp

lemma haystack_contains:
  assumes "PyStr t \<in> set texts" "kw \<in> set sensitive_keywords" "contains kw (lower t)"
  shows "contains kw (haystack texts)"
proof -
  have "lower t \<in> set (map lower (List.map_filter text_of texts))"
    using assms(1) by (force simp: List.map_filter_def)
  then have "sublist (lower t) (join '' '' (map lower (List.map_filter text_of texts)))"
    by (rule sublist_join)
  then have "sublist kw (join '' '' (map lower (List.map_filter text_of texts)))"
    using assms(3) by (auto simp: contains_iff_sublist intro: sublist_order.order_trans)
  then show ?thesis
    using keywords_trimmed assms(2)
    by (auto simp: contains_iff_sublist haystack_def intro: sublist_strip)
qed

lemma is_sensitive_first:
  "is_sensitive texts = (True, Some kw) \<Longrightarrow>
   kw \<in> set sensitive_keywords \<and> contains kw (haystack texts)"
  using kw.run_hit_in[of "haystack texts" sensitive_keywords]
  by (auto simp: is_sensitive_def Let_def split: if_splits option.splits)

lemma is_sensitive_hit:
  assumes "kw \<in> set sensitive_keywords" "contains kw (haystack texts)"
  shows "fst (is_sensitive texts)"
proof -
  have "first_keyword (haystack texts) sensitive_keywords \<noteq> None"
    using kw.run_None_iff[of "haystack texts" sensitive_keywords] assms by auto
  moreover have "haystack texts \<noteq> []"
    using assms keywords_trimmed by (cases "haystack texts") auto
  ultimately show ?thesis by (auto simp: is_sensitive_def Let_def)
qed

text \<open>Whatever the case it is written in, and whatever surrounds it, a sensitive keyword in any
  of the texts of an alert (the rule name, the event name, the description) makes the alert
  sensitive; texts that are missing never hide it.\<close>

theorem sensitive_keyword_found:
  assumes "kw \<in> set sensitive_keywords" and "PyStr (pre @ text @ post) \<in> set texts"
    and "lower text = kw"
  shows "fst (is_sensitive texts)"
  using assms by (intro is_sensitive_hit[OF assms(1)] haystack_contains[of "pre @ text @ post"])
    (auto simp: contains_iff_sublist sublist_appendI)

theorem sensitive_keyword_found_witness:
  "fst (is_sensitive [PyNone, PyStr ''EDR: Mimikatz.exe'', PyNone])"
  by (rule sensitive_keyword_found[of "''mimikatz''" "''EDR: ''" "''Mimikatz''" "''.exe''"])
    (code_simp, simp, code_simp)

end
