(* ===== verification/Enums.thy ===== *)
theory Enums
  imports Py_Value
begin

text \<open>
  The string enumerations of \<open>db/enums.py\<close> as datatypes, with the text each member
  travels as (\<open>X_value\<close>) and the enumeration's constructor on text (\<open>X_of\<close>: \<open>None\<close>
  where Python raises \<open>ValueError\<close>). \<open>severity\<close> and \<open>confidence\<close> are ordered the way
  the code's ladders order them.
\<close>

datatype role = Admin | Analyst | Viewer

datatype tenant_tier = Host | Mssp | Client

datatype customer_case_status = Draft | Reviewed | Sent

datatype user_status = Active | Disabled

datatype case_status =
    Received
  | Parsed
  | Auto_Closed_Candidate
  | Enriching
  | Decided_Short_Circuit
  | Awaiting_Synthesis
  | Synthesized
  | Awaiting_Review
  | Awaiting_Signoff
  | Closed
  | Failed

datatype severity = Low | Medium | High | Critical

datatype verdict = TP | FP | Benign | Pending | Inconclusive

datatype confidence = CLow | CMedium | CHigh

datatype autonomy_decision = Auto | Review | Escalate

datatype blast_radius = BR_Read | BR_Low | BR_Med | BR_High | BR_Critical

datatype ioc_type = Ipv4 | Ipv6 | Sha256 | Md5 | Sha1 | Domain | Url | Email_Addr

datatype llm_status = LLM_Ok | LLM_Timeout | LLM_Error

section \<open>The text of a member\<close>

fun verdict_value :: "verdict \<Rightarrow> string" where
  "verdict_value TP = ''TP''"
| "verdict_value FP = ''FP''"
| "verdict_value Benign = ''benign''"
| "verdict_value Pending = ''pending''"
| "verdict_value Inconclusive = ''inconclusive''"

fun severity_value :: "severity \<Rightarrow> string" where
  "severity_value Low = ''low''"
| "severity_value Medium = ''medium''"
| "severity_value High = ''high''"
| "severity_value Critical = ''critical''"

fun confidence_value :: "confidence \<Rightarrow> string" where
  "confidence_value CLow = ''low''"
| "confidence_value CMedium = ''medium''"
| "confidence_value CHigh = ''high''"

fun ioc_type_value :: "ioc_type \<Rightarrow> string" where
  "ioc_type_value Ipv4 = ''ipv4''"
| "ioc_type_value Ipv6 = ''ipv6''"
| "ioc_type_value Sha256 = ''sha256''"
| "ioc_type_value Md5 = ''md5''"
| "ioc_type_value Sha1 = ''sha1''"
| "ioc_type_value Domain = ''domain''"
| "ioc_type_value Url = ''url''"
| "ioc_type_value Email_Addr = ''email''"

fun blast_radius_value :: "blast_radius \<Rightarrow> string" where
  "blast_radius_value BR_Read = ''read''"
| "blast_radius_value BR_Low = ''low''"
| "blast_radius_value BR_Med = ''med''"
| "blast_radius_value BR_High = ''high''"
| "blast_radius_value BR_Critical = ''critical''"

fun autonomy_value :: "autonomy_decision \<Rightarrow> string" where
  "autonomy_value Auto = ''auto''"
| "autonomy_value Review = ''review''"
| "autonomy_value Escalate = ''escalate''"

lemma lower_verdict_texts [simp]:
  "lower ''TP'' = ''tp''" "lower ''FP'' = ''fp''" "lower ''benign'' = ''benign''"
  "lower ''pending'' = ''pending''" "lower ''inconclusive'' = ''inconclusive''"
  "lower ''BENIGN'' = ''benign''" "upper ''TP'' = ''TP''" "upper ''FP'' = ''FP''"
  "upper ''benign'' = ''BENIGN''" "upper ''HIGH'' = ''HIGH''" "lower ''HIGH'' = ''high''"
  by code_simp+

section \<open>A member from its text\<close>

definition verdict_of :: "string \<Rightarrow> verdict option" where
  "verdict_of s = find (\<lambda>v. verdict_value v = s) [TP, FP, Benign, Pending, Inconclusive]"

definition severity_of :: "string \<Rightarrow> severity option" where
  "severity_of s = find (\<lambda>v. severity_value v = s) [Low, Medium, High, Critical]"

definition confidence_of :: "string \<Rightarrow> confidence option" where
  "confidence_of s = find (\<lambda>v. confidence_value v = s) [CLow, CMedium, CHigh]"

definition ioc_type_of :: "string \<Rightarrow> ioc_type option" where
  "ioc_type_of s =
     find (\<lambda>v. ioc_type_value v = s) [Ipv4, Ipv6, Sha256, Md5, Sha1, Domain, Url, Email_Addr]"

lemma verdict_of_value [simp]: "verdict_of (verdict_value v) = Some v"
  by (cases v) (simp_all add: verdict_of_def)

lemma severity_of_value [simp]: "severity_of (severity_value v) = Some v"
  by (cases v) (simp_all add: severity_of_def)

lemma confidence_of_value [simp]: "confidence_of (confidence_value v) = Some v"
  by (cases v) (simp_all add: confidence_of_def)

lemma ioc_type_of_value [simp]: "ioc_type_of (ioc_type_value v) = Some v"
  by (cases v) (simp_all add: ioc_type_of_def)

lemma ioc_type_value_inj: "ioc_type_value a = ioc_type_value b \<Longrightarrow> a = b"
  by (metis ioc_type_of_value option.inject)

section \<open>The ladders\<close>

fun severity_rank :: "severity \<Rightarrow> nat" where
  "severity_rank Low = 0"
| "severity_rank Medium = 1"
| "severity_rank High = 2"
| "severity_rank Critical = 3"

fun confidence_rank :: "confidence \<Rightarrow> nat" where
  "confidence_rank CLow = 0"
| "confidence_rank CMedium = 1"
| "confidence_rank CHigh = 2"

lemma severity_rank_inj: "severity_rank a = severity_rank b \<Longrightarrow> a = b"
  by (cases a; cases b) simp_all

lemma confidence_rank_inj: "confidence_rank a = confidence_rank b \<Longrightarrow> a = b"
  by (cases a; cases b) simp_all

instantiation severity :: linorder
begin

definition less_eq_severity :: "severity \<Rightarrow> severity \<Rightarrow> bool" where
  "less_eq_severity a b \<longleftrightarrow> severity_rank a \<le> severity_rank b"

definition less_severity :: "severity \<Rightarrow> severity \<Rightarrow> bool" where
  "less_severity a b \<longleftrightarrow> severity_rank a < severity_rank b"

instance
  by standard (auto simp: less_eq_severity_def less_severity_def dest: severity_rank_inj)

end

instantiation confidence :: linorder
begin

definition less_eq_confidence :: "confidence \<Rightarrow> confidence \<Rightarrow> bool" where
  "less_eq_confidence a b \<longleftrightarrow> confidence_rank a \<le> confidence_rank b"

definition less_confidence :: "confidence \<Rightarrow> confidence \<Rightarrow> bool" where
  "less_confidence a b \<longleftrightarrow> confidence_rank a < confidence_rank b"

instance
  by standard (auto simp: less_eq_confidence_def less_confidence_def dest: confidence_rank_inj)

end

end
