(* ===== verification/Retrieval.thy ===== *)
theory Retrieval
  imports Enums
begin

text \<open>
  Similar-case retrieval: the canonical customer id and the filters \<open>adapters/store_adapter.py\<close>
  puts around the vector store, the re-ranker of \<open>pipeline/rerank.py\<close>, and the n-way tally
  \<open>_compute_n_way\<close> of \<open>pipeline/orchestrator.py\<close>. The vector store itself is not code of
  this repository's back end: its answer (the list of hits) is an argument.
\<close>

text \<open>One retrieved prior alert: the keys of a hit that the code reads (\<open>None\<close>: absent or null).\<close>

record prior =
  p_alert_id :: "string option"
  p_rule_name :: "string option"
  p_verdict :: "string option"
  p_verdict_reason :: "string option"
  p_customer :: "string option"
  p_timestamp :: "instant option"
  p_human_verified :: bool
  p_cosine :: "rat option"
  p_score :: "rat option"
  p_adjusted :: "rat option"

record exact_match =
  em_alert_id :: "string option"
  em_verdict :: "string option"
  em_verdict_reason :: "string option"
  em_score :: "rat option"

record nway =
  nw_verdict :: "string option"
  nw_agreement :: "string option"
  nw_matches :: "prior list"

section \<open>Canonical customer\<close>

fun words_acc :: "string \<Rightarrow> string \<Rightarrow> string list" where
  "words_acc w [] = (if w = [] then [] else [w])"
| "words_acc w (c # s) =
     (if is_space c then (if w = [] then words_acc [] s else w # words_acc [] s)
      else words_acc (w @ [c]) s)"

definition words :: "string \<Rightarrow> string list" where
  "words s = words_acc [] s"

definition canonical_customer :: "string option \<Rightarrow> string option" where
  "canonical_customer c =
     (case c of
        None \<Rightarrow> None
      | Some s \<Rightarrow>
          if s = [] then None
          else (let u = upper (join '' '' (words s)) in if u = [] then None else Some u))"

section \<open>Filters around the vector store\<close>

definition similar_cosine_floor :: rat where
  "similar_cosine_floor = 55 / 100"

definition passes_cosine :: "rat \<Rightarrow> prior \<Rightarrow> bool" where
  "passes_cosine fl h = (case p_cosine h of None \<Rightarrow> False | Some c \<Rightarrow> fl \<le> c)"

definition search_similar :: "bool \<Rightarrow> prior list option \<Rightarrow> prior list" where
  \<comment> \<open>the embed-content test and the store's answer (\<open>None\<close>: it raised) are arguments\<close>
  "search_similar has_content hits =
     (if \<not> has_content then []
      else (case hits of None \<Rightarrow> [] | Some hs \<Rightarrow> filter (passes_cosine similar_cosine_floor) hs))"

definition find_exact_match ::
  "bool \<Rightarrow> prior list option \<Rightarrow> (string option \<Rightarrow> string) \<Rightarrow> string \<Rightarrow> exact_match option" where
  \<comment> \<open>\<open>clean\<close>: the rule-name normalizer; \<open>query_rule\<close>: the query's normalized name\<close>
  "find_exact_match has_content hits clean query_rule =
     (if \<not> has_content then None
      else (case hits of
          None \<Rightarrow> None
        | Some [] \<Rightarrow> None
        | Some (best # _) \<Rightarrow>
            if \<not> p_human_verified best then None
            else if lower (opt_str (p_verdict best)) \<notin> {''fp'', ''benign''} then None
            else if clean (p_rule_name best) \<noteq> query_rule then None
            else Some \<lparr>em_alert_id = p_alert_id best, em_verdict = p_verdict best,
                       em_verdict_reason = p_verdict_reason best,
                       em_score = Some (case p_cosine best of None \<Rightarrow> 0
                                        | Some c \<Rightarrow> py_round_digits 4 c)\<rparr>))"

lemma find_exact_match_trusted:
  assumes "find_exact_match hc hits clean q = Some e"
  shows "lower (opt_str (em_verdict e)) \<in> {''fp'', ''benign''} \<and>
    (\<exists>best rest. hits = Some (best # rest) \<and> p_human_verified best \<and> em_verdict e = p_verdict best \<and>
       clean (p_rule_name best) = q)"
  using assms by (auto simp: find_exact_match_def split: if_splits option.splits list.splits)

section \<open>Re-ranking\<close>

definition is_recent :: "instant option \<Rightarrow> instant \<Rightarrow> bool" where
  \<comment> \<open>\<open>(now - dt).days <= 90\<close>: whole days, rounded down\<close>
  "is_recent ts now = (case ts of None \<Rightarrow> False | Some t \<Rightarrow> (now - t) div 86400000000 \<le> 90)"

definition rank_bonus :: "instant \<Rightarrow> string option \<Rightarrow> prior \<Rightarrow> rat" where
  "rank_bonus now q_cust s =
     (if p_human_verified s then 5/100 else 0)
   + (if is_recent (p_timestamp s) now then 2/100 else 0)
   + (if 100 \<le> length (opt_str (p_verdict_reason s)) then 2/100 else 0)
   + (if upper (opt_str (p_verdict s)) = ''TP'' then - 1/100 else 0)
   + (case q_cust of
        None \<Rightarrow> 0
      | Some q \<Rightarrow> (case canonical_customer (p_customer s) of
            None \<Rightarrow> 0
          | Some m \<Rightarrow> if m \<noteq> q then - 15/100 else 0))"

definition rank_base :: "prior \<Rightarrow> rat" where
  "rank_base s =
     (case p_cosine s of Some c \<Rightarrow> c | None \<Rightarrow> (case p_score s of Some x \<Rightarrow> x | None \<Rightarrow> 0))"

definition adjusted_score :: "instant \<Rightarrow> string option \<Rightarrow> prior \<Rightarrow> rat" where
  "adjusted_score now q_cust s =
     py_round_digits 4 (max 0 (min 1 (rank_base s + rank_bonus now q_cust s)))"

definition rerank :: "instant \<Rightarrow> prior list \<Rightarrow> string option \<Rightarrow> prior list" where
  "rerank now similar customer =
     sort_key (\<lambda>s. - (case p_adjusted s of Some x \<Rightarrow> x | None \<Rightarrow> 0))
       (map (\<lambda>s. s\<lparr>p_adjusted := Some (adjusted_score now (canonical_customer customer) s)\<rparr>) similar)"

lemma adjusted_score_range: "0 \<le> adjusted_score now q s \<and> adjusted_score now q s \<le> 1"
proof -
  let ?x = "max 0 (min 1 (rank_base s + rank_bonus now q s))"
  have "0 \<le> ?x" "?x \<le> 1" by auto
  then have "of_int 0 \<le> ?x * 10 ^ 4" "?x * 10 ^ 4 \<le> of_int 10000" by simp_all
  then have "0 \<le> py_round (?x * 10 ^ 4)" "py_round (?x * 10 ^ 4) \<le> 10000"
    using py_round_ge[of 0] py_round_le[of _ 10000] by blast+
  then show ?thesis
    by (simp add: adjusted_score_def py_round_digits_def)
qed

lemma rerank_perm:
  "mset (rerank now similar c) =
   mset (map (\<lambda>s. s\<lparr>p_adjusted := Some (adjusted_score now (canonical_customer c) s)\<rparr>) similar)"
  by (simp add: rerank_def)

lemma set_rerank:
  "set (rerank now similar c) =
   (\<lambda>s. s\<lparr>p_adjusted := Some (adjusted_score now (canonical_customer c) s)\<rparr>) ` set similar"
  by (simp add: rerank_def)

section \<open>The n-way tally\<close>

definition n_way_populate_min :: nat where
  "n_way_populate_min = 3"

text \<open>\<open>counts[v] = counts.get(v, 0) + 1\<close> on a dictionary, which keeps insertion order.\<close>

fun bump_count :: "'k \<Rightarrow> ('k \<times> nat) list \<Rightarrow> ('k \<times> nat) list" where
  "bump_count k [] = [(k, 1)]"
| "bump_count k ((l, n) # cs) = (if k = l then (l, Suc n) # cs else (l, n) # bump_count k cs)"

definition tally :: "'k list \<Rightarrow> ('k \<times> nat) list" where
  "tally ks = fold bump_count ks []"

text \<open>\<open>max(items, key=...)\<close>: the first of the largest.\<close>

fun max_first :: "('a \<Rightarrow> nat) \<Rightarrow> 'a list \<Rightarrow> 'a option" where
  "max_first f [] = None"
| "max_first f (x # xs) =
     (case max_first f xs of None \<Rightarrow> Some x | Some y \<Rightarrow> if f y > f x then Some y else Some x)"

definition verified_priors :: "prior list \<Rightarrow> string option \<Rightarrow> prior list" where
  "verified_priors matches customer =
     filter (\<lambda>m. p_human_verified m \<and>
               canonical_customer (p_customer m) = canonical_customer customer) matches"

definition compute_n_way :: "prior list \<Rightarrow> string option \<Rightarrow> nat \<Rightarrow> nway option" where
  "compute_n_way matches customer min_agreement =
     (if matches = [] then None
      else
       (let verified = verified_priors matches customer in
        if length verified < min_agreement then None
        else
         (let counts = tally (filter (\<lambda>v. v \<noteq> []) (map (\<lambda>m. opt_str (p_verdict m)) verified)) in
          case max_first snd counts of
            None \<Rightarrow> None
          | Some (winner, cnt) \<Rightarrow>
              if cnt < min_agreement then None
              else Some \<lparr>nw_verdict = Some winner,
                         nw_agreement = Some (show_nat cnt @ ''/'' @ show_nat (length verified)),
                         nw_matches = filter (\<lambda>m. p_verdict m = Some winner) verified\<rparr>)))"

lemma map_of_bump_count:
  "map_of (bump_count k cs) l =
   (if l = k then Some (Suc (case map_of cs k of None \<Rightarrow> 0 | Some n \<Rightarrow> n)) else map_of cs l)"
  by (induction cs) auto

lemma map_of_fold_bump:
  "map_of (fold bump_count ks cs) l =
   (if l \<in> set ks then Some (count_list ks l + (case map_of cs l of None \<Rightarrow> 0 | Some n \<Rightarrow> n))
    else map_of cs l)"
  by (induction ks arbitrary: cs) (auto simp: map_of_bump_count)

lemma map_of_tally: "map_of (tally ks) k = (if k \<in> set ks then Some (count_list ks k) else None)"
  by (simp add: tally_def map_of_fold_bump)

lemma keys_bump_count: "fst ` set (bump_count k cs) = insert k (fst ` set cs)"
  by (induction k cs rule: bump_count.induct) (simp_all add: insert_commute)

lemma distinct_bump_count: "distinct (map fst cs) \<Longrightarrow> distinct (map fst (bump_count k cs))"
  by (induction k cs rule: bump_count.induct) (simp_all add: keys_bump_count)

lemma distinct_tally: "distinct (map fst (tally ks))"
proof -
  have "distinct (map fst cs) \<Longrightarrow> distinct (map fst (fold bump_count ks cs))" for cs
    by (induction ks arbitrary: cs) (auto simp: distinct_bump_count)
  then show ?thesis by (simp add: tally_def)
qed

lemma tally_count: "(k, n) \<in> set (tally ks) \<Longrightarrow> n = count_list ks k \<and> k \<in> set ks"
proof -
  assume "(k, n) \<in> set (tally ks)"
  with distinct_tally[of ks] have "map_of (tally ks) k = Some n" by (simp add: map_of_is_SomeI)
  then show ?thesis by (auto simp: map_of_tally split: if_splits)
qed

lemma max_first_None [simp]: "max_first f xs = None \<longleftrightarrow> xs = []"
  by (cases xs) (auto split: option.splits)

lemma max_first_in: "max_first f xs = Some x \<Longrightarrow> x \<in> set xs"
  by (induction xs arbitrary: x) (auto split: option.splits if_splits)

lemma max_first_max: "max_first f xs = Some x \<Longrightarrow> y \<in> set xs \<Longrightarrow> f y \<le> f x"
  by (induction xs arbitrary: x y) (fastforce split: option.splits if_splits)+

lemma count_list_filter: "p k \<Longrightarrow> count_list (filter p ks) k = count_list ks k"
  by (induction ks) auto

lemma count_list_map_opt_str:
  "w \<noteq> [] \<Longrightarrow>
   count_list (map (\<lambda>m. opt_str (p_verdict m)) ms) w = length (filter (\<lambda>m. p_verdict m = Some w) ms)"
  by (induction ms) (auto simp: opt_str_def split: option.splits)

text \<open>What a block says: the winner is held by exactly the listed priors, all verified and of this
  customer, and no other verdict has more.\<close>

lemma compute_n_way_sound:
  assumes "compute_n_way ms c k = Some nw"
  obtains w where "nw_verdict nw = Some w" and "w \<noteq> []"
    and "nw_agreement nw =
      Some (show_nat (length (nw_matches nw)) @ ''/'' @ show_nat (length (verified_priors ms c)))"
    and "nw_matches nw = filter (\<lambda>m. p_verdict m = Some w) (verified_priors ms c)"
    and "k \<le> length (nw_matches nw)"
    and "\<And>v. v \<noteq> [] \<Longrightarrow>
      length (filter (\<lambda>m. p_verdict m = Some v) (verified_priors ms c)) \<le> length (nw_matches nw)"
proof -
  define vs where "vs = verified_priors ms c"
  define ks where "ks = filter (\<lambda>v. v \<noteq> []) (map (\<lambda>m. opt_str (p_verdict m)) vs)"
  obtain w n where mx: "max_first snd (tally ks) = Some (w, n)" and kn: "k \<le> n"
    and nw: "nw = \<lparr>nw_verdict = Some w, nw_agreement = Some (show_nat n @ ''/'' @ show_nat (length vs)),
                   nw_matches = filter (\<lambda>m. p_verdict m = Some w) vs\<rparr>"
    using assms unfolding vs_def ks_def
    by (auto simp: compute_n_way_def Let_def split: if_splits option.splits prod.splits)
  from tally_count[OF max_first_in[OF mx]] have n: "n = count_list ks w" and w: "w \<in> set ks" by auto
  from w have wn: "w \<noteq> []" by (simp add: ks_def)
  then have len: "n = length (filter (\<lambda>m. p_verdict m = Some w) vs)"
    by (simp add: n ks_def count_list_filter count_list_map_opt_str)
  have "length (filter (\<lambda>m. p_verdict m = Some v) vs) \<le> n" if "v \<noteq> []" for v
  proof -
    have *: "count_list ks v = length (filter (\<lambda>m. p_verdict m = Some v) vs)"
      using that by (simp add: ks_def count_list_filter count_list_map_opt_str)
    show ?thesis
    proof (cases "v \<in> set ks")
      case True
      then have "(v, count_list ks v) \<in> set (tally ks)"
        using map_of_tally[of ks v] by (auto intro: map_of_SomeD)
      from max_first_max[OF mx this] show ?thesis by (simp add: *)
    next
      case False
      then show ?thesis using * by (simp add: count_notin)
    qed
  qed
  with that[of w] nw wn len kn show ?thesis unfolding vs_def by simp
qed

lemma verified_priors_set:
  "m \<in> set (verified_priors ms c) \<longleftrightarrow>
   m \<in> set ms \<and> p_human_verified m \<and> canonical_customer (p_customer m) = canonical_customer c"
  by (auto simp: verified_priors_def)

end
