(* ===== verification/Decision.thy ===== *)
theory Decision
  imports Retrieval
begin

text \<open>
  The deterministic decision gate, \<open>pipeline/decision.py\<close>: from the exact match, the auto-close
  hit, the n-way block and the threat-intel triage it either commits a verdict without a language
  model or returns nothing. Also \<open>_short_circuit_block_reason\<close> of
  \<open>pipeline/orchestrator.py\<close>, the corroboration test a fast-tier verdict must pass.
\<close>

text \<open>One triage row: the keys of a threat-intel result the pipeline reads.\<close>

record triage_row =
  tr_verdict :: "string option"
  tr_ioc :: "string option"        \<comment> \<open>\<open>query.ioc\<close>, or \<open>query\<close> itself when it is a string\<close>
  tr_query_type :: "string option" \<comment> \<open>\<open>query.type\<close>\<close>
  tr_type :: "string option"
  tr_summary :: "(string \<times> pyval) list"
  tr_own :: "(string \<times> string) list" \<comment> \<open>the strings at the row's top level, such as \<open>value\<close>\<close>
  tr_hostnames :: "string option list" \<comment> \<open>the \<open>name\<close> of each hostname record\<close>

record autoclose_hit =
  ac_rule_id :: string
  ac_rule_name :: string
  ac_verdict :: "string option"
  ac_confidence :: string
  ac_reason :: string

text \<open>The short-circuit record stored on the incident: which gate fired and on what.\<close>

datatype gate =
    Exact_Match_Gate "string option" "rat option" "string option"
  | Auto_Close_Gate string string
  | N_Way_Gate string "string option list"
  | Fast_Classifier_Gate string

section \<open>Clean threat intel\<close>

definition vt_dirty :: "pydict \<Rightarrow> bool" where
  "vt_dirty s =
     (case py_int (py_or (get s ''vt_malicious'') (py_or (get s ''virustotal_malicious'') (PyInt 0))) of
        Inl _ \<Rightarrow> False | Inr n \<Rightarrow> 3 < n)"

definition abuse_dirty :: "pydict \<Rightarrow> bool" where
  "abuse_dirty s =
     (let a = py_or (get s ''abuseipdb'') (PyInt 0);
          v = (case a of PyStr t \<Rightarrow> py_int (PyStr (rstrip_char (CHR ''%'') t)) | _ \<Rightarrow> py_int a)
      in case v of Inl _ \<Rightarrow> False | Inr n \<Rightarrow> 25 < n)"

fun ti_clean :: "triage_row list \<Rightarrow> bool" where
  "ti_clean [] = True"
| "ti_clean (r # rs) =
     (if lower (opt_str (tr_verdict r)) \<in> {''malicious'', ''high''} then False
      else if vt_dirty (map_of (tr_summary r)) then False
      else if abuse_dirty (map_of (tr_summary r)) then False
      else ti_clean rs)"

section \<open>The gate\<close>

definition n_way_close_min :: int where
  "n_way_close_min = 4"

definition n_way_close_total_min :: int where
  "n_way_close_total_min = 5"

definition exact_gate :: "exact_match option \<Rightarrow> (verdict \<times> confidence \<times> gate) option" where
  "exact_gate em =
     (case em of
        None \<Rightarrow> None
      | Some e \<Rightarrow>
          if 9/10 \<le> (case em_score e of None \<Rightarrow> 0 | Some x \<Rightarrow> x) then
            (let v = lower (opt_str (em_verdict e)) in
             if v = ''fp'' \<or> v = ''benign'' then
               Some (if v = ''fp'' then FP else Benign, CHigh,
                     Exact_Match_Gate (em_alert_id e) (em_score e) (em_verdict_reason e))
             else None)
          else None)"

definition autoclose_gate ::
  "autoclose_hit option \<Rightarrow> triage_row list \<Rightarrow> (verdict \<times> confidence \<times> gate) option" where
  "autoclose_gate ac triage =
     (case ac of
        None \<Rightarrow> None
      | Some a \<Rightarrow>
          if ti_clean triage then
            (let v = lower (opt_str (ac_verdict a)) in
             if v = ''fp'' \<or> v = ''benign'' then
               Some (if v = ''fp'' then FP else Benign, CHigh,
                     Auto_Close_Gate (ac_rule_id a) (ac_reason a))
             else None)
          else None)"

text \<open>\<open>agreed, total = n_way["agreement"].split("/")\<close>, then \<open>int\<close> of both: \<open>None\<close> on the
  \<open>KeyError\<close> or \<open>ValueError\<close> the code catches.\<close>

definition read_agreement :: "string option \<Rightarrow> (int \<times> int) option" where
  "read_agreement ag =
     (case ag of
        None \<Rightarrow> None
      | Some s \<Rightarrow>
          (case split_on (CHR ''/'') s of
             [a, t] \<Rightarrow> (case (parse_int a, parse_int t) of (Some x, Some y) \<Rightarrow> Some (x, y) | _ \<Rightarrow> None)
           | _ \<Rightarrow> None))"

definition n_way_gate :: "nway option \<Rightarrow> (verdict \<times> confidence \<times> gate) option" where
  "n_way_gate nw =
     (case nw of
        None \<Rightarrow> None
      | Some n \<Rightarrow>
          (case read_agreement (nw_agreement n) of
             None \<Rightarrow> None
           | Some (agreed, tot) \<Rightarrow>
               if n_way_close_min \<le> agreed \<and> n_way_close_total_min \<le> tot then
                 (let v = lower (opt_str (nw_verdict n)) in
                  if v = ''fp'' \<or> v = ''benign'' \<or> v = ''tp'' then
                    Some (if v = ''fp'' then FP else if v = ''benign'' then Benign else TP, CMedium,
                          N_Way_Gate (opt_str (nw_agreement n)) (map p_alert_id (nw_matches n)))
                  else None)
               else None))"

definition evaluate ::
  "exact_match option \<Rightarrow> nway option \<Rightarrow> autoclose_hit option \<Rightarrow> triage_row list
   \<Rightarrow> (verdict \<times> confidence \<times> gate) option" where
  "evaluate exact_match n_way autoclose triage_results =
     (case exact_gate exact_match of
        Some r \<Rightarrow> Some r
      | None \<Rightarrow>
          (case autoclose_gate autoclose triage_results of
             Some r \<Rightarrow> Some r
           | None \<Rightarrow> n_way_gate n_way))"

section \<open>Corroboration of a fast-tier verdict\<close>

definition n_way_corroborate_min :: int where
  "n_way_corroborate_min = 3"

datatype block_reason = Sensitive_Pattern string | No_Corroboration

text \<open>\<open>x.get("verdict", "").lower()\<close> raises \<open>AttributeError\<close> when the key is present and null;
  the records above do not tell a null from an absent verdict, and both producers of these blocks
  (\<open>find_exact_match\<close>, \<open>_compute_n_way\<close>) always store a string.\<close>

definition exact_corroborates :: "string \<Rightarrow> exact_match option \<Rightarrow> bool" where
  "exact_corroborates v em =
     (case em of
        None \<Rightarrow> False
      | Some e \<Rightarrow> 9/10 \<le> (case em_score e of None \<Rightarrow> 0 | Some x \<Rightarrow> x)
                 \<and> lower (opt_str (em_verdict e)) = v)"

definition n_way_corroborates :: "string \<Rightarrow> nway option \<Rightarrow> bool" where
  "n_way_corroborates v nw =
     (case nw of
        None \<Rightarrow> False
      | Some n \<Rightarrow>
          lower (opt_str (nw_verdict n)) = v \<and>
          (case split_on (CHR ''/'') (opt_str (nw_agreement n)) of
             [a, t] \<Rightarrow> (case parse_int a of Some x \<Rightarrow> n_way_corroborate_min \<le> x | None \<Rightarrow> False)
           | _ \<Rightarrow> False))"

definition autoclose_corroborates :: "string \<Rightarrow> autoclose_hit option \<Rightarrow> bool" where
  "autoclose_corroborates v ac =
     (case ac of None \<Rightarrow> False | Some a \<Rightarrow> lower (opt_str (ac_verdict a)) = v)"

definition short_circuit_block_reason ::
  "string \<Rightarrow> string option \<Rightarrow> exact_match option \<Rightarrow> nway option
   \<Rightarrow> autoclose_hit option \<Rightarrow> autoclose_hit option \<Rightarrow> block_reason option" where
  \<comment> \<open>\<open>sensitive\<close>: the matched keyword; \<open>pre\<close>, \<open>post\<close>: the two keys of \<open>autoclose_match\<close>\<close>
  "short_circuit_block_reason verdict_str sensitive exact_match n_way pre post =
     (case sensitive of
        Some kw \<Rightarrow> Some (Sensitive_Pattern kw)
      | None \<Rightarrow>
          (let verdict_lo = lower verdict_str in
           if exact_corroborates verdict_lo exact_match then None
           else if n_way_corroborates verdict_lo n_way then None
           else if autoclose_corroborates verdict_lo pre then None
           else if autoclose_corroborates verdict_lo post then None
           else Some No_Corroboration))"

section \<open>Facts about the gates\<close>

lemmas gate_defs = exact_gate_def autoclose_gate_def n_way_gate_def

lemma exact_gate_Some:
  "exact_gate em = Some (v, c, g) \<longleftrightarrow>
   (\<exists>e. em = Some e \<and> 9/10 \<le> (case em_score e of None \<Rightarrow> 0 | Some x \<Rightarrow> x) \<and> c = CHigh \<and>
      (lower (opt_str (em_verdict e)) = ''fp'' \<and> v = FP \<or>
       lower (opt_str (em_verdict e)) = ''benign'' \<and> v = Benign) \<and>
      g = Exact_Match_Gate (em_alert_id e) (em_score e) (em_verdict_reason e))"
  by (cases em) (auto simp: exact_gate_def Let_def)

lemma autoclose_gate_Some:
  "autoclose_gate ac tr = Some (v, c, g) \<longleftrightarrow>
   (\<exists>a. ac = Some a \<and> ti_clean tr \<and> c = CHigh \<and>
      (lower (opt_str (ac_verdict a)) = ''fp'' \<and> v = FP \<or>
       lower (opt_str (ac_verdict a)) = ''benign'' \<and> v = Benign) \<and>
      g = Auto_Close_Gate (ac_rule_id a) (ac_reason a))"
  by (cases ac) (auto simp: autoclose_gate_def Let_def)

lemma n_way_gate_Some:
  "n_way_gate nw = Some (v, c, g) \<longleftrightarrow>
   (\<exists>n a t. nw = Some n \<and> read_agreement (nw_agreement n) = Some (a, t) \<and> 4 \<le> a \<and> 5 \<le> t \<and>
      c = CMedium \<and>
      (lower (opt_str (nw_verdict n)) = ''fp'' \<and> v = FP \<or>
       lower (opt_str (nw_verdict n)) = ''benign'' \<and> v = Benign \<or>
       lower (opt_str (nw_verdict n)) = ''tp'' \<and> v = TP) \<and>
      g = N_Way_Gate (opt_str (nw_agreement n)) (map p_alert_id (nw_matches n)))"
  by (cases nw)
     (auto simp: n_way_gate_def Let_def n_way_close_min_def n_way_close_total_min_def
           split: option.splits)

lemma read_agreement_printed [simp]:
  "read_agreement (Some (show_nat a @ CHR ''/'' # show_nat t)) = Some (int a, int t)"
  by (simp add: read_agreement_def split_on_append split_on_notin)

lemma evaluate_cases:
  "evaluate em nw ac tr = Some r \<longleftrightarrow>
   exact_gate em = Some r \<or>
   exact_gate em = None \<and> autoclose_gate ac tr = Some r \<or>
   exact_gate em = None \<and> autoclose_gate ac tr = None \<and> n_way_gate nw = Some r"
  by (auto simp: evaluate_def split: option.splits)

lemma evaluate_decided: "evaluate em nw ac tr = Some (v, c, g) \<Longrightarrow> v \<in> {TP, FP, Benign} \<and> c \<noteq> CLow"
  by (auto simp: evaluate_cases exact_gate_Some autoclose_gate_Some n_way_gate_Some)

lemma ti_clean_iff:
  "ti_clean rs \<longleftrightarrow>
   (\<forall>r \<in> set rs. lower (opt_str (tr_verdict r)) \<notin> {''malicious'', ''high''} \<and>
      \<not> vt_dirty (map_of (tr_summary r)) \<and> \<not> abuse_dirty (map_of (tr_summary r)))"
  by (induction rs) auto

text \<open>A verified prior of one customer, for the witnesses.\<close>

definition example_prior :: "string \<Rightarrow> string \<Rightarrow> prior" where
  "example_prior aid v =
     \<lparr>p_alert_id = Some aid, p_rule_name = None, p_verdict = Some v, p_verdict_reason = None,
      p_customer = Some ''Acme  Corp'', p_timestamp = None, p_human_verified = True,
      p_cosine = None, p_score = None, p_adjusted = None\<rparr>"

text \<open>A case that the n-way gate closes without a language model rests on at least four priors,
  all analyst-verified, all of the incident's own customer, that carry the very verdict committed,
  out of at least five verified priors of that customer.\<close>

theorem n_way_close_is_corroborated:
  assumes "compute_n_way similar customer n_way_populate_min = nw"
    and "evaluate em nw ac triage = Some (v, c, N_Way_Gate ag ids)"
  shows "\<exists>ms \<subseteq> {m \<in> set similar. p_human_verified m \<and>
             canonical_customer (p_customer m) = canonical_customer customer \<and>
             lower (opt_str (p_verdict m)) = lower (verdict_value v)}.
           (\<exists>xs. set xs = ms \<and> 4 \<le> length xs \<and> ids = map p_alert_id xs) \<and>
           5 \<le> length (verified_priors similar customer) \<and> c = CMedium"
proof -
  from assms(2) have "n_way_gate nw = Some (v, c, N_Way_Gate ag ids)"
    by (auto simp: evaluate_cases exact_gate_Some autoclose_gate_Some)
  then obtain n a t where n: "nw = Some n" "read_agreement (nw_agreement n) = Some (a, t)"
      "4 \<le> a" "5 \<le> t" "c = CMedium" "ids = map p_alert_id (nw_matches n)"
      "lower (opt_str (nw_verdict n)) = lower (verdict_value v)"
    by (auto simp: n_way_gate_Some)
  from assms(1) n(1) obtain w where w: "nw_verdict n = Some w"
      "nw_agreement n = Some (show_nat (length (nw_matches n)) @ ''/'' @
         show_nat (length (verified_priors similar customer)))"
      "nw_matches n = filter (\<lambda>m. p_verdict m = Some w) (verified_priors similar customer)"
    by (metis compute_n_way_sound)
  from n(2) w(2) have "a = int (length (nw_matches n))"
    and "t = int (length (verified_priors similar customer))" by simp_all
  with n(3,4) have "4 \<le> length (nw_matches n)" and "5 \<le> length (verified_priors similar customer)"
    by linarith+
  moreover have "set (nw_matches n) \<subseteq> {m \<in> set similar. p_human_verified m \<and>
             canonical_customer (p_customer m) = canonical_customer customer \<and>
             lower (opt_str (p_verdict m)) = lower (verdict_value v)}"
    using w(1,3) n(7) by (auto simp: verified_priors_set)
  ultimately show ?thesis using n(5,6) by blast
qed

theorem n_way_close_is_corroborated_witness:
  "\<exists>ms \<subseteq> {m \<in> set (map (\<lambda>i. example_prior i ''FP'') [''a'', ''b'', ''c'', ''d'', ''e'']).
            p_human_verified m \<and>
            canonical_customer (p_customer m) = canonical_customer (Some ''ACME Corp'') \<and>
            lower (opt_str (p_verdict m)) = lower (verdict_value FP)}.
     \<exists>xs. set xs = ms \<and> 4 \<le> length xs"
proof -
  let ?sim = "map (\<lambda>i. example_prior i ''FP'') [''a'', ''b'', ''c'', ''d'', ''e'']"
  have h: "evaluate None (compute_n_way ?sim (Some ''ACME Corp'') n_way_populate_min) None [] =
    Some (FP, CMedium, N_Way_Gate ''5/5'' (map Some [''a'', ''b'', ''c'', ''d'', ''e'']))"
    by code_simp
  from n_way_close_is_corroborated [OF refl h] show ?thesis by blast
qed

end
