(* ===== verification/Autoclose.thy ===== *)
theory Autoclose
  imports Rule_Engine Decision
begin

text \<open>
  Auto-close rules: the matcher \<open>vendor/alert-memory-mcp/auto_close.py\<close> and the adapter
  \<open>adapters/autoclose_adapter.py\<close> that merges the YAML rules with the rows of the
  \<open>auto_close_rules\<close> table. Alert fields, enrichment and the expected value of a condition are
  Python values, so every \<open>AttributeError\<close> and \<open>TypeError\<close> of a comparison is a branch; the rule's
  own text fields have the types the YAML schema and the table give them (\<open>None\<close> is an absent
  key). The order of a rule's conditions is the order of its dictionary.
\<close>

section \<open>Rules and comparisons\<close>

type_synonym conditions = "(string \<times> pyval) list"

record autoclose_rule =
  rl_id :: "string option"
  rl_name :: "string option"
  rl_customer :: "string option"           \<comment> \<open>null or absent: applies to every customer\<close>
  rl_conditions :: "conditions option"
  rl_verdict :: "string option option"     \<comment> \<open>absent, null, or a text\<close>
  rl_confidence :: "string option"
  rl_reason :: "string option option"

text \<open>A method call that only strings have.\<close>

fun lower_of :: "pyval \<Rightarrow> py_exc + string" where
  "lower_of (PyStr s) = Inr (lower s)"
| "lower_of _ = Inl AttributeError"

fun upper_of :: "pyval \<Rightarrow> py_exc + string" where
  "upper_of (PyStr s) = Inr (upper s)"
| "upper_of _ = Inl AttributeError"

fun num_value :: "pyval \<Rightarrow> rat option" where
  "num_value (PyBool b) = Some (if b then 1 else 0)"
| "num_value (PyInt n) = Some (of_int n)"
| "num_value (PyFloat x) = Some x"
| "num_value _ = None"

text \<open>\<open>==\<close>: numbers of different types compare by value.\<close>

definition py_eq :: "pyval \<Rightarrow> pyval \<Rightarrow> bool" where
  "py_eq v w = (case (num_value v, num_value w) of (Some x, Some y) \<Rightarrow> x = y | _ \<Rightarrow> v = w)"

definition get_default :: "pydict \<Rightarrow> string \<Rightarrow> pyval \<Rightarrow> pyval" where
  "get_default d k v = (case d k of None \<Rightarrow> v | Some w \<Rightarrow> w)"

definition same_lower :: "pyval \<Rightarrow> pyval \<Rightarrow> py_exc + bool" where
  "same_lower actual expected =
     and_then (lower_of actual) (\<lambda>a. and_then (lower_of expected) (\<lambda>e. Inr (a = e)))"

definition contains_lower :: "pyval \<Rightarrow> pyval \<Rightarrow> py_exc + bool" where
  "contains_lower expected actual =
     and_then (lower_of expected) (\<lambda>e. and_then (lower_of actual) (\<lambda>a. Inr (contains e a)))"

text \<open>Iterating a value, and \<open>any(expected.lower() in h.lower() for h in hs)\<close>: lazy, so a
  hostname after the first hit is never looked at.\<close>

fun iter_values :: "pyval \<Rightarrow> py_exc + pyval list" where
  "iter_values (PyList xs) = Inr xs"
| "iter_values (PyStr s) = Inr (map (\<lambda>c. PyStr [c]) s)"
| "iter_values (PyDict d) = Inr (map (\<lambda>kv. PyStr (fst kv)) d)"
| "iter_values _ = Inl TypeError"

fun any_contains :: "pyval \<Rightarrow> pyval list \<Rightarrow> py_exc + bool" where
  "any_contains expected [] = Inr False"
| "any_contains expected (h # hs) =
     and_then (contains_lower expected h) (\<lambda>b. if b then Inr True else any_contains expected hs)"

section \<open>One condition\<close>

definition enrichment_keys :: "string list" where
  "enrichment_keys = [''dst_asn_contains'', ''dst_hostname_contains'', ''vt_clean'', ''abuseipdb_clean'']"

text \<open>\<open>if not enrichment\<close>: the dictionary is empty.\<close>

type_synonym enrichment = "(string \<times> pyval) list"

definition port_matches :: "pydict \<Rightarrow> pyval \<Rightarrow> bool" where
  "port_matches alert_fields expected =
     (case py_int (get_default alert_fields ''dst_port'' (PyInt (-1))) of
        Inl _ \<Rightarrow> False
      | Inr a \<Rightarrow> (case py_int expected of Inl _ \<Rightarrow> False | Inr e \<Rightarrow> a = e))"

definition hostname_matches :: "enrichment \<Rightarrow> pyval \<Rightarrow> py_exc + bool" where
  "hostname_matches enrichment expected =
     (let hs = get_default (map_of enrichment) ''dst_hostnames'' (PyList []);
          hostnames = (case hs of PyStr s \<Rightarrow> PyList [PyStr s] | _ \<Rightarrow> hs);
          single = get_default (map_of enrichment) ''dst_hostname'' (PyStr [])
      in and_then (iter_values hostnames)
           (\<lambda>hs. any_contains expected (if truthy single then hs @ [single] else hs)))"

definition abuse_matches :: "enrichment \<Rightarrow> pyval \<Rightarrow> py_exc + bool" where
  "abuse_matches enrichment expected =
     (case get (map_of enrichment) ''abuseipdb_score'' of
        PyNone \<Rightarrow> Inr True
      | score \<Rightarrow> and_then (py_int score) (\<lambda>n. Inr ((n = 0) = truthy expected)))"

definition cond_ok :: "pydict \<Rightarrow> enrichment \<Rightarrow> string \<times> pyval \<Rightarrow> py_exc + bool" where
  "cond_ok alert_fields enrichment c =
     (let key = fst c; expected = snd c; field = (\<lambda>k. get_default alert_fields k (PyStr [])) in
      if key = ''rule_name_contains'' then contains_lower expected (field ''rule_name'')
      else if key = ''dst_ip'' then Inr (py_eq (field ''dst_ip'') expected)
      else if key = ''src_ip'' then Inr (py_eq (field ''src_ip'') expected)
      else if key = ''application'' then same_lower (field ''application'') expected
      else if key = ''url_category'' then same_lower (field ''url_category'') expected
      else if key = ''src_zone'' then same_lower (field ''src_zone'') expected
      else if key = ''dst_port'' then Inr (port_matches alert_fields expected)
      else if key = ''dst_asn_contains'' then
        (if enrichment = [] then Inr True
         else contains_lower expected (get_default (map_of enrichment) ''dst_asn'' (PyStr [])))
      else if key = ''dst_hostname_contains'' then
        (if enrichment = [] then Inr True else hostname_matches enrichment expected)
      else if key = ''vt_clean'' then
        (if enrichment = [] then Inr True
         else case get (map_of enrichment) ''vt_clean'' of
                PyNone \<Rightarrow> Inr True
              | actual \<Rightarrow> Inr (truthy actual = truthy expected))
      else if key = ''abuseipdb_clean'' then
        (if enrichment = [] then Inr True else abuse_matches enrichment expected)
      else Inr True)"

fun all_conditions :: "pydict \<Rightarrow> enrichment \<Rightarrow> conditions \<Rightarrow> py_exc + bool" where
  "all_conditions alert_fields enrichment [] = Inr True"
| "all_conditions alert_fields enrichment (c # cs) =
     and_then (cond_ok alert_fields enrichment c)
       (\<lambda>b. if b then all_conditions alert_fields enrichment cs else Inr False)"

definition matches :: "conditions \<Rightarrow> pydict \<Rightarrow> enrichment \<Rightarrow> py_exc + bool" where
  "matches conditions alert_fields enrichment =
     (if (\<exists>k \<in> set (map fst conditions). k \<in> set enrichment_keys) \<and> enrichment = [] then Inr False
      else all_conditions alert_fields enrichment conditions)"

section \<open>The scan\<close>

definition rule_fires :: "pydict \<Rightarrow> enrichment \<Rightarrow> autoclose_rule \<Rightarrow> py_exc + bool" where
  "rule_fires alert_fields enrichment r =
     (let go = matches (case rl_conditions r of None \<Rightarrow> [] | Some cs \<Rightarrow> cs) alert_fields enrichment
      in case rl_customer r of
           None \<Rightarrow> go
         | Some c \<Rightarrow>
             and_then (upper_of (get_default alert_fields ''customer'' (PyStr [])))
               (\<lambda>u. if u \<noteq> upper c then Inr False else go))"

definition rule_result :: "autoclose_rule \<Rightarrow> py_exc + autoclose_hit" where
  "rule_result r =
     (case rl_id r of
        None \<Rightarrow> Inl KeyError
      | Some i \<Rightarrow>
          (case rl_verdict r of
             None \<Rightarrow> Inl KeyError
           | Some v \<Rightarrow>
               (case rl_reason r of
                  Some None \<Rightarrow> Inl AttributeError
                | reason \<Rightarrow>
                    Inr \<lparr>ac_rule_id = i,
                         ac_rule_name = (case rl_name r of None \<Rightarrow> i | Some n \<Rightarrow> n),
                         ac_verdict = v,
                         ac_confidence = (case rl_confidence r of None \<Rightarrow> ''MEDIUM'' | Some c \<Rightarrow> c),
                         ac_reason = strip (case reason of Some (Some t) \<Rightarrow> t | _ \<Rightarrow> [])\<rparr>)))"

fun check_rules ::
  "pydict \<Rightarrow> enrichment \<Rightarrow> autoclose_rule list \<Rightarrow> py_exc + autoclose_hit option" where
  "check_rules alert_fields enrichment [] = Inr None"
| "check_rules alert_fields enrichment (r # rs) =
     and_then (rule_fires alert_fields enrichment r)
       (\<lambda>b. if b then and_then (rule_result r) (\<lambda>x. Inr (Some x))
            else check_rules alert_fields enrichment rs)"

interpretation ac: rule_engine "rule_fires alert_fields enrichment" rule_result
    "check_rules alert_fields enrichment" for alert_fields enrichment
  by unfold_locales auto

section \<open>The adapter\<close>

record autoclose_row =
  acr_rule_id :: string
  acr_customer :: "string option"
  acr_match :: conditions
  acr_verdict :: verdict
  acr_reason :: string
  acr_enabled :: bool

definition db_key_remap :: "string \<Rightarrow> string" where
  "db_key_remap k =
     (if k = ''rule_name'' then ''rule_name_contains''
      else if k = ''dst_asn'' then ''dst_asn_contains''
      else if k = ''dst_hostname'' then ''dst_hostname_contains''
      else k)"

text \<open>A dictionary built by insertion: a key set again keeps its place and takes the new value.\<close>

fun dict_set :: "conditions \<Rightarrow> string \<Rightarrow> pyval \<Rightarrow> conditions" where
  "dict_set [] k v = [(k, v)]"
| "dict_set ((k', v') # d) k v = (if k' = k then (k, v) # d else (k', v') # dict_set d k v)"

definition remap_conditions :: "conditions \<Rightarrow> conditions" where
  "remap_conditions cs = foldl (\<lambda>d kv. dict_set d (db_key_remap (fst kv)) (snd kv)) [] cs"

definition db_rule_to_matcher_rule :: "autoclose_row \<Rightarrow> autoclose_rule" where
  "db_rule_to_matcher_rule row =
     \<lparr>rl_id = Some (acr_rule_id row), rl_name = Some (acr_rule_id row),
      rl_customer = acr_customer row, rl_conditions = Some (remap_conditions (acr_match row)),
      rl_verdict = Some (Some (verdict_value (acr_verdict row))),
      rl_confidence = Some ''MEDIUM'', rl_reason = Some (Some (acr_reason row))\<rparr>"

text \<open>The query gives the rows of the table, or raises, and then no rule of the table counts.\<close>

definition load_db_rules :: "py_exc + autoclose_row list \<Rightarrow> autoclose_rule list" where
  "load_db_rules q =
     (case q of Inl _ \<Rightarrow> [] | Inr rows \<Rightarrow> map db_rule_to_matcher_rule (filter acr_enabled rows))"

definition coerced_fields :: "string list" where
  "coerced_fields =
    [''customer'', ''rule_name'', ''src_ip'', ''dst_ip'', ''application'', ''url_category'', ''src_zone'']"

definition coerce_alert_fields :: "pydict \<Rightarrow> pydict" where
  "coerce_alert_fields d =
     (\<lambda>k. if k \<in> set coerced_fields \<and> get d k = PyNone then Some (PyStr []) else d k)"

definition coerce_enrichment :: "enrichment \<Rightarrow> enrichment" where
  "coerce_enrichment d =
     map (\<lambda>(k, v).
            if (k = ''dst_asn'' \<or> k = ''dst_hostname'') \<and> v = PyNone then (k, PyStr [])
            else if k = ''dst_hostnames'' then
              (k, case v of PyList hs \<Rightarrow> PyList (filter truthy hs) | _ \<Rightarrow> v)
            else (k, v)) d"

text \<open>\<open>yaml\<close> is what loading the rules file gives, an exception included; every exception of the
  scan is swallowed into \<open>None\<close>.\<close>

definition autoclose_check ::
  "py_exc + autoclose_rule list \<Rightarrow> py_exc + autoclose_row list \<Rightarrow> pydict \<Rightarrow> enrichment option
   \<Rightarrow> autoclose_hit option" where
  "autoclose_check yaml db alert_fields enrichment =
     (case yaml of
        Inl _ \<Rightarrow> None
      | Inr yaml_rules \<Rightarrow>
          (case check_rules (coerce_alert_fields alert_fields)
                  (case enrichment of None \<Rightarrow> [] | Some e \<Rightarrow> coerce_enrichment e)
                  (yaml_rules @ load_db_rules db) of
             Inl _ \<Rightarrow> None
           | Inr hit \<Rightarrow> hit))"

definition autoclose_check_sync ::
  "py_exc + autoclose_rule list \<Rightarrow> pydict \<Rightarrow> enrichment option \<Rightarrow> autoclose_hit option" where
  "autoclose_check_sync yaml alert_fields enrichment =
     autoclose_check yaml (Inr []) alert_fields enrichment"

section \<open>What a hit means\<close>

lemma matches_needs_enrichment:
  "matches cs f [] = Inr True \<Longrightarrow> \<forall>k \<in> set (map fst cs). k \<notin> set enrichment_keys"
  by (auto simp: matches_def split: if_splits)

lemma rule_fires_customer:
  "rule_fires f e r = Inr True \<Longrightarrow> rl_customer r = Some c \<Longrightarrow>
   \<exists>s. get_default f ''customer'' (PyStr []) = PyStr s \<and> upper s = upper c"
  by (cases "get_default f ''customer'' (PyStr [])") (auto simp: rule_fires_def split: if_splits)

lemma rule_fires_matches:
  "rule_fires f e r = Inr True \<Longrightarrow>
   matches (case rl_conditions r of None \<Rightarrow> [] | Some cs \<Rightarrow> cs) f e = Inr True"
  by (auto simp: rule_fires_def Let_def and_then_Inr split: option.splits if_splits)

lemma rule_result_id: "rule_result r = Inr x \<Longrightarrow> rl_id r = Some (ac_rule_id x)"
  by (auto simp: rule_result_def split: option.splits)

lemma autoclose_check_hit:
  "autoclose_check yaml db f e = Some h \<longleftrightarrow>
   (\<exists>rules. yaml = Inr rules \<and>
      check_rules (coerce_alert_fields f) (case e of None \<Rightarrow> [] | Some e \<Rightarrow> coerce_enrichment e)
        (rules @ load_db_rules db) = Inr (Some h))"
  by (auto simp: autoclose_check_def split: sum.splits)

text \<open>A customer's text after the adapter has replaced a null by the empty string.\<close>

definition customer_text :: "pydict \<Rightarrow> string" where
  "customer_text f = str_or_empty (get f ''customer'')"

lemma coerced_customer:
  "get_default (coerce_alert_fields f) ''customer'' (PyStr []) = PyStr s \<Longrightarrow> s = customer_text f"
  by (auto simp: get_default_def coerce_alert_fields_def coerced_fields_def customer_text_def get_def
      split: option.splits if_splits)

text \<open>C16. An auto-close hit always names a rule that was loaded, YAML or an enabled row of the
  table; the rule is global or its customer is the alert's own, whatever the case; and before
  enrichment no rule that has a condition on the enrichment can be the one that fired.\<close>

theorem autoclose_hit_is_warranted:
  assumes "autoclose_check (Inr yaml) db alert_fields enrichment = Some hit"
  shows "\<exists>r \<in> set (yaml @ load_db_rules db).
           rl_id r = Some (ac_rule_id hit)
         \<and> (\<forall>c. rl_customer r = Some c \<longrightarrow> upper c = upper (customer_text alert_fields))
         \<and> (enrichment = None \<longrightarrow>
              (\<forall>cs k. rl_conditions r = Some cs \<longrightarrow> k \<in> set (map fst cs) \<longrightarrow> k \<notin> set enrichment_keys))"
proof -
  let ?f = "coerce_alert_fields alert_fields"
    and ?e = "case enrichment of None \<Rightarrow> [] | Some e \<Rightarrow> coerce_enrichment e"
  from assms have "check_rules ?f ?e (yaml @ load_db_rules db) = Inr (Some hit)"
    by (simp add: autoclose_check_hit)
  from ac.run_hit_in[OF this] obtain r where
    r: "r \<in> set (yaml @ load_db_rules db)" "rule_fires ?f ?e r = Inr True" "rule_result r = Inr hit"
    by blast
  have "\<forall>c. rl_customer r = Some c \<longrightarrow> upper c = upper (customer_text alert_fields)"
    using rule_fires_customer[OF r(2)] coerced_customer by metis
  moreover have "enrichment = None \<Longrightarrow> rl_conditions r = Some cs \<Longrightarrow> k \<in> set (map fst cs) \<Longrightarrow>
      k \<notin> set enrichment_keys" for cs k
    using matches_needs_enrichment[of cs ?f] rule_fires_matches[OF r(2)] by auto
  ultimately show ?thesis using r(1) rule_result_id[OF r(3)] by blast
qed

definition example_rule :: autoclose_rule where
  "example_rule =
     \<lparr>rl_id = Some ''XF-1'', rl_name = None, rl_customer = Some ''Contoso'',
      rl_conditions = Some [(''rule_name_contains'', PyStr ''x-force''), (''dst_port'', PyStr ''443'')],
      rl_verdict = Some (Some ''FP''), rl_confidence = None, rl_reason = Some (Some '' known '')\<rparr>"

definition example_fields :: pydict where
  "example_fields = map_of
     [(''customer'', PyStr ''CONTOSO''), (''rule_name'', PyStr ''Threat: X-Force as Malware''),
      (''dst_port'', PyInt 443), (''dst_ip'', PyNone)]"

definition example_hit :: autoclose_hit where
  "example_hit =
     \<lparr>ac_rule_id = ''XF-1'', ac_rule_name = ''XF-1'', ac_verdict = Some ''FP'',
      ac_confidence = ''MEDIUM'', ac_reason = ''known''\<rparr>"

lemma example_autoclose:
  "autoclose_check (Inr [example_rule]) (Inl ValueError) example_fields None = Some example_hit"
  by code_simp

theorem autoclose_hit_is_warranted_witness:
  "\<exists>r \<in> set [example_rule].
      rl_id r = Some ''XF-1'' \<and>
      (\<forall>c. rl_customer r = Some c \<longrightarrow> upper c = upper (customer_text example_fields))"
  using autoclose_hit_is_warranted[OF example_autoclose]
  by (fastforce simp: load_db_rules_def example_hit_def)

text \<open>Rules of the YAML file keep their priority: a hit they give alone is the hit of the merged
  scan, whatever rows the table holds and even when its query fails.\<close>

theorem yaml_rules_take_priority:
  assumes "autoclose_check_sync yaml alert_fields enrichment = Some hit"
  shows "autoclose_check yaml db alert_fields enrichment = Some hit"
  using assms ac.run_stable
  by (auto simp: autoclose_check_sync_def autoclose_check_hit load_db_rules_def)

theorem yaml_rules_take_priority_witness:
  "autoclose_check (Inr [example_rule]) (Inl ValueError) example_fields None = Some example_hit"
  by (rule yaml_rules_take_priority) code_simp

section \<open>When no exception is swallowed\<close>

definition text_keys :: "string list" where
  "text_keys = [''rule_name_contains'', ''application'', ''url_category'', ''src_zone'',
     ''dst_asn_contains'', ''dst_hostname_contains'']"

fun is_text :: "pyval \<Rightarrow> bool" where
  "is_text (PyStr _) = True"
| "is_text _ = False"

definition text_or_none :: "pyval \<Rightarrow> bool" where
  "text_or_none v \<longleftrightarrow> v = PyNone \<or> is_text v"

definition typed_rule :: "autoclose_rule \<Rightarrow> bool" where
  "typed_rule r \<longleftrightarrow> rl_id r \<noteq> None \<and> rl_verdict r \<noteq> None \<and> rl_reason r \<noteq> Some None \<and>
     (\<forall>kv \<in> set (case rl_conditions r of None \<Rightarrow> [] | Some cs \<Rightarrow> cs).
        fst kv \<in> set text_keys \<longrightarrow> is_text (snd kv))"

definition typed_fields :: "pydict \<Rightarrow> bool" where
  "typed_fields f \<longleftrightarrow> (\<forall>k \<in> set coerced_fields. text_or_none (get f k))"

definition typed_enrichment :: "enrichment \<Rightarrow> bool" where
  "typed_enrichment e \<longleftrightarrow>
     (\<forall>kv \<in> set e.
        (fst kv = ''dst_asn'' \<or> fst kv = ''dst_hostname'' \<longrightarrow> text_or_none (snd kv)) \<and>
        (fst kv = ''dst_hostnames'' \<longrightarrow> (\<exists>hs. snd kv = PyList hs \<and> (\<forall>h \<in> set hs. text_or_none h))) \<and>
        (fst kv = ''abuseipdb_score'' \<longrightarrow> (\<exists>n. snd kv = PyInt n \<or> snd kv = PyNone)))"

definition completes :: "py_exc + 'a \<Rightarrow> bool" where
  "completes r = (\<not> isl r)"

lemma completes_simps [simp]: "\<not> completes (Inl e)" "completes (Inr x)"
  by (simp_all add: completes_def)

lemma completes_and_then: "completes r \<Longrightarrow> (\<And>x. r = Inr x \<Longrightarrow> completes (f x)) \<Longrightarrow> completes (and_then r f)"
  by (cases r) auto

lemma completesD: "completes r \<Longrightarrow> \<exists>x. r = Inr x"
  by (cases r) auto

lemma is_textE: "is_text v \<Longrightarrow> \<exists>s. v = PyStr s"
  by (cases v) auto

lemma compare_no_raise:
  "is_text v \<Longrightarrow> is_text w \<Longrightarrow> completes (same_lower v w)"
  "is_text v \<Longrightarrow> is_text w \<Longrightarrow> completes (contains_lower v w)"
  by (auto dest!: is_textE simp: same_lower_def contains_lower_def)

lemma any_contains_no_raise:
  "is_text v \<Longrightarrow> \<forall>h \<in> set hs. is_text h \<Longrightarrow> completes (any_contains v hs)"
proof (induction hs)
  case (Cons h hs)
  then show ?case by (simp add: completes_and_then compare_no_raise)
qed simp

lemma coerced_field_text:
  "typed_fields f \<Longrightarrow> k \<in> set coerced_fields \<Longrightarrow> is_text (get_default (coerce_alert_fields f) k (PyStr []))"
  by (auto simp: typed_fields_def text_or_none_def get_default_def coerce_alert_fields_def get_def
      split: option.splits)

definition texty :: "enrichment \<Rightarrow> bool" where
  "texty e \<longleftrightarrow> (\<forall>kv \<in> set e.
        (fst kv = ''dst_asn'' \<or> fst kv = ''dst_hostname'' \<longrightarrow> is_text (snd kv)) \<and>
        (fst kv = ''dst_hostnames'' \<longrightarrow> (\<exists>hs. snd kv = PyList hs \<and> (\<forall>h \<in> set hs. is_text h))) \<and>
        (fst kv = ''abuseipdb_score'' \<longrightarrow> (\<exists>n. snd kv = PyInt n \<or> snd kv = PyNone)))"

lemma coerce_enrichment_texty: "typed_enrichment e \<Longrightarrow> texty (coerce_enrichment e)"
  by (fastforce simp: typed_enrichment_def texty_def coerce_enrichment_def text_or_none_def
      split: if_splits)

lemma hostname_no_raise:
  assumes "texty e" "is_text v"
  shows "completes (hostname_matches e v)"
proof -
  let ?hs = "get_default (map_of e) ''dst_hostnames'' (PyList [])"
    and ?s = "get_default (map_of e) ''dst_hostname'' (PyStr [])"
  obtain hs where hs: "?hs = PyList hs" "\<forall>h \<in> set hs. is_text h"
    using assms by (fastforce simp: get_default_def texty_def split: option.splits dest: map_of_SomeD)
  have s: "is_text ?s"
    using assms by (fastforce simp: get_default_def texty_def split: option.splits dest: map_of_SomeD)
  show ?thesis
    using hs s assms by (auto simp: hostname_matches_def Let_def intro!: any_contains_no_raise)
qed

lemma abuse_no_raise: "texty e \<Longrightarrow> completes (abuse_matches e v)"
  by (fastforce simp: abuse_matches_def get_def texty_def split: option.splits pyval.splits
      dest: map_of_SomeD)

lemma asn_text: "texty e \<Longrightarrow> is_text (get_default (map_of e) ''dst_asn'' (PyStr []))"
  by (fastforce simp: get_default_def texty_def split: option.splits dest: map_of_SomeD)

lemma cond_ok_no_raise:
  assumes "typed_fields f" "texty e" "fst c \<in> set text_keys \<longrightarrow> is_text (snd c)"
  shows "completes (cond_ok (coerce_alert_fields f) e c)"
proof -
  have f: "is_text (get_default (coerce_alert_fields f) k (PyStr []))" if "k \<in> set coerced_fields" for k
    using coerced_field_text assms(1) that by blast
  show ?thesis
    using assms(3) f[of "''rule_name''"] f[of "''application''"] f[of "''url_category''"]
      f[of "''src_zone''"] hostname_no_raise[OF assms(2)] abuse_no_raise[OF assms(2)]
      asn_text[OF assms(2)]
    by (auto simp: cond_ok_def Let_def text_keys_def coerced_fields_def compare_no_raise
        split: pyval.splits)
qed

lemma all_conditions_no_raise:
  "typed_fields f \<Longrightarrow> texty e \<Longrightarrow> \<forall>kv \<in> set cs. fst kv \<in> set text_keys \<longrightarrow> is_text (snd kv) \<Longrightarrow>
   completes (all_conditions (coerce_alert_fields f) e cs)"
  by (induction cs) (auto intro!: completes_and_then cond_ok_no_raise)

lemma rule_no_raise:
  assumes "typed_fields f" "texty e" "typed_rule r"
  shows "completes (rule_fires (coerce_alert_fields f) e r)" and "completes (rule_result r)"
proof -
  have "is_text (get_default (coerce_alert_fields f) ''customer'' (PyStr []))"
    by (rule coerced_field_text[OF assms(1)]) (simp add: coerced_fields_def)
  then obtain s where s: "get_default (coerce_alert_fields f) ''customer'' (PyStr []) = PyStr s"
    using is_textE by blast
  have "completes (matches (case rl_conditions r of None \<Rightarrow> [] | Some cs \<Rightarrow> cs) (coerce_alert_fields f) e)"
    using assms by (auto simp: matches_def typed_rule_def intro!: all_conditions_no_raise)
  then show "completes (rule_fires (coerce_alert_fields f) e r)"
    using s by (auto simp: rule_fires_def Let_def split: option.splits)
  show "completes (rule_result r)"
    using assms(3) by (auto simp: rule_result_def typed_rule_def split: option.splits)
qed

lemma check_rules_no_raise:
  "typed_fields f \<Longrightarrow> texty e \<Longrightarrow> \<forall>r \<in> set rs. typed_rule r \<Longrightarrow>
   completes (check_rules (coerce_alert_fields f) e rs)"
  by (induction rs) (auto intro!: completes_and_then rule_no_raise split: if_splits)

definition typed_conditions :: "conditions \<Rightarrow> bool" where
  "typed_conditions cs \<longleftrightarrow> (\<forall>kv \<in> set cs. fst kv \<in> set text_keys \<longrightarrow> is_text (snd kv))"

lemma dict_set_typed:
  "typed_conditions d \<Longrightarrow> k \<in> set text_keys \<longrightarrow> is_text v \<Longrightarrow> typed_conditions (dict_set d k v)"
  by (induction d k v rule: dict_set.induct) (auto simp: typed_conditions_def)

lemma remap_foldl_typed:
  "typed_conditions d \<Longrightarrow>
   \<forall>kv \<in> set cs. db_key_remap (fst kv) \<in> set text_keys \<longrightarrow> is_text (snd kv) \<Longrightarrow>
   typed_conditions (foldl (\<lambda>d kv. dict_set d (db_key_remap (fst kv)) (snd kv)) d cs)"
  by (induction cs arbitrary: d) (simp_all add: dict_set_typed)

lemma remap_conditions_typed:
  "\<forall>kv \<in> set cs. db_key_remap (fst kv) \<in> set text_keys \<longrightarrow> is_text (snd kv) \<Longrightarrow>
   typed_conditions (remap_conditions cs)"
  unfolding remap_conditions_def by (rule remap_foldl_typed) (simp_all add: typed_conditions_def)

definition typed_row :: "autoclose_row \<Rightarrow> bool" where
  "typed_row r \<longleftrightarrow> (\<forall>kv \<in> set (acr_match r). db_key_remap (fst kv) \<in> set text_keys \<longrightarrow> is_text (snd kv))"

lemma db_rule_typed: "typed_row r \<Longrightarrow> typed_rule (db_rule_to_matcher_rule r)"
  using remap_conditions_typed[of "acr_match r"]
  by (simp add: typed_row_def typed_rule_def db_rule_to_matcher_rule_def typed_conditions_def)

text \<open>C17. With rules, alert fields and enrichment of the types the producers give them, nulls
  included, the adapter's swallowed-exception path is never taken: \<open>None\<close> really means that no
  rule, neither of the file nor an enabled one of the table, fires.\<close>

theorem autoclose_none_means_no_rule:
  assumes "typed_fields alert_fields" and "typed_enrichment enr"
    and "\<forall>r \<in> set yaml. typed_rule r" and "\<forall>r \<in> set rows. typed_row r"
  shows "autoclose_check (Inr yaml) (Inr rows) alert_fields (Some enr) = None \<longleftrightarrow>
    (\<forall>r \<in> set yaml \<union> db_rule_to_matcher_rule ` {r \<in> set rows. acr_enabled r}.
       rule_fires (coerce_alert_fields alert_fields) (coerce_enrichment enr) r = Inr False)"
proof -
  have "\<forall>r \<in> set (yaml @ load_db_rules (Inr rows)). typed_rule r"
    using assms by (auto simp: load_db_rules_def db_rule_typed)
  then obtain h where "check_rules (coerce_alert_fields alert_fields) (coerce_enrichment enr)
      (yaml @ load_db_rules (Inr rows)) = Inr h"
    using check_rules_no_raise coerce_enrichment_texty assms(1,2) completesD by blast
  then show ?thesis
    using ac.run_None_iff[of "coerce_alert_fields alert_fields" "coerce_enrichment enr"
        "yaml @ load_db_rules (Inr rows)"]
    by (cases h) (auto simp: autoclose_check_def load_db_rules_def)
qed

theorem autoclose_none_means_no_rule_witness:
  "rule_fires (coerce_alert_fields example_fields)
     (coerce_enrichment [(''dst_asn'', PyNone), (''dst_hostnames'', PyList [PyNone])])
     (db_rule_to_matcher_rule
       \<lparr>acr_rule_id = ''R'', acr_customer = None, acr_match = [(''dst_asn'', PyStr ''AS45102'')],
        acr_verdict = FP, acr_reason = [], acr_enabled = True\<rparr>) = Inr False"
proof -
  have "typed_fields example_fields" by code_simp
  moreover have "typed_enrichment [(''dst_asn'', PyNone), (''dst_hostnames'', PyList [PyNone])]"
    by (simp add: typed_enrichment_def text_or_none_def)
  moreover have "typed_row \<lparr>acr_rule_id = ''R'', acr_customer = None,
      acr_match = [(''dst_asn'', PyStr ''AS45102'')], acr_verdict = FP, acr_reason = [], acr_enabled = True\<rparr>"
    by code_simp
  moreover have "autoclose_check (Inr [])
     (Inr [\<lparr>acr_rule_id = ''R'', acr_customer = None, acr_match = [(''dst_asn'', PyStr ''AS45102'')],
        acr_verdict = FP, acr_reason = [], acr_enabled = True\<rparr>]) example_fields
     (Some [(''dst_asn'', PyNone), (''dst_hostnames'', PyList [PyNone])]) = None"
    by code_simp
  ultimately show ?thesis
    using autoclose_none_means_no_rule[of example_fields
      "[(''dst_asn'', PyNone), (''dst_hostnames'', PyList [PyNone])]" "[]"
      "[\<lparr>acr_rule_id = ''R'', acr_customer = None, acr_match = [(''dst_asn'', PyStr ''AS45102'')],
        acr_verdict = FP, acr_reason = [], acr_enabled = True\<rparr>]"] by simp
qed

section \<open>Two behaviours to know about\<close>

text \<open>A rule none of whose keys the matcher knows (\<open>dst_zone\<close>, say) fires on every alert of its
  customer, and one rule that raises hides every rule after it.\<close>

definition known_keys :: "string list" where
  "known_keys = [''rule_name_contains'', ''dst_ip'', ''src_ip'', ''application'', ''url_category'',
     ''src_zone'', ''dst_port''] @ enrichment_keys"

lemma unknown_conditions_fire:
  assumes "rl_customer r = None" "rl_conditions r = Some cs"
    "\<forall>k \<in> set (map fst cs). k \<notin> set known_keys"
  shows "rule_fires f e r = Inr True"
proof -
  have "all_conditions f e cs = Inr True"
    using assms(3) by (induction cs) (auto simp: cond_ok_def known_keys_def enrichment_keys_def)
  then show ?thesis using assms by (auto simp: rule_fires_def matches_def known_keys_def)
qed

lemma raising_rule_hides_the_rest:
  "rule_fires f e r = Inl x \<Longrightarrow> check_rules f e (r # rs) = Inl x"
  by simp

end
