(* ===== verification/Auth.thy ===== *)
theory Auth
  imports Enums
begin

text \<open>
  Authentication: \<open>auth/security.py\<close>, \<open>auth/deps.py\<close>, \<open>auth/mfa.py\<close>, the login and MFA
  routes of \<open>routes/auth.py\<close> and the user administration of \<open>routes/admin.py\<close>. The libraries
  the code calls (bcrypt, PyJWT, pyotp, Fernet) are the parameters of \<open>crypto\<close>; what a lemma needs
  of them is a hypothesis of that lemma. The e-mail a handler hands to the worker, best effort and
  never failing, is not part of the state.
\<close>

section \<open>Tables\<close>

record user =
  u_id :: uid
  u_email :: string
  u_password_hash :: string
  u_role :: role
  u_status :: user_status
  u_full_name :: "string option"
  u_last_login :: "instant option"
  u_totp :: "string option"   \<comment> \<open>the encrypted TOTP secret\<close>
  u_mfa :: bool
  u_version :: int

record audit_entry =
  au_user :: "uid option"
  au_action :: string
  au_target :: "uid option"
  au_tenant :: "uid option"
  au_ts :: instant

record auth_db =
  ad_users :: "user list"
  ad_audit :: "audit_entry list"

definition audit_log ::
  "instant \<Rightarrow> uid option \<Rightarrow> string \<Rightarrow> uid option \<Rightarrow> uid option \<Rightarrow> audit_entry list \<Rightarrow> audit_entry list" where
  "audit_log now user_id action target_id tenant_id l =
     l @ [\<lparr>au_user = user_id, au_action = action, au_target = target_id, au_tenant = tenant_id, au_ts = now\<rparr>]"

definition log_user :: "instant \<Rightarrow> uid option \<Rightarrow> string \<Rightarrow> uid option \<Rightarrow> auth_db \<Rightarrow> auth_db" where
  "log_user now who action target db = db\<lparr>ad_audit := audit_log now who action target None (ad_audit db)\<rparr>"

definition get_user :: "uid \<Rightarrow> auth_db \<Rightarrow> user option" where
  "get_user i db = get_row u_id i (ad_users db)"

definition upd_user :: "uid \<Rightarrow> (user \<Rightarrow> user) \<Rightarrow> auth_db \<Rightarrow> auth_db" where
  "upd_user i f db = db\<lparr>ad_users := upd_row u_id i f (ad_users db)\<rparr>"

section \<open>Tokens\<close>

text \<open>The claims of a token. \<open>cl_sub\<close> is \<open>None\<close> where the claim is absent or not a UUID, and
  then reading it raises an exception nothing catches (status 500).\<close>

record claims =
  cl_sub :: "uid option"
  cl_role :: "role option"
  cl_purpose :: "string option"
  cl_ver :: "pyval option"
  cl_jti :: "string option"
  cl_iat :: int
  cl_exp :: int
  cl_iss :: string

datatype jwt_error = Expired_Signature | Invalid_Token

record 't crypto =
  cr_encode :: "claims \<Rightarrow> 't"
  cr_decode :: "instant \<Rightarrow> 't \<Rightarrow> jwt_error + claims"
  cr_hash :: "string \<Rightarrow> string \<Rightarrow> string"        \<comment> \<open>salt, clipped password\<close>
  cr_check :: "string \<Rightarrow> string \<Rightarrow> bool option"   \<comment> \<open>\<open>None\<close> when bcrypt raises\<close>
  cr_totp :: "instant \<Rightarrow> string \<Rightarrow> string \<Rightarrow> bool option"
  cr_encrypt :: "string \<Rightarrow> string"
  cr_decrypt :: "string \<Rightarrow> string"
  cr_ttl_minutes :: int

definition seconds :: "instant \<Rightarrow> int" where
  "seconds t = t div 1000000"

definition bcrypt_max :: nat where
  "bcrypt_max = 72"

definition clip :: "string \<Rightarrow> string" where
  "clip password = take bcrypt_max password"

definition hash_password :: "'t crypto \<Rightarrow> string \<Rightarrow> string \<Rightarrow> string" where
  "hash_password cr salt password = cr_hash cr salt (clip password)"

definition verify_password :: "'t crypto \<Rightarrow> string \<Rightarrow> string \<Rightarrow> bool" where
  "verify_password cr password password_hash =
     (case cr_check cr (clip password) password_hash of None \<Rightarrow> False | Some b \<Rightarrow> b)"

definition mfa_challenge_ttl_seconds :: int where
  "mfa_challenge_ttl_seconds = 300"

definition access_claims :: "'t crypto \<Rightarrow> instant \<Rightarrow> string \<Rightarrow> uid \<Rightarrow> role \<Rightarrow> int \<Rightarrow> claims" where
  "access_claims cr now jti user_id r token_version =
     \<lparr>cl_sub = Some user_id, cl_role = Some r, cl_purpose = Some ''access'',
      cl_ver = Some (PyInt token_version), cl_jti = Some jti, cl_iat = seconds now,
      cl_exp = seconds (now + cr_ttl_minutes cr * 60 * 1000000), cl_iss = ''isoc''\<rparr>"

definition issue_token :: "'t crypto \<Rightarrow> instant \<Rightarrow> string \<Rightarrow> uid \<Rightarrow> role \<Rightarrow> int \<Rightarrow> 't" where
  "issue_token cr now jti user_id r token_version =
     cr_encode cr (access_claims cr now jti user_id r token_version)"

definition mfa_claims :: "instant \<Rightarrow> uid \<Rightarrow> claims" where
  "mfa_claims now user_id =
     \<lparr>cl_sub = Some user_id, cl_role = None, cl_purpose = Some ''mfa'', cl_ver = None,
      cl_jti = None, cl_iat = seconds now,
      cl_exp = seconds (now + mfa_challenge_ttl_seconds * 1000000), cl_iss = ''isoc''\<rparr>"

definition issue_mfa_challenge :: "'t crypto \<Rightarrow> instant \<Rightarrow> uid \<Rightarrow> 't" where
  "issue_mfa_challenge cr now user_id = cr_encode cr (mfa_claims now user_id)"

definition is_access_token :: "claims \<Rightarrow> bool" where
  "is_access_token payload \<longleftrightarrow> cl_purpose payload \<noteq> Some ''mfa''"

definition token_version_ok :: "claims \<Rightarrow> int \<Rightarrow> bool" where
  "token_version_ok payload current_version =
     (case py_int (case cl_ver payload of None \<Rightarrow> PyInt 0 | Some v \<Rightarrow> v) of
        Inl _ \<Rightarrow> False | Inr v \<Rightarrow> v = current_version)"

section \<open>The guards\<close>

definition current_user :: "'t crypto \<Rightarrow> instant \<Rightarrow> 't option \<Rightarrow> auth_db \<Rightarrow> http_error + user" where
  "current_user cr now creds db =
     (case creds of
        None \<Rightarrow> Inl (HTTP 401)
      | Some token \<Rightarrow>
          (case cr_decode cr now token of
             Inl _ \<Rightarrow> Inl (HTTP 401)
           | Inr payload \<Rightarrow>
               if \<not> is_access_token payload then Inl (HTTP 401)
               else case cl_sub payload of
                      None \<Rightarrow> Inl (HTTP 500)
                    | Some user_id \<Rightarrow>
                        (case get_user user_id db of
                           None \<Rightarrow> Inl (HTTP 401)
                         | Some u \<Rightarrow>
                             if u_status u \<noteq> Active then Inl (HTTP 401)
                             else if \<not> token_version_ok payload (u_version u) then Inl (HTTP 401)
                             else Inr u)))"

definition require_role :: "role list \<Rightarrow> user \<Rightarrow> http_error + user" where
  "require_role allowed u =
     (if u_role u \<notin> set allowed \<and> u_role u \<noteq> Admin then Inl (HTTP 403) else Inr u)"

definition require_admin :: "user \<Rightarrow> http_error + user" where
  "require_admin = require_role [Admin]"

definition require_analyst :: "user \<Rightarrow> http_error + user" where
  "require_analyst = require_role [Analyst]"

definition require_viewer :: "user \<Rightarrow> http_error + user" where
  "require_viewer = require_role [Viewer, Analyst]"

text \<open>A route behind a guard: the guard runs before the handler.\<close>

definition guarded ::
  "'t crypto \<Rightarrow> instant \<Rightarrow> 't option \<Rightarrow> (user \<Rightarrow> http_error + user) \<Rightarrow>
   (user \<Rightarrow> auth_db \<Rightarrow> (auth_db, 'a) handled) \<Rightarrow> auth_db \<Rightarrow> (auth_db, 'a) handled" where
  "guarded cr now creds guard h db =
     (case and_then (current_user cr now creds db) guard of
        Inl e \<Rightarrow> (db, Inl e)
      | Inr u \<Rightarrow> h u db)"

definition verify_code :: "'t crypto \<Rightarrow> instant \<Rightarrow> string \<Rightarrow> string \<Rightarrow> bool" where
  "verify_code cr now secret code =
     (if secret = [] \<or> code = [] then False
      else let c = filter (\<lambda>d. d \<noteq> CHR '' '') (strip code)
           in if c = [] \<or> (\<exists>d \<in> set c. \<not> is_digit d) then False
              else case cr_totp cr now secret c of None \<Rightarrow> False | Some b \<Rightarrow> b)"

section \<open>Login\<close>

datatype 't login_result = Full_Login 't | Mfa_Required 't

definition issue_full_login :: "'t crypto \<Rightarrow> instant \<Rightarrow> string \<Rightarrow> user \<Rightarrow> 't" where
  "issue_full_login cr now jti u = issue_token cr now jti (u_id u) (u_role u) (u_version u)"

definition mfa_active :: "user \<Rightarrow> bool" where
  "mfa_active u \<longleftrightarrow> u_mfa u \<and> truthy_str (u_totp u)"

definition login ::
  "'t crypto \<Rightarrow> instant \<Rightarrow> string \<Rightarrow> string \<Rightarrow> string \<Rightarrow> auth_db \<Rightarrow> (auth_db, 't login_result) handled" where
  "login cr now jti email password db =
     (case find (\<lambda>u. u_email u = lower email) (ad_users db) of
        None \<Rightarrow> commit_then_raise (log_user now None ''auth.login_failed'' None db) 401
      | Some u \<Rightarrow>
          if u_status u \<noteq> Active then
            commit_then_raise (log_user now None ''auth.login_failed'' None db) 401
          else if \<not> verify_password cr password (u_password_hash u) then
            commit_then_raise (log_user now None ''auth.login_failed'' (Some (u_id u)) db) 401
          else if mfa_active u then
            reply (log_user now (Some (u_id u)) ''auth.mfa_challenge'' (Some (u_id u)) db)
              (Mfa_Required (issue_mfa_challenge cr now (u_id u)))
          else
            reply (log_user now (Some (u_id u)) ''auth.login_ok'' (Some (u_id u))
                     (upd_user (u_id u) (\<lambda>u. u\<lparr>u_last_login := Some now\<rparr>) db))
              (Full_Login (issue_full_login cr now jti u)))"

definition login_mfa ::
  "'t crypto \<Rightarrow> instant \<Rightarrow> string \<Rightarrow> 't \<Rightarrow> string \<Rightarrow> auth_db \<Rightarrow> (auth_db, 't) handled" where
  "login_mfa cr now jti mfa_token code db =
     (case cr_decode cr now mfa_token of
        Inl _ \<Rightarrow> raise_http db 401
      | Inr payload \<Rightarrow>
          if cl_purpose payload \<noteq> Some ''mfa'' then raise_http db 401
          else case cl_sub payload of
                 None \<Rightarrow> raise_http db 500
               | Some i \<Rightarrow>
                   (case get_user i db of
                      None \<Rightarrow> raise_http db 401
                    | Some u \<Rightarrow>
                        if u_status u \<noteq> Active \<or> \<not> mfa_active u then raise_http db 401
                        else if \<not> verify_code cr now (cr_decrypt cr (opt_str (u_totp u))) code then
                          commit_then_raise
                            (log_user now (Some i) ''auth.mfa_login_failed'' (Some i) db) 401
                        else
                          reply (log_user now (Some i) ''auth.login_ok'' (Some i)
                                   (upd_user i (\<lambda>u. u\<lparr>u_last_login := Some now\<rparr>) db))
                            (issue_full_login cr now jti u)))"

section \<open>Multi-factor enrolment\<close>

definition mfa_enroll ::
  "'t crypto \<Rightarrow> instant \<Rightarrow> string \<Rightarrow> user \<Rightarrow> auth_db \<Rightarrow> (auth_db, string) handled" where
  "mfa_enroll cr now secret u db =
     (if u_mfa u then raise_http db 409
      else reply (log_user now (Some (u_id u)) ''auth.mfa_enroll_start'' (Some (u_id u))
                    (upd_user (u_id u) (\<lambda>u. u\<lparr>u_totp := Some (cr_encrypt cr secret)\<rparr>) db))
             secret)"

definition mfa_activate ::
  "'t crypto \<Rightarrow> instant \<Rightarrow> string \<Rightarrow> user \<Rightarrow> auth_db \<Rightarrow> (auth_db, unit) handled" where
  "mfa_activate cr now code u db =
     (if u_mfa u then reply db ()
      else if \<not> truthy_str (u_totp u) then raise_http db 400
      else if \<not> verify_code cr now (cr_decrypt cr (opt_str (u_totp u))) code then
        commit_then_raise
          (log_user now (Some (u_id u)) ''auth.mfa_activate_failed'' (Some (u_id u)) db) 400
      else reply (log_user now (Some (u_id u)) ''auth.mfa_enabled'' (Some (u_id u))
                    (upd_user (u_id u) (\<lambda>u. u\<lparr>u_mfa := True\<rparr>) db)) ())"

definition mfa_disable ::
  "'t crypto \<Rightarrow> instant \<Rightarrow> string \<Rightarrow> user \<Rightarrow> auth_db \<Rightarrow> (auth_db, unit) handled" where
  "mfa_disable cr now code u db =
     (let off = (\<lambda>u. u\<lparr>u_mfa := False, u_totp := None\<rparr>) in
      if \<not> mfa_active u then reply (upd_user (u_id u) off db) ()
      else if \<not> verify_code cr now (cr_decrypt cr (opt_str (u_totp u))) code then
        commit_then_raise
          (log_user now (Some (u_id u)) ''auth.mfa_disable_failed'' (Some (u_id u)) db) 400
      else reply (log_user now (Some (u_id u)) ''auth.mfa_disabled'' (Some (u_id u))
                    (upd_user (u_id u) off db)) ())"

section \<open>Passwords and logout\<close>

definition change_password ::
  "'t crypto \<Rightarrow> instant \<Rightarrow> string \<Rightarrow> string \<Rightarrow> string \<Rightarrow> string \<Rightarrow> user \<Rightarrow> auth_db
   \<Rightarrow> (auth_db, 't) handled" where
  "change_password cr now jti salt current new u db =
     (if \<not> verify_password cr current (u_password_hash u) then
        commit_then_raise
          (log_user now (Some (u_id u)) ''auth.password_change_failed'' (Some (u_id u)) db) 400
      else if verify_password cr new (u_password_hash u) then raise_http db 400
      else
        (let bump = (\<lambda>u. u\<lparr>u_password_hash := hash_password cr salt new, u_version := u_version u + 1\<rparr>)
         in reply (log_user now (Some (u_id u)) ''auth.password_changed'' (Some (u_id u))
                     (upd_user (u_id u) bump db))
              (issue_full_login cr now jti (bump u))))"

definition logout :: "instant \<Rightarrow> user \<Rightarrow> auth_db \<Rightarrow> (auth_db, unit) handled" where
  "logout now u db =
     reply (log_user now (Some (u_id u)) ''auth.logout'' (Some (u_id u))
              (upd_user (u_id u) (\<lambda>u. u\<lparr>u_version := u_version u + 1\<rparr>) db)) ()"

section \<open>User administration\<close>

text \<open>\<open>new_id\<close> and \<open>temp\<close> are the fresh UUID and the generated password; inserting a row whose
  key is taken fails in the database (status 500, rolled back).\<close>

definition create_user ::
  "'t crypto \<Rightarrow> instant \<Rightarrow> uid \<Rightarrow> string \<Rightarrow> string \<Rightarrow> string \<Rightarrow> string option \<Rightarrow> role \<Rightarrow> string option
   \<Rightarrow> user \<Rightarrow> auth_db \<Rightarrow> (auth_db, uid \<times> string option) handled" where
  "create_user cr now new_id salt temp email password r full_name admin db =
     (if find (\<lambda>u. u_email u = lower email) (ad_users db) \<noteq> None then raise_http db 409
      else if get_user new_id db \<noteq> None then raise_http db 500
      else
        (let pw = (if truthy_str password then opt_str password else temp);
             u = \<lparr>u_id = new_id, u_email = lower email, u_password_hash = hash_password cr salt pw,
                  u_role = r, u_status = Active, u_full_name = full_name, u_last_login = None,
                  u_totp = None, u_mfa = False, u_version = 0\<rparr>
         in reply (log_user now (Some (u_id admin)) ''user.create'' (Some new_id)
                     (db\<lparr>ad_users := ad_users db @ [u]\<rparr>))
              (new_id, if password = None then Some pw else None)))"

definition update_user ::
  "instant \<Rightarrow> uid \<Rightarrow> role option \<Rightarrow> user_status option \<Rightarrow> string option \<Rightarrow> user \<Rightarrow> auth_db
   \<Rightarrow> (auth_db, unit) handled" where
  "update_user now user_id new_role new_status new_name admin db =
     (case get_user user_id db of
        None \<Rightarrow> raise_http db 404
      | Some u \<Rightarrow>
          if u_id u = u_id admin \<and> new_role \<notin> {None, Some Admin} then raise_http db 400
          else if u_id u = u_id admin \<and> new_status \<notin> {None, Some Active} then raise_http db 400
          else
            (let edit = (\<lambda>u. u\<lparr>u_full_name := (case new_name of None \<Rightarrow> u_full_name u | Some n \<Rightarrow> Some n),
                            u_role := (case new_role of None \<Rightarrow> u_role u | Some r \<Rightarrow> r),
                            u_status := (case new_status of None \<Rightarrow> u_status u | Some s \<Rightarrow> s)\<rparr>)
             in if edit u = u then reply db ()
                else reply (log_user now (Some (u_id admin)) ''user.update'' (Some user_id)
                              (upd_user user_id edit db)) ()))"

definition reset_password ::
  "'t crypto \<Rightarrow> instant \<Rightarrow> string \<Rightarrow> string \<Rightarrow> uid \<Rightarrow> user \<Rightarrow> auth_db \<Rightarrow> (auth_db, string) handled" where
  "reset_password cr now salt temp user_id admin db =
     (case get_user user_id db of
        None \<Rightarrow> raise_http db 404
      | Some u \<Rightarrow>
          reply (log_user now (Some (u_id admin)) ''user.reset_password'' (Some user_id)
                   (upd_user user_id
                      (\<lambda>u. u\<lparr>u_password_hash := hash_password cr salt temp, u_version := u_version u + 1\<rparr>) db))
            temp)"

definition delete_user :: "instant \<Rightarrow> uid \<Rightarrow> user \<Rightarrow> auth_db \<Rightarrow> (auth_db, unit) handled" where
  "delete_user now user_id admin db =
     (case get_user user_id db of
        None \<Rightarrow> raise_http db 404
      | Some u \<Rightarrow>
          if u_id u = u_id admin then raise_http db 400
          else
            (let logged = log_user now (Some (u_id admin)) ''user.delete'' (Some user_id) db
             in reply (logged\<lparr>ad_users := del_row u_id user_id (ad_users logged)\<rparr>) ()))"

section \<open>The requests as one state machine\<close>

text \<open>What a request draws at random: a token identifier, a salt, a generated password, a UUID.\<close>

record nonce =
  no_jti :: string
  no_salt :: string
  no_temp :: string
  no_id :: uid

datatype 't auth_op =
    Login string string
  | Login_Mfa 't string
  | Enroll "'t option" string
  | Activate "'t option" string
  | Disable "'t option" string
  | Change_Password "'t option" string string
  | Logout "'t option"
  | Create_User "'t option" string "string option" role "string option"
  | Update_User "'t option" uid "role option" "user_status option" "string option"
  | Reset_Password "'t option" uid
  | Delete_User "'t option" uid

definition quiet :: "(auth_db, 'a) handled \<Rightarrow> auth_db \<times> 't option" where
  "quiet r = (fst r, None)"

definition loud :: "(auth_db, 't) handled \<Rightarrow> auth_db \<times> 't option" where
  "loud r = (fst r, case snd r of Inl _ \<Rightarrow> None | Inr t \<Rightarrow> Some t)"

text \<open>The state after a request and the full access token it handed out, if any.\<close>

fun run_op :: "'t crypto \<Rightarrow> instant \<Rightarrow> nonce \<Rightarrow> 't auth_op \<Rightarrow> auth_db \<Rightarrow> auth_db \<times> 't option" where
  "run_op cr now n (Login email pw) db =
     (let r = login cr now (no_jti n) email pw db
      in (fst r, case snd r of Inr (Full_Login t) \<Rightarrow> Some t | _ \<Rightarrow> None))"
| "run_op cr now n (Login_Mfa tok code) db = loud (login_mfa cr now (no_jti n) tok code db)"
| "run_op cr now n (Enroll c secret) db = quiet (guarded cr now c Inr (mfa_enroll cr now secret) db)"
| "run_op cr now n (Activate c code) db = quiet (guarded cr now c Inr (mfa_activate cr now code) db)"
| "run_op cr now n (Disable c code) db = quiet (guarded cr now c Inr (mfa_disable cr now code) db)"
| "run_op cr now n (Change_Password c cur new) db =
     loud (guarded cr now c Inr (change_password cr now (no_jti n) (no_salt n) cur new) db)"
| "run_op cr now n (Logout c) db = quiet (guarded cr now c Inr (logout now) db)"
| "run_op cr now n (Create_User c email pw r name) db =
     quiet (guarded cr now c require_admin
       (create_user cr now (no_id n) (no_salt n) (no_temp n) email pw r name) db)"
| "run_op cr now n (Update_User c i r s name) db =
     quiet (guarded cr now c require_admin (update_user now i r s name) db)"
| "run_op cr now n (Reset_Password c i) db =
     quiet (guarded cr now c require_admin (reset_password cr now (no_salt n) (no_temp n) i) db)"
| "run_op cr now n (Delete_User c i) db =
     quiet (guarded cr now c require_admin (delete_user now i) db)"

record 't auth_world =
  aw_db :: auth_db
  aw_issued :: "'t list"   \<comment> \<open>every full access token handed out so far\<close>
  aw_used :: "uid set"         \<comment> \<open>every UUID a user has ever had\<close>

inductive auth_reach :: "'t crypto \<Rightarrow> auth_db \<Rightarrow> 't auth_world \<Rightarrow> bool" for cr db0 where
  init: "auth_reach cr db0 \<lparr>aw_db = db0, aw_issued = [], aw_used = u_id ` set (ad_users db0)\<rparr>"
| request: "auth_reach cr db0 w \<Longrightarrow> no_id n \<notin> aw_used w \<Longrightarrow>
    run_op cr now n op (aw_db w) = (db', tok) \<Longrightarrow>
    auth_reach cr db0
      \<lparr>aw_db = db',
       aw_issued = aw_issued w @ (case tok of None \<Rightarrow> [] | Some t \<Rightarrow> [t]),
       aw_used = aw_used w \<union> u_id ` set (ad_users db')\<rparr>"

section \<open>Lemmas\<close>

lemma get_user_log [simp]: "get_user i (log_user now a b c db) = get_user i db"
  by (simp add: get_user_def log_user_def)

lemma users_log [simp]: "ad_users (log_user now a b c db) = ad_users db"
  by (simp add: log_user_def)

lemma get_user_upd [simp]:
  "(\<And>u. u_id (f u) = u_id u) \<Longrightarrow>
   get_user j (upd_user i f db) = (if j = i then map_option f (get_user j db) else get_user j db)"
  by (simp add: get_user_def upd_user_def)

lemma ids_upd [simp]:
  "(\<And>u. u_id (f u) = u_id u) \<Longrightarrow> map u_id (ad_users (upd_user i f db)) = map u_id (ad_users db)"
  by (simp add: upd_user_def)

lemma get_user_del [simp]:
  "get_user j (db\<lparr>ad_users := del_row u_id i (ad_users db')\<rparr>) = (if j = i then None else get_user j db')"
  by (simp add: get_user_def)

lemma get_user_id: "get_user i db = Some u \<Longrightarrow> u_id u = i"
  unfolding get_user_def by (drule get_row_Some) simp

lemma get_user_add:
  "get_user j (db\<lparr>ad_users := ad_users db @ [u]\<rparr>) =
     (case get_user j db of Some v \<Rightarrow> Some v | None \<Rightarrow> if u_id u = j then Some u else None)"
  by (simp add: get_user_def get_row_append split: option.split)

lemma current_user_row:
  "current_user cr now creds db = Inr u \<Longrightarrow> get_user (u_id u) db = Some u \<and> u_status u = Active"
  by (auto simp: current_user_def get_user_id split: if_splits sum.splits option.splits)

lemma require_admin_Inr: "require_admin u = Inr v \<longleftrightarrow> v = u \<and> u_role u = Admin"
  by (auto simp: require_admin_def require_role_def)

text \<open>What one request may do to the table of users.\<close>

definition evolves :: "uid \<Rightarrow> auth_db \<Rightarrow> auth_db \<Rightarrow> bool" where
  "evolves new db db' \<longleftrightarrow>
     (\<forall>i u'. get_user i db' = Some u' \<longrightarrow>
        (i = new \<and> get_user i db = None) \<or>
        (\<exists>u. get_user i db = Some u \<and> u_version u \<le> u_version u'))"

definition has_admin :: "auth_db \<Rightarrow> bool" where
  "has_admin db \<longleftrightarrow> (\<exists>i u. get_user i db = Some u \<and> u_role u = Admin \<and> u_status u = Active)"

definition token_for :: "'t crypto \<Rightarrow> auth_db \<Rightarrow> 't \<Rightarrow> bool" where
  "token_for cr db t \<longleftrightarrow>
     (\<exists>i u now jti r. get_user i db = Some u \<and> t = issue_token cr now jti i r (u_version u))"

definition op_ok :: "'t crypto \<Rightarrow> uid \<Rightarrow> auth_db \<Rightarrow> auth_db \<times> 't option \<Rightarrow> bool" where
  "op_ok cr new db r \<longleftrightarrow>
     evolves new db (fst r) \<and> distinct (map u_id (ad_users (fst r))) \<and>
     (has_admin db \<longrightarrow> has_admin (fst r)) \<and> (\<forall>t. snd r = Some t \<longrightarrow> token_for cr (fst r) t)"

lemma evolves_refl: "evolves new db db"
  by (auto simp: evolves_def)

lemma op_ok_same [simp]: "distinct (map u_id (ad_users db)) \<Longrightarrow> op_ok cr new db (db, None)"
  by (simp add: op_ok_def evolves_refl)

lemma op_ok_log [simp]:
  "op_ok cr new db (log_user now a b c db', t) = op_ok cr new db (db', t)"
  by (simp add: op_ok_def evolves_def has_admin_def token_for_def)

lemma op_ok_upd:
  assumes "distinct (map u_id (ad_users db))" "\<And>u. u_id (f u) = u_id u"
    "\<And>u. u_version u \<le> u_version (f u)"
    "\<And>u. u_role (f u) = u_role u" "\<And>u. u_status (f u) = u_status u"
  shows "op_ok cr new db (upd_user i f db, None)"
proof -
  have "evolves new db (upd_user i f db)" using assms by (auto simp: evolves_def)
  moreover have "has_admin db \<Longrightarrow> has_admin (upd_user i f db)"
    using assms unfolding has_admin_def
    by (metis get_user_upd option.simps(9))
  ultimately show ?thesis using assms by (simp add: op_ok_def)
qed

lemma op_ok_token:
  "op_ok cr new db (db', None) \<Longrightarrow> get_user i db' = Some u \<Longrightarrow>
   op_ok cr new db (db', Some (issue_token cr now jti i r (u_version u)))"
  unfolding op_ok_def token_for_def by (simp, blast)

lemma login_ok:
  assumes "distinct (map u_id (ad_users db))"
  shows "op_ok cr (no_id n) db (run_op cr now n (Login e pw) db)"
proof (cases "find (\<lambda>u. u_email u = lower e) (ad_users db)")
  case None
  then show ?thesis using assms by (simp add: login_def handled_defs Let_def)
next
  case (Some u)
  then have "get_user (u_id u) db = Some u"
    using assms by (auto simp: get_user_def intro!: get_row_in dest: find_Some_in)
  with Some show ?thesis using assms
    by (auto simp: login_def handled_defs Let_def issue_full_login_def op_ok_upd
        intro!: op_ok_token[where u = "u\<lparr>u_last_login := Some now\<rparr>", simplified])
qed

lemma login_mfa_ok:
  assumes "distinct (map u_id (ad_users db))"
  shows "op_ok cr (no_id n) db (run_op cr now n (Login_Mfa tok code) db)"
  using assms
  by (auto simp: login_mfa_def handled_defs Let_def loud_def issue_full_login_def op_ok_upd
      dest: get_user_id split: sum.splits option.splits
      intro!: op_ok_token[where u = "u\<lparr>u_last_login := Some now\<rparr>" for u, simplified])

lemma guarded_ok:
  assumes "distinct (map u_id (ad_users db))"
    and "\<And>u. get_user (u_id u) db = Some u \<Longrightarrow> u_status u = Active \<Longrightarrow> guard u = Inr u \<Longrightarrow>
      op_ok cr new db (fst (h u db), None)"
    and "guard = Inr \<or> guard = require_admin"
  shows "op_ok cr new db (quiet (guarded cr now c guard h db))"
proof (cases "and_then (current_user cr now c db) guard")
  case (Inl e)
  then show ?thesis using assms(1) by (simp add: guarded_def quiet_def)
next
  case (Inr u)
  then have "current_user cr now c db = Inr u" "guard u = Inr u"
    using assms(3) by (auto simp: and_then_Inr require_admin_Inr)
  then show ?thesis
    using Inr assms(2)[of u] current_user_row[of cr now c db u] by (auto simp: guarded_def quiet_def)
qed

lemma self_service_ok:
  assumes "distinct (map u_id (ad_users db))"
  shows "op_ok cr (no_id n) db (run_op cr now n (Enroll c s) db)"
    and "op_ok cr (no_id n) db (run_op cr now n (Activate c code) db)"
    and "op_ok cr (no_id n) db (run_op cr now n (Disable c code) db)"
    and "op_ok cr (no_id n) db (run_op cr now n (Logout c) db)"
  using assms
  by (auto intro!: guarded_ok op_ok_upd simp: mfa_enroll_def mfa_activate_def mfa_disable_def
      logout_def handled_defs Let_def)

lemma change_password_ok:
  assumes d: "distinct (map u_id (ad_users db))"
  shows "op_ok cr (no_id n) db (run_op cr now n (Change_Password c cur new) db)"
proof (cases "current_user cr now c db")
  case (Inl e)
  then show ?thesis using d by (simp add: guarded_def loud_def)
next
  case (Inr u)
  let ?bump = "\<lambda>u. u\<lparr>u_password_hash := hash_password cr (no_salt n) new, u_version := u_version u + 1\<rparr>"
  from Inr have u: "get_user (u_id u) db = Some u" by (simp add: current_user_row)
  have "op_ok cr (no_id n) db (upd_user (u_id u) ?bump db,
      Some (issue_token cr now (no_jti n) (u_id u) (u_role u) (u_version (?bump u))))"
    using d u by (intro op_ok_token op_ok_upd) auto
  then show ?thesis using Inr d
    by (auto simp: guarded_def loud_def change_password_def handled_defs Let_def issue_full_login_def)
qed

lemma has_admin_keep:
  assumes "get_user (u_id a) db = Some a" "u_role a = Admin" "u_status a = Active"
    and "get_user (u_id a) db' = Some a'" "u_role a' = Admin" "u_status a' = Active"
  shows "has_admin db'"
  using assms unfolding has_admin_def by blast

lemma op_ok_add:
  assumes "distinct (map u_id (ad_users db))" "get_user new db = None" "u_id v = new"
    "new \<notin> u_id ` set (ad_users db)"
  shows "op_ok cr new db (db\<lparr>ad_users := ad_users db @ [v]\<rparr>, None)"
proof -
  have g: "get_user j (db\<lparr>ad_users := ad_users db @ [v]\<rparr>) =
      (if j = new then Some v else get_user j db)" for j
    using assms by (auto simp: get_user_add split: option.split)
  have "has_admin (db\<lparr>ad_users := ad_users db @ [v]\<rparr>)" if h: "has_admin db"
  proof -
    from h obtain i u where "get_user i db = Some u" "u_role u = Admin" "u_status u = Active"
      unfolding has_admin_def by blast
    moreover from this(1) assms(2) have "i \<noteq> new" by auto
    ultimately show ?thesis unfolding has_admin_def g by auto
  qed
  moreover have "evolves new db (db\<lparr>ad_users := ad_users db @ [v]\<rparr>)"
    unfolding evolves_def g using assms by auto
  ultimately show ?thesis using assms by (simp add: op_ok_def)
qed

lemma create_user_ok:
  assumes d: "distinct (map u_id (ad_users db))"
  shows "op_ok cr (no_id n) db (run_op cr now n (Create_User c e pw r name) db)"
  unfolding run_op.simps
proof (rule guarded_ok[OF d])
  fix u assume "get_user (u_id u) db = Some u"
  show "op_ok cr (no_id n) db
    (fst (create_user cr now (no_id n) (no_salt n) (no_temp n) e pw r name u db), None)"
  proof (cases "get_user (no_id n) db")
    case None
    then have "no_id n \<notin> u_id ` set (ad_users db)"
      by (simp add: get_user_def get_row_None_iff)
    then have "op_ok cr (no_id n) db (db\<lparr>ad_users := ad_users db @ [v]\<rparr>, None)"
      if "u_id v = no_id n" for v
      using d None that op_ok_add by blast
    then show ?thesis
      using d None by (simp add: create_user_def handled_defs Let_def)
  qed (use d in \<open>simp add: create_user_def handled_defs\<close>)
qed simp

lemma update_user_ok:
  assumes d: "distinct (map u_id (ad_users db))"
  shows "op_ok cr (no_id n) db (run_op cr now n (Update_User c i r s name) db)"
  unfolding run_op.simps
proof (rule guarded_ok[OF d])
  fix a assume a: "get_user (u_id a) db = Some a" "u_status a = Active" "require_admin a = Inr a"
  let ?edit = "\<lambda>u. u\<lparr>u_full_name := (case name of None \<Rightarrow> u_full_name u | Some n \<Rightarrow> Some n),
     u_role := (case r of None \<Rightarrow> u_role u | Some r \<Rightarrow> r),
     u_status := (case s of None \<Rightarrow> u_status u | Some s \<Rightarrow> s)\<rparr>"
  have admin: "u_role a = Admin" using a(3) by (simp add: require_admin_Inr)
  have keep: "has_admin (upd_user i ?edit db)"
    if "i = u_id a \<longrightarrow> (\<forall>x. r = Some x \<longrightarrow> x = Admin) \<and> (\<forall>x. s = Some x \<longrightarrow> x = Active)"
    using that a(1,2) admin
    by (intro has_admin_keep[OF a(1) admin a(2), where a' = "if i = u_id a then ?edit a else a"])
      (auto split: option.splits)
  have "evolves (no_id n) db (upd_user i ?edit db)" by (auto simp: evolves_def)
  with keep have "op_ok cr (no_id n) db (upd_user i ?edit db, None)"
    if "i = u_id a \<longrightarrow> (\<forall>x. r = Some x \<longrightarrow> x = Admin) \<and> (\<forall>x. s = Some x \<longrightarrow> x = Active)"
    using that d by (simp add: op_ok_def)
  then show "op_ok cr (no_id n) db (fst (update_user now i r s name a db), None)"
    using d by (auto simp: update_user_def handled_defs Let_def dest: get_user_id split: option.split)
qed simp

lemma reset_password_ok:
  assumes "distinct (map u_id (ad_users db))"
  shows "op_ok cr (no_id n) db (run_op cr now n (Reset_Password c i) db)"
  using assms
  by (auto intro!: guarded_ok op_ok_upd simp: reset_password_def handled_defs split: option.split)

lemma delete_user_ok:
  assumes d: "distinct (map u_id (ad_users db))"
  shows "op_ok cr (no_id n) db (run_op cr now n (Delete_User c i) db)"
  unfolding run_op.simps
proof (rule guarded_ok[OF d])
  fix a assume a: "get_user (u_id a) db = Some a" "u_status a = Active" "require_admin a = Inr a"
  let ?db' = "(log_user now (Some (u_id a)) ''user.delete'' (Some i) db)
     \<lparr>ad_users := del_row u_id i (ad_users db)\<rparr>"
  have admin: "u_role a = Admin" using a(3) by (simp add: require_admin_Inr)
  have g: "get_user j ?db' = (if j = i then None else get_user j db)" for j
    by (simp add: get_user_def)
  have "i \<noteq> u_id a \<Longrightarrow> has_admin ?db'"
    by (rule has_admin_keep[OF a(1) admin a(2), where a' = a]) (simp_all add: g a admin)
  moreover have "distinct (map u_id (ad_users ?db'))"
    using d by (simp add: del_row_def distinct_map inj_on_def)
  moreover have "evolves (no_id n) db ?db'" by (auto simp: evolves_def g)
  ultimately have "i \<noteq> u_id a \<Longrightarrow> op_ok cr (no_id n) db (?db', None)"
    by (simp add: op_ok_def)
  then show "op_ok cr (no_id n) db (fst (delete_user now i a db), None)"
    using d by (auto simp: delete_user_def handled_defs Let_def dest: get_user_id split: option.split)
qed simp

lemma run_op_ok:
  assumes "distinct (map u_id (ad_users db))"
  shows "op_ok cr (no_id n) db (run_op cr now n op db)"
  using assms
  by (cases op) (simp_all only: login_ok login_mfa_ok self_service_ok change_password_ok create_user_ok
      update_user_ok reset_password_ok delete_user_ok)

section \<open>What holds in every reachable state\<close>

text \<open>Every token handed out carries a user that existed and a version the user's row has not
  fallen below since.\<close>

definition stands :: "'t crypto \<Rightarrow> uid set \<Rightarrow> auth_db \<Rightarrow> 't \<Rightarrow> bool" where
  "stands cr used db t \<longleftrightarrow>
     (\<exists>i now jti r v. t = issue_token cr now jti i r v \<and> i \<in> used \<and>
        (\<forall>u. get_user i db = Some u \<longrightarrow> v \<le> u_version u))"

definition auth_inv :: "'t crypto \<Rightarrow> 't auth_world \<Rightarrow> bool" where
  "auth_inv cr w \<longleftrightarrow>
     distinct (map u_id (ad_users (aw_db w))) \<and> u_id ` set (ad_users (aw_db w)) \<subseteq> aw_used w \<and>
     (\<forall>t \<in> set (aw_issued w). stands cr (aw_used w) (aw_db w) t)"

lemma get_user_used: "get_user i db = Some u \<Longrightarrow> i \<in> u_id ` set (ad_users db)"
  unfolding get_user_def by (drule get_row_Some) auto

lemma auth_inv_init:
  "distinct (map u_id (ad_users db0)) \<Longrightarrow>
   auth_inv cr \<lparr>aw_db = db0, aw_issued = [], aw_used = u_id ` set (ad_users db0)\<rparr>"
  by (simp add: auth_inv_def)

lemma stands_evolves:
  assumes "stands cr used db t" "evolves new db db'" "new \<notin> used"
  shows "stands cr (used \<union> used') db' t"
proof -
  from assms(1) obtain i now jti r v where t: "t = issue_token cr now jti i r v" "i \<in> used"
    and v: "\<forall>u. get_user i db = Some u \<longrightarrow> v \<le> u_version u"
    unfolding stands_def by (elim exE conjE)
  have "v \<le> u_version u'" if g: "get_user i db' = Some u'" for u'
  proof -
    have "i \<noteq> new" using t(2) assms(3) by auto
    with assms(2) g obtain u where "get_user i db = Some u" "u_version u \<le> u_version u'"
      unfolding evolves_def by blast
    with v show ?thesis by fastforce
  qed
  with t show ?thesis unfolding stands_def by (intro exI[of _ i] exI[of _ now] exI[of _ jti] exI[of _ r] exI[of _ v]) simp
qed

lemma token_for_stands:
  assumes "token_for cr db t"
  shows "stands cr (used \<union> u_id ` set (ad_users db)) db t"
proof -
  from assms obtain i u now jti r where g: "get_user i db = Some u"
    and t: "t = issue_token cr now jti i r (u_version u)"
    unfolding token_for_def by (elim exE conjE)
  from g have "i \<in> u_id ` set (ad_users db)" by (rule get_user_used)
  with g t show ?thesis unfolding stands_def by (intro exI[of _ i] exI[of _ now] exI[of _ jti] exI[of _ r] exI[of _ "u_version u"]) simp
qed

lemma auth_inv_request:
  assumes "auth_inv cr w" "no_id n \<notin> aw_used w" "run_op cr now n op (aw_db w) = (db', tok)"
  shows "auth_inv cr \<lparr>aw_db = db', aw_issued = aw_issued w @ (case tok of None \<Rightarrow> [] | Some t \<Rightarrow> [t]),
       aw_used = aw_used w \<union> u_id ` set (ad_users db')\<rparr>"
proof -
  have "distinct (map u_id (ad_users (aw_db w)))" using assms(1) by (simp add: auth_inv_def)
  from run_op_ok[OF this, of cr n now op] assms(3) have ok: "op_ok cr (no_id n) (aw_db w) (db', tok)"
    by simp
  then have ev: "evolves (no_id n) (aw_db w) db'" and d: "distinct (map u_id (ad_users db'))"
    and tk: "\<And>t. tok = Some t \<Longrightarrow> token_for cr db' t" by (simp_all add: op_ok_def)
  let ?used = "aw_used w \<union> u_id ` set (ad_users db')"
  have "stands cr ?used db' t" if "t \<in> set (aw_issued w)" for t
  proof -
    from that assms(1) have "stands cr (aw_used w) (aw_db w) t" by (simp add: auth_inv_def)
    then show ?thesis using ev assms(2) stands_evolves by fast
  qed
  moreover have "stands cr ?used db' t" if "tok = Some t" for t
    using tk[OF that] token_for_stands by fast
  ultimately show ?thesis using d by (auto simp: auth_inv_def split: option.splits)
qed

lemma auth_reach_inv:
  assumes "distinct (map u_id (ad_users db0))"
  shows "auth_reach cr db0 w \<Longrightarrow> auth_inv cr w"
  by (induction rule: auth_reach.induct) (blast intro: auth_inv_init auth_inv_request assms)+

text \<open>PyJWT gives back the claims it signed, or refuses the token with any of its errors: expired, issued in the
  future, of another issuer.\<close>

definition jwt_faithful :: "'t crypto \<Rightarrow> bool" where
  "jwt_faithful cr \<longleftrightarrow> (\<forall>c now c'. cr_decode cr now (cr_encode cr c) = Inr c' \<longrightarrow> c' = c)"

lemma jwt_faithfulD:
  assumes "jwt_faithful cr"
  shows "cr_decode cr now (cr_encode cr c) = Inr c \<or> (\<exists>e. cr_decode cr now (cr_encode cr c) = Inl e)"
proof (cases "cr_decode cr now (cr_encode cr c)")
  case (Inr c')
  with assms show ?thesis unfolding jwt_faithful_def by blast
qed blast

lemma stale_token_refused:
  assumes "jwt_faithful cr" "\<And>u. get_user i db = Some u \<Longrightarrow> v < u_version u"
  shows "\<exists>e. current_user cr now (Some (issue_token cr t0 jti i r v)) db = Inl e"
proof -
  let ?c = "access_claims cr t0 jti i r v"
  consider "cr_decode cr now (cr_encode cr ?c) = Inr ?c"
    | e where "cr_decode cr now (cr_encode cr ?c) = Inl e"
    using jwt_faithfulD[OF assms(1)] by blast
  then show ?thesis
  proof cases
    case 1
    then show ?thesis using assms(2)
      by (cases "get_user i db")
        (force simp: current_user_def issue_token_def access_claims_def token_version_ok_def)+
  next
    case 2
    then show ?thesis by (simp add: current_user_def issue_token_def)
  qed
qed

lemma accepted_token_user:
  assumes "jwt_faithful cr"
    and "current_user cr now (Some (issue_token cr t0 jti i r v)) db = Inr u"
  shows "u_id u = i \<and> u_version u = v"
proof -
  let ?c = "access_claims cr t0 jti i r v"
  have "cr_decode cr now (cr_encode cr ?c) = Inr ?c"
    using assms jwt_faithfulD[OF assms(1), of now ?c] by (auto simp: current_user_def issue_token_def)
  then show ?thesis using assms(2)
    by (auto simp: current_user_def issue_token_def access_claims_def token_version_ok_def get_user_id
        split: if_splits option.splits)
qed

section \<open>Properties\<close>

text \<open>The interim challenge token of a two-factor login never authenticates a request: whatever
  the state of the database, \<open>current_user\<close> refuses it.\<close>

theorem mfa_challenge_never_authenticates:
  assumes "jwt_faithful cr"
  shows "current_user cr now (Some (issue_mfa_challenge cr t0 i)) db = Inl (HTTP 401)"
proof -
  have "cr_decode cr now (cr_encode cr (mfa_claims t0 i)) = Inr (mfa_claims t0 i) \<or>
      (\<exists>e. cr_decode cr now (cr_encode cr (mfa_claims t0 i)) = Inl e)"
    using assms by (rule jwt_faithfulD)
  then show ?thesis
    by (auto simp: current_user_def issue_mfa_challenge_def is_access_token_def mfa_claims_def)
qed

text \<open>A concrete stand-in for the libraries: a token is its claims and a password hash the clipped
  password.\<close>

definition open_crypto :: "claims crypto" where
  "open_crypto =
     \<lparr>cr_encode = id, cr_decode = (\<lambda>now c. if cl_exp c < seconds now then Inl Expired_Signature else Inr c),
      cr_hash = (\<lambda>_ p. p), cr_check = (\<lambda>p h. Some (p = h)), cr_totp = (\<lambda>_ s c. Some (s = c)),
      cr_encrypt = id, cr_decrypt = id, cr_ttl_minutes = 480\<rparr>"

lemma open_crypto_faithful: "jwt_faithful open_crypto"
  by (simp add: jwt_faithful_def open_crypto_def)

definition example_user :: "uid \<Rightarrow> role \<Rightarrow> user" where
  "example_user i r =
     \<lparr>u_id = i, u_email = ''u'' @ show_nat i, u_password_hash = ''pw'', u_role = r, u_status = Active,
      u_full_name = None, u_last_login = None, u_totp = None, u_mfa = False, u_version = 0\<rparr>"

definition example_auth_db :: auth_db where
  "example_auth_db = \<lparr>ad_users = [example_user 1 Admin, example_user 2 Analyst], ad_audit = []\<rparr>"

definition example_nonce :: nonce where
  "example_nonce = \<lparr>no_jti = ''j'', no_salt = ''s'', no_temp = ''t'', no_id = 9\<rparr>"

theorem mfa_challenge_never_authenticates_witness:
  "current_user open_crypto 0 (Some (issue_mfa_challenge open_crypto 0 1)) example_auth_db = Inl (HTTP 401)"
  by (rule mfa_challenge_never_authenticates[OF open_crypto_faithful])

text \<open>The requests that end a user's sessions, and when they succeed.\<close>

definition revokes :: "'t auth_op \<Rightarrow> uid \<Rightarrow> user \<Rightarrow> bool" where
  "revokes op i actor \<longleftrightarrow>
     (case op of
        Logout _ \<Rightarrow> i = u_id actor
      | Change_Password _ _ _ \<Rightarrow> i = u_id actor
      | Reset_Password _ j \<Rightarrow> i = j
      | _ \<Rightarrow> False)"

fun op_creds :: "'t auth_op \<Rightarrow> 't option" where
  "op_creds (Logout c) = c"
| "op_creds (Change_Password c _ _) = c"
| "op_creds (Reset_Password c _) = c"
| "op_creds _ = None"

fun op_succeeds :: "'t crypto \<Rightarrow> instant \<Rightarrow> nonce \<Rightarrow> 't auth_op \<Rightarrow> user \<Rightarrow> auth_db \<Rightarrow> bool" where
  "op_succeeds cr now n (Logout c) u db = True"
| "op_succeeds cr now n (Change_Password c cur new) u db =
     (\<not> isl (snd (change_password cr now (no_jti n) (no_salt n) cur new u db)))"
| "op_succeeds cr now n (Reset_Password c i) u db = (u_role u = Admin \<and> get_user i db \<noteq> None)"
| "op_succeeds cr now n _ u db = False"

lemma revoking_bumps:
  assumes "current_user cr now (op_creds op) db = Inr actor" "revokes op i actor"
    "op_succeeds cr now n op actor db" "run_op cr now n op db = (db', tok)"
  shows "\<exists>u u'. get_user i db = Some u \<and> get_user i db' = Some u' \<and> u_version u < u_version u'"
  using assms current_user_row[OF assms(1)]
  by (cases op)
    (auto simp: revokes_def guarded_def quiet_def loud_def logout_def change_password_def
      reset_password_def handled_defs Let_def require_admin_Inr and_then_Inr
      require_admin_def require_role_def split: if_splits option.splits)

text \<open>C7. Revocation is complete. Take any state reached by logins, second factors, password changes
  and user administration. Once a user has logged out, changed the password or had it reset by an
  administrator, no access token handed out before then authenticates as that user again; the
  password change leaves exactly the token it returns.\<close>

theorem revocation_is_complete:
  assumes "auth_reach cr db0 w" and "distinct (map u_id (ad_users db0))" and "jwt_faithful cr"
    and "current_user cr now (op_creds op) (aw_db w) = Inr actor"
    and "revokes op i actor" and "op_succeeds cr now n op actor (aw_db w)"
    and "run_op cr now n op (aw_db w) = (db', tok)"
    and "t \<in> set (aw_issued w)"
  shows "\<forall>later u. current_user cr later (Some t) db' = Inr u \<longrightarrow> u_id u \<noteq> i"
proof (intro allI impI notI)
  fix later u assume acc: "current_user cr later (Some t) db' = Inr u" and "u_id u = i"
  have "stands cr (aw_used w) (aw_db w) t"
    using auth_reach_inv[OF assms(2,1)] assms(8) by (simp add: auth_inv_def)
  then obtain k t0 jti r v where t: "t = issue_token cr t0 jti k r v"
    and v: "\<forall>u. get_user k (aw_db w) = Some u \<longrightarrow> v \<le> u_version u"
    unfolding stands_def by (elim exE conjE)
  from accepted_token_user[OF assms(3)] acc t have k: "u_id u = k" "u_version u = v" by blast+
  with \<open>u_id u = i\<close> have [simp]: "k = i" by simp
  from revoking_bumps[OF assms(4-7)] obtain x x' where
    x: "get_user i (aw_db w) = Some x" "get_user i db' = Some x'" "u_version x < u_version x'" by blast
  then have "v < u_version x'" using v by fastforce
  moreover have "get_user i db' = Some u" using current_user_row[OF acc] k by simp
  ultimately show False using x(2) k(2) by simp
qed

definition example_login :: "auth_db \<times> claims option" where
  "example_login = run_op open_crypto 0 example_nonce (Login ''u1'' ''pw'') example_auth_db"

definition example_token :: claims where
  "example_token = access_claims open_crypto 0 ''j'' 1 Admin 0"

definition example_world :: "claims auth_world" where
  "example_world = \<lparr>aw_db = fst example_login, aw_issued = [example_token], aw_used = {1, 2}\<rparr>"

lemma example_login_token: "snd example_login = Some example_token"
  by code_simp

lemma example_login_ids: "map u_id (ad_users (fst example_login)) = [1, 2]"
  by code_simp

lemma example_reach: "auth_reach open_crypto example_auth_db example_world"
proof -
  have "auth_reach open_crypto example_auth_db
      \<lparr>aw_db = example_auth_db, aw_issued = [], aw_used = u_id ` set (ad_users example_auth_db)\<rparr>"
    by (rule auth_reach.init)
  from auth_reach.request[OF this, of example_nonce 0 "Login ''u1'' ''pw''" "fst example_login"
      "Some example_token"]
  have "auth_reach open_crypto example_auth_db
     \<lparr>aw_db = fst example_login, aw_issued = [example_token],
      aw_used = {1, 2} \<union> u_id ` set (ad_users (fst example_login))\<rparr>"
    using example_login_token
    by (simp add: example_auth_db_def example_user_def example_nonce_def example_login_def prod_eq_iff)
  moreover have "u_id ` set (ad_users (fst example_login)) = {1, 2}"
    using example_login_ids by (metis image_set list.set(1) list.set(2))
  ultimately show ?thesis by (simp add: example_world_def)
qed

theorem revocation_is_complete_witness:
  "\<not> (\<exists>later u. current_user open_crypto later (Some example_token)
     (fst (run_op open_crypto 1 example_nonce (Logout (Some example_token)) (fst example_login))) = Inr u
     \<and> u_id u = 1)"
proof -
  define u where "u = (example_user 1 Admin)\<lparr>u_last_login := Some 0\<rparr>"
  have "distinct (map u_id (ad_users example_auth_db))"
    by (simp add: example_auth_db_def example_user_def)
  moreover have "current_user open_crypto 1 (op_creds (Logout (Some example_token))) (aw_db example_world) = Inr u"
    unfolding u_def by code_simp
  moreover have "revokes (Logout (Some example_token)) 1 u"
    by (simp add: revokes_def u_def example_user_def)
  ultimately show ?thesis
    using revocation_is_complete[OF example_reach _ open_crypto_faithful,
        of 1 "Logout (Some example_token)" u 1 example_nonce
        "fst (run_op open_crypto 1 example_nonce (Logout (Some example_token)) (fst example_login))"
        "snd (run_op open_crypto 1 example_nonce (Logout (Some example_token)) (fst example_login))"
        example_token]
    by (simp add: example_world_def)
qed

text \<open>C18. No sequence of requests, user administration by other administrators included, ever leaves
  the platform without an active administrator.\<close>

theorem admins_never_locked_out:
  assumes "auth_reach cr db0 w" and "distinct (map u_id (ad_users db0))"
    and "\<exists>u \<in> set (ad_users db0). u_role u = Admin \<and> u_status u = Active"
  shows "\<exists>u \<in> set (ad_users (aw_db w)). u_role u = Admin \<and> u_status u = Active"
proof -
  have row: "has_admin db \<longleftrightarrow> (\<exists>u \<in> set (ad_users db). u_role u = Admin \<and> u_status u = Active)"
    if "distinct (map u_id (ad_users db))" for db
    using that get_row_in get_row_Some unfolding has_admin_def get_user_def by metis
  from assms(1) have "has_admin db0 \<longrightarrow> has_admin (aw_db w)"
  proof induction
    case (request w n now op db' tok)
    then show ?case
      using run_op_ok[of "aw_db w" cr n now op] auth_reach_inv[OF assms(2) request(1)]
      by (simp add: auth_inv_def op_ok_def)
  qed simp
  then show ?thesis
    using assms(2,3) row auth_reach_inv[OF assms(2,1)] by (simp add: auth_inv_def)
qed

theorem admins_never_locked_out_witness:
  "\<exists>u \<in> set (ad_users (aw_db example_world)). u_role u = Admin \<and> u_status u = Active"
  by (rule admins_never_locked_out[OF example_reach])
    (simp_all add: example_auth_db_def example_user_def)

text \<open>C19. Once a user's second factor is on, no password alone yields a full access token: the
  password step only gives a challenge, and the second step hands out a token only to an active user
  whose code verified against the user's own secret. Turning the factor off needs a valid code too.\<close>

theorem second_factor_required:
  assumes "find (\<lambda>v. u_email v = lower email) (ad_users db) = Some u" and "get_user (u_id u) db = Some u"
    and "mfa_active u"
  shows "snd (login cr now jti email pw db) \<noteq> Inr (Full_Login t)
    \<and> (cr_decode cr now tok = Inr c \<longrightarrow> cl_sub c = Some (u_id u) \<longrightarrow>
         snd (login_mfa cr now jti tok code db) = Inr t \<longrightarrow>
         u_status u = Active \<and> verify_code cr now (cr_decrypt cr (opt_str (u_totp u))) code)
    \<and> (snd (mfa_disable cr now code u db) = Inr () \<longrightarrow>
         verify_code cr now (cr_decrypt cr (opt_str (u_totp u))) code)"
  using assms
  by (auto simp: login_def login_mfa_def mfa_disable_def handled_defs Let_def split: if_splits)

definition mfa_user :: user where
  "mfa_user = (example_user 1 Admin)\<lparr>u_mfa := True, u_totp := Some ''123456''\<rparr>"

theorem second_factor_required_witness:
  "snd (login open_crypto 0 ''j'' ''U1'' ''pw'' \<lparr>ad_users = [mfa_user], ad_audit = []\<rparr>)
     \<noteq> Inr (Full_Login example_token)"
proof -
  let ?db = "\<lparr>ad_users = [mfa_user], ad_audit = []\<rparr>"
  have "find (\<lambda>v. u_email v = lower ''U1'') (ad_users ?db) = Some mfa_user" by code_simp
  moreover have "get_user (u_id mfa_user) ?db = Some mfa_user" by (simp add: get_user_def)
  moreover have "mfa_active mfa_user" by code_simp
  ultimately show ?thesis
    by (rule second_factor_required[THEN conjunct1])
qed

end
