(* ===== verification/Request_System.thy ===== *)
theory Request_System
  imports Eksir_Prelude
begin

text \<open>
  The interface of a component as a system: a state, a step per request, an invariant every admitted request keeps.
  What holds of any sequence of requests is proved once, in the locale. \<open>accountable\<close> adds a log of effects outside
  the database (calls to response products, mail to customers) and the warrant each entry needs: then every entry
  that was not there before comes from one request of the sequence that had the warrant in the state it ran in.
  \<open>append_log\<close> is the stronger contract of a log that only grows at its end. The components whose requests are
  modelled interpret these locales.
\<close>

lemma all_admitted [simp]: "list_all (\<lambda>_. True) rs"
  by (simp add: list_all_iff)

locale request_system =
  fixes step :: "'r \<Rightarrow> 's \<Rightarrow> 's"
    and admitted :: "'r \<Rightarrow> bool"
    and inv :: "'s \<Rightarrow> bool"
  assumes step_inv: "inv s \<Longrightarrow> admitted r \<Longrightarrow> inv (step r s)"
begin

lemma run_inv: "inv s \<Longrightarrow> list_all admitted rs \<Longrightarrow> inv (fold step rs s)"
  by (induction rs arbitrary: s) (simp_all add: step_inv)

end

locale accountable = request_system +
  fixes log :: "'s \<Rightarrow> 'e set"
    and warrant :: "'r \<Rightarrow> 's \<Rightarrow> 'e \<Rightarrow> bool"
  assumes step_log: "inv s \<Longrightarrow> admitted r \<Longrightarrow> e \<in> log (step r s) \<Longrightarrow> e \<in> log s \<or> warrant r s e"
begin

lemma accounted:
  assumes "inv s" "list_all admitted rs" "e \<in> log (fold step rs s)" "e \<notin> log s"
  shows "\<exists>pre r post. rs = pre @ r # post \<and> warrant r (fold step pre s) e"
  using assms
proof (induction rs arbitrary: s)
  case (Cons r rs)
  show ?case
  proof (cases "e \<in> log (step r s)")
    case True
    with step_log[of s r e] Cons.prems have "warrant r s e" by simp
    then show ?thesis by (intro exI[of _ "[]"]) simp
  next
    case False
    with Cons.IH[of "step r s"] Cons.prems obtain pre r' post where
      "rs = pre @ r' # post" "warrant r' (fold step pre (step r s)) e"
      by (auto simp: step_inv)
    then show ?thesis by (intro exI[of _ "r # pre"]) simp
  qed
qed simp

end

locale append_log = request_system +
  fixes entries :: "'s \<Rightarrow> 'e list"
    and warrant :: "'r \<Rightarrow> 's \<Rightarrow> 'e \<Rightarrow> bool"
  assumes step_appends: "inv s \<Longrightarrow> admitted r \<Longrightarrow>
    \<exists>new. entries (step r s) = entries s @ new \<and> (\<forall>e \<in> set new. warrant r s e)"
begin

lemma accounted_in_order:
  assumes "inv s" "list_all admitted rs"
  shows "\<exists>new. entries (fold step rs s) = entries s @ new \<and>
    (\<forall>e \<in> set new. \<exists>pre r post. rs = pre @ r # post \<and> warrant r (fold step pre s) e)"
  using assms
proof (induction rs arbitrary: s)
  case (Cons r rs)
  from step_appends[of s r] Cons.prems obtain a
    where a: "entries (step r s) = entries s @ a" "\<forall>e \<in> set a. warrant r s e" by auto
  from Cons.IH[of "step r s"] Cons.prems obtain b
    where b: "entries (fold step rs (step r s)) = entries (step r s) @ b"
      "\<forall>e \<in> set b. \<exists>pre q post. rs = pre @ q # post \<and> warrant q (fold step pre (step r s)) e"
    by (auto simp: step_inv)
  have "\<exists>pre q post. r # rs = pre @ q # post \<and> warrant q (fold step pre s) e" if "e \<in> set b" for e
  proof -
    from b(2) that obtain pre q post where "rs = pre @ q # post" "warrant q (fold step pre (step r s)) e" by blast
    then show ?thesis by (intro exI[of _ "r # pre"]) simp
  qed
  moreover have "\<exists>pre q post. r # rs = pre @ q # post \<and> warrant q (fold step pre s) e" if "e \<in> set a" for e
    using a(2) that by (intro exI[of _ "[]"]) simp
  ultimately show ?case using a(1) b(1) by (intro exI[of _ "a @ b"]) auto
qed simp

end

sublocale append_log \<subseteq> accountable step admitted inv "\<lambda>s. set (entries s)" warrant
  by unfold_locales (use step_appends in fastforce)

end
