(* ===== verification/Tenancy.thy ===== *)
theory Tenancy
  imports Auth Request_System
begin

text \<open>
  Multi-tenancy: \<open>auth/tenancy.py\<close> (who sees which tenant's rows) and the tenant administration of
  \<open>routes/admin.py\<close> (the tree HOST, MSSP, CLIENT and its guards). A scope is \<open>None\<close> (everything)
  or the set of visible tenants. The breadth-first walk, the slug search and the cycle check are the
  code's loops with a termination proof each. Column lengths are not modelled.
\<close>

record tenant =
  t_id :: uid
  t_name :: string
  t_slug :: string
  t_tier :: tenant_tier
  t_parent :: "uid option"
  t_tier_label :: "string option"
  t_email :: "string option"
  t_email_cc :: "string option"
  t_locale :: "string option"

record membership =
  mb_user :: uid
  mb_tenant :: uid
  mb_role :: role

record tenant_db =
  td_tenants :: "tenant list"
  td_members :: "membership list"
  td_audit :: "audit_entry list"

type_synonym tenant_scope = "uid set option"

section \<open>Scope\<close>

definition tenant_children :: "tenant list \<Rightarrow> uid set \<Rightarrow> uid set" where
  "tenant_children ts frontier =
     set (map t_id (filter (\<lambda>t. case t_parent t of None \<Rightarrow> False | Some p \<Rightarrow> p \<in> frontier) ts))"

lemma tenant_children_ids: "tenant_children ts f \<subseteq> t_id ` set ts"
  by (auto simp: tenant_children_def)

function bfs :: "tenant list \<Rightarrow> uid set \<Rightarrow> uid set \<Rightarrow> uid set" where
  "bfs ts seen frontier =
     (if frontier = {} then seen
      else
        (let new = tenant_children ts frontier - seen
         in if new = {} then seen else bfs ts (seen \<union> new) new))"
  by auto
termination
proof (relation "measure (\<lambda>(ts, seen, _). card (t_id ` set ts - seen))")
  fix ts :: "tenant list" and seen frontier new :: "uid set"
  assume new: "new = tenant_children ts frontier - seen" "new \<noteq> {}"
  then have "t_id ` set ts - (seen \<union> new) \<subset> t_id ` set ts - seen"
    using tenant_children_ids[of ts frontier] by blast
  then show "((ts, seen \<union> new, new), ts, seen, frontier) \<in> measure (\<lambda>(ts, seen, _). card (t_id ` set ts - seen))"
    by (simp add: psubset_card_mono)
qed simp

declare bfs.simps [simp del]

definition descendants :: "tenant list \<Rightarrow> uid list \<Rightarrow> uid set" where
  "descendants ts parent_ids = bfs ts (set parent_ids) (set parent_ids)"

text \<open>The join of tenants and memberships.\<close>

definition member_rows :: "tenant_db \<Rightarrow> uid \<Rightarrow> tenant list" where
  "member_rows db user_id =
     List.map_filter (\<lambda>m. if mb_user m = user_id then get_row t_id (mb_tenant m) (td_tenants db) else None)
       (td_members db)"

definition resolve_tenant_scope :: "user \<Rightarrow> tenant_db \<Rightarrow> tenant_scope" where
  "resolve_tenant_scope u db =
     (if u_role u = Admin then None
      else
        (let rows = member_rows db (u_id u)
         in if rows = [] then Some {}
            else if \<exists>t \<in> set rows. t_tier t = Host then None
            else
              (let scope = set (map t_id rows);
                   expand = map t_id (filter (\<lambda>t. t_tier t = Mssp) rows)
               in Some (if expand = [] then scope else scope \<union> descendants (td_tenants db) expand))))"

text \<open>The header: absent or empty, text that is not a UUID, or a UUID.\<close>

datatype scope_header = No_Header | Malformed | Override uid

definition current_tenant_scope :: "user \<Rightarrow> scope_header \<Rightarrow> tenant_db \<Rightarrow> tenant_scope" where
  "current_tenant_scope u x_tenant_scope db =
     (let natural = resolve_tenant_scope u db
      in case x_tenant_scope of
           No_Header \<Rightarrow> natural
         | Malformed \<Rightarrow> natural
         | Override i \<Rightarrow>
             if (case natural of None \<Rightarrow> False | Some s \<Rightarrow> i \<notin> s) then natural
             else if get_row t_id i (td_tenants db) = None then natural
             else Some (descendants (td_tenants db) [i]))"

definition in_scope :: "uid option \<Rightarrow> tenant_scope \<Rightarrow> bool" where
  "in_scope tenant_id scope =
     (case scope of
        None \<Rightarrow> True
      | Some s \<Rightarrow> (case tenant_id of None \<Rightarrow> False | Some t \<Rightarrow> t \<in> s))"

text \<open>The WHERE clause of the list queries, as the predicate it selects by.\<close>

definition scope_clause_for_incidents :: "tenant_scope \<Rightarrow> uid option \<Rightarrow> bool" where
  "scope_clause_for_incidents scope tenant_id =
     (case scope of
        None \<Rightarrow> True
      | Some s \<Rightarrow> if s = {} then False else (case tenant_id of None \<Rightarrow> False | Some t \<Rightarrow> t \<in> s))"

definition require_in_scope :: "uid option \<Rightarrow> tenant_scope \<Rightarrow> http_error + unit" where
  "require_in_scope tenant_id scope = (if in_scope tenant_id scope then Inr () else Inl (HTTP 404))"

section \<open>Slugs\<close>

definition is_alnum :: "char \<Rightarrow> bool" where
  "is_alnum c \<longleftrightarrow> is_digit c \<or> (65 \<le> char_code c \<and> char_code c \<le> 90) \<or> (97 \<le> char_code c \<and> char_code c \<le> 122)"

text \<open>\<open>re.sub("[^a-zA-Z0-9]+", "-", s)\<close>; the flag says that a run of other characters is open.\<close>

fun dash_runs :: "bool \<Rightarrow> string \<Rightarrow> string" where
  "dash_runs in_run [] = []"
| "dash_runs in_run (c # s) =
     (if is_alnum c then c # dash_runs False s
      else if in_run then dash_runs True s
      else CHR ''-'' # dash_runs True s)"

definition slugify :: "string \<Rightarrow> string" where
  "slugify name =
     (let d = (\<lambda>c. c = CHR ''-'');
          slug = lower (rev (dropWhile d (rev (dropWhile d (dash_runs False name)))))
      in if slug = [] then ''unnamed'' else slug)"

definition numbered :: "string \<Rightarrow> nat \<Rightarrow> string" where
  "numbered base n = base @ CHR ''-'' # show_nat n"

lemma numbered_inj: "numbered base n = numbered base m \<Longrightarrow> n = m"
  using show_nat_inj by (simp add: numbered_def)

lemma finite_numbered: "finite {k. n < k \<and> numbered base k \<in> set taken}"
proof -
  have "finite (numbered base -` set taken)"
    by (rule finite_vimageI) (auto intro: injI numbered_inj)
  then show ?thesis by (rule rev_finite_subset) auto
qed

definition slug_measure :: "string list \<Rightarrow> string \<Rightarrow> string \<Rightarrow> nat \<Rightarrow> nat" where
  "slug_measure taken base slug n =
     2 * card {k. n < k \<and> numbered base k \<in> set taken} + (if slug \<in> set taken then 1 else 0)"

lemma slug_measure_step:
  assumes "slug \<in> set taken"
  shows "slug_measure taken base (numbered base (Suc n)) (Suc n) < slug_measure taken base slug n"
proof -
  let ?A = "\<lambda>n. {k. n < k \<and> numbered base k \<in> set taken}"
  have sub: "?A (Suc n) \<subseteq> ?A n" by auto
  show ?thesis
  proof (cases "numbered base (Suc n) \<in> set taken")
    case True
    then have "?A (Suc n) \<subset> ?A n" by auto
    then have "card (?A (Suc n)) < card (?A n)" using finite_numbered psubset_card_mono by blast
    with True assms show ?thesis by (simp add: slug_measure_def)
  next
    case False
    have "card (?A (Suc n)) \<le> card (?A n)" using finite_numbered sub card_mono by blast
    with False assms show ?thesis by (simp add: slug_measure_def)
  qed
qed

function slug_loop :: "string list \<Rightarrow> string \<Rightarrow> string \<Rightarrow> nat \<Rightarrow> string" where
  "slug_loop taken base slug n =
     (if slug \<in> set taken then slug_loop taken base (numbered base (Suc n)) (Suc n) else slug)"
  by auto
termination
  by (relation "measure (\<lambda>(taken, base, slug, n). slug_measure taken base slug n)")
    (simp_all add: slug_measure_step)

declare slug_loop.simps [simp del]

definition unique_slug :: "tenant list \<Rightarrow> string \<Rightarrow> string" where
  "unique_slug ts base = slug_loop (map t_slug ts) base base 1"

definition ensure_tenant_for_customer ::
  "uid \<Rightarrow> string \<Rightarrow> tenant_db \<Rightarrow> tenant_db \<times> (py_exc + uid)" where
  "ensure_tenant_for_customer new_id customer db =
     (let name = strip customer
      in if name = [] then (db, Inl ValueError)
         else case find (\<lambda>t. t_name t = name) (td_tenants db) of
                Some t \<Rightarrow> (db, Inr (t_id t))
              | None \<Rightarrow>
                  (db\<lparr>td_tenants := td_tenants db @
                     [\<lparr>t_id = new_id, t_name = name, t_slug = unique_slug (td_tenants db) (slugify name),
                       t_tier = Client, t_parent = None, t_tier_label = None, t_email = None,
                       t_email_cc = None, t_locale = None\<rparr>]\<rparr>, Inr new_id))"

section \<open>The tree\<close>

definition tenant_parent :: "tenant list \<Rightarrow> uid \<Rightarrow> uid option" where
  "tenant_parent ts i = (case get_row t_id i ts of None \<Rightarrow> None | Some t \<Rightarrow> t_parent t)"

function climb :: "tenant list \<Rightarrow> uid \<Rightarrow> uid set \<Rightarrow> uid option \<Rightarrow> bool" where
  "climb ts tenant_id seen None = False"
| "climb ts tenant_id seen (Some cur) =
     (if cur \<in> seen then True
      else if cur = tenant_id then True
      else climb ts tenant_id (insert cur seen) (tenant_parent ts cur))"
  by pat_completeness auto
termination
proof (relation "measure (\<lambda>(ts, _, seen, cur). card (t_id ` set ts - seen) + (if cur = None then 0 else 1))")
  fix ts :: "tenant list" and tenant_id cur :: uid and seen
  assume c: "cur \<notin> seen"
  let ?ids = "t_id ` set ts"
  show "((ts, tenant_id, insert cur seen, tenant_parent ts cur), ts, tenant_id, seen, Some cur)
      \<in> measure (\<lambda>(ts, _, seen, cur). card (t_id ` set ts - seen) + (if cur = None then 0 else 1))"
  proof (cases "cur \<in> ?ids")
    case True
    with c have "?ids - insert cur seen \<subset> ?ids - seen" by blast
    then have "card (?ids - insert cur seen) < card (?ids - seen)" by (simp add: psubset_card_mono)
    then show ?thesis by simp
  next
    case False
    then have "tenant_parent ts cur = None"
      by (simp add: tenant_parent_def get_row_None_iff[THEN iffD2])
    moreover have "card (?ids - insert cur seen) \<le> card (?ids - seen)" by (rule card_mono) auto
    ultimately show ?thesis by simp
  qed
qed simp

definition would_create_cycle :: "tenant list \<Rightarrow> uid \<Rightarrow> uid option \<Rightarrow> bool" where
  "would_create_cycle ts tenant_id new_parent_id =
     (case new_parent_id of
        None \<Rightarrow> False
      | Some p \<Rightarrow> if p = tenant_id then True else climb ts tenant_id {} (Some p))"

section \<open>Tenant administration\<close>

definition td_log :: "instant \<Rightarrow> user \<Rightarrow> string \<Rightarrow> uid \<Rightarrow> tenant_db \<Rightarrow> tenant_db" where
  "td_log now admin action target db =
     db\<lparr>td_audit := audit_log now (Some (u_id admin)) action (Some target) (Some target) (td_audit db)\<rparr>"

text \<open>The body is a dictionary; a field a route reads is \<open>None\<close> when the key is absent. \<open>body_tier\<close>
  is the text given for the tier, \<open>body_parent\<close> the UUID (\<open>Some None\<close>: null or empty).\<close>

record tenant_body =
  body_name :: "string option"
  body_tier :: "string option"
  body_parent :: "uid option option"
  body_tier_label :: "string option option"
  body_email :: "string option option"
  body_email_cc :: "string option option"
  body_locale :: "string option option"

definition tenant_tier_of :: "string \<Rightarrow> tenant_tier option" where
  "tenant_tier_of s =
     (if s = ''host'' then Some Host else if s = ''mssp'' then Some Mssp
      else if s = ''client'' then Some Client else None)"

definition create_tenant ::
  "instant \<Rightarrow> uid \<Rightarrow> tenant_body \<Rightarrow> user \<Rightarrow> tenant_db \<Rightarrow> (tenant_db, uid) handled" where
  "create_tenant now new_id body admin db =
     (let name = strip (opt_str (body_name body));
          parent = (case body_parent body of Some p \<Rightarrow> p | None \<Rightarrow> None) in
      if name = [] then raise_http db 400
      else if find (\<lambda>t. t_name t = name) (td_tenants db) \<noteq> None then raise_http db 409
      else case tenant_tier_of (if truthy_str (body_tier body) then opt_str (body_tier body) else ''client'') of
             None \<Rightarrow> raise_http db 400
           | Some tier \<Rightarrow>
               if (case parent of None \<Rightarrow> False | Some p \<Rightarrow> get_row t_id p (td_tenants db) = None)
               then raise_http db 400
               else if get_row t_id new_id (td_tenants db) \<noteq> None then raise_http db 500
               else
                 (let t = \<lparr>t_id = new_id, t_name = name,
                           t_slug = unique_slug (td_tenants db) (slugify name), t_tier = tier,
                           t_parent = parent,
                           t_tier_label = (case body_tier_label body of Some l \<Rightarrow> l | None \<Rightarrow> None),
                           t_email = None, t_email_cc = None, t_locale = None\<rparr>
                  in reply (td_log now admin ''tenant.create'' new_id
                              (db\<lparr>td_tenants := td_tenants db @ [t]\<rparr>)) new_id))"

text \<open>\<open>body[k] or None\<close> for the routing fields.\<close>

definition or_none :: "string option \<Rightarrow> string option" where
  "or_none s = (if truthy_str s then s else None)"

definition patched_tenant :: "tenant_body \<Rightarrow> tenant_tier option \<Rightarrow> tenant \<Rightarrow> tenant" where
  "patched_tenant body new_tier t =
     t\<lparr>t_email := (case body_email body of None \<Rightarrow> t_email t | Some v \<Rightarrow> or_none v),
       t_email_cc := (case body_email_cc body of None \<Rightarrow> t_email_cc t | Some v \<Rightarrow> or_none v),
       t_locale := (case body_locale body of None \<Rightarrow> t_locale t | Some v \<Rightarrow> or_none v),
       t_name := (case body_name body of None \<Rightarrow> t_name t | Some n \<Rightarrow> strip n),
       t_tier := (case new_tier of None \<Rightarrow> t_tier t | Some x \<Rightarrow> x),
       t_tier_label := (case body_tier_label body of None \<Rightarrow> t_tier_label t | Some l \<Rightarrow> l),
       t_parent := (case body_parent body of None \<Rightarrow> t_parent t | Some p \<Rightarrow> p)\<rparr>"

definition patch_tenant ::
  "instant \<Rightarrow> uid \<Rightarrow> tenant_body \<Rightarrow> user \<Rightarrow> tenant_db \<Rightarrow> (tenant_db, unit) handled" where
  "patch_tenant now tenant_id body admin db =
     (case get_row t_id tenant_id (td_tenants db) of
        None \<Rightarrow> raise_http db 404
      | Some t \<Rightarrow>
          if body_name body \<noteq> None \<and> strip (opt_str (body_name body)) = [] then raise_http db 400
          else if body_name body \<noteq> None \<and> strip (opt_str (body_name body)) \<noteq> t_name t \<and>
                  find (\<lambda>t. t_name t = strip (opt_str (body_name body))) (td_tenants db) \<noteq> None
          then raise_http db 409
          else if body_tier body \<noteq> None \<and> tenant_tier_of (opt_str (body_tier body)) = None
          then raise_http db 400
          else if (case body_parent body of
                     Some (Some p) \<Rightarrow>
                       get_row t_id p (td_tenants db) = None \<or> would_create_cycle (td_tenants db) tenant_id (Some p)
                   | _ \<Rightarrow> False)
          then raise_http db 400
          else
            reply (td_log now admin ''tenant.patch'' tenant_id
                     (db\<lparr>td_tenants :=
                        upd_row t_id tenant_id
                          (patched_tenant body
                             (case body_tier body of None \<Rightarrow> None | Some s \<Rightarrow> tenant_tier_of s))
                          (td_tenants db)\<rparr>)) ())"

text \<open>Deleting a tenant deletes its memberships with it (\<open>ON DELETE CASCADE\<close>).\<close>

definition delete_tenant :: "instant \<Rightarrow> uid \<Rightarrow> user \<Rightarrow> tenant_db \<Rightarrow> (tenant_db, unit) handled" where
  "delete_tenant now tenant_id admin db =
     (case get_row t_id tenant_id (td_tenants db) of
        None \<Rightarrow> raise_http db 404
      | Some t \<Rightarrow>
          if filter (\<lambda>c. t_parent c = Some tenant_id) (td_tenants db) \<noteq> [] then raise_http db 409
          else
            (let db' = td_log now admin ''tenant.delete'' tenant_id db
             in reply (db'\<lparr>td_tenants := del_row t_id tenant_id (td_tenants db'),
                           td_members := filter (\<lambda>m. mb_tenant m \<noteq> tenant_id) (td_members db')\<rparr>) ()))"

section \<open>The walk computes the reachable tenants\<close>

definition child_edges :: "tenant list \<Rightarrow> (uid \<times> uid) set" where
  "child_edges ts = {(p, c). \<exists>t \<in> set ts. t_parent t = Some p \<and> t_id t = c}"

lemma tenant_children_image: "tenant_children ts frontier = child_edges ts `` frontier"
  by (force simp: tenant_children_def child_edges_def split: option.splits)

lemma bfs_reach:
  assumes "frontier \<subseteq> seen" "child_edges ts `` (seen - frontier) \<subseteq> seen"
  shows "bfs ts seen frontier = (child_edges ts)\<^sup>* `` seen"
  using assms
proof (induction ts seen frontier rule: bfs.induct)
  case (1 ts seen frontier)
  let ?E = "child_edges ts"
  let ?new = "tenant_children ts frontier - seen"
  have split: "?E `` seen \<subseteq> seen \<union> ?new"
    using "1.prems" by (auto simp: tenant_children_image)
  show ?case
  proof (cases "frontier = {} \<or> ?new = {}")
    case True
    then have "?new = {}" by (auto simp: tenant_children_image)
    with split have "?E `` seen \<subseteq> seen" by blast
    then have "?E\<^sup>* `` seen = seen" by (rule Image_closed_trancl)
    with True show ?thesis by (subst bfs.simps) (auto simp: Let_def)
  next
    case False
    then have "bfs ts seen frontier = bfs ts (seen \<union> ?new) ?new"
      by (subst bfs.simps) (simp add: Let_def)
    also have "\<dots> = ?E\<^sup>* `` (seen \<union> ?new)"
    proof (rule "1.IH")
      have "?E `` (seen \<union> ?new - ?new) \<subseteq> ?E `` seen" by blast
      with split show "?E `` (seen \<union> ?new - ?new) \<subseteq> seen \<union> ?new" by blast
    qed (use False in auto)
    also have "\<dots> = ?E\<^sup>* `` seen"
    proof -
      have "?new \<subseteq> ?E `` seen" using "1.prems" by (auto simp: tenant_children_image)
      then show ?thesis by (auto intro: converse_rtrancl_into_rtrancl)
    qed
    finally show ?thesis .
  qed
qed

text \<open>C21. The breadth-first walk over the tenant tree ends and returns exactly the given tenants and
  everything below them, for any table of tenants, a cyclic one included.\<close>

theorem descendants_are_the_reachable_tenants:
  "descendants ts parent_ids = (child_edges ts)\<^sup>* `` set parent_ids"
  unfolding descendants_def by (rule bfs_reach) auto

section \<open>The header override\<close>

lemma descendants_closed:
  "i \<in> (child_edges ts)\<^sup>* `` S \<Longrightarrow> (child_edges ts)\<^sup>* `` {i} \<subseteq> (child_edges ts)\<^sup>* `` S"
  by (auto intro: rtrancl_trans)

lemma leaf_descendants:
  "tenant_children ts {i} = {} \<Longrightarrow> (child_edges ts)\<^sup>* `` {i} = {i}"
  by (rule Image_closed_trancl) (simp add: tenant_children_image)

lemma descendants_reach: "descendants ts xs = (child_edges ts)\<^sup>* `` set xs"
  unfolding descendants_def by (rule bfs_reach) auto

lemma descendants_in_scope:
  assumes "resolve_tenant_scope u db = Some s" "i \<in> s"
    "\<forall>t \<in> set (member_rows db (u_id u)). t_tier t = Client \<longrightarrow> tenant_children (td_tenants db) {t_id t} = {}"
  shows "descendants (td_tenants db) [i] \<subseteq> s"
proof -
  let ?rows = "member_rows db (u_id u)"
  let ?expand = "map t_id (filter (\<lambda>t. t_tier t = Mssp) ?rows)"
  have nohost: "\<forall>t \<in> set ?rows. t_tier t \<noteq> Host"
    and s: "s = (if ?expand = [] then set (map t_id ?rows)
                 else set (map t_id ?rows) \<union> descendants (td_tenants db) ?expand)"
    using assms(1) by (auto simp: resolve_tenant_scope_def Let_def split: if_splits)
  show ?thesis
  proof (cases "i \<in> descendants (td_tenants db) ?expand")
    case True
    have "?expand \<noteq> []" if "descendants (td_tenants db) ?expand \<noteq> {}"
      using that by (cases ?expand) (simp_all only: descendants_reach list.set Image_empty2, blast+)
    with True have "?expand \<noteq> []" by blast
    with True s show ?thesis
      using descendants_closed[of i "td_tenants db" "set ?expand"] by (auto simp: descendants_reach)
  next
    case False
    with s assms(2) obtain t where t: "t \<in> set ?rows" "t_id t = i" by (auto split: if_splits)
    with False have "t_tier t \<noteq> Mssp" by (force simp: descendants_reach)
    with nohost t have "t_tier t = Client" by (cases "t_tier t") auto
    with assms(3) t have "tenant_children (td_tenants db) {i} = {}" by blast
    then have "descendants (td_tenants db) [i] = {i}"
      using leaf_descendants by (simp add: descendants_reach)
    with assms(2) show ?thesis by simp
  qed
qed

text \<open>C20. The tenant switcher's header only ever narrows: a row visible under the header's scope is
  visible under the user's own, provided no CLIENT tenant the user belongs to has tenants below it.\<close>

theorem header_never_widens:
  assumes "in_scope x (current_tenant_scope u h db)"
    and "\<forall>t \<in> set (member_rows db (u_id u)). t_tier t = Client \<longrightarrow> tenant_children (td_tenants db) {t_id t} = {}"
  shows "in_scope x (resolve_tenant_scope u db)"
proof (cases "resolve_tenant_scope u db")
  case (Some s)
  then show ?thesis
    using assms(1) descendants_in_scope[OF Some _ assms(2)]
    by (auto simp: current_tenant_scope_def in_scope_def Let_def
        split: scope_header.splits if_splits option.splits)
qed (simp add: in_scope_def)

definition example_tenant :: "uid \<Rightarrow> tenant_tier \<Rightarrow> uid option \<Rightarrow> tenant" where
  "example_tenant i tier parent =
     \<lparr>t_id = i, t_name = ''T'' @ show_nat i, t_slug = ''t'' @ show_nat i, t_tier = tier, t_parent = parent,
      t_tier_label = None, t_email = None, t_email_cc = None, t_locale = None\<rparr>"

definition example_tenants :: tenant_db where
  "example_tenants =
     \<lparr>td_tenants = [example_tenant 1 Host None, example_tenant 2 Mssp (Some 1),
                    example_tenant 3 Client (Some 2), example_tenant 4 Client (Some 2),
                    example_tenant 5 Client (Some 4)],
      td_members = [\<lparr>mb_user = 1, mb_tenant = 2, mb_role = Analyst\<rparr>,
                    \<lparr>mb_user = 2, mb_tenant = 4, mb_role = Analyst\<rparr>],
      td_audit = []\<rparr>"

lemma example_switch:
  "current_tenant_scope (example_user 1 Analyst) (Override 3) example_tenants = Some {3}"
  by code_simp

theorem header_never_widens_witness:
  "in_scope (Some 3) (resolve_tenant_scope (example_user 1 Analyst) example_tenants)"
proof (rule header_never_widens[where h = "Override 3"])
  have "map t_tier (member_rows example_tenants (u_id (example_user 1 Analyst))) = [Mssp]"
    by code_simp
  then show "\<forall>t \<in> set (member_rows example_tenants (u_id (example_user 1 Analyst))).
      t_tier t = Client \<longrightarrow> tenant_children (td_tenants example_tenants) {t_id t} = {}"
    by auto
qed (simp only: example_switch in_scope_def, simp)

text \<open>The proviso is needed: nothing stops an administrator from putting a tenant below a CLIENT
  tenant, and then the header shows a member of the CLIENT tenant rows the member's own scope hides.\<close>

lemma header_widens_below_a_client:
  "resolve_tenant_scope (example_user 2 Analyst) example_tenants = Some {4} \<and>
   current_tenant_scope (example_user 2 Analyst) (Override 4) example_tenants = Some {4, 5}"
  by code_simp

section \<open>The tree stays a tree\<close>

definition parent_edges :: "tenant list \<Rightarrow> (uid \<times> uid) set" where
  "parent_edges ts = {(c, p). tenant_parent ts c = Some p}"

definition forest :: "tenant list \<Rightarrow> bool" where
  "forest ts \<longleftrightarrow>
     distinct (map t_id ts) \<and> distinct (map t_name ts) \<and> distinct (map t_slug ts) \<and>
     (\<forall>c p. tenant_parent ts c = Some p \<longrightarrow> p \<in> t_id ` set ts) \<and> acyclic (parent_edges ts)"

lemma climb_complete: "\<not> climb ts i seen (Some cur) \<Longrightarrow> (cur, i) \<notin> (parent_edges ts)\<^sup>*"
proof (induction ts i seen "Some cur" arbitrary: cur rule: climb.induct)
  case (2 ts i seen cur)
  show ?case
  proof
    assume "(cur, i) \<in> (parent_edges ts)\<^sup>*"
    moreover from 2 have "cur \<noteq> i" "cur \<notin> seen" by (auto split: if_splits)
    ultimately obtain p where "tenant_parent ts cur = Some p" "(p, i) \<in> (parent_edges ts)\<^sup>*"
      by (auto elim: converse_rtranclE simp: parent_edges_def)
    with 2 show False by (auto split: if_splits)
  qed
qed

lemma slug_loop_fresh: "slug_loop taken base slug n \<notin> set taken"
  by (induction taken base slug n rule: slug_loop.induct) (subst slug_loop.simps, simp)

lemma forest_add:
  assumes "forest ts" "t_id t \<notin> t_id ` set ts" "t_name t \<notin> t_name ` set ts"
    "t_slug t \<notin> t_slug ` set ts" "\<forall>p. t_parent t = Some p \<longrightarrow> p \<in> t_id ` set ts"
  shows "forest (ts @ [t])"
proof -
  have p: "tenant_parent (ts @ [t]) c = (if c = t_id t then t_parent t else tenant_parent ts c)" for c
    using assms(2) by (auto simp: tenant_parent_def get_row_append get_row_None_iff[THEN iffD2]
        split: option.splits)
  have new: "tenant_parent ts (t_id t) = None"
    using assms(2) by (simp add: tenant_parent_def get_row_None_iff[THEN iffD2])
  have "acyclic (parent_edges (ts @ [t]))"
  proof (cases "t_parent t")
    case None
    then have "parent_edges (ts @ [t]) \<subseteq> parent_edges ts"
      by (auto simp: parent_edges_def p split: if_splits)
    with assms(1) show ?thesis by (auto simp: forest_def intro: acyclic_subset)
  next
    case (Some q)
    then have e: "parent_edges (ts @ [t]) = insert (t_id t, q) (parent_edges ts)"
      using new by (auto simp: parent_edges_def p split: if_splits)
    have "(q, t_id t) \<notin> (parent_edges ts)\<^sup>*"
    proof
      assume "(q, t_id t) \<in> (parent_edges ts)\<^sup>*"
      then have "q = t_id t \<or> (\<exists>c. tenant_parent ts c = Some (t_id t))"
        by (cases rule: rtranclE) (auto simp: parent_edges_def)
      then have "q = t_id t \<or> t_id t \<in> t_id ` set ts"
        using assms(1) unfolding forest_def by blast
      with assms(2,5) Some show False by auto
    qed
    with assms(1) show ?thesis unfolding e by (simp add: forest_def acyclic_insert)
  qed
  with assms show ?thesis by (auto simp: forest_def p split: if_splits)
qed

lemma forest_delete:
  assumes "forest ts" "filter (\<lambda>c. t_parent c = Some i) ts = []"
  shows "forest (del_row t_id i ts)"
proof -
  have p: "tenant_parent (del_row t_id i ts) c = (if c = i then None else tenant_parent ts c)" for c
    by (simp add: tenant_parent_def)
  have nochild: "tenant_parent ts c \<noteq> Some i" for c
    using assms(2) by (auto simp: tenant_parent_def filter_empty_conv split: option.splits dest: get_row_Some)
  have "parent_edges (del_row t_id i ts) \<subseteq> parent_edges ts"
    by (auto simp: parent_edges_def p split: if_splits)
  moreover have "q \<in> t_id ` set (del_row t_id i ts)"
    if "tenant_parent (del_row t_id i ts) c = Some q" for c q
  proof -
    from that have "tenant_parent ts c = Some q" by (simp add: p split: if_splits)
    with assms(1) nochild[of c] show ?thesis by (auto simp: forest_def set_del_row)
  qed
  ultimately show ?thesis
    using assms(1) unfolding forest_def
    by (auto simp: del_row_def distinct_map_filter intro: acyclic_subset)
qed

lemma forest_patch:
  assumes "forest ts" "get_row t_id i ts = Some t" "\<And>t. t_id (f t) = t_id t" "\<And>t. t_slug (f t) = t_slug t"
    "t_name (f t) = t_name t \<or> t_name (f t) \<notin> t_name ` set ts"
    "t_parent (f t) = t_parent t \<or>
     (\<forall>p. t_parent (f t) = Some p \<longrightarrow> p \<in> t_id ` set ts \<and> (p, i) \<notin> (parent_edges ts)\<^sup>*)"
  shows "forest (upd_row t_id i f ts)"
proof -
  let ?ts = "upd_row t_id i f ts"
  have ids: "map t_id ?ts = map t_id ts" using assms(3) by simp
  have p: "tenant_parent ?ts c = (if c = i then t_parent (f t) else tenant_parent ts c)" for c
    using assms(2,3) by (simp add: tenant_parent_def)
  have pi: "tenant_parent ts i = t_parent t" using assms(2) by (simp add: tenant_parent_def)
  have "distinct (map t_name ?ts)" "distinct (map t_slug ?ts)"
    using assms by (auto simp: forest_def intro!: distinct_upd_row)
  moreover have "acyclic (parent_edges ?ts) \<and> (\<forall>c q. tenant_parent ?ts c = Some q \<longrightarrow> q \<in> t_id ` set ts)"
  proof (cases "t_parent (f t) = t_parent t")
    case True
    with pi p have "tenant_parent ?ts = tenant_parent ts" by auto
    with assms(1) show ?thesis by (simp add: forest_def parent_edges_def)
  next
    case False
    let ?r = "parent_edges ts - {(i, q) | q. True}"
    have r: "?r \<subseteq> parent_edges ts" "acyclic ?r"
      using assms(1) by (auto simp: forest_def intro: acyclic_subset)
    have "acyclic (parent_edges ?ts)"
    proof (cases "t_parent (f t)")
      case None
      then have "parent_edges ?ts \<subseteq> ?r" by (auto simp: parent_edges_def p split: if_splits)
      with r show ?thesis by (auto intro: acyclic_subset)
    next
      case (Some q)
      then have "parent_edges ?ts \<subseteq> insert (i, q) ?r" by (auto simp: parent_edges_def p split: if_splits)
      moreover have "(q, i) \<notin> ?r\<^sup>*" using Some False assms(6) rtrancl_mono[OF r(1)] by blast
      ultimately show ?thesis using r(2) by (auto intro: acyclic_subset simp: acyclic_insert)
    qed
    moreover have "q \<in> t_id ` set ts" if "tenant_parent ?ts c = Some q" for c q
      using that False assms(1,6) by (auto simp: p forest_def split: if_splits)
    ultimately show ?thesis by blast
  qed
  ultimately show ?thesis
    using assms(1) ids by (metis forest_def list.set_map)
qed

lemma find_name_None: "find (\<lambda>t. t_name t = n) ts = None \<Longrightarrow> n \<notin> t_name ` set ts"
  by (auto simp: find_None_iff)

lemma td_log_tenants [simp]: "td_tenants (td_log now a s i db) = td_tenants db"
  by (simp add: td_log_def)

lemma unique_slug_fresh: "unique_slug ts b \<notin> t_slug ` set ts"
  unfolding unique_slug_def using slug_loop_fresh[of "map t_slug ts"] by simp

lemma create_tenant_forest:
  assumes "forest (td_tenants db)"
  shows "forest (td_tenants (fst (create_tenant now i body admin db)))"
proof (cases "snd (create_tenant now i body admin db)")
  case (Inl e)
  then have "fst (create_tenant now i body admin db) = db"
    by (auto simp: create_tenant_def handled_defs Let_def split: option.splits if_splits)
  with assms show ?thesis by simp
next
  case (Inr x)
  let ?n = "strip (opt_str (body_name body))"
  from Inr obtain tier where
    st: "td_tenants (fst (create_tenant now i body admin db)) = td_tenants db @
          [\<lparr>t_id = i, t_name = ?n, t_slug = unique_slug (td_tenants db) (slugify ?n), t_tier = tier,
            t_parent = (case body_parent body of Some p \<Rightarrow> p | None \<Rightarrow> None),
            t_tier_label = (case body_tier_label body of Some l \<Rightarrow> l | None \<Rightarrow> None),
            t_email = None, t_email_cc = None, t_locale = None\<rparr>]"
    and free: "find (\<lambda>t. t_name t = ?n) (td_tenants db) = None" "get_row t_id i (td_tenants db) = None"
    and par: "\<And>p. body_parent body = Some (Some p) \<Longrightarrow> get_row t_id p (td_tenants db) \<noteq> None"
    by (auto simp: create_tenant_def handled_defs Let_def split: option.splits if_splits)
  show ?thesis unfolding st
    using find_name_None[OF free(1)] free(2) par
    by (intro forest_add[OF assms]) (auto simp: unique_slug_fresh get_row_None_iff split: option.splits)
qed

lemma patch_tenant_forest:
  assumes "forest (td_tenants db)"
  shows "forest (td_tenants (fst (patch_tenant now i body admin db)))"
proof (cases "snd (patch_tenant now i body admin db)")
  case (Inl e)
  then have "fst (patch_tenant now i body admin db) = db"
    by (auto simp: patch_tenant_def handled_defs split: option.splits if_splits)
  with assms show ?thesis by simp
next
  case (Inr x)
  then obtain t where t: "get_row t_id i (td_tenants db) = Some t"
    by (auto simp: patch_tenant_def handled_defs split: option.splits)
  let ?f = "patched_tenant body (case body_tier body of None \<Rightarrow> None | Some s \<Rightarrow> tenant_tier_of s)"
  have st: "td_tenants (fst (patch_tenant now i body admin db)) = upd_row t_id i ?f (td_tenants db)"
    using Inr by (auto simp: patch_tenant_def handled_defs split: option.splits if_splits)
  have parent: "p \<in> t_id ` set (td_tenants db) \<and> (p, i) \<notin> (parent_edges (td_tenants db))\<^sup>*"
    if "body_parent body = Some (Some p)" for p
    using Inr that climb_complete[of "td_tenants db" i "{}" p]
    by (auto simp: patch_tenant_def handled_defs would_create_cycle_def get_row_None_iff
        simp del: climb.simps split: option.splits if_splits)
  have name: "strip n = t_name t \<or> strip n \<notin> t_name ` set (td_tenants db)" if "body_name body = Some n" for n
    using Inr that t find_name_None[of "strip n" "td_tenants db"]
    by (auto simp: patch_tenant_def handled_defs split: option.splits if_splits)
  show ?thesis unfolding st
    by (rule forest_patch[OF assms t])
      (auto simp: patched_tenant_def name split: option.splits dest: parent)
qed

lemma delete_tenant_forest:
  "forest (td_tenants db) \<Longrightarrow> forest (td_tenants (fst (delete_tenant now i admin db)))"
  by (auto simp: delete_tenant_def handled_defs Let_def split: option.splits intro: forest_delete)

lemma ensure_tenant_forest:
  assumes "forest (td_tenants db)" "i \<notin> t_id ` set (td_tenants db)"
  shows "forest (td_tenants (fst (ensure_tenant_for_customer i c db)))"
proof (cases "strip c = [] \<or> find (\<lambda>t. t_name t = strip c) (td_tenants db) \<noteq> None")
  case True
  then show ?thesis using assms(1) by (auto simp: ensure_tenant_for_customer_def Let_def)
next
  case False
  then have "strip c \<notin> t_name ` set (td_tenants db)" using find_name_None by blast
  then have "forest (td_tenants db @
      [\<lparr>t_id = i, t_name = strip c, t_slug = unique_slug (td_tenants db) (slugify (strip c)),
        t_tier = Client, t_parent = None, t_tier_label = None, t_email = None, t_email_cc = None,
        t_locale = None\<rparr>])"
    by (intro forest_add[OF assms(1)]) (simp_all add: assms(2) unique_slug_fresh)
  then show ?thesis using False by (simp add: ensure_tenant_for_customer_def Let_def)
qed

text \<open>One request of the tenant administration, or one ingest that names a customer.\<close>

datatype tenant_op =
    Create_Tenant uid tenant_body
  | Patch_Tenant uid tenant_body
  | Delete_Tenant uid
  | Ensure_Tenant uid string

fun run_tenant_op :: "instant \<Rightarrow> user \<Rightarrow> tenant_op \<Rightarrow> tenant_db \<Rightarrow> tenant_db" where
  "run_tenant_op now admin (Create_Tenant i b) db = fst (create_tenant now i b admin db)"
| "run_tenant_op now admin (Patch_Tenant i b) db = fst (patch_tenant now i b admin db)"
| "run_tenant_op now admin (Delete_Tenant i) db = fst (delete_tenant now i admin db)"
| "run_tenant_op now admin (Ensure_Tenant i c) db =
     (if i \<in> t_id ` set (td_tenants db) then db else fst (ensure_tenant_for_customer i c db))"

lemma tenant_op_forest: "forest (td_tenants db) \<Longrightarrow> forest (td_tenants (run_tenant_op now admin op db))"
  by (cases op) (simp_all add: create_tenant_forest patch_tenant_forest delete_tenant_forest ensure_tenant_forest)

interpretation tenants: request_system "run_tenant_op now admin" "\<lambda>_. True" "\<lambda>db. forest (td_tenants db)" for now admin
  by unfold_locales (rule tenant_op_forest)

text \<open>C8. Tenant administration and the automatic creation at ingest keep the tenants a forest:
  identifiers, names and slugs are unique, every parent exists, and no chain of parents is a cycle.\<close>

theorem tenants_stay_a_forest:
  assumes "forest (td_tenants db)"
  shows "forest (td_tenants (fold (run_tenant_op now admin) ops db))"
  using assms by (rule tenants.run_inv) simp

definition example_body :: tenant_body where
  "example_body = \<lparr>body_name = Some ''Acme, Inc.'', body_tier = None, body_parent = Some (Some 2),
     body_tier_label = None, body_email = None, body_email_cc = None, body_locale = None\<rparr>"

lemma forest_Nil: "forest []"
  by (simp add: forest_def parent_edges_def tenant_parent_def acyclic_def)

theorem tenants_stay_a_forest_witness:
  "map t_slug (td_tenants (fold (run_tenant_op 0 (example_user 1 Admin))
     [Ensure_Tenant 1 ''acme inc'', Ensure_Tenant 2 '' Acme Inc!'',
      Create_Tenant 3 example_body, Patch_Tenant 2 (example_body\<lparr>body_parent := Some (Some 3)\<rparr>)]
     \<lparr>td_tenants = [], td_members = [], td_audit = []\<rparr>)) = [''acme-inc'', ''acme-inc-2'', ''acme-inc-3'']
   \<and> forest (td_tenants (fold (run_tenant_op 0 (example_user 1 Admin))
     [Ensure_Tenant 1 ''acme inc'', Ensure_Tenant 2 '' Acme Inc!'',
      Create_Tenant 3 example_body, Patch_Tenant 2 (example_body\<lparr>body_parent := Some (Some 3)\<rparr>)]
     \<lparr>td_tenants = [], td_members = [], td_audit = []\<rparr>))"
  by (rule conjI, code_simp, rule tenants_stay_a_forest) (simp add: forest_Nil)

end
