(* ===== verification/Rbac.thy ===== *)
theory Rbac
  imports Auth Request_System
begin

text \<open>
  Role-based access control: the permission catalogue and the resolver of \<open>auth/permissions.py\<close>,
  and the role routes of \<open>routes/rbac.py\<close>. A permission set is a set of names. Creating or editing
  a role with a permission listed twice, or renaming it to a taken name, violates a key of the
  tables when the request commits (status 500, rolled back).
\<close>

section \<open>The catalogue\<close>

definition wildcard :: string where
  "wildcard = ''*''"

text \<open>The names of the catalogue; categories and descriptions only serve the display.\<close>

definition catalogue :: "string list" where
  "catalogue =
    [''incidents:read'', ''incidents:write'', ''incidents:approve'', ''incidents:delete'',
     ''cases:read'', ''cases:write'', ''forensics:read'', ''forensics:run'',
     ''threat_intel:read'', ''threat_intel:write'', ''exclusions:read'', ''exclusions:write'',
     ''knowledge_base:read'', ''knowledge_base:write'', ''v1actions:read'', ''v1actions:execute'',
     ''actions:isolate'', ''actions:disable_user'', ''actions:blocklist'', ''actions:scan'',
     ''actions:collect'', ''actions:hunt'', ''integrations:read'', ''integrations:write'',
     ''users:read'', ''users:write'', ''users:delete'', ''roles:read'', ''roles:write'',
     ''audit:read'', ''admin:read'', ''admin:write'']"

definition read_perms :: "string set" where
  "read_perms = set (filter (suffix '':read'') catalogue)"

definition analyst_writes :: "string set" where
  "analyst_writes =
    {''incidents:write'', ''incidents:approve'', ''cases:write'', ''threat_intel:write'',
     ''exclusions:write'', ''knowledge_base:write'', ''forensics:run'', ''v1actions:execute''}"

fun static_fallback :: "role \<Rightarrow> string set" where
  "static_fallback Admin = {wildcard}"
| "static_fallback Analyst = read_perms \<union> analyst_writes"
| "static_fallback Viewer = read_perms"

definition effective_permissions :: "role \<Rightarrow> string set \<Rightarrow> string set" where
  "effective_permissions r db_perms =
     (if r = Admin then {wildcard}
      else
        (let fb = static_fallback r
         in if db_perms = {} then fb else fb \<union> db_perms))"

definition has_permission :: "string set \<Rightarrow> string \<Rightarrow> bool" where
  "has_permission perms perm \<longleftrightarrow> wildcard \<in> perms \<or> perm \<in> perms"

section \<open>Response actions\<close>

definition critical_action_permission :: "string \<Rightarrow> string option" where
  "critical_action_permission = map_of
    [(''isolate_host'', ''actions:isolate''), (''disable_user'', ''actions:disable_user''),
     (''blocklist_ioc'', ''actions:blocklist''), (''scan_endpoint'', ''actions:scan''),
     (''collect_file'', ''actions:collect'')]"

definition critical_kinds :: "string list" where
  "critical_kinds = [''isolate_host'', ''disable_user'', ''blocklist_ioc'', ''scan_endpoint'', ''collect_file'']"

definition l2_action_perms :: "string set" where
  "l2_action_perms =
     set (List.map_filter critical_action_permission critical_kinds) \<union> {''actions:hunt''}"

definition missing_action_permissions :: "string list \<Rightarrow> string set \<Rightarrow> string set" where
  "missing_action_permissions kinds perms =
     (if wildcard \<in> perms then {}
      else
        (let need = List.map_filter critical_action_permission kinds
         in set (filter (\<lambda>p. p \<notin> perms) need)))"

section \<open>The tables\<close>

record rbac_role =
  rr_id :: uid
  rr_tenant :: "uid option"
  rr_name :: string
  rr_description :: "string option"
  rr_system :: bool

record rbac_db =
  rb_permissions :: "(uid \<times> string) list"
  rb_roles :: "rbac_role list"
  rb_role_perms :: "(uid \<times> uid) list"  \<comment> \<open>role, permission\<close>
  rb_user_roles :: "(uid \<times> uid) list"  \<comment> \<open>user, role\<close>
  rb_audit :: "audit_entry list"

text \<open>The joins: the names of a role's permissions, and of all of a user's roles.\<close>

definition perm_names_for_role :: "rbac_db \<Rightarrow> uid \<Rightarrow> string list" where
  "perm_names_for_role db role_id =
     List.map_filter
       (\<lambda>rp. if fst rp = role_id then map_of (rb_permissions db) (snd rp) else None)
       (rb_role_perms db)"

definition db_permissions :: "rbac_db \<Rightarrow> uid \<Rightarrow> string set" where
  "db_permissions db user_id =
     set (concat (map (\<lambda>ur. if fst ur = user_id then perm_names_for_role db (snd ur) else [])
                    (rb_user_roles db)))"

definition resolve_permissions :: "user \<Rightarrow> rbac_db \<Rightarrow> string set" where
  "resolve_permissions u db =
     (if u_role u = Admin then {wildcard}
      else effective_permissions (u_role u) (db_permissions db (u_id u)))"

definition require_permission :: "string \<Rightarrow> user \<Rightarrow> rbac_db \<Rightarrow> http_error + user" where
  "require_permission perm u db =
     (if has_permission (resolve_permissions u db) perm then Inr u else Inl (HTTP 403))"

section \<open>The routes\<close>

definition rb_log :: "instant \<Rightarrow> user \<Rightarrow> string \<Rightarrow> uid \<Rightarrow> rbac_db \<Rightarrow> rbac_db" where
  "rb_log now u action target db =
     db\<lparr>rb_audit := audit_log now (Some (u_id u)) action (Some target) None (rb_audit db)\<rparr>"

text \<open>\<open>None\<close>: allowed; otherwise whether the refusal is about a system role.\<close>

definition validate_role_mutation :: "bool \<Rightarrow> uid list \<Rightarrow> uid set \<Rightarrow> string option" where
  "validate_role_mutation role_is_system perm_ids known_perm_ids =
     (if role_is_system then Some ''system roles are read-only''
      else if filter (\<lambda>p. p \<notin> known_perm_ids) perm_ids \<noteq> [] then Some ''unknown permission ids''
      else None)"

definition known_perm_ids :: "rbac_db \<Rightarrow> uid set" where
  "known_perm_ids db = set (map fst (rb_permissions db))"

definition role_name_taken :: "rbac_db \<Rightarrow> uid \<Rightarrow> uid option \<Rightarrow> string \<Rightarrow> bool" where
  "role_name_taken db role_id tenant name =
     (\<exists>r \<in> set (rb_roles db). rr_id r \<noteq> role_id \<and> rr_tenant r = tenant \<and> rr_name r = name)"

definition create_role ::
  "instant \<Rightarrow> uid \<Rightarrow> string \<Rightarrow> string option \<Rightarrow> uid list \<Rightarrow> user \<Rightarrow> rbac_db \<Rightarrow> (rbac_db, uid) handled" where
  "create_role now new_id name description permission_ids u db =
     (let name = strip name in
      if name = [] then raise_http db 400
      else if validate_role_mutation False permission_ids (known_perm_ids db) \<noteq> None then raise_http db 400
      else if role_name_taken db new_id None name then raise_http db 409
      else if get_row rr_id new_id (rb_roles db) \<noteq> None \<or> \<not> distinct permission_ids then raise_http db 500
      else
        (let r = \<lparr>rr_id = new_id, rr_tenant = None, rr_name = name, rr_description = description,
                  rr_system = False\<rparr>
         in reply (rb_log now u ''rbac.role.create'' new_id
                     (db\<lparr>rb_roles := rb_roles db @ [r],
                         rb_role_perms := rb_role_perms db @ map (\<lambda>p. (new_id, p)) permission_ids\<rparr>))
              new_id))"

definition update_role ::
  "instant \<Rightarrow> uid \<Rightarrow> string \<Rightarrow> string option \<Rightarrow> uid list \<Rightarrow> user \<Rightarrow> rbac_db \<Rightarrow> (rbac_db, unit) handled" where
  "update_role now role_id name description permission_ids u db =
     (case get_row rr_id role_id (rb_roles db) of
        None \<Rightarrow> raise_http db 404
      | Some r \<Rightarrow>
          if validate_role_mutation (rr_system r) permission_ids (known_perm_ids db) \<noteq> None then
            raise_http db (if rr_system r then 403 else 400)
          else
            (let name' = (if strip name = [] then rr_name r else strip name) in
             if role_name_taken db role_id (rr_tenant r) name' \<or> \<not> distinct permission_ids
             then raise_http db 500
             else
               reply (rb_log now u ''rbac.role.update'' role_id
                        (db\<lparr>rb_roles := upd_row rr_id role_id
                              (\<lambda>r. r\<lparr>rr_name := name', rr_description := description\<rparr>) (rb_roles db),
                            rb_role_perms := filter (\<lambda>rp. fst rp \<noteq> role_id) (rb_role_perms db)
                                               @ map (\<lambda>p. (role_id, p)) permission_ids\<rparr>)) ()))"

text \<open>Deleting a role deletes its grants and assignments with it (\<open>ON DELETE CASCADE\<close>).\<close>

definition delete_role :: "instant \<Rightarrow> uid \<Rightarrow> user \<Rightarrow> rbac_db \<Rightarrow> (rbac_db, unit) handled" where
  "delete_role now role_id u db =
     (case get_row rr_id role_id (rb_roles db) of
        None \<Rightarrow> raise_http db 404
      | Some r \<Rightarrow>
          if rr_system r then raise_http db 403
          else
            reply (rb_log now u ''rbac.role.delete'' role_id
                     (db\<lparr>rb_roles := del_row rr_id role_id (rb_roles db),
                         rb_role_perms := filter (\<lambda>rp. fst rp \<noteq> role_id) (rb_role_perms db),
                         rb_user_roles := filter (\<lambda>ur. snd ur \<noteq> role_id) (rb_user_roles db)\<rparr>)) ())"

definition assign_role ::
  "instant \<Rightarrow> auth_db \<Rightarrow> uid \<Rightarrow> uid \<Rightarrow> user \<Rightarrow> rbac_db \<Rightarrow> (rbac_db, unit) handled" where
  "assign_role now users user_id role_id actor db =
     (if get_user user_id users = None then raise_http db 404
      else if get_row rr_id role_id (rb_roles db) = None then raise_http db 404
      else if (user_id, role_id) \<in> set (rb_user_roles db) then reply db ()
      else
        reply (rb_log now actor ''rbac.user_role.assign'' user_id
                 (db\<lparr>rb_user_roles := rb_user_roles db @ [(user_id, role_id)]\<rparr>)) ())"

definition remove_role :: "instant \<Rightarrow> uid \<Rightarrow> uid \<Rightarrow> user \<Rightarrow> rbac_db \<Rightarrow> (rbac_db, unit) handled" where
  "remove_role now user_id role_id actor db =
     reply (rb_log now actor ''rbac.user_role.remove'' user_id
              (db\<lparr>rb_user_roles := filter (\<lambda>ur. ur \<noteq> (user_id, role_id)) (rb_user_roles db)\<rparr>)) ()"

text \<open>One request, by a user that current-user authentication let through; every mutation is behind
  \<open>roles:write\<close>.\<close>

datatype rbac_op =
    Create_Role uid string "string option" "uid list"
  | Update_Role uid string "string option" "uid list"
  | Delete_Role uid
  | Assign_Role uid uid
  | Remove_Role uid uid

definition behind ::
  "user \<Rightarrow> (user \<Rightarrow> rbac_db \<Rightarrow> (rbac_db, 'a) handled) \<Rightarrow> rbac_db \<Rightarrow> rbac_db" where
  "behind u h db = (case require_permission ''roles:write'' u db of Inl _ \<Rightarrow> db | Inr u \<Rightarrow> fst (h u db))"

fun run_rbac_op :: "instant \<Rightarrow> auth_db \<Rightarrow> user \<times> rbac_op \<Rightarrow> rbac_db \<Rightarrow> rbac_db" where
  "run_rbac_op now users (u, Create_Role i n d ps) db = behind u (create_role now i n d ps) db"
| "run_rbac_op now users (u, Update_Role i n d ps) db = behind u (update_role now i n d ps) db"
| "run_rbac_op now users (u, Delete_Role i) db = behind u (delete_role now i) db"
| "run_rbac_op now users (u, Assign_Role i r) db = behind u (assign_role now users i r) db"
| "run_rbac_op now users (u, Remove_Role i r) db = behind u (remove_role now i r) db"

section \<open>Properties\<close>

lemma critical_not_in_fallback:
  "\<forall>r \<in> {Analyst, Viewer}. \<forall>p \<in> set (List.map_filter critical_action_permission critical_kinds).
     p \<notin> static_fallback r \<and> p \<noteq> wildcard"
  by code_simp

lemma wildcard_not_fallback: "r \<noteq> Admin \<Longrightarrow> wildcard \<notin> static_fallback r"
proof -
  have "\<forall>r \<in> {Analyst, Viewer}. wildcard \<notin> static_fallback r" by code_simp
  then show "r \<noteq> Admin \<Longrightarrow> ?thesis" by (cases r) auto
qed

lemma critical_action_permission_range:
  "critical_action_permission k = Some p \<Longrightarrow>
   p \<in> set (List.map_filter critical_action_permission critical_kinds)"
  by (auto simp: critical_action_permission_def critical_kinds_def List.map_filter_def split: if_splits)

lemma in_map_filter: "x \<in> set (List.map_filter f xs) \<longleftrightarrow> (\<exists>y \<in> set xs. f y = Some x)"
  by (force simp: List.map_filter_def)

text \<open>An L1 analyst (or a viewer) without assigned roles can run no containment action: every
  permission that a critical kind of the proposed actions demands is reported missing. And nothing is
  missing exactly when, wildcard aside, each critical kind's permission is held.\<close>

theorem l1_cannot_contain:
  assumes "u_role u \<noteq> Admin" and "db_permissions db (u_id u) = {}"
  shows "missing_action_permissions kinds (resolve_permissions u db) =
           {p. \<exists>k \<in> set kinds. critical_action_permission k = Some p}
       \<and> (missing_action_permissions kinds perms = {} \<longleftrightarrow>
            wildcard \<in> perms \<or> (\<forall>k \<in> set kinds. \<forall>p. critical_action_permission k = Some p \<longrightarrow> p \<in> perms))"
proof
  have perms: "resolve_permissions u db = static_fallback (u_role u)"
    using assms by (simp add: resolve_permissions_def effective_permissions_def)
  have "u_role u \<in> {Analyst, Viewer}" using assms(1) by (cases "u_role u") auto
  then have "critical_action_permission k = Some p \<Longrightarrow> p \<notin> static_fallback (u_role u)" for k p
    using critical_not_in_fallback critical_action_permission_range by blast
  then show "missing_action_permissions kinds (resolve_permissions u db) =
      {p. \<exists>k \<in> set kinds. critical_action_permission k = Some p}"
    using wildcard_not_fallback[OF assms(1)]
    by (auto simp: perms missing_action_permissions_def in_map_filter)
  show "missing_action_permissions kinds perms = {} \<longleftrightarrow>
      wildcard \<in> perms \<or> (\<forall>k \<in> set kinds. \<forall>p. critical_action_permission k = Some p \<longrightarrow> p \<in> perms)"
    by (auto simp: missing_action_permissions_def filter_empty_conv in_map_filter)
qed

definition example_rbac :: rbac_db where
  "example_rbac =
     \<lparr>rb_permissions = [(1, ''actions:isolate''), (2, ''roles:write'')],
      rb_roles = [\<lparr>rr_id = 10, rr_tenant = None, rr_name = ''L2 Analyst'', rr_description = None, rr_system = True\<rparr>],
      rb_role_perms = [(10, 1)], rb_user_roles = [(7, 10)], rb_audit = []\<rparr>"

theorem l1_cannot_contain_witness:
  "missing_action_permissions [''isolate_host'', ''tag''] (resolve_permissions (example_user 2 Analyst) example_rbac)
     = {''actions:isolate''}"
proof -
  have "db_permissions example_rbac (u_id (example_user 2 Analyst)) = {}" by code_simp
  then have "missing_action_permissions [''isolate_host'', ''tag'']
      (resolve_permissions (example_user 2 Analyst) example_rbac) =
      {p. \<exists>k \<in> set [''isolate_host'', ''tag'']. critical_action_permission k = Some p}"
    using l1_cannot_contain[of "example_user 2 Analyst" example_rbac] by (simp add: example_user_def)
  also have "\<dots> = {''actions:isolate''}" by (auto simp: critical_action_permission_def)
  finally show ?thesis .
qed

text \<open>Custom roles only ever add authority: whatever the tables hold, a user may still do all
  that the coarse role allows, and an administrator everything.\<close>

theorem roles_never_demote:
  assumes "has_permission (static_fallback (u_role u)) perm"
  shows "has_permission (resolve_permissions u db) perm"
  using assms
  by (cases "u_role u") (auto simp: has_permission_def resolve_permissions_def effective_permissions_def Let_def)

theorem roles_never_demote_witness:
  "has_permission (resolve_permissions (example_user 7 Analyst) example_rbac) ''incidents:approve''"
  by (rule roles_never_demote) code_simp

text \<open>A system role as the tables show it: its row and the names it grants.\<close>

definition system_view :: "rbac_db \<Rightarrow> uid \<Rightarrow> (rbac_role \<times> (uid \<times> uid) list) option" where
  "system_view db i =
     (case get_row rr_id i (rb_roles db) of
        None \<Rightarrow> None
      | Some r \<Rightarrow> if rr_system r then Some (r, filter (\<lambda>rp. fst rp = i) (rb_role_perms db)) else None)"

lemma rb_log_simps [simp]:
  "rb_roles (rb_log now u a i db) = rb_roles db" "rb_role_perms (rb_log now u a i db) = rb_role_perms db"
  by (simp_all add: rb_log_def)

lemma system_view_op:
  assumes "system_view db i = Some v"
  shows "system_view (run_rbac_op now users op db) i = Some v"
proof -
  from assms obtain r where r: "get_row rr_id i (rb_roles db) = Some r" "rr_system r"
    by (auto simp: system_view_def split: option.splits if_splits)
  have keep: "filter (\<lambda>rp. fst rp = i) (filter (\<lambda>rp. fst rp \<noteq> j) xs) = filter (\<lambda>rp. fst rp = i) xs"
    and none: "filter (\<lambda>rp. fst rp = i) (map (\<lambda>p. (j, p)) ps) = []" if "j \<noteq> i"
    for j and xs :: "(uid \<times> uid) list" and ps :: "uid list"
    using that by (induction xs) (auto simp: filter_empty_conv)
  show ?thesis
  proof (cases op)
    case (Pair u act)
    then show ?thesis
      using assms r keep none
      by (cases act)
        (auto simp: system_view_def behind_def create_role_def update_role_def delete_role_def assign_role_def
          remove_role_def handled_defs Let_def validate_role_mutation_def get_row_append filter_empty_conv
          split: sum.split option.split)
  qed
qed

interpretation roles: request_system "run_rbac_op now users" "\<lambda>_. True" "\<lambda>db. system_view db i = Some v"
  for now users i v
  by unfold_locales (rule system_view_op)

text \<open>C22. System roles are protected: no sequence of role requests, by any users, changes the row or
  the grants of a system role.\<close>

theorem system_roles_are_immutable:
  assumes "system_view db i = Some v"
  shows "system_view (fold (run_rbac_op now users) reqs db) i = Some v"
  using assms by (rule roles.run_inv) simp

theorem system_roles_are_immutable_witness:
  "system_view (fold (run_rbac_op 0 example_auth_db)
     [(example_user 1 Admin, Update_Role 10 ''x'' None [2]), (example_user 1 Admin, Delete_Role 10),
      (example_user 1 Admin, Create_Role 11 ''L3'' None [1, 2])] example_rbac) 10
   = system_view example_rbac 10"
proof -
  obtain v where "system_view example_rbac 10 = Some v"
    by (cases "system_view example_rbac 10") (code_simp, blast)
  then show ?thesis by (metis system_roles_are_immutable)
qed

end
