(* ===== verification/Sla.thy ===== *)
theory Sla
  imports Enums
begin

text \<open>
  Service levels, \<open>pipeline/sla.py\<close>: durations and breaches, the targets and their overrides, the
  dashboard (resolution and response halves) and the ranking of the investigation queue. The two
  loops of the dashboard that count cases share one accumulator here (\<open>count_case\<close>), as they share
  their shape in the code. Times are UTC instants, so the order of two ISO texts is the order of the
  instants. \<open>_response_section\<close> and \<open>build_sla_dashboard\<close> return dictionaries; the records below
  have their keys as fields.
\<close>

section \<open>Durations\<close>

definition minutes_between :: "instant \<Rightarrow> instant \<Rightarrow> rat" where
  "minutes_between a b = of_int (b - a) / 60000000"

definition seconds_between :: "instant \<Rightarrow> instant \<Rightarrow> rat" where
  "seconds_between a b = of_int (b - a) / 1000000"

definition elapsed_seconds :: "instant option \<Rightarrow> instant option \<Rightarrow> int option" where
  "elapsed_seconds start end_at =
     (case (start, end_at) of
        (Some s, Some e) \<Rightarrow> Some (max 0 (trunc_rat (seconds_between s e)))
      | _ \<Rightarrow> None)"

definition resolution_seconds :: "instant option \<Rightarrow> instant option \<Rightarrow> int option" where
  "resolution_seconds detected_at closed_at = elapsed_seconds detected_at closed_at"

definition response_seconds :: "instant option \<Rightarrow> instant option \<Rightarrow> int option" where
  "response_seconds created_at responded_at = elapsed_seconds created_at responded_at"

definition is_breached :: "int option \<Rightarrow> int option \<Rightarrow> bool" where
  "is_breached elapsed target =
     (case target of
        None \<Rightarrow> False
      | Some t \<Rightarrow> if t \<le> 0 then False else (case elapsed of None \<Rightarrow> False | Some e \<Rightarrow> t < e))"

section \<open>Targets\<close>

type_synonym targets = "(string \<times> int) list"

definition severities :: "string list" where
  "severities = [''critical'', ''high'', ''medium'', ''low'']"

definition default_target_minutes :: targets where
  "default_target_minutes = [(''critical'', 60), (''high'', 240), (''medium'', 1440), (''low'', 4320)]"

definition default_response_minutes :: targets where
  "default_response_minutes = [(''critical'', 15), (''high'', 120), (''medium'', 480), (''low'', 1440)]"

definition set_target :: "targets \<Rightarrow> string \<Rightarrow> int \<Rightarrow> targets" where
  "set_target t sev mins = map (\<lambda>(k, v). (k, if k = sev then mins else v)) t"

fun merge_targets :: "targets \<Rightarrow> (string \<times> int option) list \<Rightarrow> targets" where
  "merge_targets t [] = t"
| "merge_targets t ((sev, mins) # overrides) =
     merge_targets
       (case mins of
          None \<Rightarrow> t
        | Some m \<Rightarrow> if sev \<in> set (map fst t) \<and> 0 < m then set_target t sev m else t)
       overrides"

definition effective_targets :: "(string \<times> int option) list \<Rightarrow> targets" where
  "effective_targets overrides = merge_targets default_target_minutes overrides"

definition effective_response_targets :: "(string \<times> int option) list \<Rightarrow> targets" where
  "effective_response_targets overrides = merge_targets default_response_minutes overrides"

definition sev_rank :: "string \<Rightarrow> int" where
  "sev_rank s = (if s = ''critical'' then 0 else if s = ''high'' then 1 else if s = ''medium'' then 2
                 else if s = ''low'' then 3 else 9)"

section \<open>The dashboard\<close>

record sla_case =
  sc_case_number :: "string option"
  sc_severity :: "string option"
  sc_created_at :: "instant option"
  sc_closed_at :: "instant option"
  sc_claimed_at :: "instant option"

record bucket =
  bk_count :: nat
  bk_on_time :: nat
  bk_breached :: nat
  bk_sum :: rat

record breach =
  br_case_number :: "string option"
  br_severity :: string
  br_minutes :: int
  br_target :: int
  br_at :: instant

record tally_state =
  ts_by_sev :: "(string \<times> bucket) list"
  ts_total :: nat
  ts_on_time :: nat
  ts_breached :: nat
  ts_sum :: rat
  ts_breaches :: "breach list"

definition empty_bucket :: bucket where
  "empty_bucket = \<lparr>bk_count = 0, bk_on_time = 0, bk_breached = 0, bk_sum = 0\<rparr>"

definition empty_tally :: tally_state where
  "empty_tally = \<lparr>ts_by_sev = map (\<lambda>s. (s, empty_bucket)) severities, ts_total = 0, ts_on_time = 0,
     ts_breached = 0, ts_sum = 0, ts_breaches = []\<rparr>"

definition case_sev :: "sla_case \<Rightarrow> string" where
  "case_sev c = (case sc_severity c of None \<Rightarrow> ''medium'' | Some s \<Rightarrow> if s \<in> set severities then s else ''medium'')"

definition target_of :: "targets \<Rightarrow> string \<Rightarrow> int" where
  "target_of t sev = (case map_of t sev of None \<Rightarrow> 0 | Some m \<Rightarrow> m)"

definition case_minutes :: "instant \<Rightarrow> instant \<Rightarrow> rat" where
  "case_minutes created end_at = max 0 (minutes_between created end_at)"

definition late :: "targets \<Rightarrow> sla_case \<Rightarrow> instant \<Rightarrow> instant \<Rightarrow> bool" where
  "late targets c created end_at \<longleftrightarrow>
     0 < target_of targets (case_sev c) \<and> of_int (target_of targets (case_sev c)) < case_minutes created end_at"

definition bump_bucket :: "rat \<Rightarrow> bool \<Rightarrow> bucket \<Rightarrow> bucket" where
  "bump_bucket m breached b =
     b\<lparr>bk_count := bk_count b + 1, bk_sum := bk_sum b + m,
       bk_breached := bk_breached b + (if breached then 1 else 0),
       bk_on_time := bk_on_time b + (if breached then 0 else 1)\<rparr>"

text \<open>One turn of the counting loop: \<open>end_at\<close> is when the case was closed, or first responded to.\<close>

definition count_case :: "targets \<Rightarrow> sla_case \<times> instant option \<Rightarrow> tally_state \<Rightarrow> tally_state" where
  "count_case targets ce s =
     (case (sc_created_at (fst ce), snd ce) of
        (Some created, Some end_at) \<Rightarrow>
          (let c = fst ce; sev = case_sev c; m = case_minutes created end_at; b = late targets c created end_at
           in s\<lparr>ts_by_sev := map (\<lambda>(k, v). (k, if k = sev then bump_bucket m b v else v)) (ts_by_sev s),
                ts_total := ts_total s + 1, ts_sum := ts_sum s + m,
                ts_breached := ts_breached s + (if b then 1 else 0),
                ts_on_time := ts_on_time s + (if b then 0 else 1),
                ts_breaches := ts_breaches s @
                  (if b then [\<lparr>br_case_number = sc_case_number c, br_severity = sev, br_minutes = py_round m,
                               br_target = target_of targets sev, br_at = end_at\<rparr>] else [])\<rparr>)
      | _ \<Rightarrow> s)"

definition count_cases :: "targets \<Rightarrow> (sla_case \<times> instant option) list \<Rightarrow> tally_state" where
  "count_cases targets cases = fold (count_case targets) cases empty_tally"

text \<open>Open cases past their target.\<close>

definition overdue_row :: "targets \<Rightarrow> instant \<Rightarrow> sla_case \<Rightarrow> breach option" where
  "overdue_row targets now c =
     (case sc_created_at c of
        None \<Rightarrow> None
      | Some created \<Rightarrow>
          (let sev = case_sev c; tgt = target_of targets sev; age = minutes_between created now
           in if 0 < tgt \<and> of_int tgt < age then
                Some \<lparr>br_case_number = sc_case_number c, br_severity = sev, br_minutes = py_round age,
                      br_target = tgt, br_at = created\<rparr>
              else None))"

definition by_excess :: "breach list \<Rightarrow> breach list" where
  "by_excess = sort_key (\<lambda>x. - (br_minutes x - br_target x))"

record severity_line =
  sl_severity :: string
  sl_target :: "int option"
  sl_count :: nat
  sl_on_time :: nat
  sl_breached :: nat
  sl_avg :: "int option"
  sl_breach_rate :: rat

definition ratio :: "nat \<Rightarrow> nat \<Rightarrow> rat" where
  "ratio a n = (if n = 0 then 0 else py_round_digits 3 (of_nat a / of_nat n))"

definition average :: "rat \<Rightarrow> nat \<Rightarrow> int option" where
  "average sum_minutes n = (if n = 0 then None else Some (py_round (sum_minutes / of_nat n)))"

definition severity_lines :: "targets \<Rightarrow> tally_state \<Rightarrow> severity_line list" where
  "severity_lines targets s =
     map (\<lambda>(sev, b). \<lparr>sl_severity = sev, sl_target = map_of targets sev, sl_count = bk_count b,
            sl_on_time = bk_on_time b, sl_breached = bk_breached b, sl_avg = average (bk_sum b) (bk_count b),
            sl_breach_rate = ratio (bk_breached b) (bk_count b)\<rparr>)
       (ts_by_sev s)"

record sla_section =
  ss_targets :: targets
  ss_total :: nat
  ss_on_time :: nat
  ss_breached :: nat
  ss_breach_rate :: rat
  ss_on_time_rate :: rat
  ss_avg :: "int option"
  ss_by_severity :: "severity_line list"
  ss_overdue :: "breach list"
  ss_recent_breaches :: "breach list"

definition section_of :: "targets \<Rightarrow> tally_state \<Rightarrow> breach list \<Rightarrow> breach list \<Rightarrow> sla_section" where
  "section_of targets s overdue breaches =
     \<lparr>ss_targets = targets, ss_total = ts_total s, ss_on_time = ts_on_time s, ss_breached = ts_breached s,
      ss_breach_rate = ratio (ts_breached s) (ts_total s), ss_on_time_rate = ratio (ts_on_time s) (ts_total s),
      ss_avg = average (ts_sum s) (ts_total s), ss_by_severity = severity_lines targets s,
      ss_overdue = take 20 overdue, ss_recent_breaches = take 20 breaches\<rparr>"

definition or_instant :: "instant option \<Rightarrow> instant option \<Rightarrow> instant option" where
  "or_instant a b = (case a of None \<Rightarrow> b | Some t \<Rightarrow> Some t)"

definition response_section ::
  "sla_case list \<Rightarrow> sla_case list \<Rightarrow> targets \<Rightarrow> instant \<Rightarrow> sla_section" where
  "response_section closed_cases open_cases targets now =
     (let responded = map (\<lambda>c. (c, or_instant (sc_claimed_at c) (sc_closed_at c))) closed_cases @
                      map (\<lambda>o'. (o', sc_claimed_at o')) (filter (\<lambda>o'. sc_claimed_at o' \<noteq> None) open_cases);
          awaiting = List.map_filter (overdue_row targets now) (filter (\<lambda>o'. sc_claimed_at o' = None) open_cases);
          s = count_cases targets responded
      in section_of targets s (by_excess awaiting) (sort_key (\<lambda>x. sev_rank (br_severity x)) (ts_breaches s)))"

definition resolution_section ::
  "sla_case list \<Rightarrow> sla_case list \<Rightarrow> targets \<Rightarrow> instant \<Rightarrow> sla_section" where
  "resolution_section closed_cases open_cases targets now =
     (let s = count_cases targets (map (\<lambda>c. (c, sc_closed_at c)) closed_cases)
      in section_of targets s (by_excess (List.map_filter (overdue_row targets now) open_cases))
           (sort_key (\<lambda>x. - br_at x) (ts_breaches s)))"

definition build_sla_dashboard ::
  "sla_case list \<Rightarrow> sla_case list \<Rightarrow> targets \<Rightarrow> targets option \<Rightarrow> instant \<Rightarrow> sla_section \<times> sla_section" where
  "build_sla_dashboard closed_cases open_cases targets response_targets now =
     (resolution_section closed_cases open_cases targets now,
      response_section closed_cases open_cases
        (case response_targets of
           None \<Rightarrow> default_response_minutes
         | Some t \<Rightarrow> if t = [] then default_response_minutes else t) now)"

section \<open>The investigation queue\<close>

record queue_row =
  qr_id :: uid
  qr_case_number :: string
  qr_title :: string
  qr_severity :: "string option"
  qr_status :: case_status
  qr_tenant_id :: "uid option"
  qr_customer :: "string option"
  qr_assignee_id :: "uid option"
  qr_snoozed_until :: "instant option"
  qr_created_at :: "instant option"
  qr_proposed_actions :: "string list"
  qr_asset :: "string option"

datatype queue_bucket = Mine | Unassigned

datatype sla_state = Breached | Amber | Green

record queue_item =
  qi_row :: queue_row
  qi_severity :: string
  qi_bucket :: queue_bucket
  qi_due :: instant
  qi_remaining :: int
  qi_state :: sla_state

record queue_view =
  qv_items :: "queue_item list"
  qv_total :: nat
  qv_mine :: nat
  qv_unassigned :: nat
  qv_next_up :: "uid option"

definition row_bucket :: "uid \<Rightarrow> queue_row \<Rightarrow> queue_bucket option" where
  "row_bucket me r =
     (case qr_assignee_id r of
        None \<Rightarrow> Some Unassigned
      | Some a \<Rightarrow> if a = me then Some Mine else None)"

definition row_snoozed :: "instant \<Rightarrow> queue_row \<Rightarrow> bool" where
  "row_snoozed now r = (case qr_snoozed_until r of None \<Rightarrow> False | Some t \<Rightarrow> now < t)"

definition row_severity :: "queue_row \<Rightarrow> string" where
  "row_severity r = lower (if truthy_str (qr_severity r) then opt_str (qr_severity r) else ''medium'')"

definition row_target :: "targets \<Rightarrow> queue_row \<Rightarrow> int" where
  "row_target tgt r =
     (case map_of tgt (row_severity r) of Some m \<Rightarrow> m | None \<Rightarrow> foldr max (map snd tgt) 0)"

definition queue_item_of :: "uid \<Rightarrow> instant \<Rightarrow> targets \<Rightarrow> queue_row \<Rightarrow> queue_item option" where
  "queue_item_of me now tgt r =
     (case row_bucket me r of
        None \<Rightarrow> None
      | Some b \<Rightarrow>
          if row_snoozed now r then None
          else
            (let target_min = row_target tgt r;
                 created = (case qr_created_at r of None \<Rightarrow> now | Some t \<Rightarrow> t);
                 due = created + target_min * 60000000;
                 remaining = seconds_between now due;
                 window = target_min * 60;
                 state = (if remaining < 0 then Breached
                          else if 0 < window \<and> remaining < of_int window / 4 then Amber else Green)
             in Some \<lparr>qi_row = r, qi_severity = row_severity r, qi_bucket = b, qi_due = due,
                      qi_remaining = trunc_rat remaining, qi_state = state\<rparr>))"

definition bucket_rank :: "queue_bucket \<Rightarrow> int" where
  "bucket_rank b = (case b of Mine \<Rightarrow> 0 | Unassigned \<Rightarrow> 1)"

definition queue_key :: "queue_item \<Rightarrow> int \<times> int \<times> int" where
  "queue_key i = (bucket_rank (qi_bucket i), qi_due i, sev_rank (qi_severity i))"

definition build_queue ::
  "queue_row list \<Rightarrow> uid \<Rightarrow> instant \<Rightarrow> (string \<times> int option) list \<Rightarrow> queue_view" where
  "build_queue rows me now targets =
     (let items = sort_key queue_key
            (List.map_filter (queue_item_of me now (effective_targets targets)) rows)
      in \<lparr>qv_items = items, qv_total = length items,
          qv_mine = length (filter (\<lambda>i. qi_bucket i = Mine) items),
          qv_unassigned = length (filter (\<lambda>i. qi_bucket i = Unassigned) items),
          qv_next_up = (case items of [] \<Rightarrow> None | i # _ \<Rightarrow> Some (qr_id (qi_row i)))\<rparr>)"

section \<open>Lemmas\<close>

lemma fst_set_target [simp]: "map fst (set_target t s m) = map fst t"
  by (induction t) (auto simp: set_target_def)

lemma merge_targets_keys: "map fst (merge_targets t ov) = map fst t"
  by (induction t ov rule: merge_targets.induct) (auto split: option.splits)

definition positive :: "targets \<Rightarrow> bool" where
  "positive t \<longleftrightarrow> (\<forall>m \<in> set (map snd t). 0 < m)"

lemma merge_targets_pos: "positive t \<Longrightarrow> positive (merge_targets t ov)"
proof (induction ov arbitrary: t)
  case (Cons o' ov)
  obtain sev mins where [simp]: "o' = (sev, mins)" by (cases o')
  have "positive (set_target t sev k)" if "0 < k" for k
    using Cons.prems that by (auto simp: set_target_def positive_def)
  with Cons show ?case by (cases mins) simp_all
qed simp

lemma effective_targets_keys: "map fst (effective_targets ov) = severities"
  by (simp add: effective_targets_def merge_targets_keys default_target_minutes_def severities_def)

lemma effective_targets_pos: "0 < m \<or> (s, m) \<notin> set (effective_targets ov)"
  using merge_targets_pos[of default_target_minutes ov]
  by (force simp: effective_targets_def default_target_minutes_def positive_def)

text \<open>What one counted case contributes.\<close>

definition counted :: "sla_case \<times> instant option \<Rightarrow> bool" where
  "counted ce \<longleftrightarrow> sc_created_at (fst ce) \<noteq> None \<and> snd ce \<noteq> None"

definition counted_late :: "targets \<Rightarrow> sla_case \<times> instant option \<Rightarrow> bool" where
  "counted_late targets ce \<longleftrightarrow>
     counted ce \<and> late targets (fst ce) (the (sc_created_at (fst ce))) (the (snd ce))"

definition tally_inv :: "targets \<Rightarrow> (sla_case \<times> instant option) list \<Rightarrow> tally_state \<Rightarrow> bool" where
  "tally_inv targets cs s \<longleftrightarrow>
     ts_total s = length (filter counted cs) \<and>
     ts_breached s = length (filter (counted_late targets) cs) \<and>
     ts_on_time s + ts_breached s = ts_total s \<and>
     length (ts_breaches s) = ts_breached s \<and>
     map fst (ts_by_sev s) = severities \<and>
     (\<forall>(sev, b) \<in> set (ts_by_sev s).
        bk_count b = length (filter (\<lambda>ce. counted ce \<and> case_sev (fst ce) = sev) cs) \<and>
        bk_breached b = length (filter (\<lambda>ce. counted_late targets ce \<and> case_sev (fst ce) = sev) cs) \<and>
        bk_on_time b + bk_breached b = bk_count b)"

lemma tally_inv_empty: "tally_inv targets [] empty_tally"
  by (auto simp: tally_inv_def empty_tally_def empty_bucket_def severities_def)

lemma tally_inv_step:
  assumes "tally_inv targets cs s"
  shows "tally_inv targets (cs @ [ce]) (count_case targets ce s)"
proof (cases "counted ce")
  case False
  then have "count_case targets ce s = s"
    by (auto simp: counted_def count_case_def split: option.splits)
  with False assms show ?thesis by (simp add: tally_inv_def counted_late_def)
next
  case True
  then obtain created end_at where ce: "sc_created_at (fst ce) = Some created" "snd ce = Some end_at"
    by (auto simp: counted_def)
  then have late: "counted_late targets ce = late targets (fst ce) created end_at"
    by (simp add: counted_late_def counted_def)
  have fst_eq: "fst \<circ> (\<lambda>(k, v). (k, if k = sev then f v else v)) = fst"
    for sev :: string and f :: "bucket \<Rightarrow> bucket"
    by auto
  show ?thesis
    using assms True
    by (auto simp: tally_inv_def count_case_def ce Let_def late fst_eq bump_bucket_def split: if_splits)
qed

lemma count_cases_inv: "tally_inv targets cs (count_cases targets cs)"
proof (induction cs rule: rev_induct)
  case Nil
  show ?case by (simp add: count_cases_def tally_inv_empty)
next
  case (snoc ce cs)
  then show ?case using tally_inv_step by (simp add: count_cases_def)
qed
text \<open>The rows kept by the queue, in the order of the input.\<close>

definition on_worklist :: "uid \<Rightarrow> instant \<Rightarrow> queue_row \<Rightarrow> bool" where
  "on_worklist me now r \<longleftrightarrow>
     (qr_assignee_id r = None \<or> qr_assignee_id r = Some me) \<and> \<not> row_snoozed now r"

lemma on_worklist_eq:
  "on_worklist me now = (\<lambda>r. (qr_assignee_id r = None \<or> qr_assignee_id r = Some me) \<and> \<not> row_snoozed now r)"
  by (simp add: fun_eq_iff on_worklist_def)

lemma queue_item_of_row:
  "queue_item_of me now t r = Some i \<Longrightarrow>
   qi_row i = r \<and> (qi_bucket i = Mine \<longleftrightarrow> qr_assignee_id r = Some me)"
  by (auto simp: queue_item_of_def row_bucket_def Let_def split: option.splits if_splits)

lemma queue_rows_kept:
  "map qi_row (List.map_filter (queue_item_of me now t) rows) = filter (on_worklist me now) rows"
proof (induction rows)
  case (Cons r rows)
  have dom: "queue_item_of me now t r \<noteq> None \<longleftrightarrow> on_worklist me now r"
    by (auto simp: on_worklist_def queue_item_of_def row_bucket_def Let_def split: option.splits)
  show ?case
  proof (cases "queue_item_of me now t r")
    case None
    with dom Cons.IH show ?thesis by (simp add: List.map_filter_simps)
  next
    case (Some i)
    with dom queue_item_of_row[OF Some] Cons.IH show ?thesis by (simp add: List.map_filter_simps)
  qed
qed (simp add: List.map_filter_simps)

lemma build_queue_rows:
  "mset (map qi_row (qv_items (build_queue rows me now targets))) = mset (filter (on_worklist me now) rows)"
proof -
  have "mset (map qi_row (sort_key queue_key xs)) = mset (map qi_row xs)" for xs by simp
  then show ?thesis unfolding build_queue_def Let_def queue_view.select_convs by (simp only: queue_rows_kept)
qed


section \<open>Properties\<close>

text \<open>The counts of the SLA dashboard are exact and add up, in both halves: the total is the number
  of cases with both timestamps, the breaches are those of them past their own severity's target,
  on-time and breached partition the total, and each severity's line counts exactly its own cases.\<close>

theorem dashboard_counts_are_exact:
  "let cs = map (\<lambda>c. (c, sc_closed_at c)) closed_cases; d = resolution_section closed_cases open_cases targets now
   in ss_total d = length (filter counted cs)
    \<and> ss_breached d = length (filter (counted_late targets) cs)
    \<and> ss_on_time d + ss_breached d = ss_total d
    \<and> map sl_severity (ss_by_severity d) = severities
    \<and> (\<forall>l \<in> set (ss_by_severity d).
         sl_count l = length (filter (\<lambda>ce. counted ce \<and> case_sev (fst ce) = sl_severity l) cs)
       \<and> sl_breached l = length (filter (\<lambda>ce. counted_late targets ce \<and> case_sev (fst ce) = sl_severity l) cs)
       \<and> sl_on_time l + sl_breached l = sl_count l)"
proof -
  define cs where "cs = map (\<lambda>c. (c, sc_closed_at c)) closed_cases"
  have inv: "tally_inv targets cs (count_cases targets cs)" by (rule count_cases_inv)
  let ?s = "count_cases targets cs"
  have sevs: "map sl_severity (severity_lines targets s) = map fst (ts_by_sev s)" for s
    by (auto simp: severity_lines_def)
  have lines: "sl_count l = length (filter (\<lambda>ce. counted ce \<and> case_sev (fst ce) = sl_severity l) cs)
       \<and> sl_breached l = length (filter (\<lambda>ce. counted_late targets ce \<and> case_sev (fst ce) = sl_severity l) cs)
       \<and> sl_on_time l + sl_breached l = sl_count l" if l: "l \<in> set (severity_lines targets ?s)" for l
  proof -
    from l obtain sev b where b: "(sev, b) \<in> set (ts_by_sev ?s)" and
      eq: "sl_severity l = sev" "sl_count l = bk_count b" "sl_breached l = bk_breached b"
        "sl_on_time l = bk_on_time b"
      by (auto simp: severity_lines_def)
    from inv b show ?thesis unfolding tally_inv_def eq by blast
  qed
  have tot: "ts_total ?s = length (filter counted cs)" "ts_breached ?s = length (filter (counted_late targets) cs)"
    "ts_on_time ?s + ts_breached ?s = ts_total ?s" "map fst (ts_by_sev ?s) = severities"
    using inv by (simp_all add: tally_inv_def)
  show ?thesis
    unfolding Let_def resolution_section_def cs_def[symmetric] section_of_def sla_section.select_convs
    by (intro conjI ballI) (use tot sevs[of ?s] lines in \<open>blast | simp only:\<close>)+
qed

text \<open>The queue view is exactly the caller's worklist: the rows assigned to the caller or to
  nobody that are not snoozed now, each once, in the order mine before unassigned, then by due time,
  then by severity; the counters count them and the next one up is the first.\<close>

theorem queue_is_the_ranked_worklist:
  "let v = build_queue rows me now targets
   in mset (map qi_row (qv_items v)) =
        mset (filter (\<lambda>r. (qr_assignee_id r = None \<or> qr_assignee_id r = Some me) \<and> \<not> row_snoozed now r) rows)
    \<and> sorted (map queue_key (qv_items v))
    \<and> (\<forall>i \<in> set (qv_items v). qi_bucket i = Mine \<longleftrightarrow> qr_assignee_id (qi_row i) = Some me)
    \<and> qv_mine v + qv_unassigned v = qv_total v \<and> qv_total v = length (qv_items v)
    \<and> qv_next_up v = (if qv_items v = [] then None else Some (qr_id (qi_row (hd (qv_items v)))))"
proof -
  let ?f = "queue_item_of me now (effective_targets targets)"
  have part: "length (filter (\<lambda>i. qi_bucket i = Mine) xs) + length (filter (\<lambda>i. qi_bucket i = Unassigned) xs)
      = length xs" for xs
  proof (induction xs)
    case (Cons x xs)
    then show ?case by (cases "qi_bucket x") auto
  qed simp
  have mine: "\<forall>i \<in> set (List.map_filter ?f rows). qi_bucket i = Mine \<longleftrightarrow> qr_assignee_id (qi_row i) = Some me"
    using queue_item_of_row by (force simp: List.map_filter_def)
  define items where "items = sort_key queue_key (List.map_filter ?f rows)"
  have "mset (map qi_row items) = mset (map qi_row (List.map_filter ?f rows))"
    by (simp add: items_def)
  then have perm: "mset (map qi_row items) =
      mset (filter (\<lambda>r. (qr_assignee_id r = None \<or> qr_assignee_id r = Some me) \<and> \<not> row_snoozed now r) rows)"
    by (simp only: queue_rows_kept on_worklist_eq)
  have "set items = set (List.map_filter ?f rows)" and "sorted (map queue_key items)"
    by (simp_all add: items_def)
  with mine perm part[of items] show ?thesis
    unfolding Let_def build_queue_def items_def[symmetric] queue_view.select_convs
    by (cases items) auto
qed

section \<open>Worked examples\<close>

definition example_row :: "uid \<Rightarrow> string \<Rightarrow> uid option \<Rightarrow> queue_row" where
  "example_row i sev a =
     \<lparr>qr_id = i, qr_case_number = ''INC'', qr_title = ''t'', qr_severity = Some sev, qr_status = Received,
      qr_tenant_id = None, qr_customer = None, qr_assignee_id = a, qr_snoozed_until = None,
      qr_created_at = Some 0, qr_proposed_actions = [], qr_asset = None\<rparr>"

lemma queue_is_the_ranked_worklist_witness:
  "let v = build_queue [example_row 1 ''low'' None, example_row 2 ''high'' None, example_row 3 ''low'' (Some 9),
             example_row 4 ''critical'' (Some 8)] 9 5 []
   in map (\<lambda>i. qr_id (qi_row i)) (qv_items v) = [3, 2, 1] \<and> sorted (map queue_key (qv_items v)) \<and>
      qv_mine v + qv_unassigned v = 3"
proof -
  let ?v = "build_queue [example_row 1 ''low'' None, example_row 2 ''high'' None, example_row 3 ''low'' (Some 9),
             example_row 4 ''critical'' (Some 8)] 9 5 []"
  have "map (\<lambda>i. qr_id (qi_row i)) (qv_items ?v) = [3, 2, 1] \<and> qv_total ?v = 3" by code_simp
  moreover have "sorted (map queue_key (qv_items ?v)) \<and> qv_mine ?v + qv_unassigned ?v = qv_total ?v"
    using queue_is_the_ranked_worklist unfolding Let_def by blast
  ultimately show ?thesis unfolding Let_def by simp
qed

definition example_case :: "string \<Rightarrow> instant \<Rightarrow> sla_case" where
  "example_case sev closed_at =
     \<lparr>sc_case_number = None, sc_severity = Some sev, sc_created_at = Some 0, sc_closed_at = Some closed_at,
      sc_claimed_at = None\<rparr>"

lemma dashboard_counts_are_exact_witness:
  "let d = resolution_section [example_case ''critical'' 60000000, example_case ''critical'' 6000000000] []
             default_target_minutes 0
   in ss_total d = 2 \<and> ss_breached d = 1 \<and> ss_on_time d + ss_breached d = ss_total d"
proof -
  let ?cs = "[example_case ''critical'' 60000000, example_case ''critical'' 6000000000]"
  let ?d = "resolution_section ?cs [] default_target_minutes 0"
  have "ss_total ?d = length (filter counted (map (\<lambda>c. (c, sc_closed_at c)) ?cs)) \<and>
        ss_breached ?d = length (filter (counted_late default_target_minutes) (map (\<lambda>c. (c, sc_closed_at c)) ?cs)) \<and>
        ss_on_time ?d + ss_breached ?d = ss_total ?d"
    using dashboard_counts_are_exact unfolding Let_def by blast
  moreover have "length (filter counted (map (\<lambda>c. (c, sc_closed_at c)) ?cs)) = 2" by code_simp
  moreover have "length (filter (counted_late default_target_minutes) (map (\<lambda>c. (c, sc_closed_at c)) ?cs)) = 1"
    by code_simp
  ultimately show ?thesis unfolding Let_def by simp
qed

end
