(* ===== verification/Incident.thy ===== *)
theory Incident
  imports Decision Tenancy Rbac
begin

text \<open>
  The incident row and the tables around it (\<open>db/models.py\<close>), as the handlers and the pipeline see
  them: the row itself with the enrichment document as a record of the keys the code decides on, the
  timeline, the SLA ledger, the audit log, queued jobs, notifications, indicators, entity links,
  exclusion suggestions and customer cases, and the effects outside the database (EDR calls, points
  of the vector store, mirrored verdicts), kept as logs. The text shown on timeline rows is not
  modelled, only who did what to which incident and when.
\<close>

section \<open>Enrichment\<close>

record fast_verdict =
  fv_verdict :: string
  fv_confidence :: string
  fv_reason :: string

record proposal =
  pp_verdict :: "string option"
  pp_confidence :: "string option"

record proposed_action =
  pa_id :: "string option"
  pa_kind :: "string option"
  pa_type :: "string option"
  pa_label :: "string option"
  pa_provider :: "string option"
  pa_params :: "(string \<times> pyval) list"
  pa_justification :: "string option"
  pa_status :: "string option"
  pa_task_id :: "string option"
  pa_blast_radius :: "string option"
  pa_autonomy :: "autonomy_decision option"

text \<open>One executed or failed response action as logged in \<open>enrichment["v1_actions"]\<close>.\<close>

record action_log =
  al_kind :: "string option"
  al_actor :: string
  al_status :: "string option"
  al_task_id :: "string option"
  al_provider :: string

text \<open>One indicator of the case found in the local feeds: \<open>enrichment["threat_intel_matches"]\<close>.\<close>

record ti_match =
  tm_value :: "string option"
  tm_score :: real

record enrichment =
  en_exact_match :: "exact_match option"
  en_n_way :: "nway option"
  en_similar :: "prior list"
  en_triage :: "triage_row list"
  en_ti_matches :: "ti_match list"
  en_sensitive :: "string option"      \<comment> \<open>the keyword of \<open>sensitive_rule\<close>\<close>
  en_fast :: "fast_verdict option"
  en_threat :: "rat option"            \<comment> \<open>\<open>scores.threat\<close>\<close>
  en_stages :: "string list"
  en_proposal :: "proposal option"
  en_proposed_actions :: "proposed_action list"
  en_v1_actions :: "action_log list"

definition empty_enrichment :: enrichment where
  "empty_enrichment =
     \<lparr>en_exact_match = None, en_n_way = None, en_similar = [], en_triage = [],
      en_ti_matches = [], en_sensitive = None,
      en_fast = None, en_threat = None, en_stages = [], en_proposal = None, en_proposed_actions = [],
      en_v1_actions = []\<rparr>"

section \<open>The incident\<close>

record incident =
  i_id :: uid
  i_case_number :: string
  i_title :: string
  i_status :: case_status
  i_severity :: severity
  i_verdict :: verdict
  i_confidence :: "confidence option"
  i_customer :: "string option"
  i_tenant_id :: "uid option"
  i_rule_name :: "string option"
  i_normalized :: "(string \<times> pyval) list"
  i_enrichment :: enrichment
  i_autoclose_pre :: "autoclose_hit option"
  i_autoclose_post :: "autoclose_hit option"
  i_short_circuit :: "gate option"
  i_llm_report :: "string option"
  i_analyst_notes :: "string option"
  i_verdict_reason :: "string option"
  i_handoff_note :: "string option"
  i_assignee_id :: "uid option"
  i_claimed_at :: "instant option"
  i_snoozed_until :: "instant option"
  i_snoozed_by_id :: "uid option"
  i_escalated_at :: "instant option"
  i_escalated_by_id :: "uid option"
  i_escalation_note :: "string option"
  i_closed_at :: "instant option"
  i_approved_by_id :: "uid option"
  i_signed_off_at :: "instant option"
  i_qdrant_alert_id :: "uid option"
  i_deleted_at :: "instant option"
  i_created_at :: instant

section \<open>The tables\<close>

record timeline_event =
  te_incident_id :: uid
  te_ts :: instant
  te_actor :: string
  te_event_type :: string

datatype sla_kind = Detected | Acknowledged | Resolved | Closed_Event

record sla_event =
  se_incident_id :: uid
  se_tenant_id :: "uid option"
  se_kind :: sla_kind
  se_at :: instant
  se_actor_id :: "uid option"

datatype job =
    Synthesize_Only uid bool
  | Assignment_Email uid

record notification =
  nf_user_id :: uid
  nf_kind :: string
  nf_actor_id :: "uid option"

record ioc_record =
  ir_incident_id :: uid
  ir_type :: ioc_type
  ir_value :: string
  ir_excluded :: bool

record suggestion =
  sg_id :: uid
  sg_value :: string
  sg_type :: string
  sg_customer :: "string option"
  sg_fp_count :: nat
  sg_seen_rules :: "string list"
  sg_seen_incidents :: "uid list"
  sg_last_rule :: "string option"
  sg_first_seen :: instant
  sg_last_seen :: "instant option"
  sg_confidence :: nat
  sg_status :: string

record customer_case =
  cc_id :: uid
  cc_source_incident_id :: uid
  cc_tenant_id :: "uid option"
  cc_status :: customer_case_status
  cc_locale :: string
  cc_title :: string

text \<open>One call to an endpoint-response API: which provider, which operation, on whose behalf.\<close>

record edr_call =
  ec_incident_id :: uid
  ec_provider :: string
  ec_kind :: string
  ec_user_id :: uid

record memory_point =
  mp_incident_id :: uid
  mp_verdict :: verdict
  mp_reason :: string
  mp_customer :: "string option"

record case_db =
  cd_incidents :: "incident list"
  cd_timeline :: "timeline_event list"
  cd_sla :: "sla_event list"
  cd_audit :: "audit_entry list"
  cd_jobs :: "job list"
  cd_notifications :: "notification list"
  cd_watchers :: "(uid \<times> uid) list"      \<comment> \<open>incident, user\<close>
  cd_iocs :: "ioc_record list"
  cd_entity_links :: "(uid \<times> uid) list"  \<comment> \<open>incident, entity\<close>
  cd_risk :: "(uid \<times> real option) list"   \<comment> \<open>entity, \<open>risk_score\<close>\<close>
  cd_suggestions :: "suggestion list"
  cd_customer_cases :: "customer_case list"
  cd_case_incidents :: "(uid \<times> uid) list" \<comment> \<open>customer case, incident\<close>
  cd_edr :: "edr_call list"
  cd_memory :: "memory_point list"
  cd_mirrored :: "(uid \<times> verdict) list"

definition get_incident :: "uid \<Rightarrow> case_db \<Rightarrow> incident option" where
  "get_incident i db = get_row i_id i (cd_incidents db)"

definition upd_incident :: "uid \<Rightarrow> (incident \<Rightarrow> incident) \<Rightarrow> case_db \<Rightarrow> case_db" where
  "upd_incident i f db = db\<lparr>cd_incidents := upd_row i_id i f (cd_incidents db)\<rparr>"

definition add_timeline :: "instant \<Rightarrow> string \<Rightarrow> string \<Rightarrow> uid \<Rightarrow> case_db \<Rightarrow> case_db" where
  "add_timeline now actor event_type i db =
     db\<lparr>cd_timeline := cd_timeline db @
       [\<lparr>te_incident_id = i, te_ts = now, te_actor = actor, te_event_type = event_type\<rparr>]\<rparr>"

definition record_sla_event ::
  "instant \<Rightarrow> sla_kind \<Rightarrow> uid option \<Rightarrow> incident \<Rightarrow> case_db \<Rightarrow> case_db" where
  "record_sla_event now kind actor_id inc db =
     db\<lparr>cd_sla := cd_sla db @
       [\<lparr>se_incident_id = i_id inc, se_tenant_id = i_tenant_id inc, se_kind = kind, se_at = now,
         se_actor_id = actor_id\<rparr>]\<rparr>"

definition audit_incident :: "instant \<Rightarrow> user \<Rightarrow> string \<Rightarrow> incident \<Rightarrow> case_db \<Rightarrow> case_db" where
  "audit_incident now u action inc db =
     db\<lparr>cd_audit := audit_log now (Some (u_id u)) action (Some (i_id inc)) (i_tenant_id inc) (cd_audit db)\<rparr>"

definition enqueue :: "job \<Rightarrow> case_db \<Rightarrow> case_db" where
  "enqueue j db = db\<lparr>cd_jobs := cd_jobs db @ [j]\<rparr>"

text \<open>\<open>notify.py\<close>: one row per distinct recipient other than the actor.\<close>

definition notify_users :: "uid list \<Rightarrow> string \<Rightarrow> uid option \<Rightarrow> case_db \<Rightarrow> case_db" where
  "notify_users user_ids kind actor_id db =
     db\<lparr>cd_notifications := cd_notifications db @
       map (\<lambda>u. \<lparr>nf_user_id = u, nf_kind = kind, nf_actor_id = actor_id\<rparr>)
         (filter (\<lambda>u. actor_id \<noteq> Some u) (rev (remdups (rev user_ids))))\<rparr>"

definition incident_watcher_ids :: "uid \<Rightarrow> case_db \<Rightarrow> uid list" where
  "incident_watcher_ids i db = map snd (filter (\<lambda>w. fst w = i) (cd_watchers db))"

section \<open>Frame lemmas\<close>

lemma get_incident_id: "get_incident i db = Some inc \<Longrightarrow> i_id inc = i"
  unfolding get_incident_def by (drule get_row_Some) simp

lemma get_incident_upd [simp]:
  "(\<And>inc. i_id (f inc) = i_id inc) \<Longrightarrow>
   get_incident j (upd_incident i f db) = (if j = i then map_option f (get_incident j db) else get_incident j db)"
  by (simp add: get_incident_def upd_incident_def)

lemma incidents_frame [simp, frame_simps]:
  "cd_incidents (add_timeline now a e i db) = cd_incidents db"
  "cd_incidents (record_sla_event now k u inc db) = cd_incidents db"
  "cd_incidents (audit_incident now v s inc db) = cd_incidents db"
  "cd_incidents (enqueue j db) = cd_incidents db"
  "cd_incidents (notify_users us s u db) = cd_incidents db"
  by (simp_all add: add_timeline_def record_sla_event_def audit_incident_def enqueue_def notify_users_def)

lemma get_incident_frame [simp, frame_simps]:
  "get_incident x (add_timeline now a e i db) = get_incident x db"
  "get_incident x (record_sla_event now k u inc db) = get_incident x db"
  "get_incident x (audit_incident now v s inc db) = get_incident x db"
  "get_incident x (enqueue j db) = get_incident x db"
  "get_incident x (notify_users us s u db) = get_incident x db"
  by (simp_all add: get_incident_def)

lemma edr_frame [simp, frame_simps]:
  "cd_edr (add_timeline now a e i db) = cd_edr db"
  "cd_edr (record_sla_event now k u inc db) = cd_edr db"
  "cd_edr (audit_incident now v s inc db) = cd_edr db"
  "cd_edr (enqueue j db) = cd_edr db"
  "cd_edr (notify_users us s u db) = cd_edr db"
  "cd_edr (upd_incident i f db) = cd_edr db"
  by (simp_all add: add_timeline_def record_sla_event_def audit_incident_def enqueue_def
      notify_users_def upd_incident_def)

lemma links_frame [simp, frame_simps]:
  "cd_entity_links (add_timeline now a e i db) = cd_entity_links db"
  "cd_entity_links (record_sla_event now k u inc db) = cd_entity_links db"
  "cd_entity_links (audit_incident now v s inc db) = cd_entity_links db"
  "cd_entity_links (upd_incident i f db) = cd_entity_links db"
  by (simp_all add: add_timeline_def record_sla_event_def audit_incident_def upd_incident_def)

definition example_incident :: "uid \<Rightarrow> case_status \<Rightarrow> incident" where
  "example_incident i st =
     \<lparr>i_id = i, i_case_number = ''INC-'' @ show_nat i, i_title = ''t'', i_status = st, i_severity = Medium,
      i_verdict = Pending, i_confidence = None, i_customer = Some ''ACME'', i_tenant_id = Some 3,
      i_rule_name = Some ''rule'', i_normalized = [], i_enrichment = empty_enrichment,
      i_autoclose_pre = None, i_autoclose_post = None, i_short_circuit = None, i_llm_report = None,
      i_analyst_notes = None, i_verdict_reason = None, i_handoff_note = None, i_assignee_id = None,
      i_claimed_at = None, i_snoozed_until = None, i_snoozed_by_id = None, i_escalated_at = None,
      i_escalated_by_id = None, i_escalation_note = None, i_closed_at = None, i_approved_by_id = None,
      i_signed_off_at = None, i_qdrant_alert_id = None, i_deleted_at = None, i_created_at = 0\<rparr>"

definition empty_case_db :: case_db where
  "empty_case_db =
     \<lparr>cd_incidents = [], cd_timeline = [], cd_sla = [], cd_audit = [], cd_jobs = [], cd_notifications = [],
      cd_watchers = [], cd_iocs = [], cd_entity_links = [], cd_risk = [], cd_suggestions = [],
      cd_customer_cases = [], cd_case_incidents = [], cd_edr = [], cd_memory = [], cd_mirrored = []\<rparr>"

end
