(* ===== verification/Auto_Tune.thy ===== *)
theory Auto_Tune
  imports Incident
begin

text \<open>
  Auto-tuning of exclusions, \<open>exclusions/auto_tune.py\<close>: what a false-positive or benign verdict
  leaves behind as a candidate exclusion. A verdict hook counts, per value, type and customer, the
  incidents and rules that contributed; nothing is applied without an administrator. The session runs
  without autoflush, so the queries of the hook read the incidents of the store \<open>db\<close> while the
  verdict of the incident at hand is the one just assigned to \<open>inc\<close>.
\<close>

section \<open>Eligible values\<close>

fun ex_type_of :: "ioc_type \<Rightarrow> string" where
  "ex_type_of Ipv4 = ''ip''"
| "ex_type_of Ipv6 = ''ip''"
| "ex_type_of Domain = ''domain''"
| "ex_type_of Url = ''domain''"
| "ex_type_of Email_Addr = ''domain''"
| "ex_type_of Sha256 = ''hash''"
| "ex_type_of Sha1 = ''hash''"
| "ex_type_of Md5 = ''hash''"

definition host_of_url :: "string \<Rightarrow> string option" where
  "host_of_url url =
     (let after = (case after_scheme url of None \<Rightarrow> url | Some a \<Rightarrow> a);
          host = before_first (CHR ''#'') (before_first (CHR ''?'') (before_first (CHR ''/'') after));
          name = lower (before_first (CHR '':'') (after_first (CHR ''@'') host))
      in if name = [] then None else Some name)"

definition eligible_value :: "ioc_type \<Rightarrow> string \<Rightarrow> (string \<times> string) option" where
  "eligible_value t value =
     (if value = [] then None
      else if t = Url then map_option (\<lambda>h. (''domain'', h)) (host_of_url value)
      else if t = Email_Addr then
        (let host = (if CHR ''@'' \<in> set value then
                       rstrip_char (CHR ''.'') (lower (strip (after_last (CHR ''@'') value))) else [])
         in if host = [] then None else Some (''domain'', host))
      else Some (ex_type_of t, if ex_type_of t = ''hash'' then lower (strip value) else strip value))"

definition given :: "string option \<Rightarrow> string list" where
  "given v = (if truthy_str v then [lower (opt_str v)] else [])"

definition malicious_values :: "enrichment \<Rightarrow> string set" where
  "malicious_values e =
     set (concat (map (\<lambda>m. given (tm_value m)) (en_ti_matches e))) \<union>
     set (concat (map (\<lambda>r. if lower (opt_str (tr_verdict r)) = ''malicious'' then
                             concat (map (\<lambda>key. given (map_of (tr_own r) key)) [''ioc'', ''value'', ''indicator''])
                           else [])
                      (en_triage e)))"

definition confidence_score :: "nat \<Rightarrow> nat \<Rightarrow> nat" where
  "confidence_score fp_count distinct_rules = min 100 (fp_count * 15 + distinct_rules * 15)"

section \<open>The verdict hook\<close>

definition eligible_keys :: "incident \<Rightarrow> ioc_record list \<Rightarrow> (string \<times> string) list" where
  "eligible_keys inc rows =
     rev (remdups (rev
       (filter (\<lambda>k. lower (snd k) \<notin> malicious_values (i_enrichment inc))
         (List.map_filter (\<lambda>r. eligible_value (ir_type r) (ir_value r)) rows))))"

text \<open>The join of indicators and incidents that counts true positives for a value.\<close>

definition tp_count :: "string \<Rightarrow> case_db \<Rightarrow> nat" where
  "tp_count val db =
     length (filter (\<lambda>r. lower (ir_value r) = lower val \<and>
                        map_option i_verdict (get_incident (ir_incident_id r) db) = Some TP)
                    (cd_iocs db))"

definition is_for :: "string \<Rightarrow> string \<Rightarrow> string option \<Rightarrow> suggestion \<Rightarrow> bool" where
  "is_for ex_type val customer s \<longleftrightarrow>
     sg_value s = val \<and> sg_type s = ex_type \<and> sg_customer s = customer"

definition new_suggestion :: "instant \<Rightarrow> uid \<Rightarrow> string \<Rightarrow> string \<Rightarrow> string option \<Rightarrow> suggestion" where
  "new_suggestion now new_id ex_type val customer =
     \<lparr>sg_id = new_id, sg_value = val, sg_type = ex_type, sg_customer = customer, sg_fp_count = 0,
      sg_seen_rules = [], sg_seen_incidents = [], sg_last_rule = None, sg_first_seen = now,
      sg_last_seen = None, sg_confidence = 0, sg_status = ''pending''\<rparr>"

definition count_incident :: "instant \<Rightarrow> uid \<Rightarrow> string \<Rightarrow> suggestion \<Rightarrow> suggestion" where
  "count_incident now i rule_name s =
     (if i \<in> set (sg_seen_incidents s) then s
      else
        (let seen_rules = (if rule_name \<in> set (sg_seen_rules s) then sg_seen_rules s
                           else sg_seen_rules s @ [rule_name]);
             n = sg_fp_count s + 1
         in s\<lparr>sg_seen_incidents := sg_seen_incidents s @ [i], sg_seen_rules := seen_rules,
              sg_fp_count := n, sg_last_rule := Some rule_name, sg_last_seen := Some now,
              sg_confidence := confidence_score n (length seen_rules)\<rparr>))"

definition record_key ::
  "instant \<Rightarrow> (string \<times> string \<Rightarrow> uid) \<Rightarrow> incident \<Rightarrow> string \<times> string \<Rightarrow> case_db \<Rightarrow> case_db" where
  "record_key now new_id inc key db =
     (case key of (ex_type, val) \<Rightarrow>
        let rule_name = (if truthy_str (i_rule_name inc) then opt_str (i_rule_name inc)
                         else ''(unknown rule)'')
        in if 0 < tp_count val db then db
           else (case find (is_for ex_type val (i_customer inc)) (cd_suggestions db) of
              None \<Rightarrow> db\<lparr>cd_suggestions := cd_suggestions db @
                       [count_incident now (i_id inc) rule_name
                          (new_suggestion now (new_id key) ex_type val (i_customer inc))]\<rparr>
            | Some s \<Rightarrow>
                if sg_status s = ''dismissed'' then db
                else db\<lparr>cd_suggestions := upd_row sg_id (sg_id s)
                          (count_incident now (i_id inc) rule_name) (cd_suggestions db)\<rparr>))"

definition record_fp_verdict ::
  "instant \<Rightarrow> (string \<times> string \<Rightarrow> uid) \<Rightarrow> incident \<Rightarrow> case_db \<Rightarrow> case_db" where
  "record_fp_verdict now new_id inc db =
     (if i_verdict inc \<notin> {FP, Benign} then db
      else fold (record_key now new_id inc)
             (eligible_keys inc (filter (\<lambda>r. ir_incident_id r = i_id inc) (cd_iocs db))) db)"

definition promote_min_fp :: nat where "promote_min_fp = 3"

definition promote_min_rules :: nat where "promote_min_rules = 2"

definition is_promotable :: "suggestion \<Rightarrow> bool" where
  "is_promotable s \<longleftrightarrow>
     sg_status s = ''pending'' \<and> promote_min_fp \<le> sg_fp_count s \<and>
     promote_min_rules \<le> length (sg_seen_rules s)"

section \<open>What a suggestion has counted\<close>

text \<open>Every suggestion counts distinct incidents and rules, one count per incident, and its
  confidence is the score of its counts; ids are unique.\<close>

definition suggestion_ok :: "suggestion \<Rightarrow> bool" where
  "suggestion_ok s \<longleftrightarrow>
     distinct (sg_seen_incidents s) \<and> distinct (sg_seen_rules s) \<and>
     sg_fp_count s = length (sg_seen_incidents s) \<and>
     sg_confidence s = confidence_score (sg_fp_count s) (length (sg_seen_rules s)) \<and>
     length (sg_seen_rules s) \<le> sg_fp_count s"

lemma count_incident_ok: "suggestion_ok s \<Longrightarrow> suggestion_ok (count_incident now i rl s)"
  by (auto simp: suggestion_ok_def count_incident_def Let_def)

lemma new_suggestion_ok: "suggestion_ok (new_suggestion now n t v c)"
  by (simp add: suggestion_ok_def new_suggestion_def confidence_score_def)

lemma count_incident_frame [simp]:
  "sg_id (count_incident now i rl s) = sg_id s" "sg_value (count_incident now i rl s) = sg_value s"
  "sg_type (count_incident now i rl s) = sg_type s"
  "sg_customer (count_incident now i rl s) = sg_customer s"
  "sg_status (count_incident now i rl s) = sg_status s"
  by (simp_all add: count_incident_def Let_def)

lemma is_for_count [simp]: "is_for t v c (count_incident now i rl s) = is_for t v c s"
  by (simp add: is_for_def)

lemma is_for_new [simp]: "is_for t' v' c' (new_suggestion now n t v c) \<longleftrightarrow> (t' = t \<and> v' = v \<and> c' = c)"
  by (auto simp: is_for_def new_suggestion_def)

lemma count_incident_idem: "count_incident now' i rl' (count_incident now i rl s) = count_incident now i rl s"
  by (simp add: count_incident_def Let_def)

lemma record_key_frame [simp]:
  "cd_incidents (record_key now n inc k db) = cd_incidents db"
  "cd_iocs (record_key now n inc k db) = cd_iocs db"
  "tp_count v (record_key now n inc k db) = tp_count v db"
  by (auto simp: record_key_def tp_count_def get_incident_def Let_def split: prod.split option.split)

text \<open>One step, seen by the suggestion of some key.\<close>

definition found :: "string \<times> string \<Rightarrow> string option \<Rightarrow> case_db \<Rightarrow> suggestion option" where
  "found key c db = find (is_for (fst key) (snd key) c) (cd_suggestions db)"

lemma find_upd_row:
  assumes "\<And>s. p (f s) = p s" "\<And>s. sg_id (f s) = sg_id s"
  shows "find p (upd_row sg_id i f xs) =
         map_option (\<lambda>s. if sg_id s = i then f s else s) (find p xs)"
  by (induction xs) (auto simp: upd_row_def assms)

definition settled :: "incident \<Rightarrow> string \<times> string \<Rightarrow> case_db \<Rightarrow> bool" where
  "settled inc key db \<longleftrightarrow>
     0 < tp_count (snd key) db \<or>
     (case found key (i_customer inc) db of
        None \<Rightarrow> False
      | Some s \<Rightarrow> sg_status s = ''dismissed'' \<or> i_id inc \<in> set (sg_seen_incidents s))"

definition fresh_ids :: "(string \<times> string \<Rightarrow> uid) \<Rightarrow> (string \<times> string) list \<Rightarrow> case_db \<Rightarrow> bool" where
  "fresh_ids n ks db \<longleftrightarrow>
     distinct (map n ks @ map sg_id (cd_suggestions db))"

lemma found_in: "found key c db = Some s \<Longrightarrow> s \<in> set (cd_suggestions db)"
  unfolding found_def by (drule find_Some_in) simp

lemma upd_row_same:
  assumes "distinct (map key rows)" "r \<in> set rows" "f r = r"
  shows "upd_row key (key r) f rows = rows"
  unfolding upd_row_def
proof (rule map_idI)
  fix x assume "x \<in> set rows"
  with assms show "(if key x = key r then f x else x) = x"
    by (auto dest: map_of_eq_Some_iff simp: distinct_map inj_on_def)
qed

lemma record_key_settled:
  assumes "settled inc key db" "distinct (map sg_id (cd_suggestions db))"
  shows "record_key now n inc key db = db"
proof (cases "0 < tp_count (snd key) db")
  case False
  then obtain s where s: "found key (i_customer inc) db = Some s"
    and d: "sg_status s = ''dismissed'' \<or> i_id inc \<in> set (sg_seen_incidents s)"
    using assms(1) by (auto simp: settled_def split: option.splits)
  have "upd_row sg_id (sg_id s) (count_incident now (i_id inc) rl) (cd_suggestions db) = cd_suggestions db"
    if "i_id inc \<in> set (sg_seen_incidents s)" for rl
    using that by (intro upd_row_same assms(2) found_in[OF s]) (simp add: count_incident_def)
  with False s d show ?thesis
    by (auto simp: record_key_def found_def Let_def split: prod.split)
qed (auto simp: record_key_def Let_def split: prod.split)

lemma count_incident_seen: "i \<in> set (sg_seen_incidents (count_incident now i rl s))"
  by (simp add: count_incident_def Let_def)

lemma record_key_settles:
  "settled inc key (record_key now n inc key db)"
proof (cases "found key (i_customer inc) db")
  case None
  then show ?thesis
    by (auto simp: settled_def record_key_def found_def Let_def find_append count_incident_seen
        split: prod.splits)
next
  case (Some s)
  then show ?thesis
    by (auto simp: settled_def record_key_def found_def Let_def find_upd_row count_incident_seen
        split: prod.splits)
qed

lemma count_incident_mono: "x \<in> set (sg_seen_incidents s) \<Longrightarrow> x \<in> set (sg_seen_incidents (count_incident now i rl s))"
  by (simp add: count_incident_def Let_def)

lemma record_key_keeps_settled:
  assumes "settled inc key db"
  shows "settled inc key (record_key now n inc key' db)"
proof (cases "found key (i_customer inc) db")
  case None
  with assms show ?thesis by (simp add: settled_def)
next
  case (Some s)
  with assms have a: "0 < tp_count (snd key) db \<or> sg_status s = ''dismissed'' \<or> i_id inc \<in> set (sg_seen_incidents s)"
    by (simp add: settled_def)
  have "\<exists>s'. found key (i_customer inc) (record_key now n inc key' db) = Some s' \<and>
             sg_status s' = sg_status s \<and> set (sg_seen_incidents s) \<subseteq> set (sg_seen_incidents s')"
    using Some
    by (auto simp: record_key_def found_def Let_def find_append find_upd_row
        split: prod.splits option.splits intro: count_incident_mono)
  with a show ?thesis by (auto simp: settled_def)
qed

lemma fold_keeps_settled:
  "settled inc key db \<Longrightarrow> settled inc key (fold (record_key now n inc) ks db)"
  by (induction ks arbitrary: db) (auto intro: record_key_keeps_settled)

lemma fold_settles:
  "key \<in> set ks \<Longrightarrow> settled inc key (fold (record_key now n inc) ks db)"
  by (induction ks arbitrary: db) (auto intro: record_key_settles fold_keeps_settled)

lemma fold_record_frame [simp]:
  "cd_incidents (fold (record_key now n inc) ks db) = cd_incidents db"
  "cd_iocs (fold (record_key now n inc) ks db) = cd_iocs db"
  "tp_count v (fold (record_key now n inc) ks db) = tp_count v db"
  by (induction ks arbitrary: db) auto

lemma record_key_ids:
  "map sg_id (cd_suggestions (record_key now n inc key db)) =
     map sg_id (cd_suggestions db) \<or>
   map sg_id (cd_suggestions (record_key now n inc key db)) =
     map sg_id (cd_suggestions db) @ [n key]"
  by (auto simp: record_key_def Let_def new_suggestion_def split: prod.splits option.splits)

lemma fresh_ids_step:
  assumes "fresh_ids n (k # ks) db"
  shows "fresh_ids n ks (record_key now n inc k db)"
proof -
  have "distinct (map n ks @ ids')" if "ids' = ids \<or> ids' = ids @ [n k]"
    "distinct (map n (k # ks) @ ids)" for ids ids' :: "uid list"
    using that by (elim disjE) auto
  then show ?thesis
    using record_key_ids[of now n inc k db] assms unfolding fresh_ids_def by metis
qed

lemma fold_record_ids:
  "fresh_ids n ks db \<Longrightarrow> distinct (map sg_id (cd_suggestions (fold (record_key now n inc) ks db)))"
proof (induction ks arbitrary: db)
  case (Cons k ks)
  from Cons.prems have "fresh_ids n ks (record_key now n inc k db)" by (rule fresh_ids_step)
  then show ?case using Cons.IH by simp
qed (simp add: fresh_ids_def)

lemma fold_settled_id:
  "\<forall>k \<in> set ks. settled inc k db \<Longrightarrow> distinct (map sg_id (cd_suggestions db)) \<Longrightarrow>
   fold (record_key now n inc) ks db = db"
  by (induction ks) (auto simp: record_key_settled)

definition hook_keys :: "incident \<Rightarrow> case_db \<Rightarrow> (string \<times> string) list" where
  "hook_keys inc db = eligible_keys inc (filter (\<lambda>r. ir_incident_id r = i_id inc) (cd_iocs db))"

lemma record_fp_verdict_fold:
  "record_fp_verdict now n inc db =
     (if i_verdict inc \<in> {FP, Benign} then fold (record_key now n inc) (hook_keys inc db) db else db)"
  by (simp add: record_fp_verdict_def hook_keys_def)

lemma hook_keys_frame [simp]: "hook_keys inc (fold (record_key now n inc') ks db) = hook_keys inc db"
  by (simp add: hook_keys_def)

section \<open>What may be suggested\<close>

text \<open>A row of the table after the hook is a row of before, or the count of this incident on a row
  that was pending or approved, or a new row; in the last two cases all guards passed.\<close>

definition may_count :: "incident \<Rightarrow> case_db \<Rightarrow> suggestion \<Rightarrow> bool" where
  "may_count inc db s \<longleftrightarrow>
     i_verdict inc \<in> {FP, Benign} \<and> tp_count (sg_value s) db = 0 \<and>
     lower (sg_value s) \<notin> malicious_values (i_enrichment inc) \<and>
     sg_customer s = i_customer inc \<and> sg_status s \<noteq> ''dismissed'' \<and>
     sg_type s \<in> {''ip'', ''domain'', ''hash''} \<and>
     i_id inc \<in> set (sg_seen_incidents s)"

lemma eligible_value_type: "eligible_value t v = Some (x, w) \<Longrightarrow> x \<in> {''ip'', ''domain'', ''hash''}"
  by (cases t) (auto simp: eligible_value_def Let_def split: if_splits)

lemma hook_keys_ok:
  "(t, v) \<in> set (hook_keys inc db) \<Longrightarrow>
   lower v \<notin> malicious_values (i_enrichment inc) \<and> t \<in> {''ip'', ''domain'', ''hash''}"
  by (auto simp: hook_keys_def eligible_keys_def map_filter_def dest: eligible_value_type)

lemma record_key_rows:
  assumes "s \<in> set (cd_suggestions (record_key now n inc (t, v) db))"
    and "distinct (map sg_id (cd_suggestions db))"
    and "i_verdict inc \<in> {FP, Benign}" "lower v \<notin> malicious_values (i_enrichment inc)"
    and "t \<in> {''ip'', ''domain'', ''hash''}"
  shows "s \<in> set (cd_suggestions db) \<or> may_count inc db s"
proof (cases "tp_count v db = 0")
  case True
  show ?thesis
  proof (cases "find (is_for t v (i_customer inc)) (cd_suggestions db)")
    case None
    with True assms show ?thesis
      by (auto simp: record_key_def Let_def may_count_def new_suggestion_def count_incident_seen)
  next
    case (Some s0)
    from find_Some_in[OF this]
    have s0: "s0 \<in> set (cd_suggestions db)" "is_for t v (i_customer inc) s0" by simp_all
    have u: "x = s0" if "x \<in> set (cd_suggestions db)" "sg_id x = sg_id s0" for x
      using that s0(1) assms(2) by (auto simp: distinct_map inj_on_def)
    show ?thesis
    proof (cases "sg_status s0 = ''dismissed'' \<or> s \<in> set (cd_suggestions db)")
      case False
      then obtain x rl where "x \<in> set (cd_suggestions db)" "sg_id x = sg_id s0"
        and "s = count_incident now (i_id inc) rl x"
        using True Some assms(1) by (auto simp: record_key_def Let_def set_upd_row split: if_splits)
      with u[of x] have "s = count_incident now (i_id inc) rl s0" by metis
      with False True assms(3-5) s0(2) show ?thesis
        by (simp add: may_count_def is_for_def count_incident_seen)
    qed (use True Some assms(1) in \<open>auto simp: record_key_def Let_def\<close>)
  qed
qed (use assms(1) in \<open>simp add: record_key_def Let_def\<close>)

lemma fold_record_rows:
  assumes "s \<in> set (cd_suggestions (fold (record_key now n inc) ks db))" "fresh_ids n ks db"
    and "i_verdict inc \<in> {FP, Benign}"
    and "\<forall>(t, v) \<in> set ks. lower v \<notin> malicious_values (i_enrichment inc) \<and> t \<in> {''ip'', ''domain'', ''hash''}"
  shows "s \<in> set (cd_suggestions db) \<or> may_count inc db s"
  using assms
proof (induction ks arbitrary: db)
  case (Cons k ks)
  obtain t v where k: "k = (t, v)" by (cases k)
  have f: "fresh_ids n ks (record_key now n inc k db)"
    using Cons.prems(2) by (rule fresh_ids_step)
  have "s \<in> set (cd_suggestions (record_key now n inc k db)) \<or> may_count inc (record_key now n inc k db) s"
    using Cons.prems by (intro Cons.IH f) auto
  moreover have "may_count inc (record_key now n inc k db) s = may_count inc db s"
    by (simp add: may_count_def)
  moreover have "distinct (map sg_id (cd_suggestions db))" using Cons.prems(2) by (simp add: fresh_ids_def)
  ultimately show ?case
    using record_key_rows[of s now n inc t v db] Cons.prems(3,4) k by auto
qed simp

lemma record_key_all_ok:
  "\<forall>s \<in> set (cd_suggestions db). suggestion_ok s \<Longrightarrow>
   \<forall>s \<in> set (cd_suggestions (record_key now n inc key db)). suggestion_ok s"
  by (auto simp: record_key_def Let_def set_upd_row split: prod.splits option.splits
      intro: count_incident_ok new_suggestion_ok)

lemma fold_record_all_ok:
  "\<forall>s \<in> set (cd_suggestions db). suggestion_ok s \<Longrightarrow>
   \<forall>s \<in> set (cd_suggestions (fold (record_key now n inc) ks db)). suggestion_ok s"
proof (induction ks arbitrary: db)
  case (Cons k ks)
  show ?case using Cons.IH[OF record_key_all_ok[OF Cons.prems, of now n inc k]] by simp
qed simp

text \<open>C13. Counting a verdict is guarded and idempotent: a row the hook adds or changes is for the
  incident's customer, for a value no true positive carries and this incident's threat intelligence
  does not call malicious, and was not dismissed; recording the same incident again changes nothing.\<close>

theorem suggestions_are_guarded:
  assumes "fresh_ids n (hook_keys inc db) db"
  shows "(\<forall>s \<in> set (cd_suggestions (record_fp_verdict now n inc db)).
            s \<in> set (cd_suggestions db) \<or> may_count inc db s) \<and>
         record_fp_verdict now' n' inc (record_fp_verdict now n inc db) = record_fp_verdict now n inc db"
proof (intro conjI ballI)
  fix s assume "s \<in> set (cd_suggestions (record_fp_verdict now n inc db))"
  moreover have "\<forall>(t, v) \<in> set (hook_keys inc db).
      lower v \<notin> malicious_values (i_enrichment inc) \<and> t \<in> {''ip'', ''domain'', ''hash''}"
    using hook_keys_ok by blast
  ultimately show "s \<in> set (cd_suggestions db) \<or> may_count inc db s"
    using fold_record_rows[OF _ assms, of s now inc]
    by (cases "i_verdict inc \<in> {FP, Benign}") (simp_all add: record_fp_verdict_fold)
next
  show "record_fp_verdict now' n' inc (record_fp_verdict now n inc db) = record_fp_verdict now n inc db"
    using assms by (auto simp: record_fp_verdict_fold intro!: fold_settled_id fold_settles fold_record_ids)
qed

text \<open>Promotion is corroborated: the hook keeps every suggestion's counters equal to the distinct
  incidents and rules it has seen, so a promotable suggestion rests on three distinct incidents under
  two distinct rules, and its confidence is the capped score of those numbers.\<close>

theorem promotion_is_corroborated:
  assumes "\<forall>s \<in> set (cd_suggestions db). suggestion_ok s"
    and "s \<in> set (cd_suggestions (record_fp_verdict now n inc db))"
  shows "suggestion_ok s \<and> sg_confidence s \<le> 100 \<and>
         (is_promotable s \<longrightarrow>
            3 \<le> card (set (sg_seen_incidents s)) \<and> 2 \<le> card (set (sg_seen_rules s)))"
proof -
  have "suggestion_ok s"
    using assms fold_record_all_ok[OF assms(1), of now n inc "hook_keys inc db"]
    by (auto simp: record_fp_verdict_fold split: if_splits)
  then show ?thesis
    by (auto simp: suggestion_ok_def is_promotable_def promote_min_fp_def promote_min_rules_def
        distinct_card confidence_score_def)
qed

definition example_fp_db :: case_db where
  "example_fp_db = empty_case_db\<lparr>cd_iocs :=
     [\<lparr>ir_incident_id = 7, ir_type = Domain, ir_value = ''cdn.x'', ir_excluded = False\<rparr>,
      \<lparr>ir_incident_id = 7, ir_type = Url, ir_value = ''http://cdn.x/a'', ir_excluded = False\<rparr>]\<rparr>"

definition example_fp_incident :: incident where
  "example_fp_incident = (example_incident 7 Awaiting_Review)\<lparr>i_verdict := FP\<rparr>"

lemma example_fp_keys: "hook_keys example_fp_incident example_fp_db = [(''domain'', ''cdn.x'')]"
  by code_simp

lemma suggestions_are_guarded_witness:
  "list_all (may_count example_fp_incident example_fp_db)
     (cd_suggestions (record_fp_verdict 5 (\<lambda>_. 1) example_fp_incident example_fp_db)) \<and>
   record_fp_verdict 6 (\<lambda>_. 2) example_fp_incident
     (record_fp_verdict 5 (\<lambda>_. 1) example_fp_incident example_fp_db) =
   record_fp_verdict 5 (\<lambda>_. 1) example_fp_incident example_fp_db"
proof -
  have f: "fresh_ids (\<lambda>_. 1) (hook_keys example_fp_incident example_fp_db) example_fp_db"
    by (simp add: fresh_ids_def example_fp_keys, simp add: example_fp_db_def empty_case_db_def)
  have e: "cd_suggestions example_fp_db = []" by (simp add: example_fp_db_def empty_case_db_def)
  show ?thesis
    using suggestions_are_guarded[OF f, of 5 6 "\<lambda>_. 2"] by (simp add: list_all_iff e)
qed

definition example_suggestion :: suggestion where
  "example_suggestion = \<lparr>sg_id = 1, sg_value = ''cdn.x'', sg_type = ''domain'', sg_customer = Some ''ACME'',
     sg_fp_count = 2, sg_seen_rules = [''a'', ''b''], sg_seen_incidents = [1, 2], sg_last_rule = Some ''b'',
     sg_first_seen = 1, sg_last_seen = Some 2, sg_confidence = 60, sg_status = ''pending''\<rparr>"

lemma promotion_is_corroborated_witness:
  "is_promotable (count_incident 5 7 ''rule'' example_suggestion) \<and>
   suggestion_ok (count_incident 5 7 ''rule'' example_suggestion)"
proof -
  let ?db = "example_fp_db\<lparr>cd_suggestions := [example_suggestion]\<rparr>"
  have e: "cd_suggestions (record_fp_verdict 5 (\<lambda>_. 1) example_fp_incident ?db) =
           [count_incident 5 7 ''rule'' example_suggestion]"
    by code_simp
  have o: "\<forall>s \<in> set (cd_suggestions ?db). suggestion_ok s" by code_simp
  have "suggestion_ok (count_incident 5 7 ''rule'' example_suggestion)"
    using promotion_is_corroborated[OF o, of "count_incident 5 7 ''rule'' example_suggestion" 5 "\<lambda>_. 1" example_fp_incident] e
    by simp
  moreover have "is_promotable (count_incident 5 7 ''rule'' example_suggestion)" by code_simp
  ultimately show ?thesis by simp
qed

end
