(* ===== verification/Entity_Risk.thy ===== *)
theory Entity_Risk
  imports Incident
begin

text \<open>
  Rolling risk of an entity, \<open>pipeline/entity_risk.py\<close>, and its recomputation over the incidents an
  entity is linked to, \<open>recompute_entity_risk\<close> of \<open>adapters/entity_store.py\<close>. Floats are modelled
  as real numbers; \<open>0.5 ** x\<close> is \<open>powr\<close>.
\<close>

definition half_life_days :: real where "half_life_days = 30"

definition default_threat :: real where "default_threat = 50"

record risk_entry =
  re_verdict :: "string option"
  re_threat :: "rat option"
  re_created_at :: "instant option"

definition is_tp :: "risk_entry \<Rightarrow> bool" where
  "is_tp inc \<longleftrightarrow> upper (opt_str (re_verdict inc)) = ''TP''"

definition age_days :: "instant \<Rightarrow> instant option \<Rightarrow> real" where
  "age_days now created =
     (case created of None \<Rightarrow> 0 | Some t \<Rightarrow> max 0 (of_int (now - t) / 1000000 / 86400))"

definition risk_weight :: "instant \<Rightarrow> risk_entry \<Rightarrow> real" where
  "risk_weight now inc =
     (let threat = (case re_threat inc of None \<Rightarrow> default_threat | Some t \<Rightarrow> of_rat t);
          base = max 0 (min 1 (threat / 100))
      in base * (1/2) powr (age_days now (re_created_at inc) / half_life_days))"

fun survive :: "instant \<Rightarrow> risk_entry list \<Rightarrow> real" where
  "survive now [] = 1"
| "survive now (inc # incs) =
     (if is_tp inc then (1 - risk_weight now inc) * survive now incs else survive now incs)"

definition compute_entity_risk :: "instant \<Rightarrow> risk_entry list \<Rightarrow> real option" where
  "compute_entity_risk now incidents =
     (if \<not> list_ex is_tp incidents then None
      else Some (py_round_digits 1 (100 * (1 - survive now incidents))))"

definition risk_entry_of :: "incident \<Rightarrow> risk_entry" where
  "risk_entry_of inc =
     \<lparr>re_verdict = Some (verdict_value (i_verdict inc)), re_threat = en_threat (i_enrichment inc),
      re_created_at = Some (i_created_at inc)\<rparr>"

definition linked_history :: "uid \<Rightarrow> case_db \<Rightarrow> risk_entry list" where
  "linked_history e db =
     List.map_filter
       (\<lambda>l. if snd l = e then
              (case get_incident (fst l) db of
                 None \<Rightarrow> None
               | Some inc \<Rightarrow> if i_deleted_at inc = None then Some (risk_entry_of inc) else None)
            else None)
       (cd_entity_links db)"

definition recompute_entity_risk :: "instant \<Rightarrow> uid list \<Rightarrow> case_db \<Rightarrow> case_db" where
  "recompute_entity_risk now entity_ids db =
     db\<lparr>cd_risk := fold (\<lambda>e. upd_row fst e (\<lambda>r. (fst r, compute_entity_risk now (linked_history e db))))
                      (remdups entity_ids) (cd_risk db)\<rparr>"

section \<open>Lemmas\<close>

lemma age_days_nonneg: "0 \<le> age_days now c"
  by (simp add: age_days_def split: option.split)

lemma age_days_mono: "now \<le> now' \<Longrightarrow> age_days now c \<le> age_days now' c"
proof (cases c)
  case (Some t)
  assume "now \<le> now'"
  then have "of_int (now - t) / 1000000 / 86400 \<le> (of_int (now' - t) / 1000000 / 86400 :: real)" by simp
  then show ?thesis unfolding age_days_def Some option.case by (rule max.mono[OF order_refl])
qed (simp add: age_days_def)

lemma half_powr_le:
  fixes x y :: real
  shows "x \<le> y \<Longrightarrow> (1/2) powr y \<le> (1/2) powr x"
  by (simp add: powr_mono')

lemma risk_weight_bounds: "0 \<le> risk_weight now inc \<and> risk_weight now inc \<le> 1"
proof -
  have "(1/2) powr (age_days now c / half_life_days) \<le> (1::real)" for c
    using half_powr_le[of 0 "age_days now c / half_life_days"] age_days_nonneg[of now c]
    by (simp add: half_life_days_def)
  then show ?thesis
    by (simp add: risk_weight_def Let_def mult_le_one)
qed

lemma risk_weight_decays: "now \<le> now' \<Longrightarrow> risk_weight now' inc \<le> risk_weight now inc"
  unfolding risk_weight_def Let_def
  by (intro mult_left_mono half_powr_le divide_right_mono age_days_mono) (simp_all add: half_life_days_def)

lemma survive_bounds: "0 \<le> survive now incs \<and> survive now incs \<le> 1"
proof (induction incs)
  case (Cons inc incs)
  with risk_weight_bounds[of now inc] show ?case by (simp add: mult_le_one)
qed simp

lemma survive_append: "survive now (xs @ ys) = survive now xs * survive now ys"
  by (induction xs) auto

lemma survive_filter: "survive now (filter is_tp incs) = survive now incs"
  by (induction incs) auto

lemma survive_decays: "now \<le> now' \<Longrightarrow> survive now incs \<le> survive now' incs"
proof (induction incs)
  case (Cons inc incs)
  have "(1 - risk_weight now inc) * survive now incs \<le> (1 - risk_weight now' inc) * survive now' incs"
    using Cons risk_weight_decays[of now now' inc] risk_weight_bounds[of now inc] risk_weight_bounds[of now' inc]
      survive_bounds[of now incs]
    by (intro mult_mono) auto
  with Cons show ?case by simp
qed simp

lemma py_round_digits_mono: "(x::real) \<le> y \<Longrightarrow> py_round_digits k x \<le> py_round_digits k y"
  unfolding py_round_digits_def
  by (intro divide_right_mono) (simp_all add: py_round_mono mult_right_mono)

lemma py_round_digits_bounds:
  assumes "0 \<le> x" "x \<le> (100::real)"
  shows "0 \<le> py_round_digits 1 x \<and> py_round_digits 1 x \<le> 100"
proof -
  have "0 \<le> py_round (x * 10)" using py_round_ge[of 0 "x * 10"] assms by simp
  moreover have "py_round (x * 10) \<le> 1000" using py_round_le[of "x * 10" 1000] assms by simp
  ultimately show ?thesis by (simp add: py_round_digits_def)
qed

lemma list_ex_filter: "list_ex p (filter p xs) = list_ex p xs"
  by (induction xs) auto

section \<open>Property\<close>

text \<open>C23. Entity risk is confirmed history and nothing else: it is unset exactly when no linked incident
  is a true positive, always lies between 0 and 100, does not change when other verdicts are dropped
  from the history, never falls when an incident is added, and never rises as time passes.\<close>

theorem entity_risk_is_bounded_and_monotone:
  "(compute_entity_risk now incs = None \<longleftrightarrow> \<not> list_ex is_tp incs)
 \<and> compute_entity_risk now (filter is_tp incs) = compute_entity_risk now incs
 \<and> (\<forall>r. compute_entity_risk now incs = Some r \<longrightarrow>
      0 \<le> r \<and> r \<le> 100
    \<and> (\<exists>r'. compute_entity_risk now (incs @ more_incs) = Some r' \<and> r \<le> r')
    \<and> (\<exists>r'. compute_entity_risk (now + int later) incs = Some r' \<and> r' \<le> r))"
proof (intro conjI allI impI)
  show "compute_entity_risk now incs = None \<longleftrightarrow> \<not> list_ex is_tp incs"
    and "compute_entity_risk now (filter is_tp incs) = compute_entity_risk now incs"
    by (simp_all add: compute_entity_risk_def survive_filter list_ex_filter)
next
  fix r assume r: "compute_entity_risk now incs = Some r"
  then have tp: "list_ex is_tp incs" and eq: "r = py_round_digits 1 (100 * (1 - survive now incs))"
    by (auto simp: compute_entity_risk_def split: if_splits)
  show "0 \<le> r" "r \<le> 100"
    unfolding eq using py_round_digits_bounds[of "100 * (1 - survive now incs)"] survive_bounds[of now incs] by auto
  have "survive now incs * survive now more_incs \<le> survive now incs"
    using survive_bounds[of now incs] survive_bounds[of now more_incs] by (simp add: mult_left_le)
  then have "r \<le> py_round_digits 1 (100 * (1 - survive now (incs @ more_incs)))"
    unfolding eq survive_append by (intro py_round_digits_mono) simp
  with tp show "\<exists>r'. compute_entity_risk now (incs @ more_incs) = Some r' \<and> r \<le> r'"
    by (auto simp: compute_entity_risk_def)
  have "py_round_digits 1 (100 * (1 - survive (now + int later) incs)) \<le> r"
    unfolding eq using survive_decays[of now "now + int later" incs] by (intro py_round_digits_mono) simp
  with tp show "\<exists>r'. compute_entity_risk (now + int later) incs = Some r' \<and> r' \<le> r"
    by (auto simp: compute_entity_risk_def)
qed

lemma upper_tp: "upper ''tp'' = ''TP''"
  by code_simp

lemma example_risk_value:
  "compute_entity_risk 0 [\<lparr>re_verdict = Some ''tp'', re_threat = Some 80, re_created_at = None\<rparr>] = Some 80"
  by (simp add: compute_entity_risk_def is_tp_def risk_weight_def age_days_def py_round_digits_def py_round_def
      Let_def upper_tp)

lemma entity_risk_is_bounded_and_monotone_witness:
  "let h = [\<lparr>re_verdict = Some ''tp'', re_threat = Some 80, re_created_at = None\<rparr>]
   in compute_entity_risk 0 h = Some 80
    \<and> (\<exists>r. compute_entity_risk 0 (h @ h) = Some r \<and> 80 \<le> r)"
  unfolding Let_def
  using entity_risk_is_bounded_and_monotone[of 0 "[\<lparr>re_verdict = Some ''tp'', re_threat = Some 80, re_created_at = None\<rparr>]"
      "[\<lparr>re_verdict = Some ''tp'', re_threat = Some 80, re_created_at = None\<rparr>]" 0]
    example_risk_value
  by blast

lemma recompute_frame [simp]:
  "cd_incidents (recompute_entity_risk now es db) = cd_incidents db"
  "cd_edr (recompute_entity_risk now es db) = cd_edr db"
  "cd_sla (recompute_entity_risk now es db) = cd_sla db"
  "cd_timeline (recompute_entity_risk now es db) = cd_timeline db"
  "cd_audit (recompute_entity_risk now es db) = cd_audit db"
  "cd_customer_cases (recompute_entity_risk now es db) = cd_customer_cases db"
  "cd_memory (recompute_entity_risk now es db) = cd_memory db"
  "cd_suggestions (recompute_entity_risk now es db) = cd_suggestions db"
  "get_incident i (recompute_entity_risk now es db) = get_incident i db"
  by (simp_all add: recompute_entity_risk_def get_incident_def)

end
