(* ===== verification/Gate.thy ===== *)
theory Gate
  imports Auto_Tune Entity_Risk
begin

text \<open>
  The human gate of \<open>routes/cases.py\<close>: committing a verdict, running the response actions the analyst
  checked, opening the customer case, and the approve and reject routes. Endpoint-response APIs
  (Vision One, Defender), the credential store and the vector store are fields of \<open>gate_env\<close>: the
  result or the exception each call gives. Every call that reaches such an API is recorded in
  \<open>cd_edr\<close>, whether it then fails or not.
\<close>

section \<open>Outside the program\<close>

record gate_env =
  ge_now :: instant
  ge_rbac :: rbac_db
  ge_tenants :: "tenant list"
  ge_v1_creds :: "string option \<Rightarrow> bool"        \<comment> \<open>\<open>get_creds("vision_one", customer)\<close> is not \<open>None\<close>\<close>
  ge_defender_creds :: "string option \<Rightarrow> bool"
  ge_v1 :: "proposed_action \<Rightarrow> py_exc + pyval"      \<comment> \<open>the response body\<close>
  ge_defender :: "proposed_action \<Rightarrow> py_exc + string option"  \<comment> \<open>the \<open>id\<close> of the result\<close>
  ge_index :: "incident \<Rightarrow> verdict \<Rightarrow> py_exc + uid option"  \<comment> \<open>the id of the point, when a UUID\<close>
  ge_case_id :: uid
  ge_suggestion_id :: "string \<times> string \<Rightarrow> uid"

section \<open>Vision One's multi-status reply\<close>

record task_result =
  rt_ok :: bool
  rt_task_id :: "string option"
  rt_error :: pyval

definition reply_item :: "pyval \<Rightarrow> pydict" where
  "reply_item result =
     (case result of
        PyList (PyDict d # _) \<Rightarrow> map_of d
      | PyDict d \<Rightarrow> map_of d
      | _ \<Rightarrow> Map.empty)"

text \<open>The scan of the headers for the first \<open>Operation-Location\<close>.\<close>

fun task_url :: "pyval list \<Rightarrow> py_exc + pyval" where
  "task_url [] = Inr PyNone"
| "task_url (PyDict h # hs) =
     (if (case get (map_of h) ''name'' of PyStr n \<Rightarrow> lower n = ''operation-location'' | _ \<Rightarrow> False)
      then Inr (get (map_of h) ''value'') else task_url hs)"
| "task_url (_ # hs) = Inl AttributeError"

definition header_list :: "pyval \<Rightarrow> py_exc + pyval list" where
  "header_list v =
     (if \<not> truthy v then Inr []
      else case v of
        PyList hs \<Rightarrow> Inr hs
      | PyDict d \<Rightarrow> Inr (map (\<lambda>kv. PyStr (fst kv)) d)
      | PyStr s \<Rightarrow> Inr (map (\<lambda>c. PyStr [c]) s)
      | _ \<Rightarrow> Inl TypeError)"

definition task_id_of :: "pyval \<Rightarrow> py_exc + string option" where
  "task_id_of url =
     (if \<not> truthy url then Inr None
      else case url of
        PyStr s \<Rightarrow> Inr (Some (after_last (CHR ''/'') (rstrip_char (CHR ''/'') s)))
      | _ \<Rightarrow> Inl AttributeError)"

definition parse_response_task :: "pyval \<Rightarrow> py_exc + task_result" where
  "parse_response_task result =
     (let item = reply_item result;
          error = (case get item ''body'' of
                     PyDict b \<Rightarrow> (case get (map_of b) ''error'' of
                         PyDict e \<Rightarrow> py_or (get (map_of e) ''message'') (get (map_of e) ''code'')
                       | _ \<Rightarrow> PyNone)
                   | _ \<Rightarrow> PyNone);
          ok = (case get item ''status'' of
                  PyInt n \<Rightarrow> 200 \<le> n \<and> n < 300
                | PyBool _ \<Rightarrow> False
                | _ \<Rightarrow> True)
      in and_then (header_list (get item ''headers'')) (\<lambda>hs.
         and_then (task_url hs) (\<lambda>url.
         and_then (task_id_of url) (\<lambda>tid.
           Inr \<lparr>rt_ok = ok, rt_task_id = tid, rt_error = error\<rparr>))))"

section \<open>Running the checked actions\<close>

definition defender_kinds :: "string list" where
  "defender_kinds = [''isolate_host'', ''scan_endpoint'', ''blocklist_ioc'', ''disable_user'']"

definition v1_kinds :: "string list" where
  "v1_kinds = [''blocklist_ioc'', ''isolate_host'', ''collect_file'']"

definition action_provider :: "proposed_action \<Rightarrow> string" where
  "action_provider a = (if truthy_str (pa_provider a) then opt_str (pa_provider a) else ''vision_one'')"

definition kind_in :: "proposed_action \<Rightarrow> string list \<Rightarrow> bool" where
  "kind_in a ks = (case pa_kind a of None \<Rightarrow> False | Some k \<Rightarrow> k \<in> set ks)"

definition is_checked :: "string list \<Rightarrow> proposed_action \<Rightarrow> bool" where
  "is_checked ids a = (case pa_id a of None \<Rightarrow> False | Some x \<Rightarrow> x \<in> set ids)"

text \<open>The body of the \<open>try\<close>: whether an endpoint API is called, and the task id or the exception.\<close>

definition dispatch :: "gate_env \<Rightarrow> incident \<Rightarrow> proposed_action \<Rightarrow> bool \<times> (py_exc + string option)" where
  "dispatch env inc a =
     (if action_provider a = ''microsoft_defender'' then
        (if \<not> ge_defender_creds env (i_customer inc) then (False, Inl (RuntimeError ''no Microsoft Defender credentials''))
         else if kind_in a defender_kinds then (True, ge_defender env a)
         else (False, Inl (RuntimeError ''unsupported Defender action kind'')))
      else
        (if \<not> ge_v1_creds env (i_customer inc) then (False, Inl (RuntimeError ''no Vision One credentials''))
         else if kind_in a v1_kinds then
           (True, and_then (ge_v1 env a) (\<lambda>result. and_then (parse_response_task result) (\<lambda>parsed.
                    if rt_ok parsed then Inr (rt_task_id parsed)
                    else Inl (RuntimeError ''Vision One rejected the action''))))
         else (False, Inl (RuntimeError ''unknown action kind''))))"

record outcome =
  oc_id :: "string option"
  oc_kind :: "string option"
  oc_status :: string

definition run_action ::
  "gate_env \<Rightarrow> incident \<Rightarrow> user \<Rightarrow> proposed_action \<Rightarrow> proposed_action \<times> action_log \<times> outcome \<times> edr_call list" where
  "run_action env inc u a =
     (case dispatch env inc a of
        (called, r) \<Rightarrow>
          (let status = (case r of Inl _ \<Rightarrow> ''failed'' | Inr _ \<Rightarrow> ''executed'');
               task_id = (case r of Inl _ \<Rightarrow> None | Inr t \<Rightarrow> t);
               a' = a\<lparr>pa_status := Some status,
                      pa_task_id := (if truthy_str task_id then task_id else pa_task_id a)\<rparr>
           in (a',
               \<lparr>al_kind = pa_kind a, al_actor = u_email u, al_status = Some status, al_task_id = task_id,
                al_provider = action_provider a\<rparr>,
               \<lparr>oc_id = pa_id a, oc_kind = pa_kind a, oc_status = status\<rparr>,
               if called then [\<lparr>ec_incident_id = i_id inc, ec_provider = action_provider a,
                                ec_kind = opt_str (pa_kind a), ec_user_id = u_id u\<rparr>] else [])))"

fun run_actions ::
  "gate_env \<Rightarrow> incident \<Rightarrow> user \<Rightarrow> string list \<Rightarrow> proposed_action list \<Rightarrow>
   proposed_action list \<times> action_log list \<times> outcome list \<times> edr_call list" where
  "run_actions env inc u ids [] = ([], [], [], [])"
| "run_actions env inc u ids (a # as) =
     (case run_actions env inc u ids as of
        (as', ls, os, cs) \<Rightarrow>
          if pa_kind a = Some ''create_case'' \<or> \<not> is_checked ids a then (a # as', ls, os, cs)
          else (case run_action env inc u a of (a', l, oc, c) \<Rightarrow> (a' # as', l # ls, oc # os, c @ cs)))"

definition run_proposed_actions ::
  "gate_env \<Rightarrow> string list \<Rightarrow> user \<Rightarrow> incident \<Rightarrow> case_db \<Rightarrow> incident \<times> outcome list \<times> case_db" where
  "run_proposed_actions env ids u inc db =
     (let e = i_enrichment inc
      in case run_actions env inc u ids (en_proposed_actions e) of
           (as', ls, os, cs) \<Rightarrow>
             (inc\<lparr>i_enrichment := e\<lparr>en_v1_actions := en_v1_actions e @ ls, en_proposed_actions := as'\<rparr>\<rparr>,
              os, db\<lparr>cd_edr := cd_edr db @ cs\<rparr>))"

section \<open>The customer case\<close>

definition create_case_for_incident ::
  "instant \<Rightarrow> uid \<Rightarrow> tenant list \<Rightarrow> string option \<Rightarrow> incident \<Rightarrow> user \<Rightarrow> case_db \<Rightarrow> case_db" where
  "create_case_for_incident now new_id tenants locale inc actor db =
     (let from_tenant = (case i_tenant_id inc of
                           None \<Rightarrow> locale
                         | Some t \<Rightarrow>
                             (case get_row t_id t tenants of
                                None \<Rightarrow> Some ''en''
                              | Some r \<Rightarrow> if truthy_str (t_locale r) then t_locale r else Some ''en''));
          locale = (if truthy_str locale then locale else from_tenant);
          locale = (if truthy_str locale then opt_str locale else ''en'');
          c = \<lparr>cc_id = new_id, cc_source_incident_id = i_id inc, cc_tenant_id = i_tenant_id inc,
               cc_status = Draft, cc_locale = locale, cc_title = i_title inc\<rparr>
      in db\<lparr>cd_customer_cases := cd_customer_cases db @ [c],
            cd_case_incidents := cd_case_incidents db @ [(new_id, i_id inc)],
            cd_audit := audit_log now (Some (u_id actor)) ''case.create'' (Some new_id) (i_tenant_id inc) (cd_audit db)\<rparr>)"

definition has_customer_case :: "uid \<Rightarrow> case_db \<Rightarrow> bool" where
  "has_customer_case i db = list_ex (\<lambda>c. cc_source_incident_id c = i) (cd_customer_cases db)"

definition open_case :: "gate_env \<Rightarrow> incident \<Rightarrow> user \<Rightarrow> case_db \<Rightarrow> string \<times> case_db" where
  "open_case env inc u db =
     (if has_customer_case (i_id inc) db then (''exists'', db)
      else (''executed'', create_case_for_incident (ge_now env) (ge_case_id env) (ge_tenants env) None inc u db))"

fun create_cases ::
  "gate_env \<Rightarrow> incident \<Rightarrow> user \<Rightarrow> string list \<Rightarrow> proposed_action list \<Rightarrow> case_db \<Rightarrow>
   proposed_action list \<times> outcome list \<times> case_db" where
  "create_cases env inc u ids [] db = ([], [], db)"
| "create_cases env inc u ids (a # as) db =
     (if pa_kind a \<noteq> Some ''create_case'' then
        (case create_cases env inc u ids as db of (as', os, db) \<Rightarrow> (a # as', os, db))
      else if \<not> is_checked ids a then
        (case create_cases env inc u ids as db of (as', os, db) \<Rightarrow> (a\<lparr>pa_status := Some ''skipped''\<rparr> # as', os, db))
      else
        (case open_case env inc u db of
           (status, db) \<Rightarrow>
             (case create_cases env inc u ids as db of
                (as', os, db) \<Rightarrow>
                  (a\<lparr>pa_status := Some status\<rparr> # as',
                   \<lparr>oc_id = pa_id a, oc_kind = pa_kind a, oc_status = status\<rparr> # os, db))))"

definition maybe_create_customer_case ::
  "gate_env \<Rightarrow> string list \<Rightarrow> user \<Rightarrow> incident \<times> outcome list \<times> case_db \<Rightarrow> incident \<times> outcome list \<times> case_db" where
  "maybe_create_customer_case env ids u st =
     (case st of (inc, executed, db) \<Rightarrow>
        (case create_cases env inc u ids (en_proposed_actions (i_enrichment inc)) db of
           (as', os, db) \<Rightarrow>
             (inc\<lparr>i_enrichment := (i_enrichment inc)\<lparr>en_proposed_actions := as'\<rparr>\<rparr>, executed @ os, db)))"

section \<open>Committing a verdict\<close>

definition proposed_verdict :: "(string \<times> verdict) list" where
  "proposed_verdict =
     [(''tp'', TP), (''fp'', FP), (''benign'', Benign), (''inconclusive'', Inconclusive), (''pending'', Pending)]"

definition verdict_from_str :: "string option \<Rightarrow> verdict" where
  "verdict_from_str s =
     (case map_of proposed_verdict (lower (opt_str s)) of None \<Rightarrow> Pending | Some v \<Rightarrow> v)"

definition remember :: "memory_point \<Rightarrow> case_db \<Rightarrow> case_db" where
  "remember p db = db\<lparr>cd_memory :=
     filter (\<lambda>q. mp_incident_id q \<noteq> mp_incident_id p) (cd_memory db) @ [p]\<rparr>"

text \<open>\<open>inc\<close> is the row in the session; the store \<open>db\<close> still holds what was flushed before, which is
  what the queries in between see; the caller writes the row afterwards.\<close>

definition closed_row :: "instant \<Rightarrow> verdict \<Rightarrow> user option \<Rightarrow> incident \<Rightarrow> incident" where
  "closed_row now v actor inc =
     (let inc = inc\<lparr>i_verdict := v, i_closed_at := Some now, i_status := Closed\<rparr>
      in case actor of
           None \<Rightarrow> inc
         | Some u \<Rightarrow> inc\<lparr>i_approved_by_id := Some (u_id u), i_signed_off_at := Some now\<rparr>)"

definition index_verdict ::
  "gate_env \<Rightarrow> verdict \<Rightarrow> string \<Rightarrow> incident \<Rightarrow> case_db \<Rightarrow> incident \<times> case_db" where
  "index_verdict env v reason inc db =
     (case ge_index env inc v of
        Inl _ \<Rightarrow> (inc, db)
      | Inr q \<Rightarrow> (inc\<lparr>i_qdrant_alert_id := q\<rparr>,
                  remember \<lparr>mp_incident_id = i_id inc, mp_verdict = v, mp_reason = take 4000 reason,
                            mp_customer = i_customer inc\<rparr> db))"

definition refresh_risk :: "instant \<Rightarrow> incident \<Rightarrow> case_db \<Rightarrow> case_db" where
  "refresh_risk now inc db =
     (let entity_ids = map snd (filter (\<lambda>l. fst l = i_id inc) (cd_entity_links db))
      in if entity_ids \<noteq> [] then recompute_entity_risk now entity_ids db else db)"

definition mirror :: "incident \<Rightarrow> verdict \<Rightarrow> case_db \<Rightarrow> case_db" where
  "mirror inc v db = db\<lparr>cd_mirrored := cd_mirrored db @ [(i_id inc, v)]\<rparr>"

definition commit_verdict ::
  "gate_env \<Rightarrow> incident \<Rightarrow> verdict \<Rightarrow> string \<Rightarrow> user option \<Rightarrow> case_db \<Rightarrow> incident \<times> case_db" where
  "commit_verdict env inc v reason actor db =
     (case index_verdict env v reason (closed_row (ge_now env) v actor inc) db of
        (inc, db) \<Rightarrow>
          (inc,
           mirror inc v
             (refresh_risk (ge_now env) inc
               (record_sla_event (ge_now env) Closed_Event (map_option u_id actor) inc
                 (record_sla_event (ge_now env) Resolved (map_option u_id actor) inc
                   (if v \<in> {FP, Benign} then record_fp_verdict (ge_now env) (ge_suggestion_id env) inc db
                    else db))))))"

section \<open>The routes\<close>

text \<open>What every route of the file starts with: the role guard, the row, its tenant.\<close>

definition with_case ::
  "(user \<Rightarrow> http_error + user) \<Rightarrow> uid \<Rightarrow> user \<Rightarrow> tenant_scope \<Rightarrow> (incident \<Rightarrow> (case_db, 'a) handled) \<Rightarrow>
   case_db \<Rightarrow> (case_db, 'a) handled" where
  "with_case guard i u scope h db =
     (case guard u of
        Inl (HTTP c) \<Rightarrow> raise_http db c
      | Inr _ \<Rightarrow>
          (case get_incident i db of
             None \<Rightarrow> raise_http db 404
           | Some inc \<Rightarrow>
               (case require_in_scope (i_tenant_id inc) scope of
                  Inl (HTTP c) \<Rightarrow> raise_http db c
                | Inr _ \<Rightarrow> h inc)))"

definition save :: "incident \<Rightarrow> case_db \<Rightarrow> case_db" where
  "save inc db = upd_incident (i_id inc) (\<lambda>_. inc) db"

text \<open>The part of the approve route behind its guards: the checked actions, the customer case, the
  verdict, the timeline and the audit log.\<close>

definition sign_off ::
  "gate_env \<Rightarrow> string list \<Rightarrow> user \<Rightarrow> verdict \<Rightarrow> incident \<Rightarrow> case_db \<Rightarrow> outcome list \<times> case_db" where
  "sign_off env ids u v inc db =
     (case maybe_create_customer_case env ids u (run_proposed_actions env ids u inc db) of
        (inc, executed, db) \<Rightarrow>
          (let reason = (if truthy_str (i_analyst_notes inc) then opt_str (i_analyst_notes inc)
                         else opt_str (i_llm_report inc))
           in case commit_verdict env inc v reason (Some u) db of
                (inc, db) \<Rightarrow>
                  (let db = add_timeline (ge_now env) (u_email u) ''analyst_approval'' (i_id inc) db;
                       db = audit_incident (ge_now env) u ''pipeline.verdict_approved'' inc db
                   in (executed, save inc db))))"

text \<open>The verdict, the notes and the checked action ids are the body of the request; the reply lists
  the outcomes.\<close>

definition approve_incident ::
  "gate_env \<Rightarrow> uid \<Rightarrow> verdict option \<Rightarrow> string list \<Rightarrow> string option \<Rightarrow> user \<Rightarrow> tenant_scope \<Rightarrow>
   case_db \<Rightarrow> (case_db, verdict \<times> outcome list) handled" where
  "approve_incident env i body_verdict ids notes u scope db =
     with_case require_analyst i u scope (\<lambda>inc.
       if i_status inc \<noteq> Awaiting_Signoff then raise_http db 409
       else
         (let v = (case body_verdict of
                     Some v \<Rightarrow> v
                   | None \<Rightarrow> verdict_from_str (case en_proposal (i_enrichment inc) of
                                                None \<Rightarrow> None | Some p \<Rightarrow> pp_verdict p))
          in if v = Pending then raise_http db 400
             else
               (let inc = (if truthy_str notes then inc\<lparr>i_analyst_notes := notes\<rparr> else inc);
                    checked_kinds = List.map_filter pa_kind
                      (filter (is_checked ids) (en_proposed_actions (i_enrichment inc)))
                in if missing_action_permissions checked_kinds (resolve_permissions u (ge_rbac env)) \<noteq> {} then
                     raise_http db 403
                   else (case sign_off env ids u v inc db of (executed, db) \<Rightarrow> reply db (v, executed)))))
     db"

definition reject_incident ::
  "instant \<Rightarrow> uid \<Rightarrow> bool \<Rightarrow> user \<Rightarrow> tenant_scope \<Rightarrow> case_db \<Rightarrow> (case_db, unit) handled" where
  "reject_incident now i requeue u scope db =
     with_case require_analyst i u scope (\<lambda>inc.
       if i_status inc \<noteq> Awaiting_Signoff then raise_http db 409
       else
         (let inc = inc\<lparr>i_enrichment := (i_enrichment inc)\<lparr>en_proposal := None, en_proposed_actions := []\<rparr>,
                        i_status := (if requeue then Awaiting_Synthesis else Awaiting_Review)\<rparr>;
              db = (if requeue then enqueue (Synthesize_Only i True) db else db);
              db = add_timeline now (u_email u) ''analyst_rejection'' i db;
              db = audit_incident now u ''pipeline.verdict_rejected'' inc db
          in reply (save inc db) ()))
     db"

section \<open>Lemmas\<close>

lemma record_fp_verdict_frame [simp]:
  "cd_incidents (record_fp_verdict now n inc db) = cd_incidents db"
  "get_incident i (record_fp_verdict now n inc db) = get_incident i db"
  by (simp_all add: record_fp_verdict_fold get_incident_def)

lemma record_key_others [simp]:
  "cd_edr (record_key now n inc k db) = cd_edr db"
  "cd_sla (record_key now n inc k db) = cd_sla db"
  "cd_customer_cases (record_key now n inc k db) = cd_customer_cases db"
  "cd_entity_links (record_key now n inc k db) = cd_entity_links db"
  "cd_memory (record_key now n inc k db) = cd_memory db"
  by (auto simp: record_key_def Let_def split: prod.split option.split)

lemma fold_record_others [simp]:
  "cd_edr (fold (record_key now n inc) ks db) = cd_edr db"
  "cd_sla (fold (record_key now n inc) ks db) = cd_sla db"
  "cd_customer_cases (fold (record_key now n inc) ks db) = cd_customer_cases db"
  "cd_entity_links (fold (record_key now n inc) ks db) = cd_entity_links db"
  "cd_memory (fold (record_key now n inc) ks db) = cd_memory db"
  by (induction ks arbitrary: db) simp_all

lemma record_fp_verdict_others [simp]:
  "cd_edr (record_fp_verdict now n inc db) = cd_edr db"
  "cd_sla (record_fp_verdict now n inc db) = cd_sla db"
  "cd_customer_cases (record_fp_verdict now n inc db) = cd_customer_cases db"
  "cd_entity_links (record_fp_verdict now n inc db) = cd_entity_links db"
  "cd_memory (record_fp_verdict now n inc db) = cd_memory db"
  by (simp_all add: record_fp_verdict_fold)

lemma cd_sla_frame [simp, frame_simps]:
  "cd_sla (add_timeline now a e i db) = cd_sla db"
  "cd_sla (audit_incident now w a inc db) = cd_sla db"
  "cd_sla (upd_incident i f db) = cd_sla db"
  "cd_sla (remember p db) = cd_sla db"
  by (simp_all add: add_timeline_def audit_incident_def upd_incident_def remember_def)

lemma cd_cases_frame [simp, frame_simps]:
  "cd_customer_cases (add_timeline now a e i db) = cd_customer_cases db"
  "cd_customer_cases (audit_incident now w a inc db) = cd_customer_cases db"
  "cd_customer_cases (record_sla_event now k w' inc db) = cd_customer_cases db"
  "cd_customer_cases (upd_incident i f db) = cd_customer_cases db"
  "cd_customer_cases (remember p db) = cd_customer_cases db"
  by (simp_all add: add_timeline_def audit_incident_def upd_incident_def remember_def record_sla_event_def)

lemma remember_frame [simp, frame_simps]:
  "cd_incidents (remember p db) = cd_incidents db" "cd_edr (remember p db) = cd_edr db"
  "get_incident i (remember p db) = get_incident i db"
  by (simp_all add: remember_def get_incident_def)

lemma get_incident_mirrored [simp]:
  "get_incident i (db\<lparr>cd_mirrored := m\<rparr>) = get_incident i db"
  "get_incident i (db\<lparr>cd_edr := c\<rparr>) = get_incident i db"
  by (simp_all add: get_incident_def)

text \<open>What committing a verdict does to the row and to the ledger.\<close>

definition committed :: "gate_env \<Rightarrow> verdict \<Rightarrow> user option \<Rightarrow> incident \<Rightarrow> incident" where
  "committed env v actor inc = fst (index_verdict env v [] (closed_row (ge_now env) v actor inc) empty_case_db)"

definition sla_entry :: "instant \<Rightarrow> sla_kind \<Rightarrow> user option \<Rightarrow> incident \<Rightarrow> sla_event" where
  "sla_entry now k actor inc =
     \<lparr>se_incident_id = i_id inc, se_tenant_id = i_tenant_id inc, se_kind = k, se_at = now,
      se_actor_id = map_option u_id actor\<rparr>"

lemma closed_row_id [simp]:
  "i_id (closed_row now v a inc) = i_id inc" "i_tenant_id (closed_row now v a inc) = i_tenant_id inc"
  "i_enrichment (closed_row now v a inc) = i_enrichment inc" "i_status (closed_row now v a inc) = Closed"
  "i_verdict (closed_row now v a inc) = v" "i_closed_at (closed_row now v a inc) = Some (now)"
  "i_severity (closed_row now v a inc) = i_severity inc" "i_customer (closed_row now v a inc) = i_customer inc"
  "i_approved_by_id (closed_row now v (Some u) inc) = Some (u_id u)"
  "i_signed_off_at (closed_row now v (Some u) inc) = Some (now)"
  by (simp_all add: closed_row_def Let_def split: option.split)

lemma committed_id [simp]:
  "i_id (committed env v a inc) = i_id inc" "i_tenant_id (committed env v a inc) = i_tenant_id inc"
  "i_enrichment (committed env v a inc) = i_enrichment inc" "i_status (committed env v a inc) = Closed"
  "i_verdict (committed env v a inc) = v" "i_closed_at (committed env v a inc) = Some (ge_now env)"
  "i_severity (committed env v a inc) = i_severity inc" "i_customer (committed env v a inc) = i_customer inc"
  "i_approved_by_id (committed env v (Some u) inc) = Some (u_id u)"
  "i_signed_off_at (committed env v (Some u) inc) = Some (ge_now env)"
  by (simp_all add: committed_def index_verdict_def split: sum.split)

lemma index_verdict_db [simp]:
  "cd_incidents (snd (index_verdict env v r inc db)) = cd_incidents db"
  "cd_edr (snd (index_verdict env v r inc db)) = cd_edr db"
  "cd_sla (snd (index_verdict env v r inc db)) = cd_sla db"
  "cd_customer_cases (snd (index_verdict env v r inc db)) = cd_customer_cases db"
  by (simp_all add: index_verdict_def split: sum.split)

lemma refresh_risk_frame [simp]:
  "cd_incidents (refresh_risk now inc db) = cd_incidents db" "cd_edr (refresh_risk now inc db) = cd_edr db"
  "cd_sla (refresh_risk now inc db) = cd_sla db"
  "cd_customer_cases (refresh_risk now inc db) = cd_customer_cases db"
  by (simp_all add: refresh_risk_def Let_def)

lemma mirror_frame [simp]:
  "cd_incidents (mirror inc v db) = cd_incidents db" "cd_edr (mirror inc v db) = cd_edr db"
  "cd_sla (mirror inc v db) = cd_sla db" "cd_customer_cases (mirror inc v db) = cd_customer_cases db"
  by (simp_all add: mirror_def)

lemma cd_sla_record:
  "cd_sla (record_sla_event now k (map_option u_id actor) inc db) = cd_sla db @ [sla_entry now k actor inc]"
  by (simp add: record_sla_event_def sla_entry_def)

lemma index_verdict_row:
  "fst (index_verdict env v r inc db) = fst (index_verdict env v [] inc empty_case_db)"
  by (simp add: index_verdict_def split: sum.split)

lemma sla_entry_committed [simp]: "sla_entry now k a (committed env v a' inc) = sla_entry now k a inc"
  by (simp add: sla_entry_def)

lemma commit_verdict_eq:
  "commit_verdict env inc v reason actor db =
     (let inc' = committed env v actor inc;
          db1 = snd (index_verdict env v reason (closed_row (ge_now env) v actor inc) db)
      in (inc', mirror inc' v
             (refresh_risk (ge_now env) inc'
               (record_sla_event (ge_now env) Closed_Event (map_option u_id actor) inc'
                 (record_sla_event (ge_now env) Resolved (map_option u_id actor) inc'
                   (if v \<in> {FP, Benign} then record_fp_verdict (ge_now env) (ge_suggestion_id env) inc' db1
                    else db1))))))"
  unfolding commit_verdict_def Let_def committed_def
  by (subst (1 2 3 4 5 6) index_verdict_row[of env v reason _ db, symmetric]) (simp add: case_prod_unfold)

lemma commit_verdict_row: "fst (commit_verdict env inc v reason actor db) = committed env v actor inc"
  by (simp add: commit_verdict_eq Let_def)

lemma commit_verdict_db:
  "cd_incidents (snd (commit_verdict env inc v reason actor db)) = cd_incidents db"
  "cd_edr (snd (commit_verdict env inc v reason actor db)) = cd_edr db"
  "cd_customer_cases (snd (commit_verdict env inc v reason actor db)) = cd_customer_cases db"
  "cd_sla (snd (commit_verdict env inc v reason actor db)) =
     cd_sla db @ [sla_entry (ge_now env) Resolved actor inc, sla_entry (ge_now env) Closed_Event actor inc]"
  by (simp_all add: commit_verdict_eq Let_def cd_sla_record)

lemma create_case_frame [simp]:
  "cd_incidents (create_case_for_incident now n ts l inc u db) = cd_incidents db"
  "cd_edr (create_case_for_incident now n ts l inc u db) = cd_edr db"
  "cd_sla (create_case_for_incident now n ts l inc u db) = cd_sla db"
  "has_customer_case (i_id inc) (create_case_for_incident now n ts l inc u db)"
  by (simp_all add: create_case_for_incident_def Let_def has_customer_case_def)

lemma open_case_frame:
  "open_case env inc u db = (st, db') \<Longrightarrow>
   cd_incidents db' = cd_incidents db \<and> cd_edr db' = cd_edr db \<and> cd_sla db' = cd_sla db"
  by (auto simp: open_case_def split: if_splits)

lemma create_cases_frame:
  "create_cases env inc u ids as db = (as', os, db') \<Longrightarrow>
   cd_incidents db' = cd_incidents db \<and> cd_edr db' = cd_edr db \<and> cd_sla db' = cd_sla db"
proof (induction as arbitrary: as' os db db')
  case (Cons a as)
  from Cons.prems obtain as1 os1 db1 where
    "create_cases env inc u ids as db1 = (as1, os1, db')" "db1 = db \<or> (\<exists>st. open_case env inc u db = (st, db1))"
    by (auto split: prod.splits if_splits)
  with Cons.IH[of db1] show ?case by (auto dest: open_case_frame)
qed simp

text \<open>At most one customer case comes out of the gate.\<close>

lemma create_cases_once:
  "create_cases env inc u ids as db = (as', os, db') \<Longrightarrow>
   cd_customer_cases db' = cd_customer_cases db \<or>
   (\<not> has_customer_case (i_id inc) db \<and>
    (\<exists>c. cd_customer_cases db' = cd_customer_cases db @ [c] \<and> cc_source_incident_id c = i_id inc \<and>
         cc_tenant_id c = i_tenant_id inc \<and> cc_status c = Draft))"
proof (induction as arbitrary: as' os db db')
  case (Cons a as)
  from Cons.prems obtain as1 os1 db1 where
    r: "create_cases env inc u ids as db1 = (as1, os1, db')" and
    d: "db1 = db \<or> (\<exists>st. open_case env inc u db = (st, db1))"
    by (auto split: prod.splits if_splits)
  have "db1 = db \<or> \<not> has_customer_case (i_id inc) db \<and> db1 =
      create_case_for_incident (ge_now env) (ge_case_id env) (ge_tenants env) None inc u db"
    using d by (auto simp: open_case_def split: if_splits)
  with Cons.IH[OF r] show ?case
    by (auto simp: create_case_for_incident_def Let_def has_customer_case_def)
qed simp

text \<open>Each call to an endpoint API is a checked proposed action of a critical kind.\<close>

definition warranted :: "gate_env \<Rightarrow> uid \<Rightarrow> user \<Rightarrow> string list \<Rightarrow> proposed_action list \<Rightarrow> edr_call \<Rightarrow> bool" where
  "warranted env i u ids as c \<longleftrightarrow>
     ec_incident_id c = i \<and> ec_user_id c = u_id u \<and>
     (\<exists>a \<in> set as. is_checked ids a \<and> pa_kind a = Some (ec_kind c) \<and> action_provider a = ec_provider c) \<and>
     (\<exists>p. critical_action_permission (ec_kind c) = Some p \<and>
          has_permission (resolve_permissions u (ge_rbac env)) p)"

lemma kinds_are_critical:
  "k \<in> set defender_kinds \<union> set v1_kinds \<Longrightarrow> critical_action_permission k \<noteq> None"
  by (auto simp: defender_kinds_def v1_kinds_def critical_action_permission_def)

lemma run_action_calls:
  "run_action env inc u a = (a', l, oc, cs) \<Longrightarrow> c \<in> set cs \<Longrightarrow>
   ec_incident_id c = i_id inc \<and> ec_user_id c = u_id u \<and> pa_kind a = Some (ec_kind c) \<and>
   action_provider a = ec_provider c \<and> critical_action_permission (ec_kind c) \<noteq> None"
  using kinds_are_critical
  by (auto simp: run_action_def dispatch_def kind_in_def Let_def split: prod.splits if_splits option.splits)

lemma run_actions_calls:
  "run_actions env inc u ids as = (as', ls, os, cs) \<Longrightarrow> c \<in> set cs \<Longrightarrow>
   ec_incident_id c = i_id inc \<and> ec_user_id c = u_id u \<and> critical_action_permission (ec_kind c) \<noteq> None \<and>
   (\<exists>a \<in> set as. is_checked ids a \<and> pa_kind a = Some (ec_kind c) \<and> action_provider a = ec_provider c)"
proof (induction as arbitrary: as' ls os cs)
  case (Cons a as)
  obtain as1 ls1 os1 cs1 where r: "run_actions env inc u ids as = (as1, ls1, os1, cs1)"
    by (metis prod_cases4)
  obtain a1 l1 o1 c1 where q: "run_action env inc u a = (a1, l1, o1, c1)"
    by (metis prod_cases4)
  show ?case
  proof (cases "c \<in> set cs1")
    case True
    with Cons.IH[OF r] show ?thesis by auto
  next
    case False
    with Cons.prems r q have "c \<in> set c1" "is_checked ids a" by (auto split: if_splits)
    with run_action_calls[OF q] show ?thesis by auto
  qed
qed simp

lemma save_get:
  "get_incident j (save inc db) = (if j = i_id inc \<and> get_incident j db \<noteq> None then Some inc else get_incident j db)"
proof -
  have "get_row i_id j (upd_row i_id (i_id inc) (\<lambda>_. inc) rows) =
        (if j = i_id inc \<and> get_row i_id j rows \<noteq> None then Some inc else get_row i_id j rows)" for rows
    by (induction rows) (auto simp: upd_row_def)
  then show ?thesis by (auto simp: save_def get_incident_def upd_incident_def)
qed

lemma save_frame [simp]:
  "cd_edr (save inc db) = cd_edr db" "cd_sla (save inc db) = cd_sla db"
  "cd_customer_cases (save inc db) = cd_customer_cases db"
  by (simp_all add: save_def)

text \<open>The row a sign-off leaves: closed, attributed, everything but the enrichment's action lists, the
  sign-off columns and the memory point as before.\<close>

definition signed_off :: "gate_env \<Rightarrow> user \<Rightarrow> verdict \<Rightarrow> incident \<Rightarrow> incident \<Rightarrow> bool" where
  "signed_off env u v inc r \<longleftrightarrow>
     i_id r = i_id inc \<and> i_status r = Closed \<and> i_verdict r = v \<and> i_closed_at r = Some (ge_now env) \<and>
     i_approved_by_id r = Some (u_id u) \<and> i_signed_off_at r = Some (ge_now env) \<and>
     i_tenant_id r = i_tenant_id inc \<and> i_severity r = i_severity inc \<and> i_customer r = i_customer inc"

lemma sign_off_shape:
  assumes "sign_off env ids u v inc db = (os, db')"
  shows "\<exists>inc2 db3 as' ls os' cs.
      db' = save (committed env v (Some u) inc2)
        (audit_incident (ge_now env) u ''pipeline.verdict_approved'' (committed env v (Some u) inc2)
          (add_timeline (ge_now env) (u_email u) ''analyst_approval'' (i_id inc) db3))
    \<and> run_actions env inc u ids (en_proposed_actions (i_enrichment inc)) = (as', ls, os', cs)
    \<and> i_id inc2 = i_id inc \<and> i_tenant_id inc2 = i_tenant_id inc \<and> i_severity inc2 = i_severity inc
    \<and> i_customer inc2 = i_customer inc
    \<and> cd_incidents db3 = cd_incidents db \<and> cd_edr db3 = cd_edr db @ cs
    \<and> cd_sla db3 = cd_sla db @
        [sla_entry (ge_now env) Resolved (Some u) inc, sla_entry (ge_now env) Closed_Event (Some u) inc]
    \<and> (cd_customer_cases db3 = cd_customer_cases db \<or>
        \<not> has_customer_case (i_id inc) db \<and>
        (\<exists>c. cd_customer_cases db3 = cd_customer_cases db @ [c] \<and> cc_source_incident_id c = i_id inc \<and>
             cc_tenant_id c = i_tenant_id inc \<and> cc_status c = Draft))"
proof -
  obtain as' ls os' cs where r: "run_actions env inc u ids (en_proposed_actions (i_enrichment inc)) = (as', ls, os', cs)"
    by (metis prod_cases4)
  define inc1 where "inc1 = inc\<lparr>i_enrichment := (i_enrichment inc)\<lparr>
      en_v1_actions := en_v1_actions (i_enrichment inc) @ ls, en_proposed_actions := as'\<rparr>\<rparr>"
  define db1 where "db1 = db\<lparr>cd_edr := cd_edr db @ cs\<rparr>"
  obtain as2 os2 db2 where c: "create_cases env inc1 u ids as' db1 = (as2, os2, db2)"
    by (metis prod_cases3)
  define inc2 where "inc2 = inc1\<lparr>i_enrichment := (i_enrichment inc1)\<lparr>en_proposed_actions := as2\<rparr>\<rparr>"
  have m: "maybe_create_customer_case env ids u (run_proposed_actions env ids u inc db) = (inc2, os' @ os2, db2)"
    using r c by (simp add: maybe_create_customer_case_def run_proposed_actions_def Let_def inc1_def db1_def inc2_def)
  define reason where "reason = (if truthy_str (i_analyst_notes inc2) then opt_str (i_analyst_notes inc2)
                                 else opt_str (i_llm_report inc2))"
  obtain db3 where k: "commit_verdict env inc2 v reason (Some u) db2 = (committed env v (Some u) inc2, db3)"
    using commit_verdict_row[of env inc2 v reason "Some u" db2] by (metis prod.collapse)
  have ids: "i_id inc2 = i_id inc" "i_tenant_id inc2 = i_tenant_id inc" "i_severity inc2 = i_severity inc"
    "i_customer inc2 = i_customer inc" "i_id inc1 = i_id inc" "i_tenant_id inc1 = i_tenant_id inc"
    by (simp_all add: inc1_def inc2_def)
  have f: "cd_incidents db3 = cd_incidents db" "cd_edr db3 = cd_edr db @ cs"
    "cd_customer_cases db3 = cd_customer_cases db2"
    "cd_sla db3 = cd_sla db @ [sla_entry (ge_now env) Resolved (Some u) inc, sla_entry (ge_now env) Closed_Event (Some u) inc]"
    using commit_verdict_db[of env inc2 v reason "Some u" db2] create_cases_frame[OF c] ids
    by (simp_all add: k db1_def sla_entry_def)
  have "db' = save (committed env v (Some u) inc2)
      (audit_incident (ge_now env) u ''pipeline.verdict_approved'' (committed env v (Some u) inc2)
        (add_timeline (ge_now env) (u_email u) ''analyst_approval'' (i_id inc) db3))"
    using assms m k ids(1) by (simp add: sign_off_def Let_def reason_def)
  moreover have "cd_customer_cases db3 = cd_customer_cases db \<or> \<not> has_customer_case (i_id inc) db \<and>
      (\<exists>c. cd_customer_cases db3 = cd_customer_cases db @ [c] \<and> cc_source_incident_id c = i_id inc \<and>
           cc_tenant_id c = i_tenant_id inc \<and> cc_status c = Draft)"
    using create_cases_once[OF c] f ids by (simp add: db1_def has_customer_case_def)
  ultimately show ?thesis using r ids f by blast
qed

lemma sign_off_effects:
  assumes "sign_off env ids u v inc db = (os, db')" "get_incident (i_id inc) db \<noteq> None"
  shows "\<exists>r as' ls os' cs. run_actions env inc u ids (en_proposed_actions (i_enrichment inc)) = (as', ls, os', cs)
     \<and> cd_edr db' = cd_edr db @ cs
     \<and> cd_sla db' = cd_sla db @
         [sla_entry (ge_now env) Resolved (Some u) inc, sla_entry (ge_now env) Closed_Event (Some u) inc]
     \<and> get_incident (i_id inc) db' = Some r \<and> signed_off env u v inc r
     \<and> (\<forall>j. j \<noteq> i_id inc \<longrightarrow> get_incident j db' = get_incident j db)
     \<and> (cd_customer_cases db' = cd_customer_cases db \<or>
        \<not> has_customer_case (i_id inc) db \<and>
        (\<exists>c. cd_customer_cases db' = cd_customer_cases db @ [c] \<and> cc_source_incident_id c = i_id inc \<and>
             cc_tenant_id c = i_tenant_id inc \<and> cc_status c = Draft))"
proof -
  obtain inc2 db3 as' ls os' cs where
    db': "db' = save (committed env v (Some u) inc2)
        (audit_incident (ge_now env) u ''pipeline.verdict_approved'' (committed env v (Some u) inc2)
          (add_timeline (ge_now env) (u_email u) ''analyst_approval'' (i_id inc) db3))" and
    r: "run_actions env inc u ids (en_proposed_actions (i_enrichment inc)) = (as', ls, os', cs)" and
    ids: "i_id inc2 = i_id inc" "i_tenant_id inc2 = i_tenant_id inc" "i_severity inc2 = i_severity inc"
      "i_customer inc2 = i_customer inc" and
    f: "cd_incidents db3 = cd_incidents db" "cd_edr db3 = cd_edr db @ cs"
      "cd_sla db3 = cd_sla db @
        [sla_entry (ge_now env) Resolved (Some u) inc, sla_entry (ge_now env) Closed_Event (Some u) inc]" and
    p: "cd_customer_cases db3 = cd_customer_cases db \<or>
        \<not> has_customer_case (i_id inc) db \<and>
        (\<exists>c. cd_customer_cases db3 = cd_customer_cases db @ [c] \<and> cc_source_incident_id c = i_id inc \<and>
             cc_tenant_id c = i_tenant_id inc \<and> cc_status c = Draft)"
    using sign_off_shape[OF assms(1)] by blast
  have g: "get_incident j db3 = get_incident j db" for j
    using f(1) by (simp add: get_incident_def)
  show ?thesis
    by (rule exI[of _ "committed env v (Some u) inc2"], rule exI[of _ as'], rule exI[of _ ls],
        rule exI[of _ os'], rule exI[of _ cs])
       (use r p f assms(2) g in \<open>simp add: db' save_get ids signed_off_def\<close>)
qed

text \<open>A successful approval, taken apart.\<close>

lemma with_case_Inr:
  "with_case guard i u scope h db = (db', Inr x) \<longleftrightarrow>
     (\<exists>w inc. guard u = Inr w \<and> get_incident i db = Some inc \<and> in_scope (i_tenant_id inc) scope \<and>
            h inc = (db', Inr x))"
  by (auto simp: with_case_def raise_http_def require_in_scope_def
      split: sum.splits option.splits http_error.splits)

lemma with_case_Inl:
  assumes "with_case guard i u scope h db = (db', Inl e)" "\<And>inc db' e. h inc = (db', Inl e) \<Longrightarrow> db' = db"
  shows "db' = db"
  using assms by (auto simp: with_case_def raise_http_def require_in_scope_def
      split: sum.splits option.splits http_error.splits if_splits)

lemma approve_Inl: "approve_incident env i bv ids notes u scope db = (db', Inl e) \<Longrightarrow> db' = db"
  unfolding approve_incident_def
  by (erule with_case_Inl) (auto simp: handled_defs Let_def split: if_splits prod.splits)

lemma approve_Inr:
  assumes "approve_incident env i bv ids notes u scope db = (db', Inr (v, os))"
  shows "\<exists>inc inc'. get_incident i db = Some inc \<and> in_scope (i_tenant_id inc) scope \<and>
     require_analyst u = Inr u \<and> i_status inc = Awaiting_Signoff \<and> v \<noteq> Pending \<and>
     (inc' = inc \<or> inc' = inc\<lparr>i_analyst_notes := notes\<rparr>) \<and>
     (case bv of Some w \<Rightarrow> v = w
      | None \<Rightarrow> v = verdict_from_str (case en_proposal (i_enrichment inc) of None \<Rightarrow> None | Some p \<Rightarrow> pp_verdict p)) \<and>
     missing_action_permissions
       (List.map_filter pa_kind (filter (is_checked ids) (en_proposed_actions (i_enrichment inc'))))
       (resolve_permissions u (ge_rbac env)) = {} \<and>
     sign_off env ids u v inc' db = (os, db')"
proof -
  from assms obtain w inc where g: "require_analyst u = Inr w" "get_incident i db = Some inc"
    "in_scope (i_tenant_id inc) scope" and
    h: "(if i_status inc \<noteq> Awaiting_Signoff then raise_http db 409
       else
         (let v = (case bv of Some v \<Rightarrow> v
                   | None \<Rightarrow> verdict_from_str (case en_proposal (i_enrichment inc) of None \<Rightarrow> None | Some p \<Rightarrow> pp_verdict p))
          in if v = Pending then raise_http db 400
             else
               (let inc = (if truthy_str notes then inc\<lparr>i_analyst_notes := notes\<rparr> else inc);
                    checked_kinds = List.map_filter pa_kind
                      (filter (is_checked ids) (en_proposed_actions (i_enrichment inc)))
                in if missing_action_permissions checked_kinds (resolve_permissions u (ge_rbac env)) \<noteq> {} then
                     raise_http db 403
                   else (case sign_off env ids u v inc db of (executed, db) \<Rightarrow> reply db (v, executed)))))
     = (db', Inr (v, os))"
    unfolding approve_incident_def with_case_Inr by blast
  define inc' where "inc' = (if truthy_str notes then inc\<lparr>i_analyst_notes := notes\<rparr> else inc)"
  define v0 where "v0 = (case bv of Some v \<Rightarrow> v
      | None \<Rightarrow> verdict_from_str (case en_proposal (i_enrichment inc) of None \<Rightarrow> None | Some p \<Rightarrow> pp_verdict p))"
  define missing where "missing = missing_action_permissions
      (List.map_filter pa_kind (filter (is_checked ids) (en_proposed_actions (i_enrichment inc'))))
      (resolve_permissions u (ge_rbac env))"
  obtain ex d where so: "sign_off env ids u v0 inc' db = (ex, d)" by (cases "sign_off env ids u v0 inc' db")
  have "w = u" using g(1) by (auto simp: require_analyst_def require_role_def split: if_splits)
  have st: "i_status inc = Awaiting_Signoff \<and> v0 \<noteq> Pending \<and> missing = {} \<and> v = v0 \<and> os = ex \<and> db' = d"
    using h unfolding Let_def v0_def[symmetric] inc'_def[symmetric] missing_def[symmetric] so prod.case handled_defs
    by (simp split: if_split_asm)
  then have eq: "v0 = v" "ex = os" "d = db'" by simp_all
  have noted: "inc' = inc \<or> inc' = inc\<lparr>i_analyst_notes := notes\<rparr>" by (simp add: inc'_def)
  have bv: "case bv of Some w \<Rightarrow> v0 = w | None \<Rightarrow>
      v0 = verdict_from_str (case en_proposal (i_enrichment inc) of None \<Rightarrow> None | Some p \<Rightarrow> pp_verdict p)"
    by (simp add: v0_def split: option.split)
  from st have "v0 \<noteq> Pending" "i_status inc = Awaiting_Signoff" "missing = {}" by simp_all
  with g so noted bv show ?thesis unfolding eq missing_def \<open>w = u\<close> by blast
qed

section \<open>Properties\<close>

lemma missing_none_iff:
  "missing_action_permissions kinds perms = {} \<longleftrightarrow>
     (\<forall>k \<in> set kinds. \<forall>p. critical_action_permission k = Some p \<longrightarrow> has_permission perms p)"
  by (force simp: missing_action_permissions_def has_permission_def List.map_filter_def)

lemma checked_kinds_in:
  "a \<in> set as \<Longrightarrow> is_checked ids a \<Longrightarrow> pa_kind a = Some k \<Longrightarrow>
   k \<in> set (List.map_filter pa_kind (filter (is_checked ids) as))"
  by (force simp: List.map_filter_def)

lemma approve_calls:
  assumes "approve_incident env i bv ids notes u scope db = (db', Inr (v, os))"
  shows "\<exists>cs inc. cd_edr db' = cd_edr db @ cs \<and> get_incident i db = Some inc \<and> i_status inc = Awaiting_Signoff \<and>
     in_scope (i_tenant_id inc) scope \<and> u_role u \<in> {Analyst, Admin} \<and>
     (\<forall>c \<in> set cs. warranted env i u ids (en_proposed_actions (i_enrichment inc)) c)"
proof -
  from approve_Inr[OF assms] obtain inc inc' where
    g: "get_incident i db = Some inc" "in_scope (i_tenant_id inc) scope" "require_analyst u = Inr u"
      "i_status inc = Awaiting_Signoff" and inc': "inc' = inc \<or> inc' = inc\<lparr>i_analyst_notes := notes\<rparr>" and
    m: "missing_action_permissions
       (List.map_filter pa_kind (filter (is_checked ids) (en_proposed_actions (i_enrichment inc'))))
       (resolve_permissions u (ge_rbac env)) = {}" and
    so: "sign_off env ids u v inc' db = (os, db')" by blast
  have same: "i_id inc' = i" "en_proposed_actions (i_enrichment inc') = en_proposed_actions (i_enrichment inc)"
    using inc' get_incident_id[OF g(1)] by auto
  from sign_off_effects[OF so] g(1) same(1) obtain as' ls os' cs where
    r: "run_actions env inc' u ids (en_proposed_actions (i_enrichment inc')) = (as', ls, os', cs)" and
    e: "cd_edr db' = cd_edr db @ cs" by auto
  have role: "u_role u \<in> {Analyst, Admin}"
    using g(3) by (auto simp: require_analyst_def require_role_def split: if_splits)
  have "warranted env i u ids (en_proposed_actions (i_enrichment inc)) c" if "c \<in> set cs" for c
  proof -
    from run_actions_calls[OF r that] obtain a p where
      c: "ec_incident_id c = i" "ec_user_id c = u_id u" "critical_action_permission (ec_kind c) = Some p" and
      a: "a \<in> set (en_proposed_actions (i_enrichment inc'))" "is_checked ids a" "pa_kind a = Some (ec_kind c)"
        "action_provider a = ec_provider c"
      using same(1) by auto
    have "has_permission (resolve_permissions u (ge_rbac env)) p"
      using m checked_kinds_in[OF a(1-3)] c(3) by (simp add: missing_none_iff)
    with c a same(2) show ?thesis by (auto simp: warranted_def)
  qed
  with e g role show ?thesis by (intro exI[of _ cs] exI[of _ inc]) simp
qed


text \<open>C15. Approve signs off or does nothing: an error leaves the store as it was; a success found the
  incident at the gate and in scope, commits the verdict given or else the proposed one and never
  pending, closes and attributes that row to the caller at one instant, puts exactly a resolved and a
  closed event on its ledger, opens at most one customer case, for this incident and only when it had
  none, and touches no other incident.\<close>

theorem approve_signs_off_or_does_nothing:
  assumes "approve_incident env i bv ids notes u scope db = (db', r)"
  shows "case r of
     Inl e \<Rightarrow> db' = db
   | Inr (v, os) \<Rightarrow>
       (\<exists>inc row. get_incident i db = Some inc \<and> i_status inc = Awaiting_Signoff \<and>
          in_scope (i_tenant_id inc) scope \<and> v \<noteq> Pending \<and>
          v = (case bv of Some w \<Rightarrow> w
               | None \<Rightarrow> verdict_from_str (case en_proposal (i_enrichment inc) of None \<Rightarrow> None | Some p \<Rightarrow> pp_verdict p)) \<and>
          get_incident i db' = Some row \<and> signed_off env u v inc row \<and>
          cd_sla db' = cd_sla db @
            [sla_entry (ge_now env) Resolved (Some u) inc, sla_entry (ge_now env) Closed_Event (Some u) inc] \<and>
          (cd_customer_cases db' = cd_customer_cases db \<or>
           \<not> has_customer_case i db \<and>
           (\<exists>c. cd_customer_cases db' = cd_customer_cases db @ [c] \<and> cc_source_incident_id c = i \<and>
                cc_tenant_id c = i_tenant_id inc \<and> cc_status c = Draft)) \<and>
          (\<forall>j. j \<noteq> i \<longrightarrow> get_incident j db' = get_incident j db))"
proof (cases r)
  case (Inl e)
  with assms approve_Inl show ?thesis by auto
next
  case (Inr x)
  obtain v os where x: "x = (v, os)" by (cases x)
  from approve_Inr[OF assms[unfolded Inr x]] obtain inc inc' where
    g: "get_incident i db = Some inc" "in_scope (i_tenant_id inc) scope" "i_status inc = Awaiting_Signoff" "v \<noteq> Pending"
    and inc': "inc' = inc \<or> inc' = inc\<lparr>i_analyst_notes := notes\<rparr>"
    and bv: "case bv of Some w \<Rightarrow> v = w
      | None \<Rightarrow> v = verdict_from_str (case en_proposal (i_enrichment inc) of None \<Rightarrow> None | Some p \<Rightarrow> pp_verdict p)"
    and so: "sign_off env ids u v inc' db = (os, db')" by blast
  have same: "i_id inc' = i" "sla_entry (ge_now env) k a inc' = sla_entry (ge_now env) k a inc"
    "signed_off env u v inc' row = signed_off env u v inc row" "i_tenant_id inc' = i_tenant_id inc" for k a row
    using inc' get_incident_id[OF g(1)] by (auto simp: sla_entry_def signed_off_def)
  have v: "v = (case bv of Some w \<Rightarrow> w
      | None \<Rightarrow> verdict_from_str (case en_proposal (i_enrichment inc) of None \<Rightarrow> None | Some p \<Rightarrow> pp_verdict p))"
    using bv by (cases bv) simp_all
  from sign_off_effects[OF so, unfolded same] g(1) show ?thesis
    unfolding Inr x using g v by auto
qed

section \<open>A worked approval\<close>

definition example_action :: "string \<Rightarrow> string \<Rightarrow> proposed_action" where
  "example_action i kind =
     \<lparr>pa_id = Some i, pa_kind = Some kind, pa_type = None, pa_label = None, pa_provider = None, pa_params = [],
      pa_justification = None, pa_status = None, pa_task_id = None, pa_blast_radius = None, pa_autonomy = None\<rparr>"

definition example_env :: gate_env where
  "example_env =
     \<lparr>ge_now = 100, ge_rbac = \<lparr>rb_permissions = [], rb_roles = [], rb_role_perms = [], rb_user_roles = [], rb_audit = []\<rparr>,
      ge_tenants = [], ge_v1_creds = (\<lambda>_. True), ge_defender_creds = (\<lambda>_. False),
      ge_v1 = (\<lambda>_. Inr (PyList [PyDict [(''status'', PyInt 202),
        (''headers'', PyList [PyDict [(''name'', PyStr ''Operation-Location''), (''value'', PyStr ''https://x/tasks/9'')]])]])),
      ge_defender = (\<lambda>_. Inr None), ge_index = (\<lambda>_ _. Inr (Some 55)), ge_case_id = 900,
      ge_suggestion_id = (\<lambda>_. 901)\<rparr>"

definition example_gate_db :: case_db where
  "example_gate_db = empty_case_db\<lparr>cd_incidents :=
     [(example_incident 7 Awaiting_Signoff)\<lparr>i_enrichment := empty_enrichment\<lparr>
        en_proposal := Some \<lparr>pp_verdict = Some ''TP'', pp_confidence = None\<rparr>,
        en_proposed_actions := [example_action ''a'' ''isolate_host'', example_action ''b'' ''create_case'']\<rparr>\<rparr>]\<rparr>"

lemma example_approval:
  "cd_edr (fst (approve_incident example_env 7 None [''a'', ''b''] None (example_user 1 Admin) None example_gate_db)) =
     [\<lparr>ec_incident_id = 7, ec_provider = ''vision_one'', ec_kind = ''isolate_host'', ec_user_id = 1\<rparr>] \<and>
   snd (approve_incident example_env 7 None [''a'', ''b''] None (example_user 1 Admin) None example_gate_db) =
     Inr (TP, [\<lparr>oc_id = Some ''a'', oc_kind = Some ''isolate_host'', oc_status = ''executed''\<rparr>,
               \<lparr>oc_id = Some ''b'', oc_kind = Some ''create_case'', oc_status = ''executed''\<rparr>])"
  by code_simp

lemma example_refusal:
  "snd (approve_incident example_env 7 None [''a''] None (example_user 2 Analyst) None example_gate_db) = Inl (HTTP 403)"
  by code_simp


lemma approve_signs_off_or_does_nothing_witness:
  "\<exists>row. get_incident 7 (fst (approve_incident example_env 7 None [''a'', ''b''] None (example_user 1 Admin) None example_gate_db)) = Some row
     \<and> i_status row = Closed \<and> i_verdict row = TP \<and> i_approved_by_id row = Some 1 \<and> i_signed_off_at row = Some 100"
proof -
  obtain db' r where a: "approve_incident example_env 7 None [''a'', ''b''] None (example_user 1 Admin) None example_gate_db = (db', r)"
    by fastforce
  have "u_id (example_user 1 Admin) = 1" "ge_now example_env = 100"
    by (simp_all add: example_user_def example_env_def)
  with approve_signs_off_or_does_nothing[OF a] example_approval[unfolded a] a show ?thesis
    by (auto simp: signed_off_def)
qed

end
