(* ===== verification/Queue.thy ===== *)
theory Queue
  imports Incident Sla Request_System
begin

text \<open>
  The investigation queue, \<open>routes/queue.py\<close>: the worklist of open incidents, and the operations
  an analyst performs on it: claim (an atomic compare-and-set on the assignee), release and snooze.
\<close>

section \<open>The worklist\<close>

definition hidden_states :: "case_status list" where
  "hidden_states = [Closed, Failed, Decided_Short_Circuit]"

definition period_days :: "string \<Rightarrow> int option" where
  "period_days = map_of [(''24h'', 1), (''7d'', 7), (''30d'', 30)]"

definition day :: int where
  "day = 86400 * 1000000"

definition project_actions :: "enrichment \<Rightarrow> string list" where
  "project_actions e =
     map (\<lambda>a. if truthy_str (pa_kind a) then opt_str (pa_kind a)
              else if truthy_str (pa_type a) then opt_str (pa_type a)
              else if truthy_str (pa_label a) then opt_str (pa_label a) else ''action'')
       (take 5 (en_proposed_actions e))"

definition project_asset :: "(string \<times> pyval) list \<Rightarrow> string option" where
  "project_asset n =
     (case find (\<lambda>k. case map_of n k of Some (PyStr v) \<Rightarrow> strip v \<noteq> [] | _ \<Rightarrow> False)
             [''asset'', ''hostname'', ''host'', ''endpoint'', ''entity'', ''src_host''] of
        None \<Rightarrow> None
      | Some k \<Rightarrow> (case map_of n k of Some (PyStr v) \<Rightarrow> Some (strip v) | _ \<Rightarrow> None))"

text \<open>The query parameters: \<open>me\<close>, \<open>unassigned\<close>, a user, or a text that is no UUID.\<close>

datatype id_filter = No_Filter | Me | Nobody | The_Id uid | Not_An_Id

definition assignee_matches :: "uid \<Rightarrow> id_filter \<Rightarrow> uid option \<Rightarrow> bool" where
  "assignee_matches me f a =
     (case f of No_Filter \<Rightarrow> True | Me \<Rightarrow> a = Some me | Nobody \<Rightarrow> a = None | The_Id i \<Rightarrow> a = Some i
      | Not_An_Id \<Rightarrow> False)"

definition queue_row_of :: "incident \<Rightarrow> queue_row" where
  "queue_row_of r =
     \<lparr>qr_id = i_id r, qr_case_number = i_case_number r, qr_title = i_title r,
      qr_severity = Some (severity_value (i_severity r)), qr_status = i_status r,
      qr_tenant_id = i_tenant_id r, qr_customer = i_customer r, qr_assignee_id = i_assignee_id r,
      qr_snoozed_until = i_snoozed_until r, qr_created_at = Some (i_created_at r),
      qr_proposed_actions = project_actions (i_enrichment r), qr_asset = project_asset (i_normalized r)\<rparr>"

definition queue_conds ::
  "instant \<Rightarrow> string option \<Rightarrow> id_filter \<Rightarrow> uid option \<Rightarrow> string \<Rightarrow> uid \<Rightarrow> tenant_scope \<Rightarrow> incident \<Rightarrow> bool" where
  "queue_conds now severity assignee tenant period me scope r \<longleftrightarrow>
     i_status r \<notin> set hidden_states \<and> i_deleted_at r = None \<and>
     scope_clause_for_incidents scope (i_tenant_id r) \<and>
     (truthy_str severity \<longrightarrow> severity_value (i_severity r) = opt_str severity) \<and>
     assignee_matches me assignee (i_assignee_id r) \<and>
     (tenant \<noteq> None \<longrightarrow> i_tenant_id r = tenant) \<and>
     (case period_days period of None \<Rightarrow> True | Some d \<Rightarrow> now - d * day \<le> i_created_at r)"

definition list_queue ::
  "instant \<Rightarrow> string option \<Rightarrow> id_filter \<Rightarrow> id_filter \<Rightarrow> string \<Rightarrow> nat \<Rightarrow> user \<Rightarrow> tenant_scope \<Rightarrow>
   (string \<times> int option) list \<Rightarrow> case_db \<Rightarrow> http_error + queue_view" where
  "list_queue now severity assignee tenant period limit u scope overrides db =
     (if limit < 1 \<or> 500 < limit \<or> period \<notin> set [''24h'', ''7d'', ''30d'', ''all''] then Inl (HTTP 422)
      else if assignee = Not_An_Id then Inl (HTTP 400)
      else if (case tenant of No_Filter \<Rightarrow> False | The_Id _ \<Rightarrow> False | _ \<Rightarrow> True) then Inl (HTTP 400)
      else
        (let tenant_id = (case tenant of The_Id t \<Rightarrow> Some t | _ \<Rightarrow> None);
             res = take limit (sort_key (\<lambda>r. - i_created_at r)
               (filter (queue_conds now severity assignee tenant_id period (u_id u) scope) (cd_incidents db)))
         in Inr (build_queue (map queue_row_of res) (u_id u) now
                   (map (\<lambda>(s, t). (s, Some t)) (effective_targets overrides)))))"

section \<open>Claim, release, snooze\<close>

definition load_in_scope :: "uid \<Rightarrow> tenant_scope \<Rightarrow> case_db \<Rightarrow> http_error + incident" where
  "load_in_scope i scope db =
     (case get_incident i db of
        None \<Rightarrow> Inl (HTTP 404)
      | Some inc \<Rightarrow>
          if i_deleted_at inc \<noteq> None then Inl (HTTP 404)
          else (case require_in_scope (i_tenant_id inc) scope of Inl e \<Rightarrow> Inl e | Inr _ \<Rightarrow> Inr inc))"

text \<open>\<open>seen\<close> is the state the request read when it loaded the row; \<open>db\<close> the state at its UPDATE,
  in which other requests may have committed since. The reply says whether it already was the
  caller's.\<close>

definition claim ::
  "instant \<Rightarrow> uid \<Rightarrow> user \<Rightarrow> tenant_scope \<Rightarrow> case_db \<Rightarrow> case_db \<Rightarrow> (case_db, bool) handled" where
  "claim now i u scope seen db =
     (case load_in_scope i scope seen of
        Inl (HTTP c) \<Rightarrow> raise_http db c
      | Inr inc \<Rightarrow>
          if i_assignee_id inc = Some (u_id u) then reply db True
          else (case get_incident i db of
              None \<Rightarrow> raise_http db 500
            | Some cur \<Rightarrow>
                if i_assignee_id cur = None then
                  (let db = upd_incident i (\<lambda>r. r\<lparr>i_assignee_id := Some (u_id u), i_claimed_at := Some now\<rparr>) db;
                       db = record_sla_event now Acknowledged (Some (u_id u)) inc db
                   in reply (audit_incident now u ''queue.claim'' inc db) False)
                else raise_http db 409))"

definition release :: "instant \<Rightarrow> uid \<Rightarrow> user \<Rightarrow> tenant_scope \<Rightarrow> case_db \<Rightarrow> (case_db, unit) handled" where
  "release now i u scope db =
     (case load_in_scope i scope db of
        Inl (HTTP c) \<Rightarrow> raise_http db c
      | Inr inc \<Rightarrow>
          if i_assignee_id inc \<noteq> None \<and> i_assignee_id inc \<noteq> Some (u_id u) \<and> u_role u \<noteq> Admin then raise_http db 403
          else
            (let db = upd_incident i (\<lambda>r. r\<lparr>i_assignee_id := None, i_claimed_at := None\<rparr>) db
             in reply (audit_incident now u ''queue.release'' inc db) ()))"

definition snooze :: "instant \<Rightarrow> uid \<Rightarrow> int \<Rightarrow> user \<Rightarrow> tenant_scope \<Rightarrow> case_db \<Rightarrow> (case_db, instant) handled" where
  "snooze now i minutes u scope db =
     (if minutes < 1 \<or> 43200 < minutes then raise_http db 422
      else (case load_in_scope i scope db of
        Inl (HTTP c) \<Rightarrow> raise_http db c
      | Inr inc \<Rightarrow>
          (let t = now + minutes * 60 * 1000000;
               db = upd_incident i (\<lambda>r. r\<lparr>i_snoozed_until := Some t, i_snoozed_by_id := Some (u_id u)\<rparr>) db
           in reply (audit_incident now u ''queue.snooze'' inc db) t)))"

section \<open>Races\<close>

text \<open>Requests of several users that all loaded the row before any of them wrote it; the database
  serialises their updates in the order of the list.\<close>

fun run_claims ::
  "uid \<Rightarrow> tenant_scope \<Rightarrow> case_db \<Rightarrow> (instant \<times> user) list \<Rightarrow> case_db \<Rightarrow> case_db \<times> (http_error + bool) list" where
  "run_claims i scope seen [] db = (db, [])"
| "run_claims i scope seen ((now, u) # cs) db =
     (case claim now i u scope seen db of
        (db, r) \<Rightarrow> (case run_claims i scope seen cs db of (db, rs) \<Rightarrow> (db, r # rs)))"

definition claimable :: "uid \<Rightarrow> tenant_scope \<Rightarrow> case_db \<Rightarrow> bool" where
  "claimable i scope db \<longleftrightarrow>
     (case load_in_scope i scope db of Inl _ \<Rightarrow> False | Inr inc \<Rightarrow> i_assignee_id inc = None)"

lemma load_in_scope_Inr:
  "load_in_scope i scope db = Inr inc \<longleftrightarrow>
     get_incident i db = Some inc \<and> i_deleted_at inc = None \<and> in_scope (i_tenant_id inc) scope"
  by (auto simp: load_in_scope_def require_in_scope_def split: option.splits)

lemma claim_lost:
  assumes "claimable i scope seen" "get_incident i db = Some cur" "i_assignee_id cur \<noteq> None"
  shows "claim now i u scope seen db = (db, Inl (HTTP 409))"
  using assms by (auto simp: claim_def claimable_def raise_http_def split: sum.splits)

lemma run_claims_lost:
  assumes "claimable i scope seen" "get_incident i db = Some cur" "i_assignee_id cur \<noteq> None"
  shows "run_claims i scope seen cs db = (db, map (\<lambda>_. Inl (HTTP 409)) cs)"
  by (induction cs) (auto simp: claim_lost[OF assms])

text \<open>C10. Claiming is a race with one winner: of any number of requests that all saw the incident
  unassigned, the first to update owns it, every other one is answered 409, and exactly one
  acknowledgement is recorded on the SLA ledger.\<close>

theorem claim_race_has_one_winner:
  assumes "claimable i scope seen"
    and "get_incident i db = Some cur" "i_assignee_id cur = None"
  shows "case run_claims i scope seen ((now, u) # cs) db of (db', rs) \<Rightarrow>
           rs = Inr False # map (\<lambda>_. Inl (HTTP 409)) cs
         \<and> get_incident i db' = Some (cur\<lparr>i_assignee_id := Some (u_id u), i_claimed_at := Some now\<rparr>)
         \<and> (\<exists>e. cd_sla db' = cd_sla db @ [e] \<and> se_kind e = Acknowledged \<and> se_actor_id e = Some (u_id u))"
proof -
  obtain inc where inc: "load_in_scope i scope seen = Inr inc" "i_assignee_id inc = None"
    using assms(1) by (auto simp: claimable_def split: sum.splits)
  obtain db1 where db1: "claim now i u scope seen db = (db1, Inr False)"
    and g: "get_incident i db1 = Some (cur\<lparr>i_assignee_id := Some (u_id u), i_claimed_at := Some now\<rparr>)"
    and e: "\<exists>e. cd_sla db1 = cd_sla db @ [e] \<and> se_kind e = Acknowledged \<and> se_actor_id e = Some (u_id u)"
    using inc assms(2,3)
    by (auto simp: claim_def reply_def audit_incident_def record_sla_event_def upd_incident_def get_incident_def)
  show ?thesis
    using run_claims_lost[OF assms(1) g, of cs] by (simp add: db1 g e)
qed

definition example_queue_db :: case_db where
  "example_queue_db = empty_case_db\<lparr>cd_incidents := [example_incident 7 Awaiting_Review]\<rparr>"

lemma claim_race_has_one_winner_witness:
  "case run_claims 7 None example_queue_db [(5, example_user 1 Analyst), (6, example_user 2 Analyst)] example_queue_db of
     (db', rs) \<Rightarrow> rs = [Inr False, Inl (HTTP 409)]"
proof -
  have c: "claimable 7 None example_queue_db" by code_simp
  have g: "get_incident 7 example_queue_db = Some (example_incident 7 Awaiting_Review)" by code_simp
  have a: "i_assignee_id (example_incident 7 Awaiting_Review) = None" by code_simp
  show ?thesis
    using claim_race_has_one_winner[OF c g a, where now = 5 and u = "example_user 1 Analyst" and
        cs = "[(6, example_user 2 Analyst)]"]
    by (auto split: prod.splits)
qed

section \<open>The worklist shows exactly the open cases\<close>

text \<open>What a request for the list asks for, in terms of the incident and the parameters as given.\<close>

definition still_open :: "incident \<Rightarrow> bool" where
  "still_open r \<longleftrightarrow> i_status r \<notin> {Closed, Failed, Decided_Short_Circuit} \<and> i_deleted_at r = None"

definition asked_for ::
  "instant \<Rightarrow> string option \<Rightarrow> id_filter \<Rightarrow> id_filter \<Rightarrow> string \<Rightarrow> uid \<Rightarrow> incident \<Rightarrow> bool" where
  "asked_for now severity assignee tenant period me r \<longleftrightarrow>
     severity \<in> {None, Some [], Some (severity_value (i_severity r))} \<and>
     (assignee = Me \<longrightarrow> i_assignee_id r = Some me) \<and> (assignee = Nobody \<longrightarrow> i_assignee_id r = None) \<and>
     (\<forall>i. assignee = The_Id i \<longrightarrow> i_assignee_id r = Some i) \<and>
     (\<forall>t. tenant = The_Id t \<longrightarrow> i_tenant_id r = Some t) \<and>
     (period = ''24h'' \<longrightarrow> now - i_created_at r \<le> day) \<and>
     (period = ''7d'' \<longrightarrow> now - i_created_at r \<le> 7 * day) \<and>
     (period = ''30d'' \<longrightarrow> now - i_created_at r \<le> 30 * day)"

definition up_for :: "uid \<Rightarrow> instant \<Rightarrow> incident \<Rightarrow> bool" where
  "up_for me now r \<longleftrightarrow>
     i_assignee_id r \<in> {None, Some me} \<and> (case i_snoozed_until r of None \<Rightarrow> True | Some t \<Rightarrow> t \<le> now)"

lemma queue_conds_iff:
  assumes "list_queue now severity assignee tenant period limit u scope overrides db = Inr v"
  shows "queue_conds now severity assignee (case tenant of The_Id t \<Rightarrow> Some t | _ \<Rightarrow> None) period me scope r \<longleftrightarrow>
         still_open r \<and> in_scope (i_tenant_id r) scope \<and> asked_for now severity assignee tenant period me r"
proof -
  have s: "(truthy_str severity \<longrightarrow> x = opt_str severity) \<longleftrightarrow> severity \<in> {None, Some [], Some x}" for x
    by (cases severity) (auto simp: truthy_str_def opt_str_def)
  from assms have ok: "period \<in> set [''24h'', ''7d'', ''30d'', ''all'']" "assignee \<noteq> Not_An_Id"
      "tenant = No_Filter \<or> (\<exists>t. tenant = The_Id t)"
    by (auto simp only: list_queue_def split: if_splits id_filter.splits)
  have who: "assignee_matches me assignee x \<longleftrightarrow>
      (assignee = Me \<longrightarrow> x = Some me) \<and> (assignee = Nobody \<longrightarrow> x = None) \<and> (\<forall>i. assignee = The_Id i \<longrightarrow> x = Some i)" for x
    using ok(2) by (simp add: assignee_matches_def split: id_filter.split)
  have whose: "((case tenant of The_Id t \<Rightarrow> Some t | _ \<Rightarrow> None) \<noteq> None \<longrightarrow> x = (case tenant of The_Id t \<Rightarrow> Some t | _ \<Rightarrow> None))
      \<longleftrightarrow> (\<forall>t. tenant = The_Id t \<longrightarrow> x = Some t)" for x
    using ok(3) by auto
  have age: "(case period_days period of None \<Rightarrow> True | Some d \<Rightarrow> now - d * day \<le> x) \<longleftrightarrow>
      (period = ''24h'' \<longrightarrow> now - x \<le> day) \<and> (period = ''7d'' \<longrightarrow> now - x \<le> 7 * day) \<and>
      (period = ''30d'' \<longrightarrow> now - x \<le> 30 * day)" for x
    using ok(1) by (auto simp: period_days_def)
  have within: "scope_clause_for_incidents scope x \<longleftrightarrow> in_scope x scope" for x
    by (auto simp: scope_clause_for_incidents_def in_scope_def split: option.split)
  show ?thesis
    unfolding queue_conds_def s who whose age within by (auto simp: still_open_def asked_for_def hidden_states_def)
qed

lemma on_worklist_row: "on_worklist me now (queue_row_of r) = up_for me now r"
  by (auto simp: on_worklist_def up_for_def queue_row_of_def row_snoozed_def split: option.split)

text \<open>C24. The worklist is sound and complete: every item is an open incident that is not archived, lies in the
  caller's tenant scope, has the severity, assignee, tenant and age asked for, is unassigned or the caller's and is
  not snoozed. Conversely, when no more than \<open>limit\<close> open incidents in scope match the request, every one of them
  that is unassigned or the caller's and not snoozed is shown, exactly once; what is assigned to others or snoozed
  is never shown, though it counts towards the limit.\<close>

theorem worklist_shows_the_open_cases:
  assumes "list_queue now severity assignee tenant period limit u scope overrides db = Inr v"
  shows "let found = (\<lambda>r. still_open r \<and> in_scope (i_tenant_id r) scope \<and>
                         asked_for now severity assignee tenant period (u_id u) r);
             shown = (\<lambda>r. found r \<and> up_for (u_id u) now r)
         in (\<forall>i \<in> set (qv_items v). \<exists>r \<in> set (cd_incidents db). qi_row i = queue_row_of r \<and> shown r)
          \<and> (length (filter found (cd_incidents db)) \<le> limit \<longrightarrow>
               mset (map qi_row (qv_items v)) = mset (map queue_row_of (filter shown (cd_incidents db))))"
proof -
  define found where "found = (\<lambda>r. still_open r \<and> in_scope (i_tenant_id r) scope \<and>
    asked_for now severity assignee tenant period (u_id u) r)"
  define open_rows where "open_rows = sort_key (\<lambda>r. - i_created_at r) (filter found (cd_incidents db))"
  have "v = build_queue (map queue_row_of (take limit open_rows)) (u_id u) now
              (map (\<lambda>(s, t). (s, Some t)) (effective_targets overrides))"
    using assms unfolding list_queue_def Let_def queue_conds_iff[OF assms] open_rows_def found_def
    by (simp split: if_splits)
  then have rows: "mset (map qi_row (qv_items v)) =
      mset (map queue_row_of (filter (up_for (u_id u) now) (take limit open_rows)))"
    by (simp only: build_queue_rows filter_map o_def on_worklist_row)
  have "\<exists>r \<in> set (cd_incidents db). qi_row i = queue_row_of r \<and> found r \<and> up_for (u_id u) now r"
    if "i \<in> set (qv_items v)" for i
  proof -
    have "qi_row i \<in> set (map queue_row_of (filter (up_for (u_id u) now) (take limit open_rows)))"
      using that mset_eq_setD[OF rows] by auto
    then obtain r where "r \<in> set open_rows" "qi_row i = queue_row_of r" "up_for (u_id u) now r"
      by (auto dest: in_set_takeD)
    then show ?thesis by (auto simp: open_rows_def)
  qed
  moreover have "mset (map qi_row (qv_items v)) =
      mset (map queue_row_of (filter (\<lambda>r. found r \<and> up_for (u_id u) now r) (cd_incidents db)))"
    if "length (filter found (cd_incidents db)) \<le> limit"
  proof -
    have "take limit open_rows = open_rows" using that by (simp add: open_rows_def)
    moreover have "mset (filter (up_for (u_id u) now) open_rows) =
        mset (filter (\<lambda>r. found r \<and> up_for (u_id u) now r) (cd_incidents db))"
      by (simp add: open_rows_def filter_filter_mset conj_commute)
    ultimately show ?thesis using rows by (simp only: mset_map)
  qed
  ultimately show ?thesis unfolding found_def Let_def by blast
qed

section \<open>The queue never touches the gate\<close>

text \<open>What a queue operation may change: the assignee, the claim stamp and the snooze of one row.\<close>

definition queue_fields_erased :: "incident \<Rightarrow> incident" where
  "queue_fields_erased r =
     r\<lparr>i_assignee_id := None, i_claimed_at := None, i_snoozed_until := None, i_snoozed_by_id := None\<rparr>"

definition same_but_queue :: "case_db \<Rightarrow> case_db \<Rightarrow> bool" where
  "same_but_queue a b \<longleftrightarrow>
     map queue_fields_erased (cd_incidents a) = map queue_fields_erased (cd_incidents b) \<and>
     cd_edr a = cd_edr b \<and> cd_memory a = cd_memory b \<and> cd_suggestions a = cd_suggestions b \<and>
     cd_customer_cases a = cd_customer_cases b \<and> cd_jobs a = cd_jobs b"

lemma same_but_queue_refl [simp]: "same_but_queue a a"
  by (simp add: same_but_queue_def)

lemma same_but_queue_upd:
  assumes "\<And>r. queue_fields_erased (f r) = queue_fields_erased r"
  shows "same_but_queue (audit_incident now u a inc (upd_incident i f db)) db"
    and "same_but_queue (audit_incident now u a inc (record_sla_event t k w inc' (upd_incident i f db))) db"
  using assms
  by (auto simp: same_but_queue_def audit_incident_def record_sla_event_def upd_incident_def upd_row_def)

datatype queue_op =
    Do_Claim instant uid user tenant_scope case_db
  | Do_Release instant uid user tenant_scope
  | Do_Snooze instant uid int user tenant_scope

definition queue_step :: "queue_op \<Rightarrow> case_db \<Rightarrow> case_db" where
  "queue_step op db =
     (case op of
        Do_Claim now i u scope seen \<Rightarrow> fst (claim now i u scope seen db)
      | Do_Release now i u scope \<Rightarrow> fst (release now i u scope db)
      | Do_Snooze now i minutes u scope \<Rightarrow> fst (snooze now i minutes u scope db))"

lemma queue_step_same: "same_but_queue (queue_step op db) db"
  by (cases op)
     (auto simp: queue_step_def claim_def release_def snooze_def handled_defs Let_def queue_fields_erased_def
       intro!: same_but_queue_upd split: sum.split http_error.split option.split)

interpretation queue: request_system queue_step "\<lambda>_. True" "\<lambda>db. same_but_queue db db0" for db0
proof
  fix db op assume "same_but_queue db db0"
  with queue_step_same[of op db] show "same_but_queue (queue_step op db) db0" by (simp add: same_but_queue_def)
qed

text \<open>Working the queue decides nothing: whatever sequence of claims, releases and snoozes runs,
  with whatever interleaving of reads and writes, status, verdict, severity, enrichment, tenant and
  sign-off of every incident stay as they were, and no response action, customer case or job is
  created.\<close>

theorem queue_never_decides:
  "same_but_queue (fold queue_step ops db) db"
  by (rule queue.run_inv) (simp_all add: same_but_queue_def)

definition example_worklist_db :: case_db where
  "example_worklist_db = empty_case_db\<lparr>cd_incidents :=
     [example_incident 7 Awaiting_Review, example_incident 8 Closed,
      (example_incident 9 Awaiting_Review)\<lparr>i_assignee_id := Some 2\<rparr>]\<rparr>"

lemma worklist_shows_the_open_cases_witness:
  "\<exists>v. list_queue 9 None No_Filter No_Filter ''all'' 200 (example_user 1 Analyst) None [] example_worklist_db = Inr v \<and>
       map qi_row (qv_items v) = [queue_row_of (example_incident 7 Awaiting_Review)]"
proof -
  obtain v where v: "list_queue 9 None No_Filter No_Filter ''all'' 200 (example_user 1 Analyst) None []
      example_worklist_db = Inr v"
    by (simp add: list_queue_def Let_def)
  have "mset (map qi_row (qv_items v)) = mset [queue_row_of (example_incident 7 Awaiting_Review)]"
    using worklist_shows_the_open_cases[OF v]
    by (simp add: Let_def asked_for_def example_worklist_db_def empty_case_db_def still_open_def up_for_def example_incident_def
        in_scope_def example_user_def)
  then have rows: "map qi_row (qv_items v) = [queue_row_of (example_incident 7 Awaiting_Review)]"
    by (simp only: mset.simps mset_single_iff)
  show ?thesis by (intro exI[of _ v] conjI v rows)
qed

end
