(* ===== verification/Case_Ops.thy ===== *)
theory Case_Ops
  imports Gate Queue
begin

text \<open>
  The other state-changing routes of \<open>routes/cases.py\<close>: assignment, escalation, the field patch, bulk
  actions, regeneration, the manager chat, archive, restore, purge, watchers. A manager turn is an
  argument (what the language model's tool calls leave as proposal and proposed actions).
\<close>

section \<open>Assignment\<close>

definition notify_assignment :: "user list \<Rightarrow> incident \<Rightarrow> uid \<Rightarrow> user \<Rightarrow> case_db \<Rightarrow> case_db" where
  "notify_assignment users inc assignee_id actor db =
     (case get_row u_id assignee_id users of
        None \<Rightarrow> db
      | Some a \<Rightarrow>
          if u_status a \<noteq> Active then db
          else
            (let db = notify_users [assignee_id] ''assignment'' (Some (u_id actor)) db
             in if u_email a = [] then db else enqueue (Assignment_Email assignee_id) db))"

definition notify_bulk_assignment :: "user list \<Rightarrow> uid list \<Rightarrow> uid \<Rightarrow> user \<Rightarrow> case_db \<Rightarrow> case_db" where
  "notify_bulk_assignment users incs assignee_id actor db =
     (case get_row u_id assignee_id users of
        None \<Rightarrow> db
      | Some a \<Rightarrow>
          if u_status a \<noteq> Active \<or> incs = [] then db
          else
            (let db = notify_users [assignee_id] ''assignment'' (Some (u_id actor)) db
             in if u_email a = [] then db else enqueue (Assignment_Email assignee_id) db))"

definition user_exists :: "user list \<Rightarrow> uid \<Rightarrow> bool" where
  "user_exists users i \<longleftrightarrow> get_row u_id i users \<noteq> None"

text \<open>An unknown assignee breaks the foreign key when the audit entry is flushed, and the request
  fails at its commit.\<close>

definition assign_incident ::
  "instant \<Rightarrow> user list \<Rightarrow> uid \<Rightarrow> uid option \<Rightarrow> user \<Rightarrow> tenant_scope \<Rightarrow> case_db \<Rightarrow> (case_db, bool) handled" where
  "assign_incident now users i assignee u scope db =
     with_case require_analyst i u scope (\<lambda>inc.
       let target = (case assignee of None \<Rightarrow> u_id u | Some a \<Rightarrow> a);
           prior = i_assignee_id inc;
           first_claim = (i_claimed_at inc = None);
           inc = inc\<lparr>i_assignee_id := Some target\<rparr>;
           inc = (if first_claim then inc\<lparr>i_claimed_at := Some now\<rparr> else inc);
           db1 = (if first_claim then record_sla_event now Acknowledged (Some (u_id u)) inc db else db);
           db1 = add_timeline now (u_email u) ''assigned'' i db1;
           db1 = save inc (audit_incident now u ''incident.assign'' inc db1);
           db1 = (if target \<noteq> u_id u \<and> Some target \<noteq> prior then notify_assignment users inc target u db1 else db1)
       in if user_exists users target then reply db1 first_claim else raise_http db 500) db"

section \<open>Escalation\<close>

definition notify_escalation :: "incident \<Rightarrow> user \<Rightarrow> case_db \<Rightarrow> case_db" where
  "notify_escalation inc actor db =
     notify_users (incident_watcher_ids (i_id inc) db) ''escalation'' (Some (u_id actor)) db"

definition escalate_incident ::
  "instant \<Rightarrow> uid \<Rightarrow> string option \<Rightarrow> user \<Rightarrow> tenant_scope \<Rightarrow> case_db \<Rightarrow> (case_db, bool) handled" where
  "escalate_incident now i note u scope db =
     with_case require_analyst i u scope (\<lambda>inc.
       if i_escalated_at inc \<noteq> None then reply db True
       else
         (let note = (if truthy_str note \<and> strip (opt_str note) \<noteq> [] then Some (strip (opt_str note)) else None);
              inc = inc\<lparr>i_escalated_at := Some now, i_escalated_by_id := Some (u_id u), i_escalation_note := note\<rparr>;
              db = add_timeline now (u_email u) ''escalated_l2'' i db;
              db = audit_incident now u ''incident.escalate'' inc db
          in reply (notify_escalation inc u (save inc db)) False)) db"

definition deescalate_incident ::
  "instant \<Rightarrow> uid \<Rightarrow> user \<Rightarrow> tenant_scope \<Rightarrow> case_db \<Rightarrow> (case_db, bool) handled" where
  "deescalate_incident now i u scope db =
     with_case require_analyst i u scope (\<lambda>inc.
       if i_escalated_at inc = None then reply db True
       else
         (let inc = inc\<lparr>i_escalated_at := None, i_escalated_by_id := None, i_escalation_note := None\<rparr>;
              db = add_timeline now (u_email u) ''deescalated'' i db;
              db = audit_incident now u ''incident.deescalate'' inc db
          in reply (save inc db) False)) db"

section \<open>The field patch\<close>

text \<open>The fields the body sets: \<open>None\<close> when unset, \<open>Some None\<close> when set to null. A null in a column
  that does not allow it fails the request.\<close>

record incident_patch =
  ip_title :: "string option option"
  ip_customer :: "string option option"
  ip_rule_name :: "string option option"
  ip_verdict :: "verdict option option"
  ip_confidence :: "confidence option option"
  ip_severity :: "severity option option"
  ip_assignee_id :: "uid option option"
  ip_analyst_notes :: "string option option"
  ip_verdict_reason :: "string option option"
  ip_handoff_note :: "string option option"
  ip_status :: "case_status option option"

definition set_to :: "'a option \<Rightarrow> 'a \<Rightarrow> 'a" where
  "set_to upd old = (case upd of None \<Rightarrow> old | Some v \<Rightarrow> v)"

definition set_value :: "'a option option \<Rightarrow> 'a \<Rightarrow> 'a" where
  "set_value upd old = (case upd of Some (Some v) \<Rightarrow> v | _ \<Rightarrow> old)"

definition nulls_required_column :: "incident_patch \<Rightarrow> bool" where
  "nulls_required_column p \<longleftrightarrow>
     ip_title p = Some None \<or> ip_verdict p = Some None \<or> ip_severity p = Some None \<or> ip_status p = Some None"

definition patch_row :: "incident_patch \<Rightarrow> incident \<Rightarrow> incident" where
  "patch_row p inc =
     inc\<lparr>i_title := set_value (ip_title p) (i_title inc), i_customer := set_to (ip_customer p) (i_customer inc),
         i_rule_name := set_to (ip_rule_name p) (i_rule_name inc),
         i_verdict := set_value (ip_verdict p) (i_verdict inc),
         i_confidence := set_to (ip_confidence p) (i_confidence inc),
         i_severity := set_value (ip_severity p) (i_severity inc),
         i_assignee_id := set_to (ip_assignee_id p) (i_assignee_id inc),
         i_analyst_notes := set_to (ip_analyst_notes p) (i_analyst_notes inc),
         i_verdict_reason := set_to (ip_verdict_reason p) (i_verdict_reason inc),
         i_handoff_note := set_to (ip_handoff_note p) (i_handoff_note inc),
         i_status := set_value (ip_status p) (i_status inc)\<rparr>"

text \<open>\<open>ensure_tenant_for_customer\<close> raises on a blank name (the request fails) and flushes the row
  when it creates a tenant, so that a verdict set in the same request is then visible to queries.\<close>

definition patch_tenant_step ::
  "uid \<Rightarrow> incident_patch \<Rightarrow> incident \<Rightarrow> case_db \<times> tenant_db \<Rightarrow> (case_db \<times> tenant_db, incident) handled" where
  "patch_tenant_step new_id p inc st =
     (case st of (db, tdb) \<Rightarrow>
        (case ip_customer p of
           None \<Rightarrow> reply st inc
         | Some c \<Rightarrow>
             if truthy_str c then
               (case ensure_tenant_for_customer new_id (opt_str c) tdb of
                  (tdb', Inl _) \<Rightarrow> raise_http st 500
                | (tdb', Inr t) \<Rightarrow>
                    reply ((if length (td_tenants tdb') = length (td_tenants tdb) then db else save inc db), tdb')
                      (inc\<lparr>i_tenant_id := Some t\<rparr>))
             else reply st (inc\<lparr>i_tenant_id := None\<rparr>)))"

definition first_truthy :: "string option list \<Rightarrow> string" where
  "first_truthy ss = (case find truthy_str ss of None \<Rightarrow> [] | Some s \<Rightarrow> opt_str s)"

definition patch_assignee_exists :: "user list \<Rightarrow> incident_patch \<Rightarrow> bool" where
  "patch_assignee_exists users p = (case ip_assignee_id p of Some (Some a) \<Rightarrow> user_exists users a | _ \<Rightarrow> True)"

definition patch_commit ::
  "gate_env \<Rightarrow> incident_patch \<Rightarrow> incident \<Rightarrow> user \<Rightarrow> case_db \<Rightarrow> incident \<times> case_db" where
  "patch_commit env p inc u db =
     (case ip_verdict p of
        Some (Some v) \<Rightarrow>
          if v = Pending then (inc, db)
          else commit_verdict env inc v
                 (first_truthy [i_verdict_reason inc, i_analyst_notes inc, i_llm_report inc]) (Some u) db
      | _ \<Rightarrow> (inc, db))"

definition patch_claim :: "instant \<Rightarrow> incident_patch \<Rightarrow> user \<Rightarrow> incident \<Rightarrow> case_db \<Rightarrow> incident \<times> case_db" where
  "patch_claim now p u inc db =
     (case ip_assignee_id p of
        Some (Some a) \<Rightarrow>
          if i_claimed_at inc = None then
            (let inc = inc\<lparr>i_claimed_at := Some now\<rparr>
             in (inc, record_sla_event now Acknowledged (Some (u_id u)) inc db))
          else (inc, db)
      | _ \<Rightarrow> (inc, db))"

definition patch_notify ::
  "user list \<Rightarrow> incident_patch \<Rightarrow> uid option \<Rightarrow> incident \<Rightarrow> user \<Rightarrow> case_db \<Rightarrow> case_db" where
  "patch_notify users p prior inc u db =
     (case ip_assignee_id p of
        None \<Rightarrow> db
      | Some _ \<Rightarrow>
          (case i_assignee_id inc of
             None \<Rightarrow> db
           | Some a \<Rightarrow> if Some a \<noteq> prior \<and> a \<noteq> u_id u then notify_assignment users inc a u db else db))"

definition patch_incident ::
  "gate_env \<Rightarrow> user list \<Rightarrow> uid \<Rightarrow> uid \<Rightarrow> incident_patch \<Rightarrow> user \<Rightarrow> tenant_scope \<Rightarrow> case_db \<times> tenant_db \<Rightarrow>
   (case_db \<times> tenant_db, unit) handled" where
  "patch_incident env users new_tenant i p u scope st =
     (case st of (db, tdb) \<Rightarrow>
      case require_analyst u of
        Inl (HTTP c) \<Rightarrow> raise_http st c
      | Inr _ \<Rightarrow>
      (case get_incident i db of
        None \<Rightarrow> raise_http st 404
      | Some inc0 \<Rightarrow>
      (case require_in_scope (i_tenant_id inc0) scope of
        Inl (HTTP c) \<Rightarrow> raise_http st c
      | Inr _ \<Rightarrow>
          if nulls_required_column p \<or> \<not> patch_assignee_exists users p then raise_http st 500
          else
            (case patch_claim (ge_now env) p u (patch_row p inc0) db of
               (inc, db) \<Rightarrow>
            (case patch_tenant_step new_tenant p inc (db, tdb) of
               (_, Inl (HTTP c)) \<Rightarrow> raise_http st c
             | ((db, tdb), Inr inc) \<Rightarrow>
            (case patch_commit env p inc u db of
               (inc, db) \<Rightarrow>
                 reply (patch_notify users p (i_assignee_id inc0) inc u
                          (save inc (audit_incident (ge_now env) u ''incident.patch'' inc
                            (add_timeline (ge_now env) (u_email u) ''patch'' i db))), tdb) ()))))))"

section \<open>Archive, restore, purge\<close>

definition archive_incident ::
  "instant \<Rightarrow> uid \<Rightarrow> user \<Rightarrow> tenant_scope \<Rightarrow> case_db \<Rightarrow> (case_db, bool) handled" where
  "archive_incident now i u scope db =
     with_case require_admin i u scope (\<lambda>inc.
       if i_deleted_at inc \<noteq> None then reply db False
       else
         (let inc = inc\<lparr>i_deleted_at := Some now\<rparr>;
              db = add_timeline now (u_email u) ''archived'' i db;
              db = audit_incident now u ''incident.archive'' inc db
          in reply (save inc db) True)) db"

definition restore_incident ::
  "instant \<Rightarrow> uid \<Rightarrow> user \<Rightarrow> tenant_scope \<Rightarrow> case_db \<Rightarrow> (case_db, bool) handled" where
  "restore_incident now i u scope db =
     with_case require_admin i u scope (\<lambda>inc.
       if i_deleted_at inc = None then reply db False
       else
         (let inc = inc\<lparr>i_deleted_at := None\<rparr>;
              db = add_timeline now (u_email u) ''restored'' i db;
              db = audit_incident now u ''incident.restore'' inc db
          in reply (save inc db) True)) db"

text \<open>Deleting a row with the cascades of its foreign keys; a customer case whose source it is
  restricts the deletion.\<close>

definition delete_incident :: "uid \<Rightarrow> case_db \<Rightarrow> case_db option" where
  "delete_incident i db =
     (if has_customer_case i db then None
      else Some (db\<lparr>cd_incidents := del_row i_id i (cd_incidents db),
                    cd_timeline := filter (\<lambda>e. te_incident_id e \<noteq> i) (cd_timeline db),
                    cd_sla := filter (\<lambda>e. se_incident_id e \<noteq> i) (cd_sla db),
                    cd_iocs := filter (\<lambda>r. ir_incident_id r \<noteq> i) (cd_iocs db),
                    cd_entity_links := filter (\<lambda>l. fst l \<noteq> i) (cd_entity_links db),
                    cd_watchers := filter (\<lambda>w. fst w \<noteq> i) (cd_watchers db),
                    cd_case_incidents := filter (\<lambda>l. snd l \<noteq> i) (cd_case_incidents db)\<rparr>))"

definition purge_incident ::
  "instant \<Rightarrow> uid \<Rightarrow> bool \<Rightarrow> user \<Rightarrow> tenant_scope \<Rightarrow> case_db \<Rightarrow> (case_db, string) handled" where
  "purge_incident now i force u scope db =
     with_case require_admin i u scope (\<lambda>inc.
       if \<not> force \<and> i_deleted_at inc = None then raise_http db 409
       else (case delete_incident i db of
               None \<Rightarrow> raise_http db 409
             | Some db1 \<Rightarrow> reply (audit_incident now u ''incident.purge'' inc db1) (i_case_number inc))) db"

section \<open>Regeneration and the manager chat\<close>

definition regenerate ::
  "instant \<Rightarrow> uid \<Rightarrow> user \<Rightarrow> tenant_scope \<Rightarrow> case_db \<Rightarrow> (case_db, bool) handled" where
  "regenerate now i u scope db =
     with_case require_analyst i u scope (\<lambda>inc.
       let was_short_circuit = (i_short_circuit inc \<noteq> None);
           inc = inc\<lparr>i_status := Awaiting_Synthesis\<rparr>;
           db = enqueue (Synthesize_Only i True) db;
           db = add_timeline now (u_email u) ''regen_requested'' i db;
           db = audit_incident now u ''incident.regenerate'' inc db
       in reply (save inc db) was_short_circuit) db"

definition manager_message ::
  "instant \<Rightarrow> uid \<Rightarrow> string \<Rightarrow> (string \<Rightarrow> incident \<Rightarrow> proposal option \<times> proposed_action list) \<Rightarrow> user \<Rightarrow>
   tenant_scope \<Rightarrow> case_db \<Rightarrow> (case_db, unit) handled" where
  "manager_message now i message turn u scope db =
     with_case require_analyst i u scope (\<lambda>inc.
       if i_status inc \<noteq> Awaiting_Signoff then raise_http db 409
       else if strip message = [] then raise_http db 400
       else
         (case turn (strip message) inc of
            (p, as) \<Rightarrow>
              (let inc = inc\<lparr>i_enrichment := (i_enrichment inc)\<lparr>en_proposal := p, en_proposed_actions := as\<rparr>\<rparr>
               in reply (save inc (audit_incident now u ''pipeline.manager_message'' inc db)) ()))) db"

section \<open>Watchers\<close>

definition ensure_incident_watchers :: "uid \<Rightarrow> uid list \<Rightarrow> case_db \<Rightarrow> case_db" where
  "ensure_incident_watchers i user_ids db =
     db\<lparr>cd_watchers := fold (\<lambda>u ws. if (i, u) \<in> set ws then ws else ws @ [(i, u)]) user_ids (cd_watchers db)\<rparr>"

definition add_incident_watcher ::
  "user list \<Rightarrow> uid \<Rightarrow> uid option \<Rightarrow> user \<Rightarrow> tenant_scope \<Rightarrow> case_db \<Rightarrow> (case_db, uid) handled" where
  "add_incident_watcher users i user_id u scope db =
     with_case require_analyst i u scope (\<lambda>inc.
       let target = (case user_id of None \<Rightarrow> u_id u | Some t \<Rightarrow> t)
       in if user_exists users target then reply (ensure_incident_watchers i [target] db) target
          else raise_http db 404) db"

definition remove_incident_watcher ::
  "uid \<Rightarrow> uid \<Rightarrow> user \<Rightarrow> tenant_scope \<Rightarrow> case_db \<Rightarrow> (case_db, unit) handled" where
  "remove_incident_watcher i user_id u scope db =
     with_case require_analyst i u scope (\<lambda>inc.
       reply (db\<lparr>cd_watchers := filter (\<lambda>w. w \<noteq> (i, user_id)) (cd_watchers db)\<rparr>) ()) db"

section \<open>Bulk actions\<close>

text \<open>The value of the body: absent or null, a text, or a text that is a UUID.\<close>

datatype bulk_value = No_Value | Text_Value string | Id_Value uid

datatype bulk_action = Bulk_Archive | Bulk_Purge | Bulk_Close | Bulk_Verdict verdict | Bulk_Reassign "uid option"

definition bulk_verdict_value :: "bulk_value \<Rightarrow> verdict option" where
  "bulk_verdict_value v = (case v of Text_Value s \<Rightarrow> verdict_of s | _ \<Rightarrow> None)"

definition bulk_assignee :: "bulk_value \<Rightarrow> uid option option" where
  "bulk_assignee v =
     (case v of
        No_Value \<Rightarrow> Some None
      | Id_Value i \<Rightarrow> Some (Some i)
      | Text_Value s \<Rightarrow> if s = [] then Some None else None)"

definition bulk_parse :: "string \<Rightarrow> bulk_value \<Rightarrow> user \<Rightarrow> http_error + bulk_action" where
  "bulk_parse action v u =
     (if action \<notin> {''archive'', ''purge'', ''close'', ''verdict'', ''reassign''} then Inl (HTTP 400)
      else if action \<in> {''archive'', ''purge''} \<and> u_role u \<noteq> Admin then Inl (HTTP 403)
      else if action = ''verdict'' then
        (case bulk_verdict_value v of None \<Rightarrow> Inl (HTTP 400) | Some w \<Rightarrow> Inr (Bulk_Verdict w))
      else if action = ''reassign'' then
        (case bulk_assignee v of None \<Rightarrow> Inl (HTTP 400) | Some a \<Rightarrow> Inr (Bulk_Reassign a))
      else Inr (if action = ''archive'' then Bulk_Archive else if action = ''purge'' then Bulk_Purge else Bulk_Close))"

datatype skip_reason = Not_Found | Out_Of_Scope | Must_Archive_First | Fk_Restrict

record bulk_state =
  bs_db :: case_db
  bs_affected :: "uid list"
  bs_skipped :: "(uid \<times> skip_reason) list"
  bs_assigned :: "incident list"

definition skip_row :: "uid \<Rightarrow> skip_reason \<Rightarrow> bulk_state \<Rightarrow> bulk_state" where
  "skip_row i why s = s\<lparr>bs_skipped := bs_skipped s @ [(i, why)]\<rparr>"

definition affect_row :: "incident \<Rightarrow> case_db \<Rightarrow> bulk_state \<Rightarrow> bulk_state" where
  "affect_row inc db s = s\<lparr>bs_db := save inc db, bs_affected := bs_affected s @ [i_id inc]\<rparr>"

definition or_now :: "instant option \<Rightarrow> instant \<Rightarrow> instant option" where
  "or_now t now = (case t of None \<Rightarrow> Some now | Some x \<Rightarrow> Some x)"

definition bulk_row ::
  "instant \<Rightarrow> case_db \<Rightarrow> bulk_action \<Rightarrow> user \<Rightarrow> incident \<Rightarrow> bulk_state \<Rightarrow> bulk_state" where
  "bulk_row now db0 action u inc s =
     (let db = bs_db s; i = i_id inc
      in case action of
           Bulk_Archive \<Rightarrow>
             if i_deleted_at inc = None then
               affect_row (inc\<lparr>i_deleted_at := Some now\<rparr>) (add_timeline now (u_email u) ''archived'' i db) s
             else s\<lparr>bs_affected := bs_affected s @ [i]\<rparr>
         | Bulk_Purge \<Rightarrow>
             if i_deleted_at inc = None then skip_row i Must_Archive_First s
             else (case delete_incident i db of
                     None \<Rightarrow> skip_row i Fk_Restrict (s\<lparr>bs_db := db0\<rparr>)
                   | Some db1 \<Rightarrow> s\<lparr>bs_db := db1, bs_affected := bs_affected s @ [i]\<rparr>)
         | Bulk_Close \<Rightarrow>
             affect_row (inc\<lparr>i_status := Closed, i_closed_at := or_now (i_closed_at inc) now\<rparr>)
               (add_timeline now (u_email u) ''closed'' i db) s
         | Bulk_Verdict v \<Rightarrow>
             affect_row (inc\<lparr>i_verdict := v, i_closed_at := or_now (i_closed_at inc) now, i_status := Closed\<rparr>)
               (add_timeline now (u_email u) ''verdict_bulk'' i db) s
         | Bulk_Reassign a \<Rightarrow>
             (let inc' = inc\<lparr>i_assignee_id := a,
                             i_claimed_at := (if a \<noteq> None \<and> i_claimed_at inc = None then Some now
                                              else i_claimed_at inc)\<rparr>;
                  s' = affect_row inc' (add_timeline now (u_email u) ''reassigned'' i db) s
              in if a \<noteq> None \<and> a \<noteq> Some (u_id u) \<and> i_assignee_id inc \<noteq> a
                 then s'\<lparr>bs_assigned := bs_assigned s' @ [inc']\<rparr> else s'))"

text \<open>One turn of the loop; \<open>db0\<close> is the store at the start of the transaction, to which a failed
  purge rolls back.\<close>

definition bulk_step ::
  "instant \<Rightarrow> case_db \<Rightarrow> bulk_action \<Rightarrow> user \<Rightarrow> tenant_scope \<Rightarrow> uid \<Rightarrow> bulk_state \<Rightarrow> bulk_state" where
  "bulk_step now db0 action u scope i s =
     (case get_incident i (bs_db s) of
        None \<Rightarrow> skip_row i Not_Found s
      | Some inc \<Rightarrow>
          if \<not> in_scope (i_tenant_id inc) scope then skip_row i Out_Of_Scope s
          else bulk_row now db0 action u inc s)"

definition bulk_notify :: "user list \<Rightarrow> bulk_action \<Rightarrow> user \<Rightarrow> incident list \<Rightarrow> case_db \<Rightarrow> case_db" where
  "bulk_notify users action u assigned db =
     (case action of
        Bulk_Reassign (Some a) \<Rightarrow>
          if a = u_id u then db
          else (case assigned of
                  [] \<Rightarrow> db
                | [inc] \<Rightarrow> notify_assignment users inc a u db
                | _ \<Rightarrow> notify_bulk_assignment users (map i_id assigned) a u db)
      | _ \<Rightarrow> db)"

definition bulk_action_route ::
  "instant \<Rightarrow> user list \<Rightarrow> uid option list \<Rightarrow> string \<Rightarrow> bulk_value \<Rightarrow> user \<Rightarrow> tenant_scope \<Rightarrow> case_db \<Rightarrow>
   (case_db, uid list \<times> (uid \<times> skip_reason) list) handled" where
  "bulk_action_route now users raw_ids action v u scope db =
     (case require_analyst u of
        Inl (HTTP c) \<Rightarrow> raise_http db c
      | Inr _ \<Rightarrow>
          if raw_ids = [] then raise_http db 400
          else (case bulk_parse action v u of
            Inl (HTTP c) \<Rightarrow> raise_http db c
          | Inr act \<Rightarrow>
              (let parsed_ids = List.map_filter (\<lambda>x. x) raw_ids
               in if parsed_ids = [] then raise_http db 400
                  else
                    (let s = fold (bulk_step now db act u scope) parsed_ids
                           \<lparr>bs_db = db, bs_affected = [], bs_skipped = [], bs_assigned = []\<rparr>;
                         db1 = bulk_notify users act u (bs_assigned s)
                           ((bs_db s)\<lparr>cd_audit := audit_log now (Some (u_id u)) (''incident.bulk.'' @ action)
                              (Some (u_id u)) None (cd_audit (bs_db s))\<rparr>)
                     in if (case act of Bulk_Reassign (Some a) \<Rightarrow> bs_affected s \<noteq> [] \<and> \<not> user_exists users a | _ \<Rightarrow> False)
                        then raise_http db 500
                        else reply db1 (bs_affected s, bs_skipped s)))))"

end
