(* ===== verification/Case_System.thy ===== *)
theory Case_System
  imports Case_Ops Request_System
begin

text \<open>
  The incident API as one system: every state-changing route over the store of incidents and tenants,
  and the invariants no sequence of requests breaks. Requests may come from any user in any order.
\<close>

section \<open>Attribution\<close>

text \<open>A sign-off stamp is backed by the ledger: a closed event at that instant by that user.\<close>

definition row_attributed :: "sla_event list \<Rightarrow> incident \<Rightarrow> bool" where
  "row_attributed ledger r \<longleftrightarrow>
     (case i_signed_off_at r of
        None \<Rightarrow> i_approved_by_id r = None
      | Some t \<Rightarrow> i_approved_by_id r \<noteq> None \<and>
          (\<exists>e \<in> set ledger. se_incident_id e = i_id r \<and> se_kind e = Closed_Event \<and> se_at e = t \<and>
                           se_actor_id e = i_approved_by_id r))"

definition case_inv :: "case_db \<Rightarrow> bool" where
  "case_inv db \<longleftrightarrow>
     distinct (map i_id (cd_incidents db)) \<and>
     (\<forall>r \<in> set (cd_incidents db). row_attributed (cd_sla db) r) \<and>
     (\<forall>c \<in> set (cd_customer_cases db). cc_source_incident_id c \<in> i_id ` set (cd_incidents db))"

text \<open>The shape of every request but a purge: no incident appears or goes, the ledger and the customer
  cases only grow, and a row keeps its attribution or has one the ledger backs.\<close>

definition same_attribution :: "incident \<Rightarrow> incident \<Rightarrow> bool" where
  "same_attribution r r' \<longleftrightarrow>
     i_id r' = i_id r \<and> i_approved_by_id r' = i_approved_by_id r \<and> i_signed_off_at r' = i_signed_off_at r"

definition evolves_to :: "case_db \<Rightarrow> case_db \<Rightarrow> bool" where
  "evolves_to db db' \<longleftrightarrow>
     map i_id (cd_incidents db') = map i_id (cd_incidents db) \<and>
     (\<exists>es. cd_sla db' = cd_sla db @ es) \<and>
     (\<forall>r' \<in> set (cd_incidents db').
        (\<exists>r \<in> set (cd_incidents db). same_attribution r r') \<or> row_attributed (cd_sla db') r') \<and>
     (\<exists>cs. cd_customer_cases db' = cd_customer_cases db @ cs \<and>
           cc_source_incident_id ` set cs \<subseteq> i_id ` set (cd_incidents db))"

lemma row_attributed_mono: "row_attributed l r \<Longrightarrow> row_attributed (l @ es) r"
  by (auto simp: row_attributed_def split: option.splits)

lemma row_attributed_same:
  "same_attribution r r' \<Longrightarrow> row_attributed l r \<Longrightarrow> row_attributed l r'"
  by (cases "i_signed_off_at r") (simp_all add: same_attribution_def row_attributed_def)

lemma evolves_inv:
  assumes "evolves_to db db'" "case_inv db"
  shows "case_inv db'"
proof -
  from assms(1) obtain es cs where
    ids: "map i_id (cd_incidents db') = map i_id (cd_incidents db)" and
    sla: "cd_sla db' = cd_sla db @ es" and
    rows: "\<forall>r' \<in> set (cd_incidents db').
        (\<exists>r \<in> set (cd_incidents db). same_attribution r r') \<or> row_attributed (cd_sla db') r'" and
    cc: "cd_customer_cases db' = cd_customer_cases db @ cs"
      "cc_source_incident_id ` set cs \<subseteq> i_id ` set (cd_incidents db)"
    unfolding evolves_to_def by blast
  have "row_attributed (cd_sla db') r'" if r': "r' \<in> set (cd_incidents db')" for r'
  proof (cases "row_attributed (cd_sla db') r'")
    case False
    with rows r' obtain r where "r \<in> set (cd_incidents db)" "same_attribution r r'" by blast
    with assms(2) show ?thesis
      unfolding sla case_inv_def by (blast intro: row_attributed_same row_attributed_mono)
  qed
  moreover have "i_id ` set (cd_incidents db') = i_id ` set (cd_incidents db)"
    using arg_cong[OF ids, of set] by simp
  ultimately show ?thesis
    using assms(2) cc ids by (auto simp: case_inv_def)
qed

lemma evolves_to_refl [simp, intro]: "evolves_to db db"
  by (auto simp: evolves_to_def same_attribution_def)

lemma evolves_trans:
  assumes "evolves_to a b" "evolves_to b c"
  shows "evolves_to a c"
proof -
  from assms obtain es fs where s: "cd_sla b = cd_sla a @ es" "cd_sla c = cd_sla b @ fs"
    unfolding evolves_to_def by blast
  from assms obtain cs ds where d: "cd_customer_cases b = cd_customer_cases a @ cs"
    "cc_source_incident_id ` set cs \<subseteq> i_id ` set (cd_incidents a)"
    "cd_customer_cases c = cd_customer_cases b @ ds"
    "cc_source_incident_id ` set ds \<subseteq> i_id ` set (cd_incidents b)"
    unfolding evolves_to_def by blast
  have ids: "map i_id (cd_incidents b) = map i_id (cd_incidents a)" "map i_id (cd_incidents c) = map i_id (cd_incidents b)"
    using assms by (simp_all add: evolves_to_def)
  have "(\<exists>r \<in> set (cd_incidents a). same_attribution r r'') \<or> row_attributed (cd_sla c) r''"
    if r: "r'' \<in> set (cd_incidents c)" for r''
  proof (cases "row_attributed (cd_sla c) r''")
    case False
    with assms(2) r obtain r' where r': "r' \<in> set (cd_incidents b)" "same_attribution r' r''"
      unfolding evolves_to_def by blast
    with False have "\<not> row_attributed (cd_sla b) r'"
      using row_attributed_same row_attributed_mono unfolding s(2) by blast
    with assms(1) r'(1) obtain r where "r \<in> set (cd_incidents a)" "same_attribution r r'"
      unfolding evolves_to_def by blast
    with r'(2) show ?thesis by (auto simp: same_attribution_def)
  qed simp
  moreover have "i_id ` set (cd_incidents b) = i_id ` set (cd_incidents a)"
    using arg_cong[OF ids(1), of set] by simp
  ultimately show ?thesis
    using s d ids unfolding evolves_to_def by (simp add: image_Un)
qed

lemma evolves_frame:
  assumes "evolves_to db x" "cd_incidents y = cd_incidents x" "cd_sla y = cd_sla x @ es"
    "cd_customer_cases y = cd_customer_cases x"
  shows "evolves_to db y"
proof (rule evolves_trans[OF assms(1)])
  show "evolves_to x y"
    unfolding evolves_to_def assms by (auto simp: same_attribution_def)
qed

lemma evolves_save:
  assumes "evolves_to db x" "get_incident i db = Some inc" "same_attribution inc inc'"
  shows "evolves_to db (save inc' x)"
proof -
  have "map i_id (upd_row i_id (i_id inc') (\<lambda>_. inc') rows) = map i_id rows" for rows
    by (induction rows) (auto simp: upd_row_def)
  moreover have "inc \<in> set (cd_incidents db)"
    using assms(2) get_row_Some unfolding get_incident_def by fast
  ultimately show ?thesis
    using assms(1,3) unfolding evolves_to_def save_def upd_incident_def
    by (auto simp: set_upd_row)
qed

lemma evolves_steps [intro]:
  "evolves_to db x \<Longrightarrow> evolves_to db (add_timeline now a e i x)"
  "evolves_to db x \<Longrightarrow> evolves_to db (audit_incident now w a inc x)"
  "evolves_to db x \<Longrightarrow> evolves_to db (enqueue j x)"
  "evolves_to db x \<Longrightarrow> evolves_to db (notify_users us k w' x)"
  "evolves_to db x \<Longrightarrow> evolves_to db (record_sla_event now sk w' inc x)"
  by (erule evolves_frame;
      simp add: add_timeline_def audit_incident_def enqueue_def notify_users_def record_sla_event_def)+

lemma evolves_notify [intro]:
  "evolves_to db x \<Longrightarrow> evolves_to db (notify_assignment users inc a u x)"
  "evolves_to db x \<Longrightarrow> evolves_to db (notify_bulk_assignment users is a u x)"
  "evolves_to db x \<Longrightarrow> evolves_to db (notify_escalation inc u x)"
  by (auto simp: notify_assignment_def notify_bulk_assignment_def notify_escalation_def Let_def split: option.split)

section \<open>Requests that make no call\<close>

definition quietly :: "case_db \<Rightarrow> case_db \<Rightarrow> bool" where
  "quietly db x \<longleftrightarrow> evolves_to db x \<and> cd_edr x = cd_edr db"

definition quiet_request :: "case_db \<Rightarrow> (case_db, 'a) handled \<Rightarrow> bool" where
  "quiet_request db p \<longleftrightarrow> quietly db (fst p) \<and> (isl (snd p) \<longrightarrow> fst p = db)"

lemma quietly_refl [simp, intro]: "quietly db db"
  by (simp add: quietly_def)

lemma quietly_steps [simp, intro]:
  "quietly db x \<Longrightarrow> quietly db (add_timeline now a e i x)"
  "quietly db x \<Longrightarrow> quietly db (audit_incident now w a inc x)"
  "quietly db x \<Longrightarrow> quietly db (enqueue j x)"
  "quietly db x \<Longrightarrow> quietly db (notify_users us k w' x)"
  "quietly db x \<Longrightarrow> quietly db (record_sla_event now sk w' inc x)"
  by (auto simp: quietly_def)

lemma quietly_notify [simp, intro]:
  "quietly db x \<Longrightarrow> quietly db (notify_assignment users inc a u x)"
  "quietly db x \<Longrightarrow> quietly db (notify_bulk_assignment users is a u x)"
  "quietly db x \<Longrightarrow> quietly db (notify_escalation inc u x)"
  by (auto simp: notify_assignment_def notify_bulk_assignment_def notify_escalation_def Let_def split: option.split)

lemma quietly_save:
  "quietly db x \<Longrightarrow> get_incident i db = Some inc \<Longrightarrow> same_attribution inc inc' \<Longrightarrow> quietly db (save inc' x)"
  by (simp add: quietly_def evolves_save)

lemma quietly_frame:
  "quietly db x \<Longrightarrow> cd_incidents y = cd_incidents x \<Longrightarrow> cd_sla y = cd_sla x \<Longrightarrow>
   cd_customer_cases y = cd_customer_cases x \<Longrightarrow> cd_edr y = cd_edr x \<Longrightarrow> quietly db y"
  unfolding quietly_def by (auto intro: evolves_frame[where es = "[]"])

lemma quietly_trans: "quietly a b \<Longrightarrow> quietly b c \<Longrightarrow> quietly a c"
  by (auto simp: quietly_def intro: evolves_trans)

lemma quiet_raise [simp, intro]: "quiet_request db (raise_http db c)"
  by (simp add: quiet_request_def raise_http_def)

lemma quiet_reply [simp, intro]: "quietly db x \<Longrightarrow> quiet_request db (reply x v)"
  by (simp add: quiet_request_def reply_def)

text \<open>Inside a route the loaded row can be saved back; the second premise is used as a rewrite rule.\<close>

lemma quiet_with_case:
  assumes "\<And>inc. get_incident i db = Some inc \<Longrightarrow>
     \<forall>x inc'. quietly db x \<longrightarrow> same_attribution inc inc' \<longrightarrow> quietly db (save inc' x) \<Longrightarrow>
     quiet_request db (h inc)"
  shows "quiet_request db (with_case guard i u scope h db)"
  using assms quietly_save[of db]
  by (auto simp: with_case_def split: sum.split http_error.split option.split)

lemma assign_quiet: "quiet_request db (assign_incident now users i a u scope db)"
  unfolding assign_incident_def
  by (rule quiet_with_case) (simp add: Let_def same_attribution_def)

lemma escalate_quiet: "quiet_request db (escalate_incident now i note u scope db)"
  unfolding escalate_incident_def
  by (rule quiet_with_case) (simp add: Let_def same_attribution_def)

lemma deescalate_quiet: "quiet_request db (deescalate_incident now i u scope db)"
  unfolding deescalate_incident_def
  by (rule quiet_with_case) (simp add: Let_def same_attribution_def)

lemma archive_quiet: "quiet_request db (archive_incident now i u scope db)"
  unfolding archive_incident_def
  by (rule quiet_with_case) (simp add: Let_def same_attribution_def)

lemma restore_quiet: "quiet_request db (restore_incident now i u scope db)"
  unfolding restore_incident_def
  by (rule quiet_with_case) (simp add: Let_def same_attribution_def)

lemma regenerate_quiet: "quiet_request db (regenerate now i u scope db)"
  unfolding regenerate_def
  by (rule quiet_with_case) (simp add: Let_def same_attribution_def)

lemma manager_quiet: "quiet_request db (manager_message now i msg turn u scope db)"
  unfolding manager_message_def
  by (rule quiet_with_case) (simp add: Let_def same_attribution_def split: prod.split)

lemma reject_quiet: "quiet_request db (reject_incident now i requeue u scope db)"
  unfolding reject_incident_def
  by (rule quiet_with_case) (simp add: Let_def same_attribution_def)

lemma watch_quiet: "quiet_request db (add_incident_watcher users i w u scope db)"
  unfolding add_incident_watcher_def
  by (rule quiet_with_case)
     (auto simp: Let_def ensure_incident_watchers_def intro!: quiet_reply quietly_frame[OF quietly_refl])

lemma unwatch_quiet: "quiet_request db (remove_incident_watcher i w u scope db)"
  unfolding remove_incident_watcher_def
  by (rule quiet_with_case) (auto intro!: quiet_reply quietly_frame[OF quietly_refl])

lemma upd_incident_save:
  assumes "get_incident i db = Some inc" "distinct (map i_id (cd_incidents db))" "\<And>r. i_id (f r) = i_id r"
  shows "upd_incident i f db = save (f inc) db"
proof -
  have "upd_row i_id i f rows = upd_row i_id i (\<lambda>_. f inc) rows"
    if "get_row i_id i rows = Some inc" "distinct (map i_id rows)" for rows
    unfolding upd_row_def
    by (rule map_cong[OF refl]) (use that get_row_in[of i_id rows] in auto)
  then show ?thesis
    using assms get_incident_id[OF assms(1)]
    by (simp add: save_def upd_incident_def get_incident_def)
qed

lemma queue_quiet: "quietly db (queue_step op db)"
proof -
  have m: "map i_id (upd_row i_id i f rows) = map i_id rows" if "\<And>r. i_id (f r) = i_id r" for i f rows
    using that by (rule keys_upd_row)
  have u: "quietly db (upd_incident i f db)" if "\<And>r. same_attribution r (f r)" for i f
    using that by (auto simp: quietly_def evolves_to_def upd_incident_def same_attribution_def set_upd_row)
  show ?thesis
    by (cases op)
       (auto simp: queue_step_def claim_def release_def snooze_def handled_defs Let_def same_attribution_def
         intro!: quietly_steps u split: sum.split http_error.split option.split)
qed

section \<open>Purges and bulk actions\<close>

lemma quietly_inv: "quietly db x \<Longrightarrow> case_inv db \<Longrightarrow> case_inv x \<and> cd_edr x = cd_edr db"
  by (auto simp: quietly_def intro: evolves_inv)

lemma row_attributed_filter:
  "row_attributed l r \<Longrightarrow> i_id r \<noteq> i \<Longrightarrow> row_attributed (filter (\<lambda>e. se_incident_id e \<noteq> i) l) r"
  by (cases "i_signed_off_at r") (auto simp: row_attributed_def)

lemma delete_incident_inv:
  assumes "case_inv db" "delete_incident i db = Some db'"
  shows "case_inv db' \<and> cd_edr db' = cd_edr db"
proof -
  have inc: "cd_incidents db' = del_row i_id i (cd_incidents db)"
    and sla: "cd_sla db' = filter (\<lambda>e. se_incident_id e \<noteq> i) (cd_sla db)"
    and cc: "cd_customer_cases db' = cd_customer_cases db" and edr: "cd_edr db' = cd_edr db"
    and free: "\<not> has_customer_case i db"
    using assms(2) by (auto simp: delete_incident_def split: if_splits)
  have "distinct (map i_id (cd_incidents db'))"
    using assms(1) by (simp add: inc case_inv_def del_row_def distinct_map_filter)
  moreover have "row_attributed (cd_sla db') r" if "r \<in> set (cd_incidents db')" for r
    using that assms(1) by (auto simp: inc set_del_row sla case_inv_def intro: row_attributed_filter)
  moreover have "cc_source_incident_id c \<in> i_id ` set (cd_incidents db')" if "c \<in> set (cd_customer_cases db')" for c
  proof -
    have "cc_source_incident_id c \<noteq> i" using that free by (auto simp: cc has_customer_case_def list_ex_iff)
    moreover have "cc_source_incident_id c \<in> i_id ` set (cd_incidents db)"
      using that assms(1) by (simp add: cc case_inv_def)
    ultimately show ?thesis by (auto simp: inc set_del_row)
  qed
  ultimately show ?thesis using edr by (simp add: case_inv_def)
qed

lemma purge_inv:
  assumes "purge_incident now i force u scope db = (db', r)" "case_inv db"
  shows "case_inv db' \<and> cd_edr db' = cd_edr db \<and> (isl r \<longrightarrow> db' = db)"
proof -
  have audit: "case_inv x \<Longrightarrow> case_inv (audit_incident now u a inc x) \<and> cd_edr (audit_incident now u a inc x) = cd_edr x"
    for a inc x using quietly_inv[OF quietly_steps(2)[OF quietly_refl]] by blast
  show ?thesis
    using assms delete_incident_inv[OF assms(2)] audit
    by (auto simp: purge_incident_def with_case_def handled_defs
        split: sum.splits http_error.splits option.splits if_splits)
qed

definition bulk_ok :: "case_db \<Rightarrow> bulk_state \<Rightarrow> bool" where
  "bulk_ok db0 s \<longleftrightarrow> case_inv (bs_db s) \<and> cd_edr (bs_db s) = cd_edr db0"

lemma bulk_ok_skip [simp]: "bulk_ok db0 (skip_row i why s) = bulk_ok db0 s"
  by (simp add: bulk_ok_def skip_row_def)

lemma bulk_ok_assigned: "bulk_ok db0 (s\<lparr>bs_assigned := x\<rparr>) = bulk_ok db0 s"
  by (simp add: bulk_ok_def)

lemma bulk_ok_affect:
  assumes "bulk_ok db0 s" "get_incident i (bs_db s) = Some inc" "same_attribution inc inc'"
  shows "bulk_ok db0 (affect_row inc' (add_timeline now a e i (bs_db s)) s)"
  using quietly_inv[OF quietly_save[OF quietly_steps(1)[OF quietly_refl] assms(2,3)]] assms(1)
  by (simp add: bulk_ok_def affect_row_def)

lemma bulk_step_ok:
  assumes "case_inv db0" "bulk_ok db0 s"
  shows "bulk_ok db0 (bulk_step now db0 act u scope i s)"
proof (cases "get_incident i (bs_db s)")
  case None
  with assms show ?thesis by (simp add: bulk_step_def)
next
  case (Some inc)
  note id = get_incident_id[OF Some]
  have aff: "same_attribution inc inc' \<Longrightarrow> bulk_ok db0 (affect_row inc' (add_timeline now a e i (bs_db s)) s)" for inc' a e
    by (rule bulk_ok_affect[OF assms(2) Some])
  have "bulk_ok db0 (bulk_row now db0 act u inc s)"
  proof (cases act)
    case Bulk_Purge
    show ?thesis
    proof (cases "delete_incident i (bs_db s)")
      case None
      with Bulk_Purge assms id show ?thesis by (simp add: bulk_row_def bulk_ok_def skip_row_def)
    next
      case (Some db1)
      with Bulk_Purge assms id delete_incident_inv[of "bs_db s" i db1] show ?thesis
        by (simp add: bulk_row_def bulk_ok_def skip_row_def)
    qed
  next
    case (Bulk_Reassign a)
    let ?inc' = "inc\<lparr>i_assignee_id := a, i_claimed_at := (if a \<noteq> None \<and> i_claimed_at inc = None then Some now
                                              else i_claimed_at inc)\<rparr>"
    have "bulk_ok db0 (affect_row ?inc' (add_timeline now (u_email u) ''reassigned'' i (bs_db s)) s)"
      by (rule aff) (simp add: same_attribution_def)
    then have "bulk_ok db0 (if c then affect_row ?inc' (add_timeline now (u_email u) ''reassigned'' i (bs_db s)) s
        \<lparr>bs_assigned := x\<rparr> else affect_row ?inc' (add_timeline now (u_email u) ''reassigned'' i (bs_db s)) s)" for c x
      by (cases c) (simp_all only: bulk_ok_assigned if_True if_False)
    then show ?thesis unfolding Bulk_Reassign bulk_row_def Let_def id bulk_action.case by (simp only:)
  qed (use assms(2) in \<open>auto simp: bulk_row_def id Let_def same_attribution_def intro!: aff,
        simp add: bulk_ok_def\<close>)
  with Some assms show ?thesis by (simp add: bulk_step_def)
qed

lemma bulk_fold_ok:
  "case_inv db0 \<Longrightarrow> bulk_ok db0 s \<Longrightarrow> bulk_ok db0 (fold (bulk_step now db0 act u scope) is s)"
  by (induction "is" arbitrary: s) (simp_all add: bulk_step_ok)

lemma bulk_notify_quiet: "quietly db x \<Longrightarrow> quietly db (bulk_notify users act u incs x)"
  by (auto simp: bulk_notify_def split: bulk_action.split option.split list.split)

lemma bulk_inv:
  assumes "bulk_action_route now users ids action v u scope db = (db', r)" "case_inv db"
  shows "case_inv db' \<and> cd_edr db' = cd_edr db \<and> (isl r \<longrightarrow> db' = db)"
proof -
  have finish: "case_inv (bulk_notify users act u xs (bs_db s\<lparr>cd_audit := l\<rparr>)) \<and>
      cd_edr (bulk_notify users act u xs (bs_db s\<lparr>cd_audit := l\<rparr>)) = cd_edr db" if "bulk_ok db s" for act xs s l
  proof -
    have "quietly (bs_db s) (bulk_notify users act u xs (bs_db s\<lparr>cd_audit := l\<rparr>))"
      by (rule bulk_notify_quiet, rule quietly_frame[OF quietly_refl]) simp_all
    with that show ?thesis using quietly_inv by (auto simp: bulk_ok_def)
  qed
  have start: "bulk_ok db \<lparr>bs_db = db, bs_affected = [], bs_skipped = [], bs_assigned = []\<rparr>"
    using assms(2) by (simp add: bulk_ok_def)
  note ok = finish[OF bulk_fold_ok[OF assms(2) start]]
  show ?thesis
    using assms ok
    by (auto simp: bulk_action_route_def Let_def handled_defs
        split: sum.splits http_error.splits if_splits)
qed

section \<open>The field patch and approval\<close>

lemma evolves_save_attributed:
  assumes "evolves_to db x" "row_attributed (cd_sla x) inc'"
  shows "evolves_to db (save inc' x)"
proof -
  have "map i_id (upd_row i_id (i_id inc') (\<lambda>_. inc') rows) = map i_id rows" for rows
    by (induction rows) (auto simp: upd_row_def)
  then show ?thesis
    using assms unfolding evolves_to_def save_def upd_incident_def
    by (auto simp: set_upd_row)
qed

lemma committed_attributed:
  "sla_entry (ge_now env) Closed_Event (Some u) inc \<in> set l \<Longrightarrow> i_id inc' = i_id inc \<Longrightarrow>
   row_attributed l (committed env v (Some u) inc')"
  by (auto simp: row_attributed_def sla_entry_def intro: bexI[rotated])

lemma approve_evolves:
  assumes "approve_incident env i bv ids notes u scope db = (db', r)"
  shows "evolves_to db db' \<and> (isl r \<longrightarrow> db' = db)"
proof (cases r)
  case (Inl e)
  with assms approve_Inl show ?thesis by blast
next
  case (Inr x)
  obtain v os where x: "x = (v, os)" by (cases x)
  from approve_Inr[OF assms[unfolded Inr x]] obtain inc inc' where
    g: "get_incident i db = Some inc" and inc': "inc' = inc \<or> inc' = inc\<lparr>i_analyst_notes := notes\<rparr>" and
    so: "sign_off env ids u v inc' db = (os, db')" by blast
  have id: "i_id inc' = i" using inc' get_incident_id[OF g] by auto
  have known: "i \<in> i_id ` set (cd_incidents db)"
    using g get_row_Some[of i_id i "cd_incidents db" inc] by (force simp: get_incident_def)
  from sign_off_shape[OF so] obtain inc2 db3 where
    db': "db' = save (committed env v (Some u) inc2)
        (audit_incident (ge_now env) u ''pipeline.verdict_approved'' (committed env v (Some u) inc2)
          (add_timeline (ge_now env) (u_email u) ''analyst_approval'' (i_id inc') db3))" and
    ids: "i_id inc2 = i_id inc'" and
    f: "cd_incidents db3 = cd_incidents db"
      "cd_sla db3 = cd_sla db @
        [sla_entry (ge_now env) Resolved (Some u) inc', sla_entry (ge_now env) Closed_Event (Some u) inc']" and
    p: "cd_customer_cases db3 = cd_customer_cases db \<or>
        (\<exists>c. cd_customer_cases db3 = cd_customer_cases db @ [c] \<and> cc_source_incident_id c = i_id inc')"
    by blast
  have "evolves_to db db3"
    using f p known id unfolding evolves_to_def by (auto simp: same_attribution_def)
  then have "evolves_to db db'"
    unfolding db' by (intro evolves_save_attributed evolves_steps committed_attributed[OF _ ids]) (simp_all add: f)
  with Inr show ?thesis by simp
qed

lemma patch_row_attribution [simp]: "same_attribution inc (patch_row p inc)"
  by (simp add: same_attribution_def patch_row_def)

lemma same_attribution_trans: "same_attribution a b \<Longrightarrow> same_attribution b c \<Longrightarrow> same_attribution a c"
  by (simp add: same_attribution_def)

lemma patch_claim_quiet:
  assumes "patch_claim now p u inc db = (inc', db')"
  shows "quietly db db' \<and> same_attribution inc inc'"
proof (cases "\<exists>a. ip_assignee_id p = Some (Some a) \<and> i_claimed_at inc = None")
  case True
  with assms show ?thesis by (auto simp: patch_claim_def Let_def same_attribution_def)
next
  case False
  with assms have "inc' = inc \<and> db' = db"
    by (auto simp: patch_claim_def split: option.splits if_splits)
  then show ?thesis by (simp add: same_attribution_def)
qed

lemma patch_notify_quiet: "quietly db x \<Longrightarrow> quietly db (patch_notify users p prior inc u x)"
  by (simp add: patch_notify_def split: option.split)

lemma patch_tenant_quiet:
  assumes "patch_tenant_step n p inc (db, tdb) = ((db', tdb'), Inr inc')"
    and "get_incident i db0 = Some inc0" "same_attribution inc0 inc" "quietly db0 db"
  shows "quietly db0 db' \<and> same_attribution inc inc'"
proof -
  from assms(1) consider
      (same) "db' = db" "same_attribution inc inc'"
    | (created) "db' = save inc db" "same_attribution inc inc'"
    by (auto simp: patch_tenant_step_def handled_defs same_attribution_def
        split: option.splits prod.splits sum.splits if_splits)
  then show ?thesis
  proof cases
    case same
    with assms(4) show ?thesis by simp
  next
    case created
    with assms(2-4) show ?thesis by (simp add: quietly_save)
  qed
qed

lemma commit_quiet:
  assumes "commit_verdict env inc v reason (Some u) db = (inc', db')" "quietly db0 db"
  shows "quietly db0 db' \<and> row_attributed (cd_sla db') inc' \<and> i_id inc' = i_id inc"
proof -
  have inc': "inc' = committed env v (Some u) inc" and
    f: "cd_incidents db' = cd_incidents db" "cd_edr db' = cd_edr db" "cd_customer_cases db' = cd_customer_cases db"
     "cd_sla db' = cd_sla db @ [sla_entry (ge_now env) Resolved (Some u) inc, sla_entry (ge_now env) Closed_Event (Some u) inc]"
    using commit_verdict_row[of env inc v reason "Some u" db] commit_verdict_db[of env inc v reason "Some u" db] assms(1)
    by simp_all
  then have "evolves_to db0 db'" using assms(2) by (auto simp: quietly_def intro: evolves_frame)
  moreover have "row_attributed (cd_sla db') inc'"
    unfolding inc' f by (rule committed_attributed) simp_all
  ultimately show ?thesis using f inc' assms(2) by (simp add: quietly_def)
qed

lemma quietly_save_attributed:
  "quietly db x \<Longrightarrow> row_attributed (cd_sla x) inc' \<Longrightarrow> quietly db (save inc' x)"
  by (simp add: quietly_def evolves_save_attributed)

lemma patch_commit_quiet:
  assumes "patch_commit env p inc u db = (inc', db')" "quietly db0 db"
    and "get_incident i db0 = Some inc0" "same_attribution inc0 inc"
  shows "quietly db0 (save inc' (audit_incident now u a inc' (add_timeline now e t j db')))"
proof (cases "\<exists>v. ip_verdict p = Some (Some v) \<and> v \<noteq> Pending")
  case True
  then obtain v reason where "commit_verdict env inc v reason (Some u) db = (inc', db')"
    using assms(1) by (auto simp: patch_commit_def)
  from commit_quiet[OF this assms(2)] show ?thesis
    by (intro quietly_save_attributed) simp_all
next
  case False
  with assms(1) have "inc' = inc \<and> db' = db"
    by (auto simp: patch_commit_def split: option.splits if_splits)
  with assms(2-4) show ?thesis by (simp add: quietly_save)
qed

lemma patch_quiet:
  assumes "patch_incident env users n i p u scope (db, tdb) = ((db', tdb'), r)"
  shows "quietly db db' \<and> (isl r \<longrightarrow> db' = db \<and> tdb' = tdb)"
proof (cases r)
  case (Inl e)
  with assms show ?thesis
    by (auto simp: patch_incident_def handled_defs split: sum.splits http_error.splits option.splits if_splits prod.splits)
next
  case (Inr x)
  with assms obtain inc0 inc1 db1 db2 inc2 inc3 db3 where
    g: "get_incident i db = Some inc0" and
    c: "patch_claim (ge_now env) p u (patch_row p inc0) db = (inc1, db1)" and
    t: "patch_tenant_step n p inc1 (db1, tdb) = ((db2, tdb'), Inr inc2)" and
    m: "patch_commit env p inc2 u db2 = (inc3, db3)" and
    db': "db' = patch_notify users p (i_assignee_id inc0) inc3 u
                          (save inc3 (audit_incident (ge_now env) u ''incident.patch'' inc3
                            (add_timeline (ge_now env) (u_email u) ''patch'' i db3)))"
    by (auto simp: patch_incident_def handled_defs
        split: sum.splits http_error.splits option.splits if_splits prod.splits)
  have q1: "quietly db db1" "same_attribution inc0 inc1"
    using patch_claim_quiet[OF c] same_attribution_trans[OF patch_row_attribution] by blast+
  have q2: "quietly db db2" "same_attribution inc0 inc2"
    using patch_tenant_quiet[OF t g q1(2,1)] same_attribution_trans[OF q1(2)] by blast+
  have "quietly db db'"
    unfolding db' by (rule patch_notify_quiet, rule patch_commit_quiet[OF m q2(1) g q2(2)])
  with Inr show ?thesis by simp
qed

section \<open>The system\<close>

type_synonym api_state = "case_db \<times> tenant_db"

datatype case_op =
    Approve gate_env uid "verdict option" "string list" "string option"
  | Reject instant uid bool
  | Manager_Turn instant uid string "string \<Rightarrow> incident \<Rightarrow> proposal option \<times> proposed_action list"
  | Assign instant "user list" uid "uid option"
  | Escalate instant uid "string option"
  | Deescalate instant uid
  | Patch gate_env "user list" uid uid incident_patch
  | Bulk instant "user list" "uid option list" string bulk_value
  | Regenerate instant uid
  | Archive instant uid
  | Restore instant uid
  | Purge instant uid bool
  | Watch "user list" uid "uid option"
  | Unwatch uid uid
  | Claim instant uid case_db
  | Release instant uid
  | Snooze instant uid int

definition on_cases :: "tenant_db \<Rightarrow> (case_db, 'a) handled \<Rightarrow> api_state \<times> http_error option" where
  "on_cases tdb p = ((fst p, tdb), case snd p of Inl e \<Rightarrow> Some e | Inr _ \<Rightarrow> None)"

text \<open>One request: who makes it, in which tenant scope, and what it asks for; the reply is the error, if
  any.\<close>

fun case_run :: "user \<Rightarrow> tenant_scope \<Rightarrow> case_op \<Rightarrow> api_state \<Rightarrow> api_state \<times> http_error option" where
  "case_run u sc (Approve env i bv ids notes) (db, t) = on_cases t (approve_incident env i bv ids notes u sc db)"
| "case_run u sc (Reject now i requeue) (db, t) = on_cases t (reject_incident now i requeue u sc db)"
| "case_run u sc (Manager_Turn now i msg turn) (db, t) = on_cases t (manager_message now i msg turn u sc db)"
| "case_run u sc (Assign now users i a) (db, t) = on_cases t (assign_incident now users i a u sc db)"
| "case_run u sc (Escalate now i note) (db, t) = on_cases t (escalate_incident now i note u sc db)"
| "case_run u sc (Deescalate now i) (db, t) = on_cases t (deescalate_incident now i u sc db)"
| "case_run u sc (Patch env users n i p) st =
     (case patch_incident env users n i p u sc st of
        (st', r) \<Rightarrow> (st', case r of Inl e \<Rightarrow> Some e | Inr _ \<Rightarrow> None))"
| "case_run u sc (Bulk now users ids action v) (db, t) = on_cases t (bulk_action_route now users ids action v u sc db)"
| "case_run u sc (Regenerate now i) (db, t) = on_cases t (regenerate now i u sc db)"
| "case_run u sc (Archive now i) (db, t) = on_cases t (archive_incident now i u sc db)"
| "case_run u sc (Restore now i) (db, t) = on_cases t (restore_incident now i u sc db)"
| "case_run u sc (Purge now i force) (db, t) = on_cases t (purge_incident now i force u sc db)"
| "case_run u sc (Watch users i w) (db, t) = on_cases t (add_incident_watcher users i w u sc db)"
| "case_run u sc (Unwatch i w) (db, t) = on_cases t (remove_incident_watcher i w u sc db)"
| "case_run u sc (Claim now i seen) (db, t) = on_cases t (claim now i u sc seen db)"
| "case_run u sc (Release now i) (db, t) = on_cases t (release now i u sc db)"
| "case_run u sc (Snooze now i minutes) (db, t) = on_cases t (snooze now i minutes u sc db)"

type_synonym request = "user \<times> tenant_scope \<times> case_op"

definition case_step :: "request \<Rightarrow> api_state \<Rightarrow> api_state" where
  "case_step rq st = (case rq of (u, sc, op) \<Rightarrow> fst (case_run u sc op st))"

text \<open>The request that may call endpoint APIs: an approval of an incident at the gate, with the action
  checked and its permission held.\<close>

definition authorises :: "request \<Rightarrow> api_state \<Rightarrow> edr_call \<Rightarrow> bool" where
  "authorises rq st c =
     (case rq of
        (u, sc, Approve env i bv ids notes) \<Rightarrow>
          (case get_incident i (fst st) of
             None \<Rightarrow> False
           | Some inc \<Rightarrow>
               i_status inc = Awaiting_Signoff \<and> in_scope (i_tenant_id inc) sc \<and> u_role u \<in> {Analyst, Admin} \<and>
               warranted env i u ids (en_proposed_actions (i_enrichment inc)) c)
      | _ \<Rightarrow> False)"

lemma queue_ops_quiet:
  "quiet_request db (claim now i u sc seen db)" "quiet_request db (release now i u sc db)"
  "quiet_request db (snooze now i m u sc db)"
  using queue_quiet[of db "Do_Claim now i u sc seen"] queue_quiet[of db "Do_Release now i u sc"]
    queue_quiet[of db "Do_Snooze now i m u sc"]
  by (auto simp: quiet_request_def queue_step_def claim_def release_def snooze_def handled_defs Let_def
      split: sum.splits http_error.splits option.splits)

lemmas quiet_routes = assign_quiet escalate_quiet deescalate_quiet archive_quiet restore_quiet regenerate_quiet
  manager_quiet reject_quiet watch_quiet unwatch_quiet queue_ops_quiet

definition good_step :: "case_db \<Rightarrow> api_state \<times> http_error option \<Rightarrow> tenant_db \<Rightarrow> bool" where
  "good_step db p t \<longleftrightarrow>
     (case_inv db \<longrightarrow> case_inv (fst (fst p)) \<and> cd_edr (fst (fst p)) = cd_edr db \<and>
        (snd p \<noteq> None \<longrightarrow> fst p = (db, t)))"

lemma good_quiet: "quiet_request db p \<Longrightarrow> good_step db (on_cases t p) t"
  using quietly_inv[of db "fst p"]
  by (auto simp: good_step_def on_cases_def quiet_request_def split: sum.split)

lemma case_run_good:
  assumes "\<forall>env i bv ids notes. op \<noteq> Approve env i bv ids notes"
  shows "good_step db (case_run u sc op (db, t)) t"
proof (cases op)
  case (Patch env users n i p)
  obtain db' t' r where p: "patch_incident env users n i p u sc (db, t) = ((db', t'), r)"
    by (metis prod.exhaust)
  show ?thesis
    using patch_quiet[OF p] quietly_inv[of db db'] by (cases r) (auto simp: Patch p good_step_def)
next
  case (Bulk now users ids action v)
  obtain db' r where p: "bulk_action_route now users ids action v u sc db = (db', r)" by fastforce
  show ?thesis
    using bulk_inv[OF p] by (cases r) (auto simp: Bulk p good_step_def on_cases_def)
next
  case (Purge now i force)
  obtain db' r where p: "purge_incident now i force u sc db = (db', r)" by fastforce
  show ?thesis
    using purge_inv[OF p] by (cases r) (auto simp: Purge p good_step_def on_cases_def)
qed (use assms in \<open>simp_all add: good_quiet quiet_routes\<close>)

lemma case_run_inv:
  assumes "case_inv db"
  shows "case_inv (fst (fst (case_run u sc op (db, t))))
       \<and> (snd (case_run u sc op (db, t)) \<noteq> None \<longrightarrow> fst (case_run u sc op (db, t)) = (db, t))"
proof (cases "\<exists>env i bv ids notes. op = Approve env i bv ids notes")
  case True
  then obtain env i bv ids nt where op: "op = Approve env i bv ids nt" by blast
  obtain db' r where p: "approve_incident env i bv ids nt u sc db = (db', r)" by fastforce
  show ?thesis
    using approve_evolves[OF p] evolves_inv[OF _ assms, of db'] by (cases r) (auto simp: op p on_cases_def)
next
  case False
  with case_run_good[of op db u sc t] assms show ?thesis by (simp add: good_step_def)
qed

lemma case_step_inv: "case_inv (fst st) \<Longrightarrow> case_inv (fst (case_step rq st))"
  using case_run_inv by (cases st; cases rq) (auto simp: case_step_def)

lemma case_step_calls:
  assumes "case_inv (fst st)" "c \<in> set (cd_edr (fst (case_step rq st)))"
  shows "c \<in> set (cd_edr (fst st)) \<or> authorises rq st c"
proof -
  obtain u sc op db t where [simp]: "rq = (u, sc, op)" "st = (db, t)" by (cases rq; cases st) auto
  show ?thesis
  proof (cases "\<exists>env i bv ids nt. op = Approve env i bv ids nt")
    case True
    then obtain env i bv ids nt where op: "op = Approve env i bv ids nt" by blast
    obtain db' r where p: "approve_incident env i bv ids nt u sc db = (db', r)" by fastforce
    show ?thesis
    proof (cases r)
      case (Inl e)
      with p approve_Inl assms(2) show ?thesis by (force simp: case_step_def op on_cases_def)
    next
      case (Inr x)
      obtain v os where "x = (v, os)" by (cases x)
      with p Inr have "approve_incident env i bv ids nt u sc db = (db', Inr (v, os))" by simp
      from approve_calls[OF this] assms(2) p show ?thesis
        by (auto simp: case_step_def op on_cases_def authorises_def)
    qed
  next
    case False
    with case_run_good[of op db u sc t] assms show ?thesis by (simp add: good_step_def case_step_def)
  qed
qed

text \<open>The incident API as a system whose log is the calls to the endpoint products.\<close>

interpretation api: accountable case_step "\<lambda>_. True" "\<lambda>st. case_inv (fst st)" "\<lambda>st. set (cd_edr (fst st))" authorises
  by unfold_locales (use case_step_inv case_step_calls in auto)

lemma case_steps_inv: "case_inv (fst st) \<Longrightarrow> case_inv (fst (fold case_step rqs st))"
  by (rule api.run_inv) simp_all

text \<open>C6. The store stays sound: no sequence of requests duplicates an incident id, leaves a sign-off
  stamp without the closed event of that user and instant on the ledger, or deletes the incident a
  customer case came from; and a request answered with an error changes nothing at all.\<close>

theorem store_stays_sound:
  assumes "case_inv (fst st)"
  shows "case_inv (fst (fold case_step rqs st)) \<and>
         (case case_run u sc op (fold case_step rqs st) of
            (st', Some e) \<Rightarrow> st' = fold case_step rqs st
          | (st', None) \<Rightarrow> case_inv (fst st'))"
proof
  show i: "case_inv (fst (fold case_step rqs st))" using assms by (rule case_steps_inv)
  obtain db t where s: "fold case_step rqs st = (db, t)" by fastforce
  obtain st' r where p: "case_run u sc op (db, t) = (st', r)" by fastforce
  show "case case_run u sc op (fold case_step rqs st) of
            (st', Some e) \<Rightarrow> st' = fold case_step rqs st
          | (st', None) \<Rightarrow> case_inv (fst st')"
    using case_run_inv[of db u sc op t] i unfolding s p by (simp add: p split: option.split)
qed

section \<open>Roles\<close>

definition queue_op_of :: "case_op \<Rightarrow> bool" where
  "queue_op_of op = (case op of Claim _ _ _ \<Rightarrow> True | Release _ _ \<Rightarrow> True | Snooze _ _ _ \<Rightarrow> True | _ \<Rightarrow> False)"

definition removes :: "case_op \<Rightarrow> bool" where
  "removes op =
     (case op of
        Archive _ _ \<Rightarrow> True | Restore _ _ \<Rightarrow> True | Purge _ _ _ \<Rightarrow> True
      | Bulk _ _ ids action _ \<Rightarrow> ids \<noteq> [] \<and> action \<in> {''archive'', ''purge''}
      | _ \<Rightarrow> False)"

lemma with_case_refused:
  "guard u = Inl (HTTP c) \<Longrightarrow> with_case guard i u scope h db = (db, Inl (HTTP c))"
  by (simp add: with_case_def raise_http_def)


section \<open>Worked runs\<close>

definition example_api :: api_state where
  "example_api = (example_gate_db, \<lparr>td_tenants = [], td_members = [], td_audit = []\<rparr>)"

lemma example_api_inv: "case_inv (fst example_api)"
  by (simp add: case_inv_def example_api_def example_gate_db_def empty_case_db_def example_incident_def
      row_attributed_def)

definition example_requests :: "request list" where
  "example_requests =
     [(example_user 2 Analyst, None, Escalate 90 7 (Some '' needs L2 '')),
      (example_user 1 Admin, None, Approve example_env 7 None [''a'', ''b''] None)]"

lemma example_run_calls:
  "cd_edr (fst (fold case_step example_requests example_api)) =
     [\<lparr>ec_incident_id = 7, ec_provider = ''vision_one'', ec_kind = ''isolate_host'', ec_user_id = 1\<rparr>]"
  by code_simp

lemma store_stays_sound_witness:
  "case_inv (fst (fold case_step example_requests example_api))"
  using store_stays_sound[OF example_api_inv] by blast


end
