(* ===== verification/Contracts.thy ===== *)
theory Contracts
  imports Autoclose
begin

text \<open>
  The typed hand-off between the model calls and the code, \<open>pipeline/contracts.py\<close>: finding the
  JSON object in a model's answer, and recovering a verdict from the header of a report whose JSON
  block was cut off. The regular expressions are written out as scanners over ASCII text. The decoder
  \<open>json.loads\<close> (\<open>None\<close> where it raises) and the validation of a contract by pydantic (\<open>None\<close> on
  a \<open>ValidationError\<close>) are parameters. Also the LLM budget test of \<open>pipeline/budget.py\<close>.
\<close>

section \<open>The contracts\<close>

record attack_step =
  as_step :: int
  as_technique :: string
  as_evidence :: string

record triage_result =
  t1_initial_severity :: string
  t1_disposition :: string
  t1_enrichment_needed :: "string list"
  t1_reasoning :: string

record analysis_verdict =
  av_verdict :: string
  av_confidence :: string
  av_attack_chain :: "attack_step list"
  av_mitre :: "string list"
  av_hunt_recommended :: bool
  av_hunt_focus :: "string option"
  av_reasoning :: string

definition default_analysis :: analysis_verdict where
  "default_analysis =
     \<lparr>av_verdict = ''inconclusive'', av_confidence = ''low'', av_attack_chain = [], av_mitre = [],
      av_hunt_recommended = False, av_hunt_focus = None, av_reasoning = []\<rparr>"

section \<open>Finding the JSON object\<close>

text \<open>The fence \<open>```(?:json)?\s*(\{.*?\})\s*```\<close>: the shortest body whose closing brace is followed by
  white space and three backquotes.\<close>

fun close_fence :: "string \<Rightarrow> (string \<times> string) option" where
  "close_fence [] = None"
| "close_fence (c # cs) =
     (if c = CHR ''}'' \<and> prefix ''```'' (lstrip cs) then Some ([c], drop 3 (lstrip cs))
      else map_option (\<lambda>(b, r). (c # b, r)) (close_fence cs))"

definition skip_json :: "string \<Rightarrow> string" where
  "skip_json s = (if prefix ''json'' s then drop 4 s else s)"

definition fence_at :: "string \<Rightarrow> (string \<times> string) option" where
  "fence_at s =
     (if prefix ''```'' s then
        (case lstrip (skip_json (drop 3 s)) of
           [] \<Rightarrow> None
         | c # r \<Rightarrow>
             if c = CHR ''{'' then map_option (\<lambda>(b, rest). (c # b, rest)) (close_fence r) else None)
      else None)"

lemma close_fence_shorter: "close_fence s = Some (b, r) \<Longrightarrow> length r < length s"
proof (induction s arbitrary: b)
  case (Cons c cs)
  have "length (lstrip cs) \<le> length cs" by (simp add: lstrip_def length_dropWhile_le)
  with Cons show ?case by (fastforce split: if_splits)
qed simp

lemma dropWhile_suffix: "\<exists>u. s = u @ dropWhile p s"
  by (metis takeWhile_dropWhile_id)

lemma fence_at_Some:
  assumes "fence_at s = Some (b, r)"
  shows "\<exists>u c b' r'. s = u @ c # r' \<and> close_fence r' = Some (b', r) \<and> b = c # b'"
proof -
  from assms obtain c r' b' where l: "lstrip (skip_json (drop 3 s)) = c # r'"
    and cf: "close_fence r' = Some (b', r)" and b: "b = c # b'"
    by (auto simp: fence_at_def simp del: drop_append split: if_splits list.splits)
  obtain w where "skip_json (drop 3 s) = w @ c # r'"
    using dropWhile_suffix[of "skip_json (drop 3 s)" is_space] l unfolding lstrip_def by metis
  moreover have "s = take 3 s @ drop 3 s" "s = take 7 s @ drop 4 (drop 3 s)" by simp_all
  ultimately obtain u where "s = u @ w @ c # r'" unfolding skip_json_def by metis
  then have "s = (u @ w) @ c # r'" by simp
  with cf b show ?thesis by blast
qed

lemma fence_at_shorter: "fence_at s = Some (b, r) \<Longrightarrow> length r < length s"
  by (auto dest!: fence_at_Some close_fence_shorter)

function fence_findall :: "string \<Rightarrow> string list" where
  "fence_findall s =
     (case fence_at s of
        Some (b, r) \<Rightarrow> b # fence_findall r
      | None \<Rightarrow> (case s of [] \<Rightarrow> [] | c # cs \<Rightarrow> fence_findall cs))"
  by pat_completeness auto
termination
  by (relation "measure length") (auto dest: fence_at_shorter)

declare fence_findall.simps [simp del]

text \<open>\<open>_balanced_object\<close>: from the first brace, counting braces outside string literals.\<close>

fun scan_object :: "nat \<Rightarrow> bool \<Rightarrow> bool \<Rightarrow> string \<Rightarrow> string option" where
  "scan_object depth in_str esc [] = None"
| "scan_object depth in_str esc (ch # cs) =
     (if in_str then
        map_option ((#) ch)
          (if esc then scan_object depth True False cs
           else if ch = CHR 0x5C then scan_object depth True True cs
           else if ch = CHR 0x22 then scan_object depth False False cs
           else scan_object depth True False cs)
      else if ch = CHR 0x22 then map_option ((#) ch) (scan_object depth True esc cs)
      else if ch = CHR ''{'' then map_option ((#) ch) (scan_object (depth + 1) False esc cs)
      else if ch = CHR ''}'' then
        (if depth - 1 = 0 then Some [ch] else map_option ((#) ch) (scan_object (depth - 1) False esc cs))
      else map_option ((#) ch) (scan_object depth False esc cs))"

definition balanced_object :: "string \<Rightarrow> string option" where
  "balanced_object text = scan_object 0 False False (dropWhile (\<lambda>c. c \<noteq> CHR ''{'') text)"

type_synonym json_loads = "string \<Rightarrow> pyval option"

definition as_dict :: "pyval option \<Rightarrow> (string \<times> pyval) list option" where
  "as_dict v = (case v of Some (PyDict d) \<Rightarrow> Some d | _ \<Rightarrow> None)"

fun first_dict :: "json_loads \<Rightarrow> string list \<Rightarrow> (string \<times> pyval) list option" where
  "first_dict loads [] = None"
| "first_dict loads (cand # cands) =
     (case as_dict (loads cand) of Some d \<Rightarrow> Some d | None \<Rightarrow> first_dict loads cands)"

definition parse_json_block :: "json_loads \<Rightarrow> string option \<Rightarrow> (string \<times> pyval) list option" where
  "parse_json_block loads text =
     (case text of
        None \<Rightarrow> None
      | Some t \<Rightarrow>
          if t = [] then None
          else first_dict loads
                 (rev (fence_findall t) @ (case balanced_object t of None \<Rightarrow> [] | Some b \<Rightarrow> [b])))"

definition parse_into ::
  "json_loads \<Rightarrow> ((string \<times> pyval) list \<Rightarrow> 'm option) \<Rightarrow> string option \<Rightarrow> 'm option" where
  "parse_into loads validate text = Option.bind (parse_json_block loads text) validate"

section \<open>Recovering a verdict from the report header\<close>

text \<open>\<open>re.search\<close> with a matcher: the leftmost position where it succeeds.\<close>

fun re_search :: "(string \<Rightarrow> 'a option) \<Rightarrow> string \<Rightarrow> 'a option" where
  "re_search m [] = m []"
| "re_search m (c # cs) = (case m (c # cs) of Some x \<Rightarrow> Some x | None \<Rightarrow> re_search m cs)"

definition after_ci :: "string \<Rightarrow> string \<Rightarrow> string option" where
  "after_ci p s = (if prefix (lower p) (lower s) then Some (drop (length p) s) else None)"

fun after_words :: "string list \<Rightarrow> string \<Rightarrow> string option" where
  "after_words [] s = Some s"
| "after_words [w] s = after_ci w s"
| "after_words (w # v # ws) s =
     (case after_ci w s of
        None \<Rightarrow> None
      | Some r \<Rightarrow> if r \<noteq> [] \<and> is_space (hd r) then after_words (v # ws) (lstrip r) else None)"

definition rec_map :: "(string list \<times> string) list" where
  "rec_map =
     [([''true'', ''positive''], ''true_positive''), ([''false'', ''positive''], ''false_positive''),
      ([''benign''], ''benign''), ([''inconclusive''], ''inconclusive'')]"

definition rec_at :: "string \<Rightarrow> string option" where
  "rec_at s =
     (case after_ci ''**'' s of
        None \<Rightarrow> None
      | Some s1 \<Rightarrow>
          (case after_ci ''recommendation:'' (lstrip s1) of
             None \<Rightarrow> None
           | Some s2 \<Rightarrow>
               map_option snd
                 (find (\<lambda>(ws, _). case after_words ws (lstrip s2) of
                                    None \<Rightarrow> False | Some r \<Rightarrow> prefix ''**'' (lstrip r)) rec_map)))"

definition conf_at :: "string \<Rightarrow> string option" where
  "conf_at s =
     (case after_ci ''confidence:'' s of
        None \<Rightarrow> None
      | Some r \<Rightarrow>
          find (\<lambda>w. after_ci w (lstrip (dropWhile (\<lambda>c. c = CHR ''*'') (lstrip r))) \<noteq> None)
            [''high'', ''medium'', ''low''])"

definition is_word :: "char \<Rightarrow> bool" where
  "is_word c \<longleftrightarrow> is_digit c \<or> (65 \<le> char_code c \<and> char_code c \<le> 90) \<or>
     (97 \<le> char_code c \<and> char_code c \<le> 122) \<or> c = CHR ''_''"

definition boundary :: "string \<Rightarrow> bool" where
  "boundary s \<longleftrightarrow> s = [] \<or> \<not> is_word (hd s)"

definition digits_at :: "nat \<Rightarrow> string \<Rightarrow> bool" where
  "digits_at n s \<longleftrightarrow> n \<le> length s \<and> list_all is_digit (take n s)"

definition mitre_length :: "string \<Rightarrow> nat option" where
  "mitre_length s =
     (if prefix ''T'' s \<and> digits_at 4 (drop 1 s) then
        (let r = drop 5 s
         in if prefix ''.'' r \<and> digits_at 3 (drop 1 r) \<and> boundary (drop 4 r) then Some 9
            else if boundary r then Some 5 else None)
      else None)"

function mitre_findall :: "bool \<Rightarrow> string \<Rightarrow> string list" where
  "mitre_findall bnd [] = []"
| "mitre_findall bnd (c # cs) =
     (case (if bnd then mitre_length (c # cs) else None) of
        Some n \<Rightarrow> take (Suc (n - 1)) (c # cs) # mitre_findall False (drop (n - 1) cs)
      | None \<Rightarrow> mitre_findall (\<not> is_word c) cs)"
  by pat_completeness auto
termination
  by (relation "measure (\<lambda>(_, s). length s)") auto

definition recover_analysis_verdict :: "string option \<Rightarrow> analysis_verdict option" where
  "recover_analysis_verdict text =
     (case text of
        None \<Rightarrow> None
      | Some t \<Rightarrow>
          (case re_search rec_at t of
             None \<Rightarrow> None
           | Some v \<Rightarrow>
               Some (default_analysis
                 \<lparr>av_verdict := v,
                  av_confidence := (case re_search conf_at t of None \<Rightarrow> ''low'' | Some c \<Rightarrow> c),
                  av_mitre := sort (remdups (mitre_findall True t)),
                  av_reasoning := ''Recovered from the markdown report header (the verdict JSON block '' @
                    ''was missing or truncated).''\<rparr>)))"

definition parse_analysis_verdict ::
  "json_loads \<Rightarrow> ((string \<times> pyval) list \<Rightarrow> analysis_verdict option) \<Rightarrow> string option
     \<Rightarrow> analysis_verdict option" where
  "parse_analysis_verdict loads validate text =
     (case parse_into loads validate text of
        Some v \<Rightarrow> Some v | None \<Rightarrow> recover_analysis_verdict text)"

section \<open>Budget\<close>

datatype cap_reason = Daily_Cap | Incident_Cap

definition cap_reason :: "rat \<Rightarrow> rat \<Rightarrow> rat \<Rightarrow> rat \<Rightarrow> cap_reason option" where
  "cap_reason spent_today spent_incident daily_cap incident_cap =
     (if 0 < daily_cap \<and> daily_cap \<le> spent_today then Some Daily_Cap
      else if 0 < incident_cap \<and> incident_cap \<le> spent_incident then Some Incident_Cap
      else None)"

record llm_call =
  lc_incident_id :: "uid option"
  lc_cost :: rat
  lc_created_at :: instant

definition day_start :: "instant \<Rightarrow> instant" where
  "day_start now = now - now mod 86400000000"

definition over_budget :: "rat \<Rightarrow> rat \<Rightarrow> instant \<Rightarrow> llm_call list \<Rightarrow> uid \<Rightarrow> cap_reason option" where
  "over_budget daily_cap incident_cap now calls incident_id =
     (if daily_cap \<le> 0 \<and> incident_cap \<le> 0 then None
      else
        (let spent_today =
               (if 0 < daily_cap
                then sum_list (map lc_cost (filter (\<lambda>c. day_start now \<le> lc_created_at c) calls)) else 0);
             spent_incident =
               (if 0 < incident_cap
                then sum_list (map lc_cost (filter (\<lambda>c. lc_incident_id c = Some incident_id) calls)) else 0)
         in cap_reason spent_today spent_incident daily_cap incident_cap))"

section \<open>Lemmas\<close>

text \<open>Text whose braces outside string literals are balanced, as every JSON value's are.\<close>

fun string_body :: "string \<Rightarrow> bool" where
  "string_body [] = True"
| "string_body [c] = (c \<noteq> CHR 0x22 \<and> c \<noteq> CHR 0x5C)"
| "string_body (c # d # s) =
     (if c = CHR 0x5C then string_body s else c \<noteq> CHR 0x22 \<and> string_body (d # s))"

inductive nested :: "string \<Rightarrow> bool" where
  nested_Nil: "nested []"
| nested_char: "c \<notin> {CHR 0x22, CHR ''{'', CHR ''}''} \<Longrightarrow> nested s \<Longrightarrow> nested (c # s)"
| nested_string: "string_body b \<Longrightarrow> nested s \<Longrightarrow> nested (CHR 0x22 # b @ CHR 0x22 # s)"
| nested_object: "nested a \<Longrightarrow> nested b \<Longrightarrow> nested (CHR ''{'' # a @ CHR ''}'' # b)"

lemma scan_string:
  "string_body b \<Longrightarrow>
   scan_object depth True False (b @ CHR 0x22 # s) =
     map_option ((@) (b @ [CHR 0x22])) (scan_object depth False False s)"
  by (cases "scan_object depth False False s"; induction b rule: string_body.induct) simp_all

lemma scan_nested:
  "nested a \<Longrightarrow>
   scan_object (Suc depth) False False (a @ s) = map_option ((@) a) (scan_object (Suc depth) False False s)"
proof (induction a arbitrary: depth s rule: nested.induct)
  case nested_Nil
  show ?case by (cases "scan_object (Suc depth) False False s") simp_all
next
  case (nested_char c a)
  then show ?case by (auto simp: option.map_comp comp_def)
next
  case (nested_string b a)
  then show ?case
    using scan_string[of b "Suc depth" "a @ s"] by (simp add: option.map_comp comp_def)
next
  case (nested_object a b)
  show ?case
    using nested_object.IH(1)[of "Suc depth" "CHR ''}'' # b @ s"] nested_object.IH(2)[of depth s]
    by (simp add: option.map_comp comp_def)
qed

lemma balanced_object_nested:
  assumes "nested a" "CHR ''{'' \<notin> set pre"
  shows "balanced_object (pre @ CHR ''{'' # a @ CHR ''}'' # post) = Some (CHR ''{'' # a @ [CHR ''}''])"
proof -
  have "dropWhile (\<lambda>c. c \<noteq> CHR ''{'') (pre @ CHR ''{'' # a @ CHR ''}'' # post) = CHR ''{'' # a @ CHR ''}'' # post"
    using assms(2) by (subst dropWhile_append2) auto
  then show ?thesis
    using scan_nested[OF assms(1), of 0 "CHR ''}'' # post"] by (simp add: balanced_object_def)
qed

lemma scan_prefix: "scan_object d i e s = Some t \<Longrightarrow> prefix t s"
proof (induction d i e s arbitrary: t rule: scan_object.induct)
  case (2 d i e c s)
  from "2.prems" show ?case
    by (auto split: if_splits dest: "2.IH")
qed simp

lemma balanced_object_sublist: "balanced_object s = Some t \<Longrightarrow> sublist t s"
proof -
  assume "balanced_object s = Some t"
  then have "prefix t (dropWhile (\<lambda>c. c \<noteq> CHR ''{'') s)" by (simp add: balanced_object_def scan_prefix)
  then obtain v where "dropWhile (\<lambda>c. c \<noteq> CHR ''{'') s = t @ v" by (auto simp: prefix_def)
  moreover obtain u where "s = u @ dropWhile (\<lambda>c. c \<noteq> CHR ''{'') s" using dropWhile_suffix by blast
  ultimately have "s = u @ t @ v" by simp
  then show ?thesis by (auto simp: sublist_def)
qed

lemma close_fence_split: "close_fence s = Some (b, r) \<Longrightarrow> \<exists>u. s = b @ u @ r"
proof (induction s arbitrary: b)
  case (Cons c cs)
  obtain w where w: "cs = w @ lstrip cs" unfolding lstrip_def using dropWhile_suffix by blast
  show ?case
  proof (cases "c = CHR ''}'' \<and> prefix ''```'' (lstrip cs)")
    case True
    with Cons.prems have "b = [c]" "r = drop 3 (lstrip cs)" by auto
    moreover have "cs = w @ take 3 (lstrip cs) @ drop 3 (lstrip cs)" using w by simp
    ultimately show ?thesis by (metis append.assoc append_Cons append_Nil)
  next
    case False
    with Cons.prems obtain b' where "close_fence cs = Some (b', r)" "b = c # b'" by (auto split: if_splits)
    with Cons.IH show ?thesis by fastforce
  qed
qed simp

lemma fence_at_split: "fence_at s = Some (b, r) \<Longrightarrow> \<exists>u v. s = u @ b @ v @ r"
  using fence_at_Some close_fence_split by (metis append_Cons)

lemma fence_findall_sublist: "b \<in> set (fence_findall s) \<Longrightarrow> sublist b s"
proof (induction s rule: fence_findall.induct)
  case (1 s)
  show ?case
  proof (cases "fence_at s")
    case None
    show ?thesis
    proof (cases s)
      case Nil
      with None "1.prems" show ?thesis by (simp add: fence_findall.simps[of "[]"])
    next
      case (Cons c cs)
      with None "1.prems" have "b \<in> set (fence_findall cs)" by (simp add: fence_findall.simps[of "c # cs"])
      with "1.IH"(1)[OF None Cons] show ?thesis by (simp add: Cons sublist_Cons_right)
    qed
  next
    case (Some br)
    then obtain b' r where br: "fence_at s = Some (b', r)" by (cases br) auto
    from fence_at_split[OF br] obtain u v where s: "s = u @ b' @ v @ r" by blast
    from "1.prems" br consider "b = b'" | "b \<in> set (fence_findall r)"
      by (auto simp: fence_findall.simps[of s])
    then show ?thesis
    proof cases
      case 1
      with s show ?thesis by (auto simp: sublist_def)
    next
      case 2
      with "1.IH"(2)[OF br refl] have "sublist b r" by simp
      then have "sublist b ((u @ b' @ v) @ r @ [])" by (metis append_Nil2 sublist_appendI sublist_order.order_trans)
      with s show ?thesis by simp
    qed
  qed
qed

lemma fence_findall_none: "\<not> contains ''```'' s \<Longrightarrow> fence_findall s = []"
proof (induction s)
  case (Cons c s)
  then have "fence_at (c # s) = None" by (auto simp: fence_at_def)
  with Cons show ?case by (subst fence_findall.simps) simp
qed (simp add: fence_findall.simps[of "[]"] fence_at_def)

lemma first_dict_Some:
  "first_dict loads cands = Some d \<Longrightarrow> \<exists>c \<in> set cands. loads c = Some (PyDict d)"
  by (induction cands) (auto simp: as_dict_def split: option.splits pyval.splits)

subsection \<open>The report header\<close>

text \<open>The header line the report template asks for, and what each of its words stands for.\<close>

definition verdict_words :: "(string \<times> string) list" where
  "verdict_words =
     [(''TRUE POSITIVE'', ''true_positive''), (''FALSE POSITIVE'', ''false_positive''),
      (''BENIGN'', ''benign''), (''INCONCLUSIVE'', ''inconclusive'')]"

definition confidence_words :: "(string \<times> string) list" where
  "confidence_words = [(''HIGH'', ''high''), (''MEDIUM'', ''medium''), (''LOW'', ''low'')]"

definition header_line :: "string \<Rightarrow> string \<Rightarrow> string" where
  "header_line v c = ''**Recommendation: '' @ v @ ''** | Confidence: '' @ c"

lemma prefix_before:
  "prefix p (w @ y # z) \<Longrightarrow> y \<notin> set p \<Longrightarrow> prefix p w"
  by (auto simp: prefix_append prefix_Cons)

lemma after_ci_append: "lower p = lower q \<Longrightarrow> after_ci p (q @ s) = Some s"
  by (metis after_ci_def append_eq_conv_conj length_lower lower_append prefixI)

lemma after_ci_differs:
  "lower_char a \<noteq> lower_char b \<Longrightarrow> after_ci (a # p) (b # s) = None"
  by (simp add: after_ci_def lower_def)

lemma search_skip:
  assumes "\<And>v w. u = v @ w \<Longrightarrow> w \<noteq> [] \<Longrightarrow> m (w @ s) = None"
  shows "re_search m (u @ s) = re_search m s"
  using assms
proof (induction u)
  case (Cons c u)
  have "m ((c # u) @ s) = None" using Cons.prems[of "[]"] by simp
  moreover have "re_search m (u @ s) = re_search m s"
    using Cons.IH Cons.prems by (metis append_Cons)
  ultimately show ?case by simp
qed simp

lemma conf_skip:
  assumes "\<not> contains ''confidence:'' (lower u)" "lower_char x \<notin> set ''confidence:''"
  shows "re_search conf_at (u @ x # s) = re_search conf_at s"
proof -
  have l: "lower ''confidence:'' = ''confidence:''" by code_simp
  have none: "after_ci ''confidence:'' (w @ x # s) = None" if "u = v @ w" for v w
  proof -
    have "\<not> prefix ''confidence:'' (lower w)"
    proof
      assume "prefix ''confidence:'' (lower w)"
      then obtain z where "lower w = ''confidence:'' @ z" by (elim prefixE)
      then have "lower u = lower v @ ''confidence:'' @ z" by (simp only: that lower_append)
      with assms(1) show False by (simp only: contains_iff_sublist sublist_appendI) simp
    qed
    then have "\<not> prefix ''confidence:'' (lower w @ lower_char x # lower s)"
      by (rule contrapos_nn) (rule prefix_before[OF _ assms(2)])
    moreover have "lower (w @ x # s) = lower w @ lower_char x # lower s" by (simp add: lower_def)
    ultimately show ?thesis by (simp only: after_ci_def l if_False)
  qed
  then have "re_search conf_at (u @ x # s) = re_search conf_at (x # s)"
    by (intro search_skip) (simp add: conf_at_def)
  also have "\<dots> = re_search conf_at s"
    using none[of u "[]"] by (simp add: conf_at_def)
  finally show ?thesis .
qed

lemma lower_char_star: "lower_char a = CHR ''*'' \<longleftrightarrow> a = CHR ''*''"
proof
  assume "lower_char a = CHR ''*''"
  then show "a = CHR ''*''"
    by (auto simp: lower_char_def char_code_def split: if_splits dest: arg_cong[where f = char_code])
next
  assume "a = CHR ''*''"
  moreover have "lower_char (CHR ''*'') = CHR ''*''" by code_simp
  ultimately show "lower_char a = CHR ''*''" by (simp only:)
qed

lemma after_stars: "after_ci ''**'' s = Some r \<longleftrightarrow> s = ''**'' @ r"
proof -
  have star: "lower ''**'' = ''**''" by code_simp
  have "prefix ''**'' (lower s) \<longleftrightarrow> prefix ''**'' s"
    using lower_char_star by (cases s; cases "tl s") (auto simp: lower_def eq_commute[of "CHR ''*''"])
  then show ?thesis by (auto simp only: after_ci_def star prefix_def split: if_splits) (auto simp: prefix_def)
qed

lemma star_not_recommendation: "after_ci ''recommendation:'' (lstrip (CHR ''*'' # s)) = None"
proof -
  have "lstrip (CHR ''*'' # s) = CHR ''*'' # s" by (simp add: lstrip_def is_space_def char_code_def)
  moreover have "lower_char (CHR ''r'') \<noteq> lower_char (CHR ''*'')" by code_simp
  ultimately show ?thesis by (simp only:) (rule after_ci_differs)
qed

lemma rec_skip:
  assumes "\<not> contains ''**'' u"
  shows "re_search rec_at (u @ ''**'' @ s) = re_search rec_at (''**'' @ s)"
proof (rule search_skip)
  fix v w :: string assume u: "u = v @ w" and "w \<noteq> []"
  show "rec_at (w @ ''**'' @ s) = None"
  proof (cases "after_ci ''**'' (w @ ''**'' @ s)")
    case None
    then show ?thesis by (simp add: rec_at_def)
  next
    case (Some r)
    then have r: "w @ ''**'' @ s = ''**'' @ r" by (simp only: after_stars)
    have "tl w = []"
    proof (rule ccontr)
      assume "tl w \<noteq> []"
      with r \<open>w \<noteq> []\<close> obtain ws where "w = ''**'' @ ws" by (cases w; cases "tl w") auto
      with u have "u = v @ ''**'' @ ws" by simp
      then have "contains ''**'' u" by (simp only: contains_iff_sublist sublist_appendI)
      with assms show False ..
    qed
    with r \<open>w \<noteq> []\<close> have "r = CHR ''*'' # s" by (cases w) auto
    with Some show ?thesis by (simp only: rec_at_def option.case star_not_recommendation)
  qed
qed

lemma header_words:
  "lower ''recommendation:'' = lower ''Recommendation:''" "lower ''confidence:'' = lower ''Confidence:''"
  "lower ''**'' = lower ''**''"
  by code_simp+

lemma lstrip_space [simp]: "lstrip (CHR '' '' # s) = lstrip s"
  by (simp add: lstrip_def is_space_def char_code_def)

lemma lower_letters:
  "lower_char (CHR ''A'') = CHR ''a''" "lower_char (CHR ''B'') = CHR ''b''"
  "lower_char (CHR ''C'') = CHR ''c''" "lower_char (CHR ''D'') = CHR ''d''"
  "lower_char (CHR ''E'') = CHR ''e''" "lower_char (CHR ''F'') = CHR ''f''"
  "lower_char (CHR ''G'') = CHR ''g''" "lower_char (CHR ''H'') = CHR ''h''"
  "lower_char (CHR ''I'') = CHR ''i''" "lower_char (CHR ''L'') = CHR ''l''"
  "lower_char (CHR ''M'') = CHR ''m''" "lower_char (CHR ''N'') = CHR ''n''"
  "lower_char (CHR ''O'') = CHR ''o''" "lower_char (CHR ''P'') = CHR ''p''"
  "lower_char (CHR ''R'') = CHR ''r''" "lower_char (CHR ''S'') = CHR ''s''"
  "lower_char (CHR ''T'') = CHR ''t''" "lower_char (CHR ''U'') = CHR ''u''"
  "lower_char (CHR ''V'') = CHR ''v''" "lower_char (CHR ''W'') = CHR ''w''"
  "lower_char (CHR ''a'') = CHR ''a''" "lower_char (CHR ''b'') = CHR ''b''"
  "lower_char (CHR ''c'') = CHR ''c''" "lower_char (CHR ''d'') = CHR ''d''"
  "lower_char (CHR ''e'') = CHR ''e''" "lower_char (CHR ''f'') = CHR ''f''"
  "lower_char (CHR ''g'') = CHR ''g''" "lower_char (CHR ''h'') = CHR ''h''"
  "lower_char (CHR ''i'') = CHR ''i''" "lower_char (CHR ''l'') = CHR ''l''"
  "lower_char (CHR ''m'') = CHR ''m''" "lower_char (CHR ''n'') = CHR ''n''"
  "lower_char (CHR ''o'') = CHR ''o''" "lower_char (CHR ''p'') = CHR ''p''"
  "lower_char (CHR ''r'') = CHR ''r''" "lower_char (CHR ''s'') = CHR ''s''"
  "lower_char (CHR ''t'') = CHR ''t''" "lower_char (CHR ''u'') = CHR ''u''"
  "lower_char (CHR ''v'') = CHR ''v''" "lower_char (CHR ''w'') = CHR ''w''"
  by code_simp+

lemma header_not_space:
  "\<not> is_space (CHR ''T'')" "\<not> is_space (CHR ''P'')" "\<not> is_space (CHR ''F'')" "\<not> is_space (CHR ''B'')"
  "\<not> is_space (CHR ''I'')" "\<not> is_space (CHR ''H'')" "\<not> is_space (CHR ''M'')" "\<not> is_space (CHR ''L'')"
  "\<not> is_space (CHR ''*'')"
  by code_simp+

lemma space_is_space: "is_space (CHR '' '')"
  by code_simp

lemmas header_chars = lower_letters header_not_space space_is_space

lemma after_words_hit:
  "after_words [''true'', ''positive''] (lstrip (''TRUE POSITIVE'' @ s)) = Some s"
  "after_words [''false'', ''positive''] (lstrip (''FALSE POSITIVE'' @ s)) = Some s"
  "after_words [''benign''] (lstrip (''BENIGN'' @ s)) = Some s"
  "after_words [''inconclusive''] (lstrip (''INCONCLUSIVE'' @ s)) = Some s"
  by (simp_all add: after_ci_def lower_def lstrip_def header_chars)

lemma after_words_miss:
  "after_words [''true'', ''positive''] (lstrip (''FALSE POSITIVE'' @ s)) = None"
  "after_words [''true'', ''positive''] (lstrip (''BENIGN'' @ s)) = None"
  "after_words [''false'', ''positive''] (lstrip (''BENIGN'' @ s)) = None"
  "after_words [''true'', ''positive''] (lstrip (''INCONCLUSIVE'' @ s)) = None"
  "after_words [''false'', ''positive''] (lstrip (''INCONCLUSIVE'' @ s)) = None"
  "after_words [''benign''] (lstrip (''INCONCLUSIVE'' @ s)) = None"
  by (simp_all add: after_ci_def lower_def lstrip_def header_chars)

lemma prefix_stars: "prefix ''**'' (lstrip (''**'' @ s))"
  by (simp add: lstrip_def header_chars)

lemma rec_at_header:
  assumes "(v, x) \<in> set verdict_words"
  shows "rec_at (''**'' @ ''Recommendation: '' @ v @ ''**'' @ s) = Some x"
proof -
  have s1: "after_ci ''**'' (''**'' @ r) = Some r" for r by (rule after_ci_append) (rule refl)
  have s2: "after_ci ''recommendation:'' (''Recommendation:'' @ r) = Some r" for r
    by (rule after_ci_append) code_simp
  have l: "lstrip (''Recommendation:'' @ r) = ''Recommendation:'' @ r" for r
    by (simp add: lstrip_def is_space_def char_code_def)
  have "''Recommendation: '' @ v @ ''**'' @ s = ''Recommendation:'' @ CHR '' '' # v @ ''**'' @ s" by simp
  then have "rec_at (''**'' @ ''Recommendation: '' @ v @ ''**'' @ s) =
        map_option snd (find (\<lambda>(ws, _). case after_words ws (lstrip (v @ ''**'' @ s)) of
                                    None \<Rightarrow> False | Some r \<Rightarrow> prefix ''**'' (lstrip r)) rec_map)"
    by (simp only: rec_at_def s1 s2 l option.case lstrip_space)
  moreover consider "v = ''TRUE POSITIVE''" "x = ''true_positive''" | "v = ''FALSE POSITIVE''" "x = ''false_positive''"
    | "v = ''BENIGN''" "x = ''benign''" | "v = ''INCONCLUSIVE''" "x = ''inconclusive''"
    using assms unfolding verdict_words_def list.set insert_iff empty_iff prod.inject
    by (elim disjE conjE) ((erule (1) that | erule FalseE)+)
  then have "map_option snd (find (\<lambda>(ws, _). case after_words ws (lstrip (v @ ''**'' @ s)) of
                    None \<Rightarrow> False | Some r \<Rightarrow> prefix ''**'' (lstrip r)) rec_map) = Some x"
    by cases (simp_all only: rec_map_def find.simps prod.case after_words_hit after_words_miss option.case
        prefix_stars if_True if_False option.map snd_conv)
  ultimately show ?thesis by (simp only:)
qed

lemma conf_at_header:
  assumes "(c, x) \<in> set confidence_words"
  shows "conf_at (''Confidence: '' @ c @ s) = Some x"
proof -
  have s1: "after_ci ''confidence:'' (''Confidence:'' @ r) = Some r" for r
    by (rule after_ci_append) code_simp
  have "''Confidence: '' @ c @ s = ''Confidence:'' @ CHR '' '' # c @ s" by simp
  then have "conf_at (''Confidence: '' @ c @ s) =
      find (\<lambda>w. after_ci w (lstrip (dropWhile (\<lambda>c. c = CHR ''*'') (lstrip (c @ s)))) \<noteq> None)
        [''high'', ''medium'', ''low'']"
    by (simp only: conf_at_def s1 option.case lstrip_space)
  moreover consider "c = ''HIGH''" "x = ''high''" | "c = ''MEDIUM''" "x = ''medium''" | "c = ''LOW''" "x = ''low''"
    using assms unfolding confidence_words_def list.set insert_iff empty_iff prod.inject
    by (elim disjE conjE) ((erule (1) that | erule FalseE)+)
  then have "find (\<lambda>w. after_ci w (lstrip (dropWhile (\<lambda>c. c = CHR ''*'') (lstrip (c @ s)))) \<noteq> None)
        [''high'', ''medium'', ''low''] = Some x"
    by cases (simp_all add: after_ci_def lower_def lstrip_def header_chars)
  ultimately show ?thesis by (simp only:)
qed

lemma conf_skip_header:
  assumes "(v, x) \<in> set verdict_words"
  shows "re_search conf_at (''*Recommendation: '' @ v @ ''** | '' @ s) = re_search conf_at s"
proof -
  have c: "\<not> contains ''confidence:'' (lower (''*Recommendation: '' @ v @ ''** |''))"
    using assms unfolding verdict_words_def list.set insert_iff empty_iff prod.inject
    by (elim disjE conjE; simp only:) code_simp+
  have b: "lower_char (CHR '' '') \<notin> set ''confidence:''" by code_simp
  have "''*Recommendation: '' @ v @ ''** | '' @ s = (''*Recommendation: '' @ v @ ''** |'') @ CHR '' '' # s"
    by simp
  then show ?thesis by (simp only: conf_skip[OF c b])
qed

section \<open>Properties\<close>

text \<open>The object in an answer is found as it was written: what is decoded is always a piece of the
  answer, and where the answer has no fence and a JSON object after brace-free prose, exactly that
  object is decoded, whatever strings it holds and whatever follows.\<close>

theorem json_object_is_extracted:
  "(\<forall>text d. parse_json_block loads (Some text) = Some d \<longrightarrow>
      (\<exists>s. sublist s text \<and> loads s = Some (PyDict d)))
 \<and> (\<forall>pre body post. nested body \<and> CHR ''{'' \<notin> set pre \<and>
      \<not> contains ''```'' (pre @ CHR ''{'' # body @ CHR ''}'' # post) \<longrightarrow>
      parse_json_block loads (Some (pre @ CHR ''{'' # body @ CHR ''}'' # post)) =
        as_dict (loads (CHR ''{'' # body @ [CHR ''}''])))"
proof (intro conjI allI impI)
  fix t d assume p: "parse_json_block loads (Some t) = Some d"
  then have "first_dict loads (rev (fence_findall t) @
      (case balanced_object t of None \<Rightarrow> [] | Some b \<Rightarrow> [b])) = Some d"
    by (simp add: parse_json_block_def split: if_splits)
  from first_dict_Some[OF this] obtain s where
    s: "s \<in> set (rev (fence_findall t) @ (case balanced_object t of None \<Rightarrow> [] | Some b \<Rightarrow> [b]))"
    and "loads s = Some (PyDict d)" ..
  moreover from s have "s \<in> set (fence_findall t) \<or> balanced_object t = Some s"
    by (cases "balanced_object t") auto
  ultimately have "\<exists>s. (s \<in> set (fence_findall t) \<or> balanced_object t = Some s) \<and> loads s = Some (PyDict d)"
    by blast
  then show "\<exists>s. sublist s t \<and> loads s = Some (PyDict d)"
    using fence_findall_sublist balanced_object_sublist by blast
next
  fix pre body post :: string
  assume "nested body \<and> CHR ''{'' \<notin> set pre \<and> \<not> contains ''```'' (pre @ CHR ''{'' # body @ CHR ''}'' # post)"
  then show "parse_json_block loads (Some (pre @ CHR ''{'' # body @ CHR ''}'' # post)) =
        as_dict (loads (CHR ''{'' # body @ [CHR ''}'']))"
    by (simp add: parse_json_block_def balanced_object_nested fence_findall_none split: option.split)
qed

text \<open>C26. A report cut off before its JSON block keeps its verdict: the header line the template asks
  for is read back as the verdict and confidence it was written for, after any preamble without bold
  text and a confidence line, whatever follows.\<close>

theorem report_header_is_recovered:
  assumes "(v, verdict) \<in> set verdict_words" "(c, conf) \<in> set confidence_words"
    and "\<not> contains ''**'' pre" "\<not> contains ''confidence:'' (lower pre)"
    and whole: "text = pre @ header_line v c @ post"
    and "parse_into loads validate (Some text) = None"
  shows "\<exists>av. parse_analysis_verdict loads validate (Some text) = Some av \<and>
              av_verdict av = verdict \<and> av_confidence av = conf"
proof -
  have split1: "text = pre @ ''**'' @ (''Recommendation: '' @ v @ ''**'' @ '' | Confidence: '' @ c @ post)"
    and split2: "text = pre @ CHR ''*'' # (''*Recommendation: '' @ v @ ''** | '' @ (''Confidence: '' @ c @ post))"
    by (simp_all add: whole header_line_def)
  have star: "lower_char (CHR ''*'') \<notin> set ''confidence:''" by code_simp
  have "re_search rec_at (''**'' @ (''Recommendation: '' @ v @ ''**'' @ '' | Confidence: '' @ c @ post)) = Some verdict"
    using rec_at_header[OF assms(1)] by simp
  then have "re_search rec_at text = Some verdict"
    by (simp only: split1 rec_skip[OF assms(3)])
  moreover have "re_search conf_at (''Confidence: '' @ c @ post) = Some conf"
    using conf_at_header[OF assms(2), of post] by simp
  then have "re_search conf_at text = Some conf"
    by (simp only: split2 conf_skip[OF assms(4) star] conf_skip_header[OF assms(1)])
  ultimately show ?thesis
    using assms(6) by (simp add: parse_analysis_verdict_def recover_analysis_verdict_def)
qed

section \<open>Witnesses\<close>

definition example_loads :: json_loads where
  "example_loads s =
     (if s = ''{'' @ [CHR 0x22] @ ''a}'' @ [CHR 0x22] @ '':1}'' then Some (PyDict [(''a}'', PyInt 1)]) else None)"

lemma json_object_is_extracted_witness:
  "parse_json_block example_loads
     (Some (''So: '' @ CHR ''{'' # (CHR 0x22 # ''a}'' @ CHR 0x22 # '':1'') @ CHR ''}'' # '' done'')) =
   Some [(''a}'', PyInt 1)]"
proof -
  have n: "nested (CHR 0x22 # ''a}'' @ CHR 0x22 # '':1'')"
    by (rule nested_string) (auto intro!: nested_char nested_Nil)
  have f: "CHR ''{'' \<notin> set ''So: ''"
    "\<not> contains ''```'' (''So: '' @ CHR ''{'' # (CHR 0x22 # ''a}'' @ CHR 0x22 # '':1'') @ CHR ''}'' # '' done'')"
    by code_simp+
  have v: "as_dict (example_loads (CHR ''{'' # (CHR 0x22 # ''a}'' @ CHR 0x22 # '':1'') @ [CHR ''}''])) =
      Some [(''a}'', PyInt 1)]"
    by (simp add: example_loads_def as_dict_def)
  show ?thesis
    unfolding v[symmetric] by (rule json_object_is_extracted[THEN conjunct2, rule_format]) (use n f in blast)
qed

lemma report_header_is_recovered_witness:
  "\<exists>av. parse_analysis_verdict example_loads (\<lambda>_. None)
          (Some (''## Alert '' @ header_line ''FALSE POSITIVE'' ''HIGH'' @ '' cut'')) = Some av \<and>
        av_verdict av = ''false_positive'' \<and> av_confidence av = ''high''"
proof (rule report_header_is_recovered[OF _ _ _ _ refl])
  show "(''FALSE POSITIVE'', ''false_positive'') \<in> set verdict_words" "(''HIGH'', ''high'') \<in> set confidence_words"
    by (simp_all add: verdict_words_def confidence_words_def)
  show "\<not> contains ''**'' ''## Alert ''" "\<not> contains ''confidence:'' (lower ''## Alert '')"
    by code_simp+
  show "parse_into example_loads (\<lambda>_. None :: analysis_verdict option)
      (Some (''## Alert '' @ header_line ''FALSE POSITIVE'' ''HIGH'' @ '' cut'')) = None"
    by (simp add: parse_into_def)
qed

end
