(* ===== verification/Guardrails.thy ===== *)
theory Guardrails
  imports Incident Request_System
begin

text \<open>
  The autonomy guardrails: \<open>pipeline/guardrails.py\<close> (the recommendation attached to each proposed
  action, the layered policy and its display), the policy routes of \<open>routes/autonomy.py\<close> and the
  boot-time seeding of \<open>db/autonomy_backfill.py\<close>. Confidence floors are rationals. An entry of the
  YAML policy is a mapping of the documented keys, each present or not; the file itself is an
  argument (\<open>None\<close> where reading or parsing it fails, which the code turns into an empty policy); a
  kind whose mapping is empty is absent from it.
  The reason text of a recommendation is not modelled.
\<close>

section \<open>The taxonomy\<close>

definition blast_radii :: "(string \<times> string) list" where
  "blast_radii =
     [(''blocklist_ioc'', ''high''), (''isolate_host'', ''critical''), (''disable_user'', ''critical''),
      (''scan_endpoint'', ''med''), (''collect_file'', ''med''), (''tag'', ''read''), (''enrich'', ''read''),
      (''lookup'', ''read''), (''search'', ''read''), (''close_alert'', ''low'')]"

definition default_blast_radius :: string where
  "default_blast_radius = ''high''"

definition effect_kinds :: "string set" where
  "effect_kinds =
     {''blocklist_ioc'', ''isolate_host'', ''disable_user'', ''scan_endpoint'', ''collect_file''}"

definition known_kinds :: "string list" where
  "known_kinds = map fst blast_radii"

record ladder =
  ld_auto :: rat
  ld_review :: rat
  ld_escalation :: rat

definition default_thresholds :: "(string \<times> ladder) list" where
  "default_thresholds =
     [(''read'', \<lparr>ld_auto = 0, ld_review = 0, ld_escalation = 0\<rparr>),
      (''low'', \<lparr>ld_auto = 60/100, ld_review = 30/100, ld_escalation = 0\<rparr>),
      (''med'', \<lparr>ld_auto = 90/100, ld_review = 50/100, ld_escalation = 0\<rparr>),
      (''high'', \<lparr>ld_auto = 101/100, ld_review = 60/100, ld_escalation = 0\<rparr>),
      (''critical'', \<lparr>ld_auto = 101/100, ld_review = 80/100, ld_escalation = 0\<rparr>)]"

definition high_ladder :: ladder where
  "high_ladder = \<lparr>ld_auto = 101/100, ld_review = 60/100, ld_escalation = 0\<rparr>"

record policy_entry =
  pe_blast_radius :: "string option"
  pe_auto :: "rat option"
  pe_review :: "rat option"
  pe_escalation :: "rat option"
  pe_reason :: "string option"

type_synonym policy = "string \<Rightarrow> policy_entry option"

section \<open>The recommendation\<close>

definition confidence_to_score :: "string \<Rightarrow> rat" where
  "confidence_to_score c =
     (case map_of [(''high'', 90/100), (''medium'', 60/100), (''low'', 30/100)] (lower c) of
        None \<Rightarrow> 30/100 | Some s \<Rightarrow> s)"

definition code_blast_radius :: "string \<Rightarrow> string" where
  "code_blast_radius kind =
     (case map_of blast_radii kind of None \<Rightarrow> default_blast_radius | Some br \<Rightarrow> br)"

definition classify_action :: "string \<Rightarrow> policy \<Rightarrow> string" where
  "classify_action kind p =
     (case p kind of
        None \<Rightarrow> code_blast_radius kind
      | Some pa \<Rightarrow>
          if truthy_str (pe_blast_radius pa) then the (pe_blast_radius pa) else code_blast_radius kind)"

definition code_ladder :: "string \<Rightarrow> ladder" where
  "code_ladder br = (case map_of default_thresholds br of None \<Rightarrow> high_ladder | Some l \<Rightarrow> l)"

definition entry_ladder :: "policy_entry \<Rightarrow> ladder option" where
  "entry_ladder pa =
     (case (pe_auto pa, pe_review pa, pe_escalation pa) of
        (Some a, Some r, Some e) \<Rightarrow> Some \<lparr>ld_auto = a, ld_review = r, ld_escalation = e\<rparr>
      | _ \<Rightarrow> None)"

definition thresholds_for :: "string \<Rightarrow> string \<Rightarrow> policy \<Rightarrow> ladder" where
  "thresholds_for kind br p =
     (case Option.bind (p kind) entry_ladder of None \<Rightarrow> code_ladder br | Some l \<Rightarrow> l)"

definition on_ladder :: "rat \<Rightarrow> ladder \<Rightarrow> autonomy_decision" where
  "on_ladder score l =
     (if ld_auto l \<le> score then Auto else if ld_review l \<le> score then Review else Escalate)"

definition recommend :: "string \<Rightarrow> string \<Rightarrow> policy \<Rightarrow> string \<times> autonomy_decision" where
  "recommend kind conf p =
     (let br = classify_action kind p;
          decision = on_ladder (confidence_to_score conf) (thresholds_for kind br p)
      in (br, if kind \<in> effect_kinds then Escalate else decision))"

definition apply_guardrails :: "proposed_action list \<Rightarrow> string \<Rightarrow> policy \<Rightarrow> proposed_action list" where
  "apply_guardrails actions conf p =
     map (\<lambda>a. let (br, au) = recommend (opt_str (pa_kind a)) conf p
              in a\<lparr>pa_blast_radius := Some br, pa_autonomy := Some au\<rparr>) actions"

section \<open>The policy table\<close>

record autonomy_row =
  at_id :: uid
  at_kind :: string
  at_tenant :: "uid option"
  at_blast :: string
  at_auto :: rat
  at_review :: rat
  at_escalation :: rat
  at_source :: string
  at_reason :: "string option"
  at_updated_by :: "uid option"

record policy_db =
  pd_rows :: "autonomy_row list"
  pd_audit :: "audit_entry list"

text \<open>\<open>load_policy\<close>: YAML below the global rows below the tenant's rows, a later layer replacing the
  whole entry of a kind. \<open>rows\<close> is what the query gave, or the exception it raised.\<close>

definition entry_of_row :: "autonomy_row \<Rightarrow> policy_entry" where
  "entry_of_row r =
     \<lparr>pe_blast_radius = Some (at_blast r), pe_auto = Some (at_auto r), pe_review = Some (at_review r),
      pe_escalation = Some (at_escalation r), pe_reason = None\<rparr>"

definition load_yaml_policy :: "policy option \<Rightarrow> policy" where
  "load_yaml_policy file = (case file of None \<Rightarrow> Map.empty | Some p \<Rightarrow> p)"

definition load_policy :: "policy option \<Rightarrow> py_exc + autonomy_row list \<Rightarrow> uid option \<Rightarrow> policy" where
  "load_policy file rows tenant_id =
     (case rows of
        Inl _ \<Rightarrow> load_yaml_policy file
      | Inr rs \<Rightarrow>
          (let sel = filter (\<lambda>r. at_tenant r = None \<or> at_tenant r = tenant_id) rs;
               ordered = sort_key (\<lambda>r. of_bool (at_tenant r \<noteq> None) :: nat) sel
           in foldl (\<lambda>p r. p(at_kind r \<mapsto> entry_of_row r)) (load_yaml_policy file) ordered))"

text \<open>\<open>build_effective_policy\<close>: the editor's view of each known kind, layer by layer, field by field.\<close>

record policy_view =
  pv_blast :: string
  pv_auto :: rat
  pv_review :: rat
  pv_escalation :: rat
  pv_source :: string
  pv_reason :: "string option"
  pv_is_effect :: bool

definition or_else :: "'a option \<Rightarrow> 'a \<Rightarrow> 'a" where
  "or_else x d = (case x of None \<Rightarrow> d | Some y \<Rightarrow> y)"

definition overlay :: "policy_entry \<Rightarrow> string \<Rightarrow> policy_view \<Rightarrow> policy_view" where
  "overlay ov src eff =
     eff\<lparr>pv_blast := or_else (pe_blast_radius ov) (pv_blast eff),
         pv_auto := or_else (pe_auto ov) (pv_auto eff),
         pv_review := or_else (pe_review ov) (pv_review eff),
         pv_escalation := or_else (pe_escalation ov) (pv_escalation eff),
         pv_reason := (if pe_reason ov = None then pv_reason eff else pe_reason ov),
         pv_source := src\<rparr>"

definition code_view :: "string \<Rightarrow> policy_view" where
  "code_view kind =
     (let br = code_blast_radius kind; l = code_ladder br
      in \<lparr>pv_blast = br, pv_auto = ld_auto l, pv_review = ld_review l, pv_escalation = ld_escalation l,
          pv_source = ''code'', pv_reason = None, pv_is_effect = (kind \<in> effect_kinds)\<rparr>)"

definition row_override :: "autonomy_row \<Rightarrow> policy_entry" where
  "row_override r = (entry_of_row r)\<lparr>pe_reason := at_reason r\<rparr>"

definition overlay_row :: "string \<Rightarrow> autonomy_row option \<Rightarrow> policy_view \<Rightarrow> policy_view" where
  "overlay_row layer row eff =
     (case row of
        None \<Rightarrow> eff
      | Some r \<Rightarrow> overlay (row_override r) (if at_source r \<noteq> [] then at_source r else layer) eff)"

definition last_row :: "string \<Rightarrow> autonomy_row list \<Rightarrow> autonomy_row option" where
  "last_row kind rows = find (\<lambda>r. at_kind r = kind) (rev rows)"
  \<comment> \<open>\<open>{r["action_kind"]: r for r in rows}.get(kind)\<close>\<close>

definition effective_view ::
  "policy \<Rightarrow> autonomy_row list \<Rightarrow> autonomy_row list \<Rightarrow> string \<Rightarrow> policy_view" where
  "effective_view yaml_map global_rows tenant_rows kind =
     (let eff = code_view kind;
          eff = (case yaml_map kind of None \<Rightarrow> eff | Some ov \<Rightarrow> overlay ov ''yaml'' eff);
          eff = overlay_row ''global'' (last_row kind global_rows) eff
      in overlay_row ''tenant'' (last_row kind tenant_rows) eff)"

definition build_effective_policy ::
  "policy \<Rightarrow> autonomy_row list \<Rightarrow> autonomy_row list \<Rightarrow> (string \<times> policy_view) list" where
  "build_effective_policy yaml_map global_rows tenant_rows =
     map (\<lambda>kind. (kind, effective_view yaml_map global_rows tenant_rows kind)) known_kinds"

section \<open>The routes and the seeding\<close>

definition get_policy ::
  "policy option \<Rightarrow> uid set option \<Rightarrow> policy_db \<Rightarrow> (string \<times> policy_view) list" where
  "get_policy file scope db =
     build_effective_policy (load_yaml_policy file)
       (filter (\<lambda>r. at_tenant r = None) (pd_rows db))
       (case scope of
          None \<Rightarrow> []
        | Some ts \<Rightarrow>
            if card ts = 1 then filter (\<lambda>r. at_tenant r = Some (the_elem ts)) (pd_rows db) else [])"

record policy_in =
  pi_blast_radius :: "string option"
  pi_auto :: rat
  pi_review :: rat
  pi_escalation :: rat
  pi_reason :: "string option"

definition policy_in_valid :: "policy_in \<Rightarrow> bool" where
  "policy_in_valid b \<longleftrightarrow>
     0 \<le> pi_auto b \<and> pi_auto b \<le> 2 \<and> 0 \<le> pi_review b \<and> pi_review b \<le> 2 \<and>
     0 \<le> pi_escalation b \<and> pi_escalation b \<le> 2"

definition is_global :: "string \<Rightarrow> autonomy_row \<Rightarrow> bool" where
  "is_global kind r \<longleftrightarrow> at_kind r = kind \<and> at_tenant r = None"

definition edited_row :: "uid \<Rightarrow> string \<Rightarrow> policy_in \<Rightarrow> user \<Rightarrow> autonomy_row" where
  "edited_row i kind b admin =
     \<lparr>at_id = i, at_kind = kind, at_tenant = None,
      at_blast = (if truthy_str (pi_blast_radius b) then the (pi_blast_radius b) else code_blast_radius kind),
      at_auto = pi_auto b, at_review = pi_review b, at_escalation = pi_escalation b,
      at_source = ''db'', at_reason = pi_reason b, at_updated_by = Some (u_id admin)\<rparr>"

definition log_policy :: "instant \<Rightarrow> user \<Rightarrow> string \<Rightarrow> uid \<Rightarrow> policy_db \<Rightarrow> policy_db" where
  "log_policy now admin action target db =
     db\<lparr>pd_audit := audit_log now (Some (u_id admin)) action (Some target) None (pd_audit db)\<rparr>"

definition set_policy ::
  "instant \<Rightarrow> uid \<Rightarrow> string \<Rightarrow> policy_in \<Rightarrow> user \<Rightarrow> policy_db \<Rightarrow> (policy_db, unit) handled" where
  "set_policy now fresh kind b u db =
     (case require_admin u of
        Inl e \<Rightarrow> (db, Inl e)
      | Inr admin \<Rightarrow>
          if \<not> policy_in_valid b then raise_http db 422
          else if kind \<notin> set known_kinds then raise_http db 400
          else if \<not> (pi_escalation b \<le> pi_review b \<and> pi_review b \<le> pi_auto b) then raise_http db 400
          else
            (case find (is_global kind) (pd_rows db) of
               None \<Rightarrow>
                 if fresh \<in> at_id ` set (pd_rows db) then raise_http db 500
                 else reply (log_policy now admin ''autonomy.policy.set'' fresh
                              (db\<lparr>pd_rows := pd_rows db @ [edited_row fresh kind b admin]\<rparr>)) ()
             | Some r \<Rightarrow>
                 reply (log_policy now admin ''autonomy.policy.set'' (at_id r)
                         (db\<lparr>pd_rows := upd_row at_id (at_id r) (\<lambda>_. edited_row (at_id r) kind b admin)
                               (pd_rows db)\<rparr>)) ()))"

definition reset_policy ::
  "instant \<Rightarrow> string \<Rightarrow> user \<Rightarrow> policy_db \<Rightarrow> (policy_db, unit) handled" where
  "reset_policy now kind u db =
     (case require_admin u of
        Inl e \<Rightarrow> (db, Inl e)
      | Inr admin \<Rightarrow>
          if kind \<notin> set known_kinds then raise_http db 400
          else
            (case find (is_global kind) (pd_rows db) of
               None \<Rightarrow> reply db ()
             | Some r \<Rightarrow>
                 reply (log_policy now admin ''autonomy.policy.reset'' (at_id r)
                         (db\<lparr>pd_rows := del_row at_id (at_id r) (pd_rows db)\<rparr>)) ()))"

text \<open>The seeding of one kind, an insert guarded by \<open>WHERE NOT EXISTS\<close>; \<open>ids\<close> are the generated
  keys.\<close>

definition seeded_row :: "uid \<Rightarrow> string \<Rightarrow> autonomy_row" where
  "seeded_row i kind =
     (let br = code_blast_radius kind; l = code_ladder br
      in \<lparr>at_id = i, at_kind = kind, at_tenant = None, at_blast = br, at_auto = ld_auto l,
          at_review = ld_review l, at_escalation = ld_escalation l, at_source = ''default'',
          at_reason = None, at_updated_by = None\<rparr>)"

definition seed_kind ::
  "(string \<Rightarrow> uid) \<Rightarrow> string \<Rightarrow> autonomy_row list option \<Rightarrow> autonomy_row list option" where
  "seed_kind ids kind st =
     (case st of
        None \<Rightarrow> None
      | Some rows \<Rightarrow>
          if list_ex (is_global kind) rows then Some rows
          else if ids kind \<in> at_id ` set rows then None
          else Some (rows @ [seeded_row (ids kind) kind]))"

definition seed_autonomy_defaults :: "(string \<Rightarrow> uid) \<Rightarrow> policy_db \<Rightarrow> policy_db" where
  "seed_autonomy_defaults ids db =
     (case fold (seed_kind ids) known_kinds (Some (pd_rows db)) of
        None \<Rightarrow> db
      | Some rows \<Rightarrow> db\<lparr>pd_rows := rows\<rparr>)"

text \<open>An inserted key that is already taken violates the primary key: the statement raises and its
  transaction is rolled back (status 500 in the route).\<close>

section \<open>Lemmas: recommendation\<close>

lemma confidence_score_range: "30/100 \<le> confidence_to_score c \<and> confidence_to_score c \<le> 90/100"
  by (auto simp: confidence_to_score_def)

lemma recommend_effect [simp]: "kind \<in> effect_kinds \<Longrightarrow> snd (recommend kind conf p) = Escalate"
  by (simp add: recommend_def Let_def)

lemma recommend_auto:
  "snd (recommend kind conf p) = Auto \<Longrightarrow>
   kind \<notin> effect_kinds \<and>
   ld_auto (thresholds_for kind (classify_action kind p) p) \<le> confidence_to_score conf"
  by (auto simp: recommend_def Let_def on_ladder_def split: if_splits)

lemma high_never_auto:
  "p kind = None \<Longrightarrow> code_blast_radius kind \<in> {''high'', ''critical''} \<Longrightarrow>
   snd (recommend kind conf p) \<noteq> Auto"
  using confidence_score_range[of conf]
  by (auto simp: recommend_def Let_def on_ladder_def thresholds_for_def classify_action_def code_ladder_def
      default_thresholds_def)

section \<open>Lemmas: layers\<close>

lemma insort_key_skip:
  "\<forall>y \<in> set xs. f y < f x \<Longrightarrow> insort_key f x (xs @ ys) = xs @ insort_key f x ys"
  by (induction xs) auto

lemma sort_key_split:
  "sort_key (\<lambda>r. of_bool (P r) :: nat) xs = filter (\<lambda>r. \<not> P r) xs @ filter P xs"
proof (induction xs)
  case (Cons x xs)
  then show ?case by (cases "P x") (auto simp: insort_is_Cons insort_key_skip)
qed simp

lemma last_row_append:
  "last_row k (xs @ ys) = (case last_row k ys of None \<Rightarrow> last_row k xs | Some r \<Rightarrow> Some r)"
  by (simp add: last_row_def find_append split: option.split)

lemma foldl_entries:
  "foldl (\<lambda>p r. p(at_kind r \<mapsto> entry_of_row r)) p0 rows k =
     (case last_row k rows of None \<Rightarrow> p0 k | Some r \<Rightarrow> Some (entry_of_row r))"
  by (induction rows rule: rev_induct) (auto simp: last_row_def)

lemma load_policy_lookup:
  "load_policy file (Inr rows) t k =
     (case last_row k (filter (\<lambda>r. at_tenant r \<noteq> None \<and> at_tenant r = t) rows) of
        Some r \<Rightarrow> Some (entry_of_row r)
      | None \<Rightarrow>
          (case last_row k (filter (\<lambda>r. at_tenant r = None) rows) of
             Some r \<Rightarrow> Some (entry_of_row r)
           | None \<Rightarrow> load_yaml_policy file k))"
proof -
  have "filter (\<lambda>r. \<not> at_tenant r \<noteq> None) (filter (\<lambda>r. at_tenant r = None \<or> at_tenant r = t) rows) =
        filter (\<lambda>r. at_tenant r = None) rows"
    and "filter (\<lambda>r. at_tenant r \<noteq> None) (filter (\<lambda>r. at_tenant r = None \<or> at_tenant r = t) rows) =
        filter (\<lambda>r. at_tenant r \<noteq> None \<and> at_tenant r = t) rows"
    by (auto intro!: filter_cong)
  then show ?thesis
    by (simp add: load_policy_def Let_def sort_key_split foldl_entries last_row_append split: option.split)
qed

definition view_ladder :: "policy_view \<Rightarrow> ladder" where
  "view_ladder v = \<lparr>ld_auto = pv_auto v, ld_review = pv_review v, ld_escalation = pv_escalation v\<rparr>"

lemma overlay_row_view [simp]:
  "pv_blast (overlay_row l (Some r) v) = at_blast r"
  "view_ladder (overlay_row l (Some r) v) =
     \<lparr>ld_auto = at_auto r, ld_review = at_review r, ld_escalation = at_escalation r\<rparr>"
  "overlay_row l None v = v"
  by (simp_all add: overlay_row_def overlay_def row_override_def entry_of_row_def or_else_def view_ladder_def)

lemma row_entry_applied:
  assumes "p k = Some (entry_of_row r)" "at_blast r \<noteq> []"
  shows "classify_action k p = at_blast r"
    and "thresholds_for k br p =
         \<lparr>ld_auto = at_auto r, ld_review = at_review r, ld_escalation = at_escalation r\<rparr>"
  using assms by (simp_all add: classify_action_def thresholds_for_def entry_of_row_def entry_ladder_def)

lemma last_row_in: "last_row k rows = Some r \<Longrightarrow> r \<in> set rows \<and> at_kind r = k"
  unfolding last_row_def by (drule find_Some_in) simp

lemma last_row_None: "last_row k rows = None \<longleftrightarrow> \<not> list_ex (\<lambda>r. at_kind r = k) rows"
  by (auto simp: last_row_def find_None_iff list_ex_iff)

section \<open>Lemmas: the table\<close>

definition row_ok :: "autonomy_row \<Rightarrow> bool" where
  "row_ok r \<longleftrightarrow> at_kind r \<in> set known_kinds \<and> at_blast r \<noteq> [] \<and>
     at_escalation r \<le> at_review r \<and> at_review r \<le> at_auto r"

definition policy_inv :: "policy_db \<Rightarrow> bool" where
  "policy_inv db \<longleftrightarrow> distinct (map at_id (pd_rows db)) \<and> list_all row_ok (pd_rows db) \<and>
     distinct (map at_kind (filter (\<lambda>r. at_tenant r = None) (pd_rows db)))"

datatype policy_op =
    Set_Policy instant uid string policy_in user
  | Reset_Policy instant string user
  | Seed "string \<Rightarrow> uid"

fun policy_step :: "policy_op \<Rightarrow> policy_db \<Rightarrow> policy_db" where
  "policy_step (Set_Policy now fresh kind b u) db = fst (set_policy now fresh kind b u db)"
| "policy_step (Reset_Policy now kind u) db = fst (reset_policy now kind u db)"
| "policy_step (Seed ids) db = seed_autonomy_defaults ids db"

lemma known_blast: "code_blast_radius kind \<noteq> []"
  by (simp add: code_blast_radius_def blast_radii_def default_blast_radius_def)

lemma code_ladder_ordered:
  "ld_escalation (code_ladder br) \<le> ld_review (code_ladder br) \<and>
   ld_review (code_ladder br) \<le> ld_auto (code_ladder br)"
  by (simp add: code_ladder_def default_thresholds_def high_ladder_def)

lemma globals_upd:
  assumes "find (is_global kind) rows = Some r" "distinct (map at_id rows)"
    and "at_kind r' = kind" "at_tenant r' = None"
  shows "map at_kind (filter (\<lambda>r. at_tenant r = None) (upd_row at_id (at_id r) (\<lambda>_. r') rows)) =
         map at_kind (filter (\<lambda>r. at_tenant r = None) rows)"
proof -
  have r: "r \<in> set rows" "at_kind r = kind" "at_tenant r = None"
    using assms(1) by (auto simp: is_global_def dest: find_Some_in)
  have same: "x = r" if "x \<in> set rows" "at_id x = at_id r" for x
    using that r(1) assms(2) by (metis get_row_in option.inject)
  have "map at_kind (filter (\<lambda>r. at_tenant r = None) (upd_row at_id (at_id r) (\<lambda>_. r') xs)) =
        map at_kind (filter (\<lambda>r. at_tenant r = None) xs)" if "set xs \<subseteq> set rows" for xs
    using that by (induction xs) (use r assms(3,4) same in \<open>auto simp: upd_row_def\<close>)
  then show ?thesis by blast
qed

lemma no_global_fresh:
  "find (is_global kind) rows = None \<Longrightarrow>
   kind \<notin> set (map at_kind (filter (\<lambda>r. at_tenant r = None) rows))"
  by (auto simp: find_None_iff is_global_def)

lemma add_row_inv:
  assumes "policy_inv db" "row_ok r" "is_global kind r" "find (is_global kind) (pd_rows db) = None"
    "at_id r \<notin> at_id ` set (pd_rows db)"
  shows "policy_inv (db\<lparr>pd_rows := pd_rows db @ [r]\<rparr>)"
  using assms no_global_fresh[OF assms(4)] by (auto simp: policy_inv_def is_global_def)

lemma policy_inv_log [simp]: "policy_inv (log_policy now a s i db) = policy_inv db"
  by (simp add: policy_inv_def log_policy_def)

lemma pd_rows_log [simp]: "pd_rows (log_policy now a s i db) = pd_rows db"
  by (simp add: log_policy_def)

lemma edited_row_ok:
  "kind \<in> set known_kinds \<Longrightarrow> pi_escalation b \<le> pi_review b \<Longrightarrow> pi_review b \<le> pi_auto b \<Longrightarrow>
   row_ok (edited_row i kind b u)"
  by (auto simp: row_ok_def edited_row_def known_blast truthy_str_def split: option.splits)

lemma seeded_row_ok: "kind \<in> set known_kinds \<Longrightarrow> row_ok (seeded_row i kind)"
  using code_ladder_ordered by (simp add: row_ok_def seeded_row_def Let_def known_blast)

lemma edit_row_inv:
  assumes "policy_inv db" "find (is_global kind) (pd_rows db) = Some r" "row_ok r'" "is_global kind r'"
    "at_id r' = at_id r"
  shows "policy_inv (db\<lparr>pd_rows := upd_row at_id (at_id r) (\<lambda>_. r') (pd_rows db)\<rparr>)"
proof -
  have "map at_id (upd_row at_id (at_id r) (\<lambda>_. r') rows) = map at_id rows" for rows
    using assms(5) by (simp add: upd_row_def)
  moreover have "list_all row_ok (upd_row at_id (at_id r) (\<lambda>_. r') (pd_rows db))"
    using assms(1,3) by (auto simp: policy_inv_def list_all_iff upd_row_def)
  ultimately show ?thesis
    using assms globals_upd[OF assms(2), of r'] by (simp add: policy_inv_def is_global_def)
qed

lemma is_global_edited [simp]: "is_global kind (edited_row i kind b u)" "at_id (edited_row i kind b u) = i"
  by (simp_all add: is_global_def edited_row_def)

lemma is_global_seeded [simp]: "is_global kind (seeded_row i kind)" "at_id (seeded_row i kind) = i"
  by (simp_all add: is_global_def seeded_row_def Let_def)

lemma set_policy_inv [inv_intros]:
  "policy_inv db \<Longrightarrow> policy_inv (fst (set_policy now fresh kind b u db))"
  by (auto simp: set_policy_def handled_defs edited_row_ok intro!: add_row_inv[where kind = kind]
      edit_row_inv[where kind = kind] split: sum.split option.split)

lemma reset_policy_inv [inv_intros]:
  "policy_inv db \<Longrightarrow> policy_inv (fst (reset_policy now kind u db))"
  by (auto simp: reset_policy_def handled_defs policy_inv_def del_row_def list_all_iff distinct_map_filter
      split: sum.split option.split)
     (auto simp: distinct_map intro: inj_on_subset)

lemma seed_kind_inv:
  "policy_inv (db\<lparr>pd_rows := rows\<rparr>) \<Longrightarrow> kind \<in> set known_kinds \<Longrightarrow>
   seed_kind ids kind (Some rows) = Some rows' \<Longrightarrow>
   policy_inv (db\<lparr>pd_rows := rows'\<rparr>) \<and> list_ex (is_global kind) rows' \<and> (\<exists>more_rows. rows' = rows @ more_rows)"
  using add_row_inv[of "db\<lparr>pd_rows := rows\<rparr>" "seeded_row (ids kind) kind" kind] seeded_row_ok[of kind]
  by (auto simp: seed_kind_def find_None_iff list_ex_iff split: if_splits)

lemma seed_none [simp]: "fold (seed_kind ids) kinds None = None"
  by (induction kinds) (simp_all add: seed_kind_def)

lemma seed_fold:
  assumes "policy_inv (db\<lparr>pd_rows := rows\<rparr>)" "set kinds \<subseteq> set known_kinds"
    "fold (seed_kind ids) kinds (Some rows) = Some rows'"
  shows "policy_inv (db\<lparr>pd_rows := rows'\<rparr>) \<and> (\<forall>k \<in> set kinds. list_ex (is_global k) rows') \<and>
         (\<exists>more_rows. rows' = rows @ more_rows)"
  using assms
proof (induction kinds arbitrary: rows)
  case (Cons k kinds)
  then obtain mid where mid: "seed_kind ids k (Some rows) = Some mid"
    by (cases "seed_kind ids k (Some rows)") auto
  with Cons.prems have "policy_inv (db\<lparr>pd_rows := mid\<rparr>)" "list_ex (is_global k) mid"
    "\<exists>more_rows. mid = rows @ more_rows"
    using seed_kind_inv[OF Cons.prems(1) _ mid] by auto
  with Cons.IH[of mid] Cons.prems mid show ?case by auto
qed auto

lemma seed_inv [inv_intros]: "policy_inv db \<Longrightarrow> policy_inv (seed_autonomy_defaults ids db)"
  using seed_fold[of "pd_rows db" db known_kinds ids]
  by (auto simp: seed_autonomy_defaults_def split: option.split)

lemma policy_step_inv: "policy_inv db \<Longrightarrow> policy_inv (policy_step op db)"
  by (cases op) (simp_all add: inv_intros)

interpretation policy: request_system policy_step "\<lambda>_. True" policy_inv
  by unfold_locales (rule policy_step_inv)

lemma policy_steps_inv: "policy_inv db \<Longrightarrow> policy_inv (fold policy_step ops db)"
  by (rule policy.run_inv) simp_all

lemma view_of_kind:
  "kind \<in> set known_kinds \<Longrightarrow>
   map_of (build_effective_policy y g t) kind = Some (effective_view y g t kind)"
  unfolding build_effective_policy_def by (auto simp: map_of_map_restrict)

lemma global_row_found:
  "list_ex (is_global k) rows \<Longrightarrow> \<exists>r. last_row k (filter (\<lambda>r. at_tenant r = None) rows) = Some r"
proof -
  assume "list_ex (is_global k) rows"
  then have "list_ex (\<lambda>r. at_kind r = k) (filter (\<lambda>r. at_tenant r = None) rows)"
    by (auto simp: list_ex_iff is_global_def)
  then show ?thesis using last_row_None by blast
qed

lemma yaml_view:
  assumes "kind \<in> set known_kinds"
    and "\<And>e. y kind = Some e \<Longrightarrow> entry_ladder e \<noteq> None \<and> pe_blast_radius e \<noteq> Some []"
    and "p kind = y kind"
    and "v = (case y kind of None \<Rightarrow> code_view kind | Some ov \<Rightarrow> overlay ov ''yaml'' (code_view kind))"
  shows "pv_blast v = classify_action kind p \<and> view_ladder v = thresholds_for kind (classify_action kind p) p"
proof (cases "y kind")
  case None
  with assms(3,4) show ?thesis
    by (simp add: code_view_def Let_def classify_action_def thresholds_for_def view_ladder_def)
next
  case (Some e)
  with assms(2) obtain a r x where "pe_auto e = Some a" "pe_review e = Some r" "pe_escalation e = Some x"
    by (auto simp: entry_ladder_def split: option.splits)
  with Some assms(2)[OF Some] assms(3,4) show ?thesis
    by (auto simp: overlay_def or_else_def code_view_def Let_def classify_action_def thresholds_for_def
        view_ladder_def entry_ladder_def truthy_str_def split: option.split)
qed

section \<open>Properties\<close>

text \<open>C11. Containment is never automatic: whatever the policy layers hold and however confident the
  verdict, annotating the proposed actions touches nothing but the two badges, every containment kind
  is marked for escalation, and an action of another kind is marked automatic only when its floor is
  reached; where no layer lists the kind, a kind of high or critical radius, an unknown one included,
  is not.\<close>

theorem containment_is_never_auto:
  "list_all2 (\<lambda>a b.
       b = a\<lparr>pa_blast_radius := pa_blast_radius b, pa_autonomy := pa_autonomy b\<rparr>
     \<and> (opt_str (pa_kind a) \<in> effect_kinds \<longrightarrow> pa_autonomy b = Some Escalate)
     \<and> (pa_autonomy b = Some Auto \<longrightarrow>
          ld_auto (thresholds_for (opt_str (pa_kind a)) (the (pa_blast_radius b)) p) \<le> confidence_to_score conf
        \<and> (p (opt_str (pa_kind a)) = None \<longrightarrow> the (pa_blast_radius b) \<in> {''read'', ''low'', ''med''})))
     actions (apply_guardrails actions conf p)"
  unfolding apply_guardrails_def list.rel_map
proof (rule list.rel_refl, goal_cases)
  case (1 a)
  obtain br au where r: "recommend (opt_str (pa_kind a)) conf p = (br, au)" by fastforce
  then have br: "br = classify_action (opt_str (pa_kind a)) p"
    and effect: "opt_str (pa_kind a) \<in> effect_kinds \<Longrightarrow> au = Escalate"
    by (auto simp: recommend_def Let_def)
  have auto: "ld_auto (thresholds_for (opt_str (pa_kind a)) br p) \<le> confidence_to_score conf" if "au = Auto"
    using recommend_auto[of "opt_str (pa_kind a)" conf p] that r br by simp
  have low: "br \<in> {''read'', ''low'', ''med''}" if "au = Auto" "p (opt_str (pa_kind a)) = None"
    using high_never_auto[of p "opt_str (pa_kind a)" conf] that r br
    by (auto simp: classify_action_def code_blast_radius_def blast_radii_def default_blast_radius_def
        split: if_splits)
  show ?case using effect auto low by (simp add: r)
qed

text \<open>C14. The policy an administrator is shown is the one applied: after any sequence of edits, resets
  and seedings, the editor's radius and floors of a kind are those the recommendation uses for an
  incident of the tenant, whenever the kind has a global row (as every kind has once the defaults are
  seeded) or its YAML entry is absent or complete; and the table keeps one global row per kind, with
  ordered floors.\<close>

theorem displayed_policy_is_applied:
  assumes "policy_inv db0" "kind \<in> set known_kinds"
    and db: "db = fold policy_step ops db0" and p: "p = load_policy file (Inr (pd_rows db)) (Some t)"
    and cover: "list_ex (is_global kind) (pd_rows db) \<or>
       (case load_yaml_policy file kind of
          None \<Rightarrow> True | Some e \<Rightarrow> entry_ladder e \<noteq> None \<and> pe_blast_radius e \<noteq> Some [])"
  shows "policy_inv db \<and>
    (\<exists>v. map_of (get_policy file (Some {t}) db) kind = Some v \<and> pv_blast v = classify_action kind p \<and>
         view_ladder v = thresholds_for kind (pv_blast v) p)"
proof -
  let ?g = "filter (\<lambda>r. at_tenant r = None) (pd_rows db)"
  let ?t = "filter (\<lambda>r. at_tenant r = Some t) (pd_rows db)"
  let ?v = "effective_view (load_yaml_policy file) ?g ?t kind"
  have inv: "policy_inv db" unfolding db by (rule policy_steps_inv) fact
  then have ok: "r \<in> set (pd_rows db) \<Longrightarrow> at_blast r \<noteq> []" for r
    by (auto simp: policy_inv_def list_all_iff row_ok_def)
  have ft: "filter (\<lambda>r. at_tenant r \<noteq> None \<and> at_tenant r = Some t) (pd_rows db) = ?t"
    by (rule filter_cong) auto
  have look: "p kind = (case last_row kind ?t of Some r \<Rightarrow> Some (entry_of_row r)
      | None \<Rightarrow> (case last_row kind ?g of Some r \<Rightarrow> Some (entry_of_row r) | None \<Rightarrow> load_yaml_policy file kind))"
    unfolding p load_policy_lookup ft ..
  have "pv_blast ?v = classify_action kind p \<and> view_ladder ?v = thresholds_for kind (pv_blast ?v) p"
  proof (cases "last_row kind ?t")
    case (Some r)
    with look row_entry_applied[of p kind r] ok[of r] last_row_in[OF Some] show ?thesis
      by (simp add: effective_view_def Let_def)
  next
    case none: None
    show ?thesis
    proof (cases "last_row kind ?g")
      case (Some r)
      with none look row_entry_applied[of p kind r] ok[of r] last_row_in[OF Some] show ?thesis
        by (simp add: effective_view_def Let_def)
    next
      case None
      with cover global_row_found[of kind "pd_rows db"]
      have "\<And>e. load_yaml_policy file kind = Some e \<Longrightarrow> entry_ladder e \<noteq> None \<and> pe_blast_radius e \<noteq> Some []"
        by auto
      from yaml_view[where p = p, OF assms(2) this _ refl] none None look show ?thesis
        by (simp add: effective_view_def Let_def split: option.splits)
    qed
  qed
  moreover have "map_of (get_policy file (Some {t}) db) kind = Some ?v"
    using assms(2) by (simp add: get_policy_def view_of_kind)
  ultimately show ?thesis using inv by blast
qed

section \<open>Examples\<close>

text \<open>A YAML entry that only lowers the radius of \<open>close_alert\<close> to \<open>read\<close>: with no row for the
  kind the editor shows the floor 0.6 and the recommendation uses 0; with the seeded defaults in
  place the entry has no effect at all.\<close>

definition partial_yaml :: policy where
  "partial_yaml =
     [''close_alert'' \<mapsto> \<lparr>pe_blast_radius = Some ''read'', pe_auto = None, pe_review = None,
        pe_escalation = None, pe_reason = None\<rparr>]"

lemma partial_yaml_differs:
  "map_option pv_auto (map_of (get_policy (Some partial_yaml) (Some {3}) \<lparr>pd_rows = [], pd_audit = []\<rparr>)
     ''close_alert'') = Some (60/100) \<and>
   ld_auto (thresholds_for ''close_alert'' ''read'' (load_policy (Some partial_yaml) (Inr []) (Some 3))) = 0"
  by (simp add: get_policy_def build_effective_policy_def known_kinds_def blast_radii_def effective_view_def
      code_view_def code_blast_radius_def code_ladder_def default_thresholds_def load_yaml_policy_def
      partial_yaml_def overlay_def or_else_def overlay_row_def last_row_def thresholds_for_def
      load_policy_def entry_ladder_def Let_def)

lemma seeded_defaults_shadow_yaml:
  assumes "list_ex (is_global kind) (pd_rows db)"
  shows "load_policy file (Inr (pd_rows db)) t kind = load_policy None (Inr (pd_rows db)) t kind"
  using global_row_found[OF assms] by (auto simp: load_policy_lookup split: option.split)

definition example_ids :: "string \<Rightarrow> uid" where
  "example_ids kind = sum_list (map char_code kind)"

definition example_edit :: policy_in where
  "example_edit = \<lparr>pi_blast_radius = None, pi_auto = 50/100, pi_review = 40/100, pi_escalation = 0,
     pi_reason = None\<rparr>"

lemma containment_is_never_auto_witness:
  "map pa_autonomy (apply_guardrails
     [\<lparr>pa_id = Some ''act0'', pa_kind = Some ''isolate_host'', pa_type = None, pa_label = None,
       pa_provider = None, pa_params = [], pa_justification = None, pa_status = None, pa_task_id = None,
       pa_blast_radius = None, pa_autonomy = None\<rparr>] ''high''
     [''isolate_host'' \<mapsto> entry_of_row (seeded_row 1 ''lookup'')]) = [Some Escalate]"
proof -
  let ?a = "\<lparr>pa_id = Some ''act0'', pa_kind = Some ''isolate_host'', pa_type = None, pa_label = None,
       pa_provider = None, pa_params = [], pa_justification = None, pa_status = None, pa_task_id = None,
       pa_blast_radius = None, pa_autonomy = None\<rparr>"
  let ?p = "[''isolate_host'' \<mapsto> entry_of_row (seeded_row 1 ''lookup'')]"
  have "opt_str (pa_kind ?a) \<in> effect_kinds" by (simp add: effect_kinds_def)
  with containment_is_never_auto[of ?p "''high''" "[?a]"] show ?thesis
    by (auto simp: apply_guardrails_def)
qed

definition example_policy_ops :: "policy_op list" where
  "example_policy_ops =
     [Seed example_ids, Set_Policy 5 9 ''close_alert'' example_edit (example_user 1 Admin)]"

definition empty_policy_db :: policy_db where
  "empty_policy_db = \<lparr>pd_rows = [], pd_audit = []\<rparr>"

lemma displayed_policy_is_applied_witness:
  "\<exists>v. map_of (get_policy (Some partial_yaml) (Some {3}) (fold policy_step example_policy_ops empty_policy_db))
         ''close_alert'' = Some v \<and>
       view_ladder v = thresholds_for ''close_alert'' (pv_blast v)
         (load_policy (Some partial_yaml) (Inr (pd_rows (fold policy_step example_policy_ops empty_policy_db)))
           (Some 3))"
proof -
  have inv: "policy_inv empty_policy_db" by (simp add: policy_inv_def empty_policy_db_def)
  have known: "''close_alert'' \<in> set known_kinds" by (simp add: known_kinds_def blast_radii_def)
  have "list_ex (is_global ''close_alert'') (pd_rows (fold policy_step example_policy_ops empty_policy_db))"
    by code_simp
  then show ?thesis
    using displayed_policy_is_applied[OF inv known refl refl disjI1] by blast
qed

end
