(* ===== verification/Agent_Routing.thy ===== *)
theory Agent_Routing
  imports Contracts Guardrails
begin

text \<open>
  Deterministic routing of the persona stages and the response actions a confirmed verdict proposes,
  \<open>pipeline/agent_routing.py\<close>, with the two identifier readers of \<open>adapters/ocsf_defender.py\<close> it
  calls. A triage row is the record of theory Decision; the normalized alert and the Vision One
  workbench are JSON documents, whose malformed shapes raise. The decoder \<open>json.loads\<close> and
  \<open>str()\<close> of a value that is not a string are parameters.
\<close>

record py_lib =
  pl_loads :: json_loads
  pl_str :: "pyval \<Rightarrow> string"

definition py_str :: "py_lib \<Rightarrow> pyval \<Rightarrow> string" where
  "py_str lib v = (case v of PyStr s \<Rightarrow> s | _ \<Rightarrow> pl_str lib v)"

text \<open>\<open>v.get(k)\<close>, which raises on a value that is not a dictionary.\<close>

definition py_get :: "pyval \<Rightarrow> string \<Rightarrow> py_exc + pyval" where
  "py_get v k = (case v of PyDict d \<Rightarrow> Inr (get (map_of d) k) | _ \<Rightarrow> Inl AttributeError)"

section \<open>Routing\<close>

definition escalate_threat_categories :: "string set" where
  "escalate_threat_categories =
     {''ransomware'', ''c2'', ''lateral'', ''exploit'', ''malware'', ''execution'', ''defense_evasion''}"

definition v1_ioc_type :: "string \<Rightarrow> string option" where
  "v1_ioc_type =
     map_of [(''ipv4'', ''ip''), (''ipv6'', ''ip''), (''ip'', ''ip''), (''domain'', ''domain''), (''url'', ''url''),
       (''sha256'', ''fileSha256''), (''sha1'', ''fileSha1''), (''email'', ''senderMailAddress'')]"

definition unknown_hash_verdicts :: "string set" where
  "unknown_hash_verdicts = {''clean_or_unknown'', ''unknown''}"

definition hash_types :: "string set" where
  "hash_types = {''sha256'', ''sha1'', ''md5''}"

definition raw_type :: "triage_row \<Rightarrow> string option" where
  "raw_type r = (if truthy_str (tr_query_type r) then tr_query_type r else tr_type r)"

definition row_ioc_type :: "triage_row \<Rightarrow> string" where
  "row_ioc_type r = lower (opt_str (raw_type r))"

definition row_verdict :: "triage_row \<Rightarrow> string" where
  "row_verdict r = lower (opt_str (tr_verdict r))"

definition has_unknown_file_hash :: "enrichment \<Rightarrow> bool" where
  "has_unknown_file_hash en \<longleftrightarrow>
     list_ex (\<lambda>r. row_ioc_type r \<in> hash_types \<and> row_verdict r \<in> unknown_hash_verdicts) (en_triage en)"

definition any_malicious_ioc :: "enrichment \<Rightarrow> bool" where
  "any_malicious_ioc en \<longleftrightarrow>
     list_ex (\<lambda>r. row_verdict r = ''malicious'') (en_triage en) \<or> en_ti_matches en \<noteq> []"

definition should_escalate_to_l2 ::
  "triage_result \<Rightarrow> enrichment \<Rightarrow> string option \<Rightarrow> string option \<Rightarrow> bool" where
  "should_escalate_to_l2 t en severity_label threat_category \<longleftrightarrow>
     t1_disposition t \<noteq> ''likely_fp'' \<or> any_malicious_ioc en \<or>
     lower (opt_str severity_label) \<in> {''high'', ''critical''} \<or>
     lower (opt_str threat_category) \<in> escalate_threat_categories"

definition should_hunt :: "analysis_verdict \<Rightarrow> bool" where
  "should_hunt l2 \<longleftrightarrow> av_verdict l2 = ''true_positive'' \<and> av_hunt_recommended l2"

text \<open>\<open>hunt\<close> is the spread assessment of the hunt, when one ran.\<close>

definition should_run_forensics :: "analysis_verdict \<Rightarrow> string option \<Rightarrow> bool" where
  "should_run_forensics l2 hunt \<longleftrightarrow>
     av_verdict l2 = ''inconclusive'' \<or> hunt = Some ''lateral_confirmed''"

definition map_verdict_to_isoc :: "string \<Rightarrow> string" where
  "map_verdict_to_isoc v =
     (case map_of [(''true_positive'', ''TP''), (''false_positive'', ''FP''), (''benign'', ''benign''),
        (''inconclusive'', ''inconclusive'')] (lower v) of None \<Rightarrow> ''pending'' | Some w \<Rightarrow> w)"

section \<open>Identifiers in the vendor documents\<close>

fun first_host_guid :: "py_lib \<Rightarrow> pyval list \<Rightarrow> py_exc + string option" where
  "first_host_guid lib [] = Inr None"
| "first_host_guid lib (e # es) =
     and_then (py_get e ''type'') (\<lambda>t.
       if t = PyStr ''host'' then
         and_then (py_get e ''value'') (\<lambda>v.
           case v of
             PyDict d \<Rightarrow>
               if truthy (get (map_of d) ''guid'') then Inr (Some (py_str lib (get (map_of d) ''guid'')))
               else first_host_guid lib es
           | _ \<Rightarrow> first_host_guid lib es)
       else first_host_guid lib es)"

text \<open>\<open>v1\<close> is \<open>enrichment.get("v1")\<close>.\<close>

definition v1_host_guid :: "py_lib \<Rightarrow> pyval \<Rightarrow> py_exc + string option" where
  "v1_host_guid lib v1 =
     and_then (py_get (py_or v1 (PyDict [])) ''workbench'') (\<lambda>w.
     and_then (py_get (py_or w (PyDict [])) ''impactScope'') (\<lambda>s.
     and_then (py_get (py_or s (PyDict [])) ''entities'') (\<lambda>es.
     and_then (iter_values (py_or es (PyList []))) (first_host_guid lib))))"

definition clean :: "pyval \<Rightarrow> string option" where
  "clean v = (case v of PyStr s \<Rightarrow> (if strip s = [] then None else Some (strip s)) | _ \<Rightarrow> None)"

definition evtype :: "py_lib \<Rightarrow> (string \<times> pyval) list \<Rightarrow> string" where
  "evtype lib ev = lower (py_str lib (py_or (get (map_of ev) ''@odata.type'') (PyStr [])))"

definition raw_dict :: "py_lib \<Rightarrow> pyval \<Rightarrow> (string \<times> pyval) list option" where
  "raw_dict lib raw = as_dict (case raw of PyStr s \<Rightarrow> pl_loads lib s | _ \<Rightarrow> Some raw)"

fun first_device :: "py_lib \<Rightarrow> pyval list \<Rightarrow> string option" where
  "first_device lib [] = None"
| "first_device lib (ev # evs) =
     (case ev of
        PyDict d \<Rightarrow>
          if contains ''deviceevidence'' (evtype lib d) \<and> clean (get (map_of d) ''mdeDeviceId'') \<noteq> None
          then clean (get (map_of d) ''mdeDeviceId'') else first_device lib evs
      | _ \<Rightarrow> first_device lib evs)"

definition mde_device_id :: "py_lib \<Rightarrow> pyval \<Rightarrow> py_exc + string option" where
  "mde_device_id lib raw =
     (case raw_dict lib raw of
        None \<Rightarrow> Inr None
      | Some d \<Rightarrow>
          and_then (iter_values (py_or (get (map_of d) ''evidence'') (PyList [])))
            (\<lambda>evs. Inr (first_device lib evs)))"

fun first_user :: "py_lib \<Rightarrow> pyval list \<Rightarrow> py_exc + string option" where
  "first_user lib [] = Inr None"
| "first_user lib (ev # evs) =
     (case ev of
        PyDict d \<Rightarrow>
          if contains ''userevidence'' (evtype lib d) then
            (let acct = py_or (get (map_of d) ''userAccount'') (PyDict [])
             in and_then (py_get acct ''azureAdUserId'') (\<lambda>a.
                if clean a \<noteq> None then Inr (clean a)
                else and_then (py_get acct ''userPrincipalName'') (\<lambda>p.
                       if clean p \<noteq> None then Inr (clean p) else first_user lib evs)))
          else first_user lib evs
      | _ \<Rightarrow> first_user lib evs)"

definition entra_user_id :: "py_lib \<Rightarrow> pyval \<Rightarrow> py_exc + string option" where
  "entra_user_id lib raw =
     (case raw_dict lib raw of
        None \<Rightarrow> Inr None
      | Some d \<Rightarrow>
          and_then (iter_values (py_or (get (map_of d) ''evidence'') (PyList []))) (first_user lib))"

section \<open>Proposed actions\<close>

definition mk_action ::
  "nat \<Rightarrow> string \<Rightarrow> string \<Rightarrow> (string \<times> pyval) list \<Rightarrow> string \<Rightarrow> proposed_action" where
  "mk_action idx kind provider params why =
     \<lparr>pa_id = Some (''act'' @ show_nat idx), pa_kind = Some kind, pa_type = None, pa_label = None,
      pa_provider = Some provider, pa_params = params, pa_justification = Some why,
      pa_status = Some ''pending'', pa_task_id = None, pa_blast_radius = Some ''unknown'',
      pa_autonomy = Some Review\<rparr>"

text \<open>\<open>idx\<close> counts the actions appended so far, so it is the length of the list.\<close>

definition add_action ::
  "string \<Rightarrow> string \<Rightarrow> (string \<times> pyval) list \<Rightarrow> string \<Rightarrow> proposed_action list \<Rightarrow> proposed_action list" where
  "add_action kind provider params why acts = acts @ [mk_action (length acts) kind provider params why]"

definition active_focus :: "analysis_verdict \<Rightarrow> bool" where
  "active_focus l2 \<longleftrightarrow> av_hunt_focus l2 \<in> {Some ''lateral_movement'', Some ''persistence'', Some ''c2''}"

text \<open>One round of the blocklist loop, for a provider, its type table and its parameters.\<close>

definition blocklist_row ::
  "string \<Rightarrow> (string \<Rightarrow> string option) \<Rightarrow> (string \<Rightarrow> string \<Rightarrow> (string \<times> pyval) list)
     \<Rightarrow> triage_row \<Rightarrow> proposed_action list \<Rightarrow> proposed_action list" where
  "blocklist_row provider typ params r acts =
     (if row_verdict r \<noteq> ''malicious'' then acts
      else
        (case (tr_ioc r, typ (row_ioc_type r)) of
           (Some value, Some t) \<Rightarrow>
             if value = [] then acts
             else add_action ''blocklist_ioc'' provider (params t value)
                    (opt_str (raw_type r) @ '' '' @ value @ '' assessed malicious during enrichment'') acts
         | _ \<Rightarrow> acts))"

definition defender_ioc_type :: "string \<Rightarrow> string option" where
  "defender_ioc_type =
     map_of [(''ipv4'', ''IpAddress''), (''ipv6'', ''IpAddress''), (''ip'', ''IpAddress''),
       (''domain'', ''DomainName''), (''url'', ''Url''), (''sha256'', ''FileSha256''), (''sha1'', ''FileSha1'')]"

definition defender_actions ::
  "analysis_verdict \<Rightarrow> enrichment \<Rightarrow> string option \<Rightarrow> string option \<Rightarrow> proposed_action list" where
  "defender_actions l2 en machine_id user_id =
     (let focus = opt_str (av_hunt_focus l2);
          a0 = [];
          a1 = (case machine_id of
                  None \<Rightarrow> a0
                | Some d \<Rightarrow>
                    add_action ''scan_endpoint'' ''microsoft_defender'' [(''machine_id'', PyStr d)]
                      (''Confirmed TP on device '' @ d @ ''; run an antivirus scan'') a0);
          a2 = (case machine_id of
                  None \<Rightarrow> a1
                | Some d \<Rightarrow>
                    if active_focus l2 then
                      add_action ''isolate_host'' ''microsoft_defender'' [(''machine_id'', PyStr d)]
                        (''Confirmed TP on device '' @ d @ '' with '' @ focus @ '' signal; isolate to contain'') a1
                    else a1);
          a3 = (case user_id of
                  None \<Rightarrow> a2
                | Some u \<Rightarrow>
                    if active_focus l2 then
                      add_action ''disable_user'' ''microsoft_defender'' [(''user_id'', PyStr u)]
                        (''Confirmed TP with '' @ focus @ '' signal; disable compromised user '' @ u) a2
                    else a2)
      in fold (blocklist_row ''microsoft_defender'' defender_ioc_type
                 (\<lambda>t v. [(''indicator_type'', PyStr t), (''value'', PyStr v)])) (en_triage en) a3)"

definition propose_defender_actions ::
  "py_lib \<Rightarrow> analysis_verdict \<Rightarrow> enrichment \<Rightarrow> (string \<times> pyval) list \<Rightarrow> py_exc + proposed_action list" where
  "propose_defender_actions lib l2 en normalized =
     and_then (mde_device_id lib (get (map_of normalized) ''raw'')) (\<lambda>machine_id.
     and_then (entra_user_id lib (get (map_of normalized) ''raw'')) (\<lambda>user_id.
       Inr (defender_actions l2 en machine_id user_id)))"

definition v1_actions ::
  "py_lib \<Rightarrow> analysis_verdict \<Rightarrow> enrichment \<Rightarrow> pyval \<Rightarrow> pyval \<Rightarrow> string option \<Rightarrow> proposed_action list" where
  "v1_actions lib l2 en host fpath guid =
     (let focus = opt_str (av_hunt_focus l2); h = py_str lib host; f = py_str lib fpath;
          a1 = fold (blocklist_row ''vision_one'' v1_ioc_type
                       (\<lambda>t v. [(''ioc_type'', PyStr t), (''value'', PyStr v), (''scan_action'', PyStr ''block'')]))
                 (en_triage en) [];
          a2 = (if truthy host \<and> active_focus l2 then
                  add_action ''isolate_host'' ''vision_one'' [(''endpoint_name'', PyStr h)]
                    (''Confirmed TP on '' @ h @ '' with '' @ focus @ '' signal; isolate to contain'') a1
                else a1)
      in if truthy fpath \<and> (truthy_str guid \<or> truthy host) \<and> has_unknown_file_hash en then
           add_action ''collect_file'' ''vision_one''
             ([(''file_path'', PyStr f)] @
              (if truthy_str guid then [(''agent_guid'', PyStr (opt_str guid))] else []) @
              (if truthy host then [(''endpoint_name'', PyStr h)] else []))
             (''File hash unknown to threat intel; collect '' @ f @ '' from '' @
              (if truthy host then h else opt_str guid) @ '' for analysis'') a2
         else a2)"

definition propose_v1_actions ::
  "py_lib \<Rightarrow> analysis_verdict \<Rightarrow> enrichment \<Rightarrow> pyval \<Rightarrow> (string \<times> pyval) list
     \<Rightarrow> py_exc + proposed_action list" where
  "propose_v1_actions lib l2 en v1 normalized =
     and_then (v1_host_guid lib v1) (\<lambda>guid.
       Inr (v1_actions lib l2 en (get (map_of normalized) ''hostname'') (get (map_of normalized) ''file_path'') guid))"

definition propose_response_actions ::
  "py_lib \<Rightarrow> analysis_verdict \<Rightarrow> enrichment \<Rightarrow> pyval \<Rightarrow> (string \<times> pyval) list
     \<Rightarrow> py_exc + proposed_action list" where
  "propose_response_actions lib l2 en v1 normalized =
     (if av_verdict l2 \<noteq> ''true_positive'' then Inr []
      else if get (map_of normalized) ''source_product'' = PyStr ''microsoft_defender''
      then propose_defender_actions lib l2 en normalized
      else propose_v1_actions lib l2 en v1 normalized)"

definition create_case_action :: "nat \<Rightarrow> proposed_action" where
  "create_case_action idx =
     (mk_action idx ''create_case'' ''vision_one'' []
        ''Open a customer case so the customer notification isn't missed'')
       \<lparr>pa_blast_radius := Some ''low'', pa_autonomy := Some Review\<rparr>"

section \<open>Lemmas\<close>

definition numbered :: "proposed_action list \<Rightarrow> bool" where
  "numbered acts \<longleftrightarrow> map pa_id acts = map (\<lambda>i. Some (''act'' @ show_nat i)) [0..<length acts]"

text \<open>What a proposed action rests on, by its kind.\<close>

definition grounded :: "analysis_verdict \<Rightarrow> enrichment \<Rightarrow> string \<Rightarrow> proposed_action \<Rightarrow> bool" where
  "grounded l2 en provider a \<longleftrightarrow>
     opt_str (pa_kind a) \<in> effect_kinds \<and> pa_provider a = Some provider \<and> pa_status a = Some ''pending'' \<and>
     (pa_kind a = Some ''blocklist_ioc'' \<longrightarrow>
        (\<exists>r \<in> set (en_triage en). \<exists>v. row_verdict r = ''malicious'' \<and> tr_ioc r = Some v \<and> v \<noteq> [] \<and>
           (''value'', PyStr v) \<in> set (pa_params a))) \<and>
     (pa_kind a \<in> {Some ''isolate_host'', Some ''disable_user''} \<longrightarrow> active_focus l2) \<and>
     (pa_kind a = Some ''collect_file'' \<longrightarrow> has_unknown_file_hash en)"

definition sound_actions :: "analysis_verdict \<Rightarrow> enrichment \<Rightarrow> string \<Rightarrow> proposed_action list \<Rightarrow> bool" where
  "sound_actions l2 en provider acts \<longleftrightarrow> numbered acts \<and> list_all (grounded l2 en provider) acts"

lemma numbered_ids: "numbered acts \<Longrightarrow> pa_id a = Some (''act'' @ show_nat (length acts)) \<Longrightarrow>
   distinct (map pa_id (acts @ [a]))"
  unfolding numbered_def map_append by (auto simp: distinct_map inj_on_def dest: show_nat_inj)

lemma sound_Nil [simp]: "sound_actions l2 en provider []"
  by (simp add: sound_actions_def numbered_def)

lemma sound_add:
  assumes "sound_actions l2 en provider acts"
    and "\<And>i. grounded l2 en provider (mk_action i kind provider params why)"
  shows "sound_actions l2 en provider (add_action kind provider params why acts)"
  using assms by (simp add: sound_actions_def numbered_def add_action_def mk_action_def)

lemma sound_blocklist_row:
  assumes "sound_actions l2 en provider acts" "r \<in> set (en_triage en)"
    and "\<And>t v. (''value'', PyStr v) \<in> set (params t v)"
  shows "sound_actions l2 en provider (blocklist_row provider typ params r acts)"
proof (cases "blocklist_row provider typ params r acts = acts")
  case False
  then obtain v t where r: "row_verdict r = ''malicious''" "tr_ioc r = Some v" "v \<noteq> []"
    and b: "blocklist_row provider typ params r acts =
      add_action ''blocklist_ioc'' provider (params t v)
        (opt_str (raw_type r) @ '' '' @ v @ '' assessed malicious during enrichment'') acts"
    by (auto simp: blocklist_row_def split: if_splits option.splits)
  show ?thesis
    unfolding b using assms(1)
    by (rule sound_add) (use r assms(2,3) in \<open>auto simp: grounded_def mk_action_def effect_kinds_def\<close>)
qed (use assms(1) in simp)

lemma sound_blocklist:
  assumes "sound_actions l2 en provider acts" "\<And>t v. (''value'', PyStr v) \<in> set (params t v)"
    and "set rows \<subseteq> set (en_triage en)"
  shows "sound_actions l2 en provider (fold (blocklist_row provider typ params) rows acts)"
  using assms(1,3) by (induction rows arbitrary: acts) (auto intro: sound_blocklist_row assms(2))

lemma sound_defender: "sound_actions l2 en ''microsoft_defender'' (defender_actions l2 en machine_id user_id)"
  unfolding defender_actions_def Let_def
  by (rule sound_blocklist)
     (auto simp: grounded_def mk_action_def effect_kinds_def split: option.split intro!: sound_add)

lemma sound_v1: "sound_actions l2 en ''vision_one'' (v1_actions lib l2 en host fpath guid)"
  unfolding v1_actions_def Let_def
  by (auto simp: grounded_def mk_action_def effect_kinds_def intro!: sound_add sound_blocklist)

section \<open>Property\<close>

text \<open>C27. A response action is proposed on evidence: only a true positive proposes any, through the
  provider the alert came from; a blocklist entry names a value that triage called malicious, host
  isolation and account disabling need a sign of active compromise, file collection an unknown file;
  the identifiers are numbered without a clash, the case nudge included; and the guardrails mark every
  one of them for escalation.\<close>

theorem proposed_actions_are_grounded:
  assumes "propose_response_actions lib l2 en v1 normalized = Inr acts"
  shows "(acts = [] \<or> av_verdict l2 = ''true_positive'') \<and>
         list_all (grounded l2 en (if get (map_of normalized) ''source_product'' = PyStr ''microsoft_defender''
                                   then ''microsoft_defender'' else ''vision_one'')) acts \<and>
         distinct (map pa_id (acts @ [create_case_action (length acts)])) \<and>
         list_all (\<lambda>a. pa_autonomy a = Some Escalate) (apply_guardrails acts conf p)"
proof -
  let ?prov = "if get (map_of normalized) ''source_product'' = PyStr ''microsoft_defender''
     then ''microsoft_defender'' else ''vision_one''"
  have tp: "acts = [] \<or> av_verdict l2 = ''true_positive''"
    using assms by (auto simp: propose_response_actions_def split: if_splits)
  have s: "sound_actions l2 en ?prov acts"
    using assms sound_defender sound_v1
    by (auto simp: propose_response_actions_def propose_defender_actions_def propose_v1_actions_def and_then_Inr
        split: if_splits)
  then have g: "list_all (grounded l2 en ?prov) acts" by (simp add: sound_actions_def)
  have "distinct (map pa_id (acts @ [create_case_action (length acts)]))"
    using s by (intro numbered_ids) (simp_all add: sound_actions_def create_case_action_def mk_action_def)
  moreover have "list_all (\<lambda>a. pa_autonomy a = Some Escalate) (apply_guardrails acts conf p)"
    using g by (auto simp: apply_guardrails_def list_all_iff grounded_def recommend_def Let_def)
  ultimately show ?thesis using tp g by blast
qed

section \<open>Witness\<close>

definition example_lib :: py_lib where
  "example_lib = \<lparr>pl_loads = (\<lambda>_. None), pl_str = (\<lambda>_. [])\<rparr>"

definition example_l2 :: analysis_verdict where
  "example_l2 = default_analysis\<lparr>av_verdict := ''true_positive'', av_hunt_focus := Some ''c2''\<rparr>"

definition example_normalized :: "(string \<times> pyval) list" where
  "example_normalized =
     [(''hostname'', PyStr ''ws1''), (''source_product'', PyStr ''vision_one''), (''file_path'', PyNone)]"

definition bad_row :: triage_row where
  "bad_row =
     \<lparr>tr_verdict = Some ''malicious'', tr_ioc = Some ''evil.test'', tr_query_type = Some ''domain'', tr_type = None,
      tr_summary = [], tr_own = [], tr_hostnames = []\<rparr>"

lemma example_proposal:
  "propose_response_actions example_lib example_l2 (empty_enrichment\<lparr>en_triage := [bad_row]\<rparr>) PyNone
     example_normalized =
   Inr [mk_action 0 ''blocklist_ioc'' ''vision_one''
          [(''ioc_type'', PyStr ''domain''), (''value'', PyStr ''evil.test''), (''scan_action'', PyStr ''block'')]
          ''domain evil.test assessed malicious during enrichment'',
        mk_action 1 ''isolate_host'' ''vision_one'' [(''endpoint_name'', PyStr ''ws1'')]
          ''Confirmed TP on ws1 with c2 signal; isolate to contain'']"
  by code_simp

lemma proposed_actions_are_grounded_witness:
  "list_all (\<lambda>a. pa_autonomy a = Some Escalate)
     (apply_guardrails
       [mk_action 0 ''blocklist_ioc'' ''vision_one''
          [(''ioc_type'', PyStr ''domain''), (''value'', PyStr ''evil.test''), (''scan_action'', PyStr ''block'')]
          ''domain evil.test assessed malicious during enrichment'',
        mk_action 1 ''isolate_host'' ''vision_one'' [(''endpoint_name'', PyStr ''ws1'')]
          ''Confirmed TP on ws1 with c2 signal; isolate to contain''] ''high'' Map.empty)"
  using proposed_actions_are_grounded[OF example_proposal] by blast

end
