(* ===== verification/Ti_Scoring.thy ===== *)
theory Ti_Scoring
  imports Entity_Risk
begin

text \<open>
  Confidence of a local threat-feed hit, \<open>threat_intel/scoring.py\<close>. Floats are real numbers and
  \<open>0.5 ** x\<close> is \<open>powr\<close>; a timestamp is an instant, \<open>None\<close> when missing or unparseable.
\<close>

definition w_corroboration :: real where "w_corroboration = 60/100"
definition w_recency :: real where "w_recency = 40/100"
definition default_half_life_days :: real where "default_half_life_days = 30"
definition recency_floor :: real where "recency_floor = 5/100"
definition band_high :: real where "band_high = 66/100"
definition band_medium :: real where "band_medium = 33/100"

definition match_kind_weight :: "string \<Rightarrow> real" where
  "match_kind_weight kind =
     (case map_of [(''exact'', 1), (''parent_domain'', 60/100)] kind of None \<Rightarrow> 1 | Some w \<Rightarrow> w)"

definition clamp :: "real \<Rightarrow> real" where
  "clamp x = (if x < 0 then 0 else if x > 1 then 1 else x)"

definition band :: "real \<Rightarrow> string" where
  "band score =
     (if band_high \<le> score then ''high'' else if band_medium \<le> score then ''medium'' else ''low'')"

definition corroboration_score :: "int \<Rightarrow> real" where
  "corroboration_score source_count =
     (let n = nat (max 0 source_count)
      in if n = 0 then 0 else clamp (1 - (1/2) ^ min n 8))"

definition recency_score :: "instant option \<Rightarrow> instant \<Rightarrow> real \<Rightarrow> real" where
  "recency_score last_seen_at now hl =
     (case last_seen_at of
        None \<Rightarrow> recency_floor
      | Some seen \<Rightarrow>
          (let age = max 0 (of_int (now - seen) / 1000000 / 86400);
               decayed = (1/2) powr (age / max hl (1/1000))
           in clamp (max recency_floor decayed)))"

definition reputation_score :: "int \<Rightarrow> instant option \<Rightarrow> instant \<Rightarrow> real \<Rightarrow> real" where
  "reputation_score source_count last_seen_at now hl =
     py_round_digits 4
       (clamp (w_corroboration * corroboration_score source_count + w_recency * recency_score last_seen_at now hl))"

record reputation_view =
  rv_score :: real
  rv_band :: string
  rv_sources :: int
  rv_corroboration :: real
  rv_recency :: real

definition reputation :: "int \<Rightarrow> instant option \<Rightarrow> instant \<Rightarrow> real \<Rightarrow> reputation_view" where
  "reputation source_count last_seen_at now hl =
     (let c = corroboration_score source_count; r = recency_score last_seen_at now hl;
          score = py_round_digits 4 (clamp (w_corroboration * c + w_recency * r))
      in \<lparr>rv_score = score, rv_band = band score, rv_sources = max 0 source_count,
          rv_corroboration = py_round_digits 4 c, rv_recency = py_round_digits 4 r\<rparr>)"

text \<open>A feed match as \<open>match_iocs\<close> gives it, and the keys \<open>score_match\<close> adds.\<close>

record feed_match =
  fm_value :: "string option"
  fm_sources :: "string list"
  fm_last_seen :: "instant option"
  fm_match_kind :: "string option"

record scored_match = feed_match +
  fm_source_count :: nat
  fm_reputation :: real
  fm_score :: real
  fm_band :: string

definition match_kind :: "feed_match \<Rightarrow> string" where
  "match_kind m = (if truthy_str (fm_match_kind m) then the (fm_match_kind m) else ''exact'')"

definition score_match :: "instant \<Rightarrow> real \<Rightarrow> feed_match \<Rightarrow> scored_match" where
  "score_match now hl m =
     (let n = length (fm_sources m);
          rep = reputation_score (int n) (fm_last_seen m) now hl;
          score = py_round_digits 4 (clamp (rep * match_kind_weight (match_kind m)))
      in feed_match.extend m \<lparr>fm_source_count = n, fm_reputation = rep, fm_score = score, fm_band = band score\<rparr>)"

record ti_summary =
  ts_score :: real
  ts_band :: string
  ts_match_count :: nat
  ts_exact_matches :: nat
  ts_distinct_sources :: nat
  ts_matches :: "scored_match list"

definition summarize :: "feed_match list \<Rightarrow> instant \<Rightarrow> real \<Rightarrow> ti_summary" where
  "summarize ms now hl =
     (let scored = sort_key (\<lambda>m. (- fm_score m, opt_str (fm_value m))) (map (score_match now hl) ms);
          best = (case scored of [] \<Rightarrow> 0 | m # _ \<Rightarrow> fm_score m)
      in \<lparr>ts_score = best, ts_band = band best, ts_match_count = length scored,
          ts_exact_matches = length (filter (\<lambda>m. fm_match_kind m = Some ''exact'') scored),
          ts_distinct_sources = card (\<Union>m \<in> set scored. set (fm_sources m)),
          ts_matches = scored\<rparr>)"

section \<open>Lemmas\<close>

lemma clamp_range: "0 \<le> clamp x \<and> clamp x \<le> 1"
  by (simp add: clamp_def)

lemma clamp_mono: "x \<le> y \<Longrightarrow> clamp x \<le> clamp y"
  by (simp add: clamp_def)

lemma clamp_id: "0 \<le> x \<Longrightarrow> x \<le> 1 \<Longrightarrow> clamp x = x"
  by (simp add: clamp_def)

lemma round4_mono: "x \<le> y \<Longrightarrow> py_round_digits 4 x \<le> py_round_digits 4 (y::real)"
  by (simp add: py_round_digits_def py_round_mono divide_right_mono)

lemma round4_range:
  assumes "0 \<le> x" "x \<le> (1::real)"
  shows "0 \<le> py_round_digits 4 x \<and> py_round_digits 4 x \<le> 1"
proof -
  have "0 \<le> py_round (x * 10 ^ 4)" using py_round_ge[of 0 "x * 10 ^ 4"] assms(1) by simp
  moreover have "py_round (x * 10 ^ 4) \<le> 10000" using py_round_le[of "x * 10 ^ 4" 10000] assms(2) by simp
  ultimately show ?thesis by (simp add: py_round_digits_def)
qed

lemma corroboration_range: "0 \<le> corroboration_score n \<and> corroboration_score n \<le> 1"
  by (simp add: corroboration_score_def Let_def clamp_range)

lemma corroboration_mono:
  assumes "m \<le> n" shows "corroboration_score m \<le> corroboration_score n"
proof (cases "m \<le> 0")
  case True
  then show ?thesis using corroboration_range[of n] by (simp add: corroboration_score_def)
next
  case False
  with assms have "(1/2::real) ^ min (nat n) 8 \<le> (1/2) ^ min (nat m) 8"
    by (intro power_decreasing) auto
  with False assms show ?thesis
    by (simp add: corroboration_score_def Let_def max_def clamp_mono)
qed

lemma recency_range: "recency_floor \<le> recency_score seen now hl \<and> recency_score seen now hl \<le> 1"
  by (auto simp: recency_score_def Let_def recency_floor_def clamp_def split: option.split)

lemma recency_fades:
  assumes "now \<le> now'" shows "recency_score seen now' hl \<le> recency_score seen now hl"
proof (cases seen)
  case (Some t)
  let ?age = "\<lambda>n. max 0 (of_int (n - t) / 1000000 / 86400) :: real"
  have "?age now \<le> ?age now'" using assms by (intro max.mono) (simp_all add: divide_right_mono)
  then have "?age now / max hl (1/1000) \<le> ?age now' / max hl (1/1000)"
    by (intro divide_right_mono) auto
  then have "(1/2::real) powr (?age now' / max hl (1/1000)) \<le> (1/2) powr (?age now / max hl (1/1000))"
    by (intro powr_mono') auto
  with Some show ?thesis
    by (simp add: recency_score_def Let_def clamp_mono max.mono)
qed (simp add: recency_score_def)

lemma blend_mono:
  "c \<le> c' \<Longrightarrow> r \<le> r' \<Longrightarrow>
   py_round_digits 4 (clamp (w_corroboration * c + w_recency * r)) \<le>
   py_round_digits 4 (clamp (w_corroboration * c' + w_recency * r'))"
  by (intro round4_mono clamp_mono add_mono mult_left_mono) (simp_all add: w_corroboration_def w_recency_def)

lemma reputation_range: "0 \<le> reputation_score n seen now hl \<and> reputation_score n seen now hl \<le> 1"
  unfolding reputation_score_def by (rule round4_range) (simp_all add: clamp_range)

lemma kind_weight_range: "0 < match_kind_weight k \<and> match_kind_weight k \<le> 1"
  by (simp add: match_kind_weight_def)

lemma score_match_fields [simp]:
  "fm_value (score_match now hl m) = fm_value m" "fm_sources (score_match now hl m) = fm_sources m"
  "fm_last_seen (score_match now hl m) = fm_last_seen m" "fm_match_kind (score_match now hl m) = fm_match_kind m"
  by (simp_all add: score_match_def Let_def feed_match.extend_def)

lemma fm_score_def': "fm_score (score_match now hl m) =
  py_round_digits 4 (clamp (reputation_score (int (length (fm_sources m))) (fm_last_seen m) now hl *
     match_kind_weight (match_kind m)))"
  by (simp add: score_match_def Let_def feed_match.extend_def)

lemma score_range: "0 \<le> fm_score (score_match now hl m) \<and> fm_score (score_match now hl m) \<le> 1"
  unfolding fm_score_def' by (rule round4_range) (simp_all add: clamp_range)

lemma score_fades:
  assumes "now \<le> now'"
  shows "fm_score (score_match now' hl m) \<le> fm_score (score_match now hl m)"
  unfolding fm_score_def' reputation_score_def
  using kind_weight_range[of "match_kind m"] recency_fades[OF assms]
  by (intro round4_mono clamp_mono mult_right_mono blend_mono) (auto intro: less_imp_le)

lemma score_grows:
  assumes "length (fm_sources m) \<le> length ss"
  shows "fm_score (score_match now hl m) \<le> fm_score (score_match now hl (m\<lparr>fm_sources := ss\<rparr>))"
proof -
  have "match_kind (m\<lparr>fm_sources := ss\<rparr>) = match_kind m" by (simp add: match_kind_def)
  then show ?thesis
    unfolding fm_score_def' reputation_score_def
    using kind_weight_range[of "match_kind m"] corroboration_mono[of "int (length (fm_sources m))" "int (length ss)"]
      assms
    by (simp, intro round4_mono clamp_mono mult_right_mono blend_mono) (auto intro: less_imp_le)
qed

lemma score_discounted:
  "fm_score (score_match now hl (m\<lparr>fm_match_kind := Some ''parent_domain''\<rparr>)) \<le>
   fm_score (score_match now hl (m\<lparr>fm_match_kind := Some ''exact''\<rparr>))"
proof -
  let ?r = "reputation_score (int (length (fm_sources m))) (fm_last_seen m) now hl"
  have "?r * (60/100) \<le> ?r * 1" using reputation_range by (intro mult_left_mono) auto
  then show ?thesis
    unfolding fm_score_def' by (simp add: match_kind_def match_kind_weight_def, intro round4_mono clamp_mono) simp
qed

definition scored_list :: "feed_match list \<Rightarrow> instant \<Rightarrow> real \<Rightarrow> scored_match list" where
  "scored_list ms now hl =
     sort_key (\<lambda>m. (- fm_score m, opt_str (fm_value m))) (map (score_match now hl) ms)"

lemma sorted_scores: "sorted_wrt (\<lambda>a b. fm_score b \<le> fm_score a) (scored_list ms now hl)"
proof -
  have "sorted (map (\<lambda>m. (- fm_score m, opt_str (fm_value m))) (scored_list ms now hl))"
    by (simp add: scored_list_def)
  then have "sorted_wrt (\<lambda>a b. (- fm_score a, opt_str (fm_value a)) \<le> (- fm_score b, opt_str (fm_value b)))
      (scored_list ms now hl)"
    by (simp add: sorted_map)
  then show ?thesis by (rule sorted_wrt_mono_rel[rotated]) (auto simp: less_eq_prod_simp)
qed

lemma summarize_fields:
  "ts_matches (summarize ms now hl) = scored_list ms now hl"
  "ts_score (summarize ms now hl) = (case scored_list ms now hl of [] \<Rightarrow> 0 | m # _ \<Rightarrow> fm_score m)"
  "ts_match_count (summarize ms now hl) = length ms"
  by (simp_all add: summarize_def scored_list_def Let_def split: list.split)

lemma set_scored [simp]: "set (scored_list ms now hl) = score_match now hl ` set ms"
  by (simp add: scored_list_def)

lemma scored_Nil [simp]: "scored_list ms now hl = [] \<longleftrightarrow> ms = []"
  by (metis image_is_empty set_empty set_scored)

lemma no_match_score [simp]: "ts_score (summarize [] now hl) = 0"
  by (simp add: summarize_fields scored_list_def)

lemma best_score:
  assumes "ms \<noteq> []"
  shows "ts_score (summarize ms now hl) \<in> (\<lambda>m. fm_score (score_match now hl m)) ` set ms \<and>
         (\<forall>m \<in> set ms. fm_score (score_match now hl m) \<le> ts_score (summarize ms now hl))"
proof -
  obtain b bs where b: "scored_list ms now hl = b # bs"
    using assms by (cases "scored_list ms now hl") auto
  then have s: "ts_score (summarize ms now hl) = fm_score b" by (simp add: summarize_fields)
  have set: "score_match now hl ` set ms = set (b # bs)" by (simp flip: b)
  have "fm_score x \<le> fm_score b" if "x \<in> set (b # bs)" for x
    using sorted_scores[of ms now hl] that b by auto
  then have "fm_score (score_match now hl m) \<le> fm_score b" if "m \<in> set ms" for m
    using that set by blast
  moreover have "b \<in> score_match now hl ` set ms" using set by simp
  ultimately show ?thesis unfolding s by blast
qed

section \<open>Property\<close>

text \<open>C28. A feed hit is graded: the score of an alert is that of its strongest match, between 0 and 1;
  the matches listed are the given ones, strongest first; another match never lowers it and the passing
  of time never raises it; more feeds never lower the score of a match, and a parent-domain match never
  outscores an exact one.\<close>

theorem ti_scores_are_graded:
  fixes ms :: "feed_match list" and hl :: real
  defines "s \<equiv> \<lambda>ms now. ts_score (summarize ms now hl)"
  shows "0 \<le> s ms now \<and> s ms now \<le> 1
   \<and> mset (ts_matches (summarize ms now hl)) = image_mset (score_match now hl) (mset ms)
   \<and> sorted_wrt (\<lambda>a b. fm_score b \<le> fm_score a) (ts_matches (summarize ms now hl))
   \<and> (\<forall>m \<in> set ms. fm_score (score_match now hl m) \<le> s ms now)
   \<and> s ms now \<le> s (m # ms) now
   \<and> s ms (now + int later) \<le> s ms now
   \<and> fm_score (score_match now hl m) \<le> fm_score (score_match now hl (m\<lparr>fm_sources := fm_sources m @ feeds\<rparr>))
   \<and> fm_score (score_match now hl (m\<lparr>fm_match_kind := Some ''parent_domain''\<rparr>)) \<le>
      fm_score (score_match now hl (m\<lparr>fm_match_kind := Some ''exact''\<rparr>))"
proof (intro conjI)
  have range: "0 \<le> s ms now \<and> s ms now \<le> 1" for ms now
    using best_score[of ms now hl] score_range by (cases "ms = []") (auto simp: s_def)
  then show "0 \<le> s ms now" "s ms now \<le> 1" by simp_all
  show "mset (ts_matches (summarize ms now hl)) = image_mset (score_match now hl) (mset ms)"
    by (simp add: summarize_fields scored_list_def)
  show "sorted_wrt (\<lambda>a b. fm_score b \<le> fm_score a) (ts_matches (summarize ms now hl))"
    by (simp add: summarize_fields sorted_scores)
  show best: "\<forall>m \<in> set ms. fm_score (score_match now hl m) \<le> s ms now"
    using best_score[of ms now hl] by (cases "ms = []") (auto simp: s_def)
  show "s ms now \<le> s (m # ms) now"
    using best_score[of ms now hl] best_score[of "m # ms" now hl] range[of "[m]" now] range[of "m # ms" now]
    by (cases "ms = []") (auto simp: s_def)
  show "s ms (now + int later) \<le> s ms now"
  proof (cases "ms = []")
    case False
    then obtain x where x: "x \<in> set ms" "s ms (now + int later) = fm_score (score_match (now + int later) hl x)"
      using best_score[of ms "now + int later" hl] unfolding s_def by blast
    then have "s ms (now + int later) \<le> fm_score (score_match now hl x)" using score_fades[of now "now + int later"] by simp
    with x best show ?thesis by force
  qed (simp add: s_def)
qed (simp_all add: score_grows score_discounted)

lemma ti_scores_are_graded_witness:
  "0 \<le> ts_score (summarize [\<lparr>fm_value = Some ''evil.test'', fm_sources = [''feed''], fm_last_seen = Some 0,
        fm_match_kind = Some ''exact''\<rparr>] 86400000000 30)"
  using ti_scores_are_graded[of "[\<lparr>fm_value = Some ''evil.test'', fm_sources = [''feed''], fm_last_seen = Some 0,
        fm_match_kind = Some ''exact''\<rparr>]" 86400000000 30] by blast

end
