(* ===== verification/Exclusions.thy ===== *)
theory Exclusions
  imports Incident "HOL-Library.Word"
begin

text \<open>
  The exclusion filter, \<open>exclusions/filter.py\<close>: which extracted indicators the analysts' allowlist
  suppresses. IP addresses are words of their width; the dotted IPv4 syntax of the standard library's
  \<open>ipaddress\<close> is written out, its IPv6 syntax is the parameter \<open>six\<close> (\<open>None\<close> where it raises).
\<close>

unbundle bit_operations_syntax

section \<open>IP addresses and networks\<close>

datatype ip_addr = Addr4 "32 word" | Addr6 "128 word"

datatype ip_net = Net4 "32 word" nat | Net6 "128 word" nat

type_synonym ipv6_syntax = "string \<Rightarrow> 128 word option"

definition parse_octet :: "string \<Rightarrow> nat option" where
  "parse_octet s =
     (if s \<noteq> [] \<and> list_all is_digit s \<and> length s \<le> 3 \<and> \<not> (1 < length s \<and> hd s = CHR ''0'')
      then (case parse_digits False 0 s of Some n \<Rightarrow> (if n \<le> 255 then Some n else None) | None \<Rightarrow> None)
      else None)"

definition parse_ipv4 :: "string \<Rightarrow> 32 word option" where
  "parse_ipv4 s =
     (case map parse_octet (split_on (CHR ''.'') s) of
        [Some a, Some b, Some c, Some d] \<Rightarrow> Some (word_of_nat (((a * 256 + b) * 256 + c) * 256 + d))
      | _ \<Rightarrow> None)"

definition ip_address :: "ipv6_syntax \<Rightarrow> string \<Rightarrow> ip_addr option" where
  "ip_address six s =
     (case parse_ipv4 s of Some a \<Rightarrow> Some (Addr4 a) | None \<Rightarrow> map_option Addr6 (six s))"

definition netmask :: "nat \<Rightarrow> nat \<Rightarrow> 'a::len word" where
  "netmask w n = NOT (mask (w - n))"

definition parse_prefix :: "nat \<Rightarrow> string \<Rightarrow> nat option" where
  "parse_prefix w s =
     (if s \<noteq> [] \<and> list_all is_digit s then
        (case parse_digits False 0 s of Some n \<Rightarrow> (if n \<le> w then Some n else None) | None \<Rightarrow> None)
      else None)"

text \<open>A dotted mask: a netmask, or else a host mask.\<close>

definition prefix_of_mask :: "32 word \<Rightarrow> nat option" where
  "prefix_of_mask m =
     (case find (\<lambda>n. m = netmask 32 n) [0..<33] of
        Some n \<Rightarrow> Some n
      | None \<Rightarrow> find (\<lambda>n. NOT m = netmask 32 n) [0..<33])"

definition parse_mask4 :: "string \<Rightarrow> nat option" where
  "parse_mask4 s =
     (case parse_prefix 32 s of Some n \<Rightarrow> Some n | None \<Rightarrow> Option.bind (parse_ipv4 s) prefix_of_mask)"

definition ip_network :: "ipv6_syntax \<Rightarrow> string \<Rightarrow> ip_net option" where
  "ip_network six s =
     (case split_on (CHR ''/'') s of
        [a] \<Rightarrow>
          (case ip_address six a of
             Some (Addr4 x) \<Rightarrow> Some (Net4 x 32) | Some (Addr6 x) \<Rightarrow> Some (Net6 x 128) | None \<Rightarrow> None)
      | [a, m] \<Rightarrow>
          (case ip_address six a of
             Some (Addr4 x) \<Rightarrow> map_option (\<lambda>n. Net4 (x AND netmask 32 n) n) (parse_mask4 m)
           | Some (Addr6 x) \<Rightarrow> map_option (\<lambda>n. Net6 (x AND netmask 128 n) n) (parse_prefix 128 m)
           | None \<Rightarrow> None)
      | _ \<Rightarrow> None)"

fun in_network :: "ip_addr \<Rightarrow> ip_net \<Rightarrow> bool" where
  "in_network (Addr4 x) (Net4 a n) = (x AND netmask 32 n = a)"
| "in_network (Addr6 x) (Net6 a n) = (x AND netmask 128 n = a)"
| "in_network _ _ = False"

section \<open>The filter\<close>

record exclusion =
  ex_id :: uid
  ex_value :: string
  ex_type :: string
  ex_notes :: "string option"
  ex_enabled :: bool
  ex_customer :: "string option"
  ex_created_by :: "uid option"

definition filter_host_of :: "string \<Rightarrow> string option" where
  "filter_host_of url =
     (let after = (case after_scheme url of None \<Rightarrow> url | Some a \<Rightarrow> a);
          host = before_first (CHR ''#'') (before_first (CHR ''?'') (before_first (CHR ''/'') after));
          name = before_first (CHR '':'') (after_first (CHR ''@'') host)
      in if name = [] then None else Some name)"

definition active_rules :: "exclusion list \<Rightarrow> string option \<Rightarrow> exclusion list" where
  "active_rules rules customer =
     filter (\<lambda>r. ex_enabled r \<and> (\<not> truthy_str (ex_customer r) \<or> ex_customer r = customer)) rules"

text \<open>The buckets. A dictionary keeps the last rule stored under a key.\<close>

definition rule_value :: "exclusion \<Rightarrow> string" where
  "rule_value r = strip (ex_value r)"

definition bucket :: "string \<Rightarrow> exclusion list \<Rightarrow> exclusion list" where
  "bucket t rules = filter (\<lambda>r. ex_type r = t \<and> rule_value r \<noteq> []) rules"

definition keyed :: "(exclusion \<Rightarrow> string) \<Rightarrow> exclusion list \<Rightarrow> string \<Rightarrow> exclusion option" where
  "keyed key rules k = find (\<lambda>r. key r = k) (rev rules)"

definition cidr_hit :: "ipv6_syntax \<Rightarrow> exclusion list \<Rightarrow> string \<Rightarrow> exclusion option" where
  "cidr_hit six rules v =
     (case ip_address six v of
        None \<Rightarrow> None
      | Some ip \<Rightarrow>
          find (\<lambda>r. case ip_network six (rule_value r) of None \<Rightarrow> False | Some net \<Rightarrow> in_network ip net)
            (bucket ''cidr'' rules))"

definition ip_hit :: "ipv6_syntax \<Rightarrow> exclusion list \<Rightarrow> string \<Rightarrow> exclusion option" where
  "ip_hit six rules v =
     (case keyed rule_value (bucket ''ip'' rules) v of Some r \<Rightarrow> Some r | None \<Rightarrow> cidr_hit six rules v)"

definition indicator_host :: "string \<Rightarrow> string \<Rightarrow> string option" where
  "indicator_host t v =
     (if t = ''url'' then filter_host_of v
      else if t = ''email'' then
        (if CHR ''@'' \<in> set v then Some (rstrip_char (CHR ''.'') (strip (after_last (CHR ''@'') v))) else None)
      else Some v)"

definition host_hit :: "exclusion list \<Rightarrow> string \<Rightarrow> exclusion option" where
  "host_hit rules host =
     (if host = [] then None
      else
        (case keyed (\<lambda>r. lower (rule_value r)) (bucket ''domain'' rules) host of
           Some r \<Rightarrow> Some r
         | None \<Rightarrow> find (\<lambda>r. suffix (CHR ''.'' # lower (rule_value r)) host) (bucket ''domain'' rules)))"

definition ioc_hit :: "ipv6_syntax \<Rightarrow> exclusion list \<Rightarrow> string \<times> string \<Rightarrow> exclusion option" where
  "ioc_hit six rules ioc =
     (let (t, value) = ioc; v = strip value
      in if v = [] then None
         else if t \<in> {''ipv4'', ''ipv6''} then ip_hit six rules v
         else if t \<in> {''domain'', ''url'', ''email''} then
           (case indicator_host t (lower v) of None \<Rightarrow> None | Some host \<Rightarrow> host_hit rules host)
         else if t \<in> {''sha256'', ''sha1'', ''md5''} then
           keyed (\<lambda>r. lower (rule_value r)) (bucket ''hash'' rules) (lower v)
         else None)"

record excluded_ioc =
  xi_value :: string
  xi_type :: string
  xi_rule :: exclusion

fun split_iocs ::
  "ipv6_syntax \<Rightarrow> exclusion list \<Rightarrow> (string \<times> string) list \<Rightarrow> (string \<times> string) list \<times> excluded_ioc list" where
  "split_iocs six rules [] = ([], [])"
| "split_iocs six rules (ioc # iocs) =
     (let (kept, excluded) = split_iocs six rules iocs
      in case ioc_hit six rules ioc of
           None \<Rightarrow> (ioc # kept, excluded)
         | Some r \<Rightarrow> (kept, \<lparr>xi_value = snd ioc, xi_type = fst ioc, xi_rule = r\<rparr> # excluded))"

definition apply_exclusions ::
  "ipv6_syntax \<Rightarrow> exclusion list \<Rightarrow> string option \<Rightarrow> (string \<times> string) list
     \<Rightarrow> (string \<times> string) list \<times> excluded_ioc list" where
  "apply_exclusions six table customer iocs = split_iocs six (active_rules table customer) iocs"

section \<open>What a rule covers\<close>

text \<open>The contract of the allowlist, rule by rule: an IP rule covers that address as written, a CIDR
  rule the addresses that agree with the network on its prefix bits, a domain rule the host itself and
  every host below it, a hash rule the hash in any case.\<close>

definition agrees_on_prefix :: "nat \<Rightarrow> nat \<Rightarrow> 'a::len word \<Rightarrow> 'a word \<Rightarrow> bool" where
  "agrees_on_prefix w n x y \<longleftrightarrow> (\<forall>i. w - n \<le> i \<and> i < w \<longrightarrow> bit x i = bit y i)"

fun same_network :: "ip_addr \<Rightarrow> ip_net \<Rightarrow> bool" where
  "same_network (Addr4 x) (Net4 a n) = agrees_on_prefix 32 n x a"
| "same_network (Addr6 x) (Net6 a n) = agrees_on_prefix 128 n x a"
| "same_network _ _ = False"

definition below_or_equal :: "string \<Rightarrow> string \<Rightarrow> bool" where
  "below_or_equal host d \<longleftrightarrow> host = d \<or> (\<exists>labels. host = labels @ ''.'' @ d)"

definition covers :: "ipv6_syntax \<Rightarrow> exclusion \<Rightarrow> string \<times> string \<Rightarrow> bool" where
  "covers six r ioc \<longleftrightarrow>
     (let (t, value) = ioc; v = strip value; w = strip (ex_value r)
      in v \<noteq> [] \<and> w \<noteq> [] \<and>
         ((t \<in> {''ipv4'', ''ipv6''} \<and> ex_type r = ''ip'' \<and> v = w) \<or>
          (t \<in> {''ipv4'', ''ipv6''} \<and> ex_type r = ''cidr'' \<and>
           (\<exists>ip net. ip_address six v = Some ip \<and> ip_network six w = Some net \<and> same_network ip net)) \<or>
          (t \<in> {''domain'', ''url'', ''email''} \<and> ex_type r = ''domain'' \<and>
           (\<exists>host. indicator_host t (lower v) = Some host \<and> host \<noteq> [] \<and> below_or_equal host (lower w))) \<or>
          (t \<in> {''sha256'', ''sha1'', ''md5''} \<and> ex_type r = ''hash'' \<and> lower v = lower w)))"

section \<open>Lemmas\<close>

lemma bit_netmask: "bit (netmask w n :: 'a::len word) i \<longleftrightarrow> i < LENGTH('a) \<and> w - n \<le> i"
  by (auto simp: netmask_def bit_simps)

lemma masked_eq_agrees:
  assumes "w = LENGTH('a)"
  shows "x AND netmask w n = (a::'a::len word) AND netmask w n \<longleftrightarrow> agrees_on_prefix w n x a"
  unfolding bit_eq_iff using assms by (auto simp: bit_netmask bit_and_iff agrees_on_prefix_def)

lemma ip_network_masked:
  "ip_network six s = Some (Net4 a n) \<Longrightarrow> a AND netmask 32 n = a"
  "ip_network six s = Some (Net6 b n) \<Longrightarrow> b AND netmask 128 n = b"
  by (auto simp: ip_network_def and.assoc netmask_def split: list.splits option.splits ip_addr.splits)

lemma in_network_agrees:
  "ip_network six s = Some net \<Longrightarrow> in_network ip net \<longleftrightarrow> same_network ip net"
proof -
  assume n: "ip_network six s = Some net"
  show ?thesis
  proof (cases net)
    case (Net4 a k)
    then have "a AND netmask 32 k = a" using n ip_network_masked(1) by simp
    then show ?thesis using Net4 masked_eq_agrees[of 32 _ k a] by (cases ip) auto
  next
    case (Net6 a k)
    then have "a AND netmask 128 k = a" using n ip_network_masked(2) by simp
    then show ?thesis using Net6 masked_eq_agrees[of 128 _ k a] by (cases ip) auto
  qed
qed

lemma keyed_Some: "keyed key rules k = Some r \<Longrightarrow> r \<in> set rules \<and> key r = k"
  unfolding keyed_def by (drule find_Some_in) simp

lemma keyed_None: "keyed key rules k = None \<longleftrightarrow> (\<forall>r \<in> set rules. key r \<noteq> k)"
  by (auto simp: keyed_def find_None_iff)

lemma in_bucket: "r \<in> set (bucket t rules) \<longleftrightarrow> r \<in> set rules \<and> ex_type r = t \<and> rule_value r \<noteq> []"
  by (auto simp: bucket_def)

lemma cidr_hit_iff:
  "cidr_hit six rules v = Some r \<Longrightarrow>
     r \<in> set (bucket ''cidr'' rules) \<and>
     (\<exists>ip net. ip_address six v = Some ip \<and> ip_network six (rule_value r) = Some net \<and> same_network ip net)"
  "cidr_hit six rules v = None \<Longrightarrow> x \<in> set (bucket ''cidr'' rules) \<Longrightarrow>
     \<not> (\<exists>ip net. ip_address six v = Some ip \<and> ip_network six (rule_value x) = Some net \<and> same_network ip net)"
  by (auto simp: cidr_hit_def in_network_agrees find_None_iff split: option.splits dest!: find_Some_in)

lemma suffix_below: "suffix (CHR ''.'' # d) host \<longleftrightarrow> (\<exists>labels. host = labels @ ''.'' @ d)"
  by (auto simp: suffix_def)

lemma host_hit_iff:
  "host_hit rules host = Some r \<Longrightarrow>
     r \<in> set (bucket ''domain'' rules) \<and> host \<noteq> [] \<and> below_or_equal host (lower (rule_value r))"
  "host_hit rules host = None \<Longrightarrow> host \<noteq> [] \<Longrightarrow> x \<in> set (bucket ''domain'' rules) \<Longrightarrow>
     \<not> below_or_equal host (lower (rule_value x))"
  by (auto simp: host_hit_def below_or_equal_def suffix_below keyed_None find_None_iff
      split: if_splits option.splits dest!: find_Some_in keyed_Some)

lemma covers_ip:
  "t \<in> {''ipv4'', ''ipv6''} \<Longrightarrow>
   covers six r (t, v) \<longleftrightarrow> strip v \<noteq> [] \<and> rule_value r \<noteq> [] \<and>
     (ex_type r = ''ip'' \<and> strip v = rule_value r \<or>
      ex_type r = ''cidr'' \<and>
      (\<exists>ip net. ip_address six (strip v) = Some ip \<and> ip_network six (rule_value r) = Some net \<and> same_network ip net))"
  by (elim insertE emptyE; simp add: covers_def Let_def rule_value_def)

lemma covers_host:
  "t \<in> {''domain'', ''url'', ''email''} \<Longrightarrow>
   covers six r (t, v) \<longleftrightarrow> strip v \<noteq> [] \<and> rule_value r \<noteq> [] \<and> ex_type r = ''domain'' \<and>
     (\<exists>host. indicator_host t (lower (strip v)) = Some host \<and> host \<noteq> [] \<and>
        below_or_equal host (lower (rule_value r)))"
  by (elim insertE emptyE; simp add: covers_def Let_def rule_value_def)

lemma covers_hash:
  "t \<in> {''sha256'', ''sha1'', ''md5''} \<Longrightarrow>
   covers six r (t, v) \<longleftrightarrow> strip v \<noteq> [] \<and> rule_value r \<noteq> [] \<and> ex_type r = ''hash'' \<and>
     lower (strip v) = lower (rule_value r)"
  by (elim insertE emptyE; simp add: covers_def Let_def rule_value_def)

lemma covers_other:
  "t \<notin> {''ipv4'', ''ipv6''} \<Longrightarrow> t \<notin> {''domain'', ''url'', ''email''} \<Longrightarrow> t \<notin> {''sha256'', ''sha1'', ''md5''} \<Longrightarrow>
   \<not> covers six r (t, v)"
  by (auto simp: covers_def Let_def)

lemma ioc_hit_blank: "strip v = [] \<Longrightarrow> ioc_hit six rules (t, v) = None"
  by (simp add: ioc_hit_def)

lemma ioc_hit_ip:
  "strip v \<noteq> [] \<Longrightarrow> t \<in> {''ipv4'', ''ipv6''} \<Longrightarrow> ioc_hit six rules (t, v) = ip_hit six rules (strip v)"
  by (elim insertE emptyE; simp add: ioc_hit_def)

lemma ioc_hit_host:
  "strip v \<noteq> [] \<Longrightarrow> t \<in> {''domain'', ''url'', ''email''} \<Longrightarrow>
     ioc_hit six rules (t, v) =
       (case indicator_host t (lower (strip v)) of None \<Rightarrow> None | Some host \<Rightarrow> host_hit rules host)"
  by (elim insertE emptyE; simp add: ioc_hit_def)

lemma ioc_hit_hash:
  "strip v \<noteq> [] \<Longrightarrow> t \<in> {''sha256'', ''sha1'', ''md5''} \<Longrightarrow>
     ioc_hit six rules (t, v) = keyed (\<lambda>r. lower (rule_value r)) (bucket ''hash'' rules) (lower (strip v))"
  by (elim insertE emptyE; simp add: ioc_hit_def)

lemma ioc_hit_other:
  "t \<notin> {''ipv4'', ''ipv6''} \<Longrightarrow> t \<notin> {''domain'', ''url'', ''email''} \<Longrightarrow> t \<notin> {''sha256'', ''sha1'', ''md5''} \<Longrightarrow>
     ioc_hit six rules (t, v) = None"
  by (simp only: ioc_hit_def Let_def prod.case if_False if_cancel)

lemma ip_hit_covers:
  assumes "t \<in> {''ipv4'', ''ipv6''}" "strip v \<noteq> []"
  shows "case ip_hit six rules (strip v) of
           Some r \<Rightarrow> r \<in> set rules \<and> covers six r (t, v)
         | None \<Rightarrow> \<not> (\<exists>r \<in> set rules. covers six r (t, v))"
proof (cases "keyed rule_value (bucket ''ip'' rules) (strip v)")
  case (Some r)
  then show ?thesis
    using keyed_Some[OF Some] assms by (simp add: ip_hit_def in_bucket covers_ip)
next
  case no_ip: None
  show ?thesis
  proof (cases "cidr_hit six rules (strip v)")
    case (Some r)
    then show ?thesis
      using no_ip cidr_hit_iff(1)[OF Some] assms by (simp add: ip_hit_def in_bucket covers_ip)
  next
    case None
    have "\<not> covers six r (t, v)" if r: "r \<in> set rules" for r
    proof -
      have "ex_type r = ''ip'' \<Longrightarrow> rule_value r \<noteq> [] \<Longrightarrow> strip v \<noteq> rule_value r"
        using no_ip r by (auto simp: keyed_None in_bucket)
      moreover have "ex_type r = ''cidr'' \<Longrightarrow> rule_value r \<noteq> [] \<Longrightarrow>
        \<not> (\<exists>ip net. ip_address six (strip v) = Some ip \<and> ip_network six (rule_value r) = Some net \<and> same_network ip net)"
        using cidr_hit_iff(2)[OF None, of r] r by (simp add: in_bucket)
      ultimately show ?thesis unfolding covers_ip[OF assms(1)] by blast
    qed
    with None no_ip show ?thesis by (auto simp: ip_hit_def)
  qed
qed

lemma host_covers:
  assumes "t \<in> {''domain'', ''url'', ''email''}" "strip v \<noteq> []"
  shows "case (case indicator_host t (lower (strip v)) of None \<Rightarrow> None | Some host \<Rightarrow> host_hit rules host) of
           Some r \<Rightarrow> r \<in> set rules \<and> covers six r (t, v)
         | None \<Rightarrow> \<not> (\<exists>r \<in> set rules. covers six r (t, v))"
proof (cases "indicator_host t (lower (strip v))")
  case None
  then show ?thesis using assms(1) by (simp add: covers_host)
next
  case h: (Some host)
  show ?thesis
  proof (cases "host_hit rules host")
    case (Some r)
    then show ?thesis
      using h host_hit_iff(1)[OF Some] assms by (simp add: in_bucket covers_host)
  next
    case None
    have "\<not> covers six r (t, v)" if "r \<in> set rules" for r
      using host_hit_iff(2)[OF None, of r] h that
      unfolding covers_host[OF assms(1)] in_bucket by auto
    with None h show ?thesis by simp
  qed
qed

lemma ioc_hit_spec:
  "case ioc_hit six rules ioc of
     Some r \<Rightarrow> r \<in> set rules \<and> covers six r ioc
   | None \<Rightarrow> \<not> (\<exists>r \<in> set rules. covers six r ioc)"
proof -
  obtain t v where ioc: "ioc = (t, v)" by fastforce
  consider (blank) "strip v = []" | (ip) "strip v \<noteq> []" "t \<in> {''ipv4'', ''ipv6''}"
    | (host) "strip v \<noteq> []" "t \<in> {''domain'', ''url'', ''email''}"
    | (hash) "strip v \<noteq> []" "t \<in> {''sha256'', ''sha1'', ''md5''}"
    | (other) "t \<notin> {''ipv4'', ''ipv6''}" "t \<notin> {''domain'', ''url'', ''email''}" "t \<notin> {''sha256'', ''sha1'', ''md5''}"
    by argo
  then show ?thesis
  proof cases
    case blank
    then have "\<not> covers six r (t, v)" for r by (simp add: covers_def)
    with blank show ?thesis by (simp add: ioc ioc_hit_blank)
  next
    case ip
    then show ?thesis unfolding ioc ioc_hit_ip[OF ip] by (intro ip_hit_covers)
  next
    case host
    then show ?thesis unfolding ioc ioc_hit_host[OF host] by (intro host_covers)
  next
    case hash
    let ?k = "keyed (\<lambda>r. lower (rule_value r)) (bucket ''hash'' rules) (lower (strip v))"
    show ?thesis
    proof (cases ?k)
      case None
      then have "\<forall>r \<in> set (bucket ''hash'' rules). lower (rule_value r) \<noteq> lower (strip v)"
        by (simp only: keyed_None)
      with None show ?thesis
        unfolding ioc ioc_hit_hash[OF hash] covers_hash[OF hash(2)] by (auto simp: in_bucket)
    next
      case (Some r)
      with keyed_Some[OF Some] hash(1) show ?thesis
        unfolding ioc ioc_hit_hash[OF hash] covers_hash[OF hash(2)] by (simp add: in_bucket)
    qed
  next
    case other
    have "\<not> covers six r (t, v)" for r by (rule covers_other) (rule other)+
    then show ?thesis unfolding ioc ioc_hit_other[OF other] by simp
  qed
qed

lemma ioc_hit_covers: "ioc_hit six rules ioc = Some r \<Longrightarrow> r \<in> set rules \<and> covers six r ioc"
  using ioc_hit_spec[where six = six and rules = rules and ioc = ioc] by simp

lemma ioc_hit_None_iff: "ioc_hit six rules ioc = None \<longleftrightarrow> \<not> list_ex (\<lambda>r. covers six r ioc) rules"
  using ioc_hit_spec[where six = six and rules = rules and ioc = ioc] by (cases "ioc_hit six rules ioc") (auto simp: list_ex_iff)

lemma split_iocs_spec:
  "fst (split_iocs six rules iocs) = filter (\<lambda>i. \<not> list_ex (\<lambda>r. covers six r i) rules) iocs \<and>
   map (\<lambda>x. (xi_type x, xi_value x)) (snd (split_iocs six rules iocs)) =
     filter (\<lambda>i. list_ex (\<lambda>r. covers six r i) rules) iocs \<and>
   (\<forall>x \<in> set (snd (split_iocs six rules iocs)).
      xi_rule x \<in> set rules \<and> covers six (xi_rule x) (xi_type x, xi_value x))"
proof (induction iocs)
  case (Cons ioc iocs)
  obtain kept excluded where s: "split_iocs six rules iocs = (kept, excluded)" by fastforce
  show ?case
  proof (cases "ioc_hit six rules ioc")
    case None
    with Cons s show ?thesis by (auto simp: ioc_hit_None_iff[symmetric])
  next
    case (Some r)
    then have "list_ex (\<lambda>r. covers six r ioc) rules" using ioc_hit_None_iff[of six rules ioc] by simp
    with Some Cons s ioc_hit_covers[OF Some] show ?thesis by simp
  qed
qed simp

section \<open>Property\<close>

text \<open>C12. The filter implements the allowlist's contract: in their order, the indicators kept are those
  no active rule covers and the ones set aside those some active rule covers, each with an enabled rule
  of the table, global or of the incident's customer, that covers it.\<close>

theorem filter_refines_the_allowlist:
  defines "active \<equiv> \<lambda>table customer. filter (\<lambda>r. ex_enabled r \<and>
      (\<not> truthy_str (ex_customer r) \<or> ex_customer r = customer)) table"
  shows "fst (apply_exclusions six table customer iocs) =
           filter (\<lambda>i. \<not> list_ex (\<lambda>r. covers six r i) (active table customer)) iocs
       \<and> map (\<lambda>x. (xi_type x, xi_value x)) (snd (apply_exclusions six table customer iocs)) =
           filter (\<lambda>i. list_ex (\<lambda>r. covers six r i) (active table customer)) iocs
       \<and> list_all (\<lambda>x. xi_rule x \<in> set (active table customer) \<and>
             covers six (xi_rule x) (xi_type x, xi_value x)) (snd (apply_exclusions six table customer iocs))"
  using split_iocs_spec[of six "active_rules table customer" iocs]
  unfolding apply_exclusions_def active_def active_rules_def list_all_iff by blast

definition example_cidr :: exclusion where
  "example_cidr =
     \<lparr>ex_id = 1, ex_value = ''10.1.0.0/16'', ex_type = ''cidr'', ex_notes = None, ex_enabled = True,
      ex_customer = None, ex_created_by = None\<rparr>"

text \<open>The contract on concrete addresses: the boundary of a network.\<close>

lemma example_addresses:
  "ip_address (\<lambda>_. None) ''10.1.255.255'' = Some (Addr4 167903231)"
  "ip_address (\<lambda>_. None) ''10.2.0.0'' = Some (Addr4 167903232)"
  "ip_network (\<lambda>_. None) ''10.1.0.0/16'' = Some (Net4 167837696 16)"
proof -
  have s: "split_on (CHR ''.'') ''10.1.255.255'' = [''10'', ''1'', ''255'', ''255'']"
    "split_on (CHR ''.'') ''10.2.0.0'' = [''10'', ''2'', ''0'', ''0'']"
    "split_on (CHR ''.'') ''10.1.0.0'' = [''10'', ''1'', ''0'', ''0'']"
    "split_on (CHR ''/'') ''10.1.0.0/16'' = [''10.1.0.0'', ''16'']"
    and o: "parse_octet ''10'' = Some 10" "parse_octet ''1'' = Some 1" "parse_octet ''2'' = Some 2"
    "parse_octet ''0'' = Some 0" "parse_octet ''255'' = Some 255" "parse_prefix 32 ''16'' = Some 16"
    by code_simp+
  show "ip_address (\<lambda>_. None) ''10.1.255.255'' = Some (Addr4 167903231)"
    "ip_address (\<lambda>_. None) ''10.2.0.0'' = Some (Addr4 167903232)"
    "ip_network (\<lambda>_. None) ''10.1.0.0/16'' = Some (Net4 167837696 16)"
    by (simp_all only: ip_network_def ip_address_def parse_ipv4_def parse_mask4_def s o list.case list.map
        option.case option.map ip_addr.case)
       (simp_all add: netmask_def mask_eq_exp_minus_1)
qed

lemma example_filter:
  "apply_exclusions (\<lambda>_. None) [example_cidr] None [(''ipv4'', ''10.1.255.255''), (''ipv4'', ''10.2.0.0'')] =
     ([(''ipv4'', ''10.2.0.0'')], [\<lparr>xi_value = ''10.1.255.255'', xi_type = ''ipv4'', xi_rule = example_cidr\<rparr>])"
proof -
  have s: "strip ''10.1.255.255'' = ''10.1.255.255''" "strip ''10.2.0.0'' = ''10.2.0.0''"
    "strip ''10.1.0.0/16'' = ''10.1.0.0/16''"
    by code_simp+
  show ?thesis
    by (simp add: apply_exclusions_def active_rules_def ioc_hit_def ip_hit_def keyed_def bucket_def cidr_hit_def
        rule_value_def s example_cidr_def example_addresses netmask_def mask_eq_exp_minus_1)
qed

lemma filter_refines_the_allowlist_witness:
  "covers (\<lambda>_. None) example_cidr (''ipv4'', ''10.1.255.255'') \<and>
   \<not> covers (\<lambda>_. None) example_cidr (''ipv4'', ''10.2.0.0'')"
proof -
  let ?iocs = "[(''ipv4'', ''10.1.255.255''), (''ipv4'', ''10.2.0.0'')]"
  have active: "filter (\<lambda>r. ex_enabled r \<and> (\<not> truthy_str (ex_customer r) \<or> ex_customer r = None)) [example_cidr] =
      [example_cidr]"
    by (simp add: example_cidr_def)
  show ?thesis
    using filter_refines_the_allowlist[of "\<lambda>_. None" "[example_cidr]" None ?iocs, unfolded example_filter active]
    by (auto split: if_splits)
qed

end
