(* ===== verification/Ti_Lookup.thy ===== *)
theory Ti_Lookup
  imports Ti_Scoring Exclusions
begin

text \<open>
  Which lines of a feed become indicators, \<open>threat_intel/classifier.py\<close>, and matching the indicators of an alert
  against the feed table, \<open>threat_intel/lookup.py\<close>: the exact leg and the parent-domain leg of its SQL statement
  over the rows of \<open>threat_iocs\<close>, with SQL's \<open>LIKE\<close> written out. The database refuses a pattern that ends in the
  escape character, which only a row of a TAXII feed can cause; here it matches nothing.
\<close>

section \<open>The classifier\<close>

definition label_char :: "char \<Rightarrow> bool" where
  "label_char c \<longleftrightarrow>
     is_digit c \<or> (65 \<le> char_code c \<and> char_code c \<le> 90) \<or> (97 \<le> char_code c \<and> char_code c \<le> 122) \<or>
     c = CHR ''-'' \<or> c = CHR ''_''"

definition ascii_letter :: "char \<Rightarrow> bool" where
  "ascii_letter c \<longleftrightarrow> (65 \<le> char_code c \<and> char_code c \<le> 90) \<or> (97 \<le> char_code c \<and> char_code c \<le> 122)"

definition domain_label :: "string \<Rightarrow> bool" where
  "domain_label w \<longleftrightarrow>
     1 \<le> length w \<and> length w \<le> 63 \<and> list_all label_char w \<and> hd w \<noteq> CHR ''-'' \<and> last w \<noteq> CHR ''-''"

text \<open>A label holds no dot, so the pattern matches in one way only: the labels, and the top-level domain.\<close>

definition domain_re :: "string \<Rightarrow> bool" where
  "domain_re s \<longleftrightarrow>
     1 \<le> length s \<and> length s \<le> 253 \<and>
     (case rev (split_on (CHR ''.'') s) of
        tld # l # ls \<Rightarrow>
          2 \<le> length tld \<and> length tld \<le> 63 \<and> list_all ascii_letter tld \<and> list_all domain_label (l # ls)
      | _ \<Rightarrow> False)"

definition is_ip :: "ipv6_syntax \<Rightarrow> string \<Rightarrow> bool" where
  "is_ip six s \<longleftrightarrow> ip_address six s \<noteq> None"

definition is_domain :: "ipv6_syntax \<Rightarrow> string \<Rightarrow> bool" where
  "is_domain six s \<longleftrightarrow> \<not> is_ip six s \<and> domain_re s"

definition is_hash :: "string \<Rightarrow> bool" where
  "is_hash s \<longleftrightarrow>
     length s \<in> set [32, 40, 64] \<and>
     list_all (\<lambda>c. is_digit c \<or> (65 \<le> char_code c \<and> char_code c \<le> 70) \<or> (97 \<le> char_code c \<and> char_code c \<le> 102)) s"

definition is_web_url :: "string \<Rightarrow> bool" where
  "is_web_url s \<longleftrightarrow> prefix ''http://'' (lower s) \<or> prefix ''https://'' (lower s)"

text \<open>\<open>strip(",;'\"")\<close>\<close>

definition strip_quotes :: "string \<Rightarrow> string" where
  "strip_quotes s =
     (let q = (\<lambda>c. c \<in> set [CHR '','', CHR '';'', CHR 0x27, CHR 0x22])
      in rev (dropWhile q (rev (dropWhile q s))))"

definition classify :: "ipv6_syntax \<Rightarrow> string \<Rightarrow> string option \<Rightarrow> (string \<times> string) option" where
  "classify six raw kind_hint =
     (let line = strip_quotes (strip raw)
      in if line = [] \<or> hd line = CHR ''#'' then None
         else
           (let hint = lower (if truthy_str kind_hint then opt_str kind_hint else ''auto'')
            in if hint = ''auto'' then
                 (if is_web_url line then (if length line \<le> 2048 then Some (''url'', line) else None)
                  else if is_ip six line then Some (''ip'', line)
                  else if is_hash line then Some (''hash'', lower line)
                  else if is_domain six line then Some (''domain'', lower line)
                  else None)
               else if hint = ''url'' then (if is_web_url line \<and> length line \<le> 2048 then Some (''url'', line) else None)
               else if hint = ''ip'' then (if is_ip six line then Some (''ip'', line) else None)
               else if hint = ''domain'' then (if is_domain six line then Some (''domain'', lower line) else None)
               else if hint = ''hash'' then (if is_hash line then Some (''hash'', lower line) else None)
               else None))"

section \<open>The lookup\<close>

record threat_row =
  th_value :: string
  th_ioc_type :: string
  th_first_seen :: "instant option"
  th_last_seen :: "instant option"
  th_sources :: "string list option"

record ioc_match =
  im_value :: string
  im_alert_value :: string
  im_ioc_type :: string
  im_match_kind :: string
  im_first_seen :: "instant option"
  im_last_seen :: "instant option"
  im_sources :: "string list"

function like :: "string \<Rightarrow> string \<Rightarrow> bool" where
  "like [] s = (s = [])"
| "like (c # p) s =
     (if c = CHR ''%'' then like p s \<or> (case s of [] \<Rightarrow> False | _ # s' \<Rightarrow> like (c # p) s')
      else if c = CHR 0x5C then
        (case (p, s) of (d # p', e # s') \<Rightarrow> d = e \<and> like p' s' | _ \<Rightarrow> False)
      else (case s of [] \<Rightarrow> False | e # s' \<Rightarrow> (c = CHR ''_'' \<or> c = e) \<and> like p s'))"
  by pat_completeness auto
termination
  by (relation "measure (\<lambda>(p, s). length p + length s)") auto

declare like.simps(2) [simp del]

text \<open>The trimmed text values of the alert, and those that may be host names, in lower case.\<close>

definition norm_values :: "(string \<times> pyval) list \<Rightarrow> string list" where
  "norm_values iocs =
     List.map_filter (\<lambda>(_, v). case v of PyStr s \<Rightarrow> (if strip s = [] then None else Some (strip s)) | _ \<Rightarrow> None)
       iocs"

definition maybe_domain :: "string \<Rightarrow> bool" where
  "maybe_domain v \<longleftrightarrow>
     CHR ''/'' \<notin> set v \<and> CHR '' '' \<notin> set v \<and> CHR ''.'' \<in> set v \<and> CHR '':'' \<notin> set v"

definition alert_domains :: "(string \<times> pyval) list \<Rightarrow> string list" where
  "alert_domains iocs = map lower (filter maybe_domain (norm_values iocs))"

definition feed_hit :: "threat_row \<Rightarrow> string \<Rightarrow> string \<Rightarrow> ioc_match" where
  "feed_hit t alert_value kind =
     \<lparr>im_value = th_value t, im_alert_value = alert_value, im_ioc_type = th_ioc_type t, im_match_kind = kind,
      im_first_seen = th_first_seen t, im_last_seen = th_last_seen t,
      im_sources = (case th_sources t of None \<Rightarrow> [] | Some ss \<Rightarrow> ss)\<rparr>"

definition exact_leg :: "threat_row list \<Rightarrow> string list \<Rightarrow> ioc_match list" where
  "exact_leg feeds vals = map (\<lambda>t. feed_hit t (th_value t) ''exact'') (filter (\<lambda>t. th_value t \<in> set vals) feeds)"

definition parent_leg :: "threat_row list \<Rightarrow> string list \<Rightarrow> ioc_match list" where
  "parent_leg feeds domains =
     concat (map (\<lambda>t. map (\<lambda>d. feed_hit t d ''parent_domain'')
                        (filter (\<lambda>d. th_ioc_type t = ''domain'' \<and> d \<noteq> th_value t \<and>
                                     like (''%.'' @ th_value t) d) domains)) feeds)"

definition match_iocs :: "threat_row list \<Rightarrow> (string \<times> pyval) list \<Rightarrow> ioc_match list" where
  "match_iocs feeds iocs =
     (if norm_values iocs = [] then []
      else exact_leg feeds (norm_values iocs) @ parent_leg feeds (alert_domains iocs))"

definition feed_match_of :: "ioc_match \<Rightarrow> feed_match" where
  "feed_match_of m =
     \<lparr>fm_value = Some (im_value m), fm_sources = im_sources m, fm_last_seen = im_last_seen m,
      fm_match_kind = Some (im_match_kind m)\<rparr>"

section \<open>Lemmas\<close>

text \<open>A listed name as \<open>LIKE\<close> reads it: an underscore stands for any character.\<close>

definition stands_for :: "string \<Rightarrow> string \<Rightarrow> bool" where
  "stands_for v w \<longleftrightarrow> list_all2 (\<lambda>a b. a = CHR ''_'' \<or> a = b) v w"

lemma like_stands_for: "CHR ''%'' \<notin> set p \<Longrightarrow> CHR 0x5C \<notin> set p \<Longrightarrow> like p s \<longleftrightarrow> stands_for p s"
proof (induction p arbitrary: s)
  case (Cons c p)
  then have "c \<noteq> CHR ''%''" "c \<noteq> CHR 0x5C" by auto
  with Cons show ?case by (cases s) (auto simp: like.simps(2) stands_for_def)
qed (simp add: stands_for_def)

lemma stands_for_itself: "CHR ''_'' \<notin> set v \<Longrightarrow> stands_for v w \<longleftrightarrow> w = v"
  unfolding stands_for_def by (induction v arbitrary: w) (auto simp: list_all2_Cons1)

lemma like_percent: "like (CHR ''%'' # p) s \<longleftrightarrow> (\<exists>u v. s = u @ v \<and> like p v)"
proof (induction s)
  case Nil
  show ?case by (simp add: like.simps(2))
next
  case (Cons c s)
  have "like (CHR ''%'' # p) (c # s) \<longleftrightarrow> like p (c # s) \<or> like (CHR ''%'' # p) s"
    by (subst like.simps(2)) simp
  then show ?case unfolding Cons.IH by (auto simp: Cons_eq_append_conv)
qed

text \<open>What the classifier stores as a domain has no other character that \<open>LIKE\<close> reads specially.\<close>

lemma label_char_lower: "label_char c \<Longrightarrow> lower_char c \<noteq> CHR ''%'' \<and> lower_char c \<noteq> CHR 0x5C"
proof -
  assume c: "label_char c"
  have "char_code (lower_char c) = (if 65 \<le> char_code c \<and> char_code c \<le> 90 then char_code c + 32 else char_code c)"
    by (simp add: lower_char_def char_code_def)
  with c have "char_code (lower_char c) \<noteq> 37 \<and> char_code (lower_char c) \<noteq> 92"
    by (auto simp: label_char_def is_digit_def char_code_def split: if_splits)
  then show ?thesis by (auto simp: char_code_def)
qed

lemma split_on_chars: "c \<in> set s \<Longrightarrow> c = d \<or> (\<exists>w \<in> set (split_on d s). c \<in> set w)"
  by (induction s) (auto split: list.split)

lemma domain_re_chars: "domain_re s \<Longrightarrow> c \<in> set s \<Longrightarrow> c = CHR ''.'' \<or> label_char c"
proof -
  assume d: "domain_re s" and c: "c \<in> set s"
  have tld: "ascii_letter x \<Longrightarrow> label_char x" for x by (auto simp: ascii_letter_def label_char_def)
  obtain tld ls where ls: "rev (split_on (CHR ''.'') s) = tld # ls" "list_all ascii_letter tld" "list_all domain_label ls"
    using d by (auto simp: domain_re_def split: list.splits)
  have "list_all label_char w" if "w \<in> set (tld # ls)" for w
    using that ls(2,3) tld by (auto simp: list_all_iff domain_label_def)
  moreover have "set (split_on (CHR ''.'') s) = set (tld # ls)" by (simp flip: ls(1))
  ultimately show ?thesis using split_on_chars[OF c, of "CHR ''.''"] by (auto simp: list_all_iff)
qed

lemma classified_domain_chars:
  assumes "classify six raw hint = Some (''domain'', v)"
  shows "CHR ''%'' \<notin> set v \<and> CHR 0x5C \<notin> set v"
proof -
  obtain s where s: "domain_re s" "v = lower s"
  proof -
    define line where "line = strip_quotes (strip raw)"
    have "is_domain six line \<and> v = lower line"
      using assms unfolding classify_def Let_def line_def[symmetric] by (simp split: if_split_asm)
    then show ?thesis using that[of line] by (simp add: is_domain_def)
  qed
  have "\<forall>c \<in> set s. lower_char c \<noteq> CHR ''%'' \<and> lower_char c \<noteq> CHR 0x5C"
  proof
    fix c assume "c \<in> set s"
    with domain_re_chars[OF s(1)] consider "c = CHR ''.''" | "label_char c" by blast
    then show "lower_char c \<noteq> CHR ''%'' \<and> lower_char c \<noteq> CHR 0x5C"
      by cases (simp add: lower_char_def char_code_def, rule label_char_lower)
  qed
  then have "\<forall>c \<in> set (map lower_char s). c \<noteq> CHR ''%'' \<and> c \<noteq> CHR 0x5C" by simp
  then show ?thesis unfolding s(2) lower_def by blast
qed

lemma like_below:
  assumes "CHR ''%'' \<notin> set v" "CHR 0x5C \<notin> set v"
  shows "like (''%.'' @ v) d \<longleftrightarrow> (\<exists>sub w. d = sub @ CHR ''.'' # w \<and> stands_for v w)"
proof -
  have "like (CHR ''.'' # v) x \<longleftrightarrow> (\<exists>w. x = CHR ''.'' # w \<and> stands_for v w)" for x
    using assms by (subst like_stands_for) (auto simp: stands_for_def list_all2_Cons1)
  moreover have "''%.'' @ v = CHR ''%'' # CHR ''.'' # v" by simp
  ultimately show ?thesis by (simp only: like_percent) blast
qed

lemma below_is_longer: "stands_for v w \<Longrightarrow> sub @ c # w \<noteq> v"
  using list_all2_lengthD by (fastforce simp: stands_for_def)

lemma feed_hit_eqD:
  "feed_hit t a k = feed_hit t' a' k' \<Longrightarrow>
   th_value t = th_value t' \<and> th_ioc_type t = th_ioc_type t' \<and> a = a' \<and> k = k'"
  by (simp add: feed_hit_def)

section \<open>Property\<close>

text \<open>C29. The feed lookup reports exactly the warranted hits. For a row of the table, whose value the classifier made
  if it is a domain: an exact hit just when its value is one of the alert's trimmed values as the alert writes it, and
  a parent-domain hit just for each host name of the alert, in lower case, that lies below the listed name, label by
  label, where an underscore of the listed name stands for any character. Every reported hit is a hit of a row, and
  the summary counts them all. Rows of TAXII feeds do not come from the classifier.\<close>

theorem feed_hits_are_warranted:
  assumes "t \<in> set feeds"
    and "th_ioc_type t = ''domain'' \<Longrightarrow> classify six raw hint = Some (''domain'', th_value t)"
  shows "(feed_hit t a kind \<in> set (match_iocs feeds iocs) \<longleftrightarrow>
           (kind = ''exact'' \<and> a = th_value t \<and> a \<in> set (norm_values iocs)) \<or>
           (kind = ''parent_domain'' \<and> th_ioc_type t = ''domain'' \<and> a \<in> set (alert_domains iocs) \<and>
            (\<exists>sub w. a = sub @ CHR ''.'' # w \<and> stands_for (th_value t) w)))
       \<and> (\<forall>m \<in> set (match_iocs feeds iocs). \<exists>t \<in> set feeds. \<exists>a. m \<in> {feed_hit t a ''exact'', feed_hit t a ''parent_domain''})
       \<and> ts_match_count (summarize (map feed_match_of (match_iocs feeds iocs)) now hl) = length (match_iocs feeds iocs)"
proof (intro conjI)
  have exacts: "feed_hit t a kind \<in> set (exact_leg feeds vs) \<longleftrightarrow> kind = ''exact'' \<and> a = th_value t \<and> a \<in> set vs" for vs
    using assms(1) by (auto simp: exact_leg_def dest!: feed_hit_eqD)
  have parents: "feed_hit t a kind \<in> set (parent_leg feeds ds) \<longleftrightarrow>
      kind = ''parent_domain'' \<and> th_ioc_type t = ''domain'' \<and> a \<in> set ds \<and> a \<noteq> th_value t \<and> like (''%.'' @ th_value t) a" for ds
    using assms(1) by (fastforce simp: parent_leg_def simp del: append_Cons dest!: feed_hit_eqD)
  have below: "a \<noteq> th_value t \<and> like (''%.'' @ th_value t) a \<longleftrightarrow>
      (\<exists>sub w. a = sub @ CHR ''.'' # w \<and> stands_for (th_value t) w)" if "th_ioc_type t = ''domain''"
  proof -
    have "like (''%.'' @ th_value t) a \<longleftrightarrow> (\<exists>sub w. a = sub @ CHR ''.'' # w \<and> stands_for (th_value t) w)"
      using classified_domain_chars[OF assms(2)[OF that]] by (intro like_below) simp_all
    then show ?thesis using below_is_longer by metis
  qed
  have "norm_values iocs = [] \<Longrightarrow> alert_domains iocs = []" by (simp add: alert_domains_def)
  then have "feed_hit t a kind \<in> set (match_iocs feeds iocs) \<longleftrightarrow>
      feed_hit t a kind \<in> set (exact_leg feeds (norm_values iocs)) \<or>
      feed_hit t a kind \<in> set (parent_leg feeds (alert_domains iocs))"
    by (cases "norm_values iocs = []") (simp_all add: match_iocs_def exacts parents)
  then show "feed_hit t a kind \<in> set (match_iocs feeds iocs) \<longleftrightarrow>
      (kind = ''exact'' \<and> a = th_value t \<and> a \<in> set (norm_values iocs)) \<or>
      (kind = ''parent_domain'' \<and> th_ioc_type t = ''domain'' \<and> a \<in> set (alert_domains iocs) \<and>
       (\<exists>sub w. a = sub @ CHR ''.'' # w \<and> stands_for (th_value t) w))"
    unfolding exacts parents using below by blast
  show "\<forall>m \<in> set (match_iocs feeds iocs). \<exists>t \<in> set feeds. \<exists>a. m \<in> {feed_hit t a ''exact'', feed_hit t a ''parent_domain''}"
    by (auto simp: match_iocs_def exact_leg_def parent_leg_def)
qed (simp add: summarize_fields)

definition example_feed :: "threat_row list" where
  "example_feed =
     [\<lparr>th_value = ''evil.test'', th_ioc_type = ''domain'', th_first_seen = None, th_last_seen = Some 0,
       th_sources = Some [''feed'']\<rparr>]"

lemma feed_hits_are_warranted_witness:
  "feed_hit (hd example_feed) ''www.evil.test'' ''parent_domain''
     \<in> set (match_iocs example_feed [(''domain'', PyStr '' WWW.evil.test'')])"
proof -
  have c: "classify (\<lambda>_. None) ''Evil.test,'' None = Some (''domain'', th_value (hd example_feed))" by code_simp
  have d: "''www.evil.test'' \<in> set (alert_domains [(''domain'', PyStr '' WWW.evil.test'')])" by code_simp
  have s: "''www.evil.test'' = ''www'' @ CHR ''.'' # ''evil.test'' \<and> stands_for (th_value (hd example_feed)) ''evil.test''"
    by (simp add: example_feed_def stands_for_def)
  have t: "hd example_feed \<in> set example_feed" "th_ioc_type (hd example_feed) = ''domain''"
    by (simp_all add: example_feed_def)
  show ?thesis
    by (rule iffD2[OF conjunct1[OF feed_hits_are_warranted[OF t(1) c]]]) (use d s t(2) in blast)
qed

text \<open>A mixed-case host name that is itself listed is not found: the exact leg compares the name as
  written, the parent leg leaves out equality. An underscore in a listed name is a wildcard. A TAXII feed stores names
  as they are: one in mixed case never matches, and one that is a percent sign matches every host name.\<close>

lemma mixed_case_listed_name_missed:
  "match_iocs example_feed [(''domain'', PyStr ''EVIL.test'')] = []"
  by code_simp

lemma underscore_is_a_wildcard: "like ''%.a_b.test'' ''www.axb.test''"
  by code_simp

definition taxii_row :: "string \<Rightarrow> threat_row" where
  "taxii_row v = \<lparr>th_value = v, th_ioc_type = ''domain'', th_first_seen = None, th_last_seen = None, th_sources = None\<rparr>"

lemma taxii_case_is_kept: "match_iocs [taxii_row ''Evil.test''] [(''domain'', PyStr ''www.evil.test'')] = []"
  by code_simp

lemma taxii_percent_matches_all:
  "map im_alert_value (match_iocs [taxii_row ''%''] [(''domain'', PyStr ''good.example'')]) = [''good.example'']"
  by code_simp

end
