(* ===== verification/Severity_Map.thy ===== *)
theory Severity_Map
  imports Enums
begin

text \<open>
  The OCSF severity scale of \<open>adapters/connectors/severity.py\<close> and its way to the incident's
  severity. A vendor value is a JSON value; the words are compared in lower case, trimmed. The text of
  a vendor value that is neither a number nor a string (\<open>str(value)\<close>) is in no table.
\<close>

definition severity_id_label :: "int \<Rightarrow> string option" where
  "severity_id_label =
     map_of [(0, ''Unknown''), (1, ''Informational''), (2, ''Low''), (3, ''Medium''), (4, ''High''),
       (5, ''Critical''), (6, ''Fatal'')]"

definition severity_words :: "(string \<times> int) list" where
  "severity_words =
     [(''unknown'', 0), (''info'', 1), (''informational'', 1), (''debug'', 1), (''notice'', 1), (''low'', 2),
      (''warning'', 3), (''warn'', 3), (''moderate'', 3), (''medium'', 3), (''med'', 3), (''high'', 4),
      (''error'', 4), (''important'', 4), (''critical'', 5), (''crit'', 5), (''severe'', 5),
      (''emergency'', 6), (''fatal'', 6)]"

definition wazuh_to_ocsf :: "int \<Rightarrow> int" where
  "wazuh_to_ocsf level =
     (if 13 \<le> level then 5 else if 7 \<le> level then 4 else if 4 \<le> level then 3 else if 1 \<le> level then 2 else 0)"

definition word_severity :: "string \<Rightarrow> int" where
  "word_severity s = (case map_of severity_words (lower (strip s)) of None \<Rightarrow> 3 | Some n \<Rightarrow> n)"

definition number_severity :: "rat \<Rightarrow> int" where
  "number_severity n =
     (if n \<le> 6 then max 0 (min 6 (py_round n))
      else if n \<le> 15 then wazuh_to_ocsf (py_round n)
      else if 90 \<le> n then 5 else if 70 \<le> n then 4 else if 40 \<le> n then 3 else if 20 \<le> n then 2 else 1)"

fun to_ocsf_severity :: "pyval \<Rightarrow> int" where
  "to_ocsf_severity PyNone = 0"
| "to_ocsf_severity (PyBool _) = 3"
| "to_ocsf_severity (PyInt n) = number_severity (of_int n)"
| "to_ocsf_severity (PyFloat x) = number_severity x"
| "to_ocsf_severity (PyStr s) = word_severity s"
| "to_ocsf_severity _ = 3"

text \<open>\<open>severity_level\<close> is the Wazuh level of a parsed alert.\<close>

definition severity_id_from_alert :: "string option \<Rightarrow> int option \<Rightarrow> int" where
  "severity_id_from_alert severity_label severity_level =
     (let word = lower (strip (opt_str severity_label))
      in if word \<noteq> [] \<and> word \<noteq> ''unknown'' then to_ocsf_severity (PyStr word)
         else case severity_level of
                None \<Rightarrow> 0
              | Some l \<Rightarrow> if l \<noteq> 0 then wazuh_to_ocsf l else 0)"

definition ocsf_to_wazuh :: "int \<Rightarrow> int" where
  "ocsf_to_wazuh i =
     (case map_of [(0, 1), (1, 1), (2, 3), (3, 6), (4, 9), (5, 13), (6, 15)] i of None \<Rightarrow> 6 | Some n \<Rightarrow> n)"

definition severity_label :: "int \<Rightarrow> string" where
  "severity_label i = (case severity_id_label i of None \<Rightarrow> ''Unknown'' | Some s \<Rightarrow> s)"

definition ocsf_to_severity_word :: "int \<Rightarrow> string" where
  "ocsf_to_severity_word i =
     (case map_of [(0, ''medium''), (1, ''low''), (2, ''low''), (3, ''medium''), (4, ''high''),
        (5, ''critical''), (6, ''critical'')] i of None \<Rightarrow> ''medium'' | Some w \<Rightarrow> w)"

lemma ocsf_word_is_severity: "\<exists>s. severity_of (ocsf_to_severity_word i) = Some s"
proof -
  have "ocsf_to_severity_word i \<in> severity_value ` UNIV"
    by (auto simp: ocsf_to_severity_word_def image_iff intro: exI[of _ Low] exI[of _ Medium] exI[of _ High] exI[of _ Critical])
  then show ?thesis by auto
qed

end
