(* ===== verification/Score_Fusion.thy ===== *)
theory Score_Fusion
  imports Incident Contracts
begin

text \<open>
  The fused scores of an alert, \<open>pipeline/scoring.py\<close>: how sure the system is of its verdict, and how bad the
  alert would be weighted with the probability that it is malicious. Every term is recorded beside the scores.
  A float is the rational it denotes; \<open>_int\<close> reads decimal texts exactly and keeps the overflow of infinite values.
\<close>

section \<open>Weights\<close>

definition band_prior :: "string \<Rightarrow> rat" where
  "band_prior band =
     (case map_of [(''high'', 75/100), (''medium'', 55/100), (''low'', 30/100)] band of None \<Rightarrow> 30/100 | Some w \<Rightarrow> w)"

definition inconclusive_cap :: rat where "inconclusive_cap = 40/100"
definition no_priors_cap :: rat where "no_priors_cap = 60/100"
definition sensitive_dismiss_cap :: rat where "sensitive_dismiss_cap = 70/100"
definition cluster_dismiss_cap :: rat where "cluster_dismiss_cap = 70/100"
definition cluster_dismiss_min :: int where "cluster_dismiss_min = 3"

definition w_exact_max :: rat where "w_exact_max = 20/100"
definition w_nway_max :: rat where "w_nway_max = 15/100"
definition w_ioc_max :: rat where "w_ioc_max = 10/100"
definition w_ti_max :: rat where "w_ti_max = 8/100"
definition w_similar_max :: rat where "w_similar_max = 5/100"

definition p_exact_contra :: rat where "p_exact_contra = -15/100"
definition p_nway_contra :: rat where "p_nway_contra = -10/100"
definition p_ioc_contra :: rat where "p_ioc_contra = -10/100"
definition p_ti_contra :: rat where "p_ti_contra = -10/100"

definition sev_base :: "string \<Rightarrow> rat" where
  "sev_base sev =
     (case map_of [(''low'', 25), (''medium'', 50), (''high'', 72), (''critical'', 90)] sev of None \<Rightarrow> 50 | Some w \<Rightarrow> w)"

definition t_ti_max :: rat where "t_ti_max = 25"
definition t_attack_max :: rat where "t_attack_max = 15"
definition t_asset_max :: rat where "t_asset_max = 15"
definition t_cluster_max :: rat where "t_cluster_max = 10"
definition t_vendor_max :: rat where "t_vendor_max = 12"

definition high_impact_focus :: "string list" where
  "high_impact_focus = [''lateral_movement'', ''exfil'', ''c2'', ''persistence'']"

lemmas weight_defs = inconclusive_cap_def no_priors_cap_def sensitive_dismiss_cap_def cluster_dismiss_cap_def
  cluster_dismiss_min_def w_exact_max_def w_nway_max_def w_ioc_max_def w_ti_max_def w_similar_max_def
  p_exact_contra_def p_nway_contra_def p_ioc_contra_def p_ti_contra_def
  t_ti_max_def t_attack_max_def t_asset_max_def t_cluster_max_def t_vendor_max_def

section \<open>Inputs and results\<close>

record signal_bundle =
  sb_verdict :: string
  sb_band :: string
  sb_severity :: string
  sb_exact_cosine :: "rat option"
  sb_exact_verdict :: "string option"
  sb_nway_agreed :: int
  sb_nway_total :: int
  sb_nway_verdict :: "string option"
  sb_similar_top :: "rat option"
  sb_similar_verified :: int
  sb_ioc_verdict :: "string option"
  sb_ioc_consistency :: rat
  sb_ioc_seen :: int
  sb_vt :: int
  sb_abuse :: int
  sb_threatfox :: bool
  sb_ti_sources :: int
  sb_chain :: int
  sb_focus :: "string option"
  sb_asset :: "string option"
  sb_sensitive :: bool
  sb_cluster :: int
  sb_vendor :: int

type_synonym contributions = "(string \<times> rat) list"

record score_result =
  sr_confidence :: int
  sr_threat :: int
  sr_inherent :: int
  sr_p_malicious :: rat
  sr_band :: string
  sr_confidence_terms :: contributions
  sr_threat_terms :: contributions

section \<open>Reading a number\<close>

definition agrees :: "string option \<Rightarrow> string option \<Rightarrow> bool" where
  "agrees a b \<longleftrightarrow> truthy_str a \<and> truthy_str b \<and> upper (opt_str a) = upper (opt_str b)"

text \<open>\<open>float(s)\<close>: a decimal, an infinity or not a number; \<open>None\<close> where it raises \<open>ValueError\<close>. A value that rounds
  beyond the largest double is an infinity.\<close>

datatype float_val = Finite rat | Infinite | Not_A_Number

definition float_limit :: rat where
  "float_limit = 2 ^ 1024 - 2 ^ 970"

definition to_float :: "rat \<Rightarrow> float_val" where
  "to_float x = (if float_limit \<le> \<bar>x\<bar> then Infinite else Finite x)"

definition opt_digits :: "string \<Rightarrow> nat option" where
  "opt_digits s = (if s = [] then Some 0 else parse_digits False 0 s)"

definition parse_mantissa :: "string \<Rightarrow> rat option" where
  "parse_mantissa s =
     (let whole = takeWhile (\<lambda>c. c \<noteq> CHR ''.'') s; frac = drop 1 (dropWhile (\<lambda>c. c \<noteq> CHR ''.'') s)
      in if whole = [] \<and> frac = [] then None
         else (case (opt_digits whole, opt_digits frac) of
             (Some n, Some k) \<Rightarrow> Some (of_nat n + of_nat k / 10 ^ length (filter is_digit frac))
           | _ \<Rightarrow> None))"

definition parse_exponent :: "string \<Rightarrow> int option" where
  "parse_exponent s =
     (case s of
        [] \<Rightarrow> None
      | c # cs \<Rightarrow>
          (if c = CHR ''-'' then map_option (\<lambda>n. - int n) (parse_digits False 0 cs)
           else if c = CHR ''+'' then map_option int (parse_digits False 0 cs)
           else map_option int (parse_digits False 0 s)))"

definition parse_decimal :: "string \<Rightarrow> rat option" where
  "parse_decimal s =
     (let mant = takeWhile (\<lambda>c. c \<noteq> CHR ''e'') (lower s); rest = dropWhile (\<lambda>c. c \<noteq> CHR ''e'') (lower s)
      in case parse_mantissa mant of
           None \<Rightarrow> None
         | Some m \<Rightarrow>
             (if rest = [] then Some m
              else map_option (\<lambda>e. if 0 \<le> e then m * 10 ^ nat e else m / 10 ^ nat (- e)) (parse_exponent (tl rest))))"

definition parse_float :: "string \<Rightarrow> float_val option" where
  "parse_float s =
     (let t = strip s; neg = (t \<noteq> [] \<and> hd t = CHR ''-'');
          body = (if t \<noteq> [] \<and> (hd t = CHR ''-'' \<or> hd t = CHR ''+'') then tl t else t)
      in if lower body \<in> {''inf'', ''infinity''} then Some Infinite
         else if lower body = ''nan'' then Some Not_A_Number
         else map_option (\<lambda>x. to_float (if neg then - x else x)) (parse_decimal body))"

text \<open>\<open>_int\<close>: the integer part of a number or of its text, 0 where there is none; an infinite value overflows.\<close>

definition int_of_float :: "float_val \<Rightarrow> py_exc + int" where
  "int_of_float x =
     (case x of Finite q \<Rightarrow> Inr (trunc_rat q) | Not_A_Number \<Rightarrow> Inr 0 | Infinite \<Rightarrow> Inl (RuntimeError ''OverflowError''))"

fun score_int :: "pyval \<Rightarrow> py_exc + int" where
  "score_int (PyStr s) = (case parse_float (rstrip_char (CHR ''%'') (strip s)) of None \<Rightarrow> Inr 0 | Some x \<Rightarrow> int_of_float x)"
| "score_int (PyInt n) = int_of_float (to_float (of_int n))"
| "score_int (PyFloat q) = int_of_float (to_float q)"
| "score_int (PyBool b) = Inr (if b then 1 else 0)"
| "score_int _ = Inr 0"

section \<open>Confidence\<close>

definition dismisses :: "string \<Rightarrow> bool" where
  "dismisses v \<longleftrightarrow> v = ''FP'' \<or> v = ''BENIGN''"

definition clamp_rat :: "rat \<Rightarrow> rat \<Rightarrow> rat \<Rightarrow> rat" where
  "clamp_rat lo hi x = max lo (min hi x)"

text \<open>The terms, each with the value that is recorded for it.\<close>

type_synonym term_list = "(string \<times> rat \<times> rat) list"

definition exact_term :: "signal_bundle \<Rightarrow> string \<Rightarrow> term_list" where
  "exact_term b v =
     (case sb_exact_cosine b of
        None \<Rightarrow> []
      | Some c \<Rightarrow>
          if \<not> truthy_str (sb_exact_verdict b) then []
          else (let scaled = clamp_rat 0 1 ((c - 70/100) / (20/100));
                    d = (if agrees (sb_exact_verdict b) (Some v) then w_exact_max else p_exact_contra) * scaled
                in [(''exact_match'', d, py_round_digits 4 d)]))"

definition nway_term :: "signal_bundle \<Rightarrow> string \<Rightarrow> term_list" where
  "nway_term b v =
     (if 0 < sb_nway_total b then
        (let frac = of_int (sb_nway_agreed b) / of_int (sb_nway_total b);
             d = (if agrees (sb_nway_verdict b) (Some v) then w_nway_max else p_nway_contra) * frac
         in [(''n_way'', d, py_round_digits 4 d)])
      else [])"

definition ioc_term :: "signal_bundle \<Rightarrow> string \<Rightarrow> term_list" where
  "ioc_term b v =
     (if 0 < sb_ioc_seen b \<and> truthy_str (sb_ioc_verdict b) then
        (let d = (if agrees (sb_ioc_verdict b) (Some v) then w_ioc_max else p_ioc_contra) * sb_ioc_consistency b
         in [(''ioc_history'', d, py_round_digits 4 d)])
      else [])"

definition ti_term :: "signal_bundle \<Rightarrow> string \<Rightarrow> term_list" where
  "ti_term b v =
     (if v = ''TP'' \<and> 1 \<le> sb_ti_sources b then
        (let d = min w_ti_max (4/100 * of_int (sb_ti_sources b)) in [(''ti_agreement'', d, py_round_digits 4 d)])
      else if dismisses v then
        (if 2 \<le> sb_ti_sources b then [(''ti_contradiction'', p_ti_contra, p_ti_contra)]
         else if sb_ti_sources b = 0 \<and> (sb_vt b \<noteq> 0 \<or> sb_abuse b \<noteq> 0) then [(''ti_clean'', 5/100, 5/100)]
         else [])
      else [])"

definition similar_term :: "signal_bundle \<Rightarrow> term_list" where
  "similar_term b =
     (case sb_similar_top b of
        None \<Rightarrow> []
      | Some s \<Rightarrow>
          if s \<noteq> 0 \<and> 0 < sb_similar_verified b then
            (let d = min w_similar_max (2/100 * of_int (sb_similar_verified b)) in [(''similar_support'', d, py_round_digits 4 d)])
          else [])"

definition confidence_terms :: "signal_bundle \<Rightarrow> string \<Rightarrow> term_list" where
  "confidence_terms b v = exact_term b v @ nway_term b v @ ioc_term b v @ ti_term b v @ similar_term b"

definition apply_cap :: "bool \<Rightarrow> string \<Rightarrow> rat \<Rightarrow> rat \<times> contributions \<Rightarrow> rat \<times> contributions" where
  "apply_cap applies name cap sc = (case sc of (s, ct) \<Rightarrow> if applies \<and> cap < s then (cap, ct @ [(name, cap)]) else (s, ct))"

definition no_priors :: "signal_bundle \<Rightarrow> bool" where
  "no_priors b \<longleftrightarrow> sb_exact_cosine b = None \<and> sb_nway_total b = 0 \<and> sb_similar_top b = None"

definition score_confidence :: "signal_bundle \<Rightarrow> rat \<times> contributions" where
  "score_confidence b =
     (let v = upper (sb_verdict b);
          base = band_prior (lower (if sb_band b = [] then ''low'' else sb_band b));
          ts = confidence_terms b v;
          r0 = (base + sum_list (map (fst \<circ> snd) ts), (''llm_band_prior'', base) # map (\<lambda>(n, d, shown). (n, shown)) ts);
          r1 = apply_cap (no_priors b) ''_cap_no_priors'' no_priors_cap r0;
          r2 = apply_cap (v = ''INCONCLUSIVE'' \<or> v = ''PENDING'') ''_cap_inconclusive'' inconclusive_cap r1;
          r3 = apply_cap (sb_sensitive b \<and> dismisses v) ''_cap_sensitive_dismiss'' sensitive_dismiss_cap r2;
          r4 = apply_cap (cluster_dismiss_min \<le> sb_cluster b \<and> dismisses v) ''_cap_cluster_dismiss'' cluster_dismiss_cap r3
      in (clamp_rat 0 1 (fst r4), snd r4))"

section \<open>Threat\<close>

definition ti_reputation :: "signal_bundle \<Rightarrow> rat" where
  "ti_reputation b =
     min (of_int (min (sb_vt b) 10) / 10 * 18 + of_int (min (sb_abuse b) 100) / 100 * 10 + (if sb_threatfox b then 8 else 0))
       t_ti_max"

definition attack_shape :: "signal_bundle \<Rightarrow> rat" where
  "attack_shape b =
     min (of_int (min (sb_chain b) 4) / 4 * 8 + (if lower (opt_str (sb_focus b)) \<in> set high_impact_focus then 7 else 0))
       t_attack_max"

definition asset_weight :: "signal_bundle \<Rightarrow> rat" where
  "asset_weight b =
     (case map_of [(''crown_jewel'', t_asset_max), (''server'', 8), (''workstation'', 0)] (opt_str (sb_asset b)) of
        None \<Rightarrow> 0 | Some w \<Rightarrow> w)"

definition cluster_corroboration :: "signal_bundle \<Rightarrow> rat" where
  "cluster_corroboration b =
     (if 2 \<le> sb_cluster b then of_int (min (sb_cluster b - 1) 4) / 4 * t_cluster_max else 0)"

definition vendor_nudge :: "signal_bundle \<Rightarrow> rat" where
  "vendor_nudge b = (if 0 < sb_vendor b then of_int (min (sb_vendor b) 100) / 100 * t_vendor_max else 0)"

definition shown_if :: "bool \<Rightarrow> string \<Rightarrow> rat \<Rightarrow> contributions" where
  "shown_if p name x = (if p then [(name, x)] else [])"

definition score_threat_inherent :: "signal_bundle \<Rightarrow> rat \<times> contributions" where
  "score_threat_inherent b =
     (let base = sev_base (lower (if sb_severity b = [] then ''medium'' else sb_severity b));
          ti = ti_reputation b; atk = attack_shape b; asset = asset_weight b; clu = cluster_corroboration b; vs = vendor_nudge b
      in (clamp_rat 0 100 (base + ti + atk + asset + clu + vs),
          (''severity_base'', base) # shown_if (ti \<noteq> 0) ''ti_reputation'' (py_round_digits 2 ti) @
          shown_if (atk \<noteq> 0) ''attack_shape'' (py_round_digits 2 atk) @ shown_if (asset \<noteq> 0) ''asset_criticality'' asset @
          shown_if (2 \<le> sb_cluster b) ''cluster_corroboration'' (py_round_digits 2 clu) @
          shown_if (0 < sb_vendor b) ''vendor_score'' (py_round_digits 2 vs)))"

section \<open>The scores\<close>

definition band_of :: "rat \<Rightarrow> string" where
  "band_of c = (if 75/100 \<le> c then ''high'' else if 50/100 \<le> c then ''medium'' else ''low'')"

definition p_malicious :: "string \<Rightarrow> rat \<Rightarrow> rat" where
  "p_malicious verdict c =
     (let v = upper verdict in if v = ''TP'' then c else if dismisses v then 1 - c else 1/2)"

definition compute_scores :: "signal_bundle \<Rightarrow> score_result" where
  "compute_scores b =
     (let (conf, cc) = score_confidence b; (inherent, tc) = score_threat_inherent b;
          pmal = p_malicious (sb_verdict b) conf; effective = inherent * pmal
      in \<lparr>sr_confidence = py_round (conf * 100), sr_threat = py_round effective, sr_inherent = py_round inherent,
          sr_p_malicious = pmal, sr_band = band_of conf, sr_confidence_terms = cc,
          sr_threat_terms = tc @ [(''p_malicious'', py_round_digits 3 pmal), (''effective_threat'', py_round_digits 2 effective)]\<rparr>)"

section \<open>From the enrichment\<close>

text \<open>The counters over the rows of the indicator lookup: the largest detection counts, a ThreatFox hit, and how many
  rows count as malicious.\<close>

definition max_vt :: "triage_row \<Rightarrow> py_exc + int" where
  "max_vt r =
     and_then (score_int (get (map_of (tr_summary r)) ''vt_malicious'')) (\<lambda>a.
       and_then (score_int (get (map_of (tr_summary r)) ''virustotal_malicious'')) (\<lambda>b. Inr (max a b)))"

definition flags_dirty :: "triage_row \<Rightarrow> int \<Rightarrow> int \<Rightarrow> bool" where
  "flags_dirty r vt ab \<longleftrightarrow> lower (opt_str (tr_verdict r)) \<in> {''malicious'', ''high''} \<or> 3 < vt \<or> 25 < ab"

definition count_row :: "triage_row \<Rightarrow> signal_bundle \<Rightarrow> py_exc + signal_bundle" where
  "count_row r b =
     and_then (max_vt r) (\<lambda>vt. and_then (score_int (get (map_of (tr_summary r)) ''abuseipdb'')) (\<lambda>ab.
       Inr (b\<lparr>sb_vt := max (sb_vt b) vt, sb_abuse := max (sb_abuse b) ab,
              sb_threatfox := (sb_threatfox b \<or> truthy (get (map_of (tr_summary r)) ''threatfox'') \<or>
                truthy (get (map_of (tr_summary r)) ''threatfox_family'')),
              sb_ti_sources := sb_ti_sources b + (if flags_dirty r vt ab then 1 else 0)\<rparr>)))"

fun count_rows :: "triage_row list \<Rightarrow> signal_bundle \<Rightarrow> py_exc + signal_bundle" where
  "count_rows [] b = Inr b"
| "count_rows (r # rs) b = and_then (count_row r b) (count_rows rs)"

text \<open>The agreement \<open>"a/t"\<close> of the n-way gate.\<close>

definition nway_counts :: "nway option \<Rightarrow> py_exc + (int \<times> int)" where
  "nway_counts nw =
     (case Option.bind nw nw_agreement of
        None \<Rightarrow> Inr (0, 0)
      | Some a \<Rightarrow>
          (if CHR ''/'' \<in> set a then
             and_then (score_int (PyStr (before_first (CHR ''/'') a))) (\<lambda>n.
               and_then (score_int (PyStr (after_first (CHR ''/'') a))) (\<lambda>t. Inr (n, t)))
           else Inr (0, 0)))"

definition similar_top :: "prior list \<Rightarrow> rat option" where
  "similar_top ps =
     (case ps of
        [] \<Rightarrow> None
      | p # _ \<Rightarrow> (case p_adjusted p of None \<Rightarrow> p_cosine p | Some x \<Rightarrow> if x = 0 then p_cosine p else Some x))"

text \<open>\<open>cluster\<close> is \<open>enrichment["cluster"]["member_count"]\<close>.\<close>

definition build_bundle ::
  "Incident.enrichment \<Rightarrow> pyval \<Rightarrow> string \<Rightarrow> string \<Rightarrow> string \<Rightarrow> int \<Rightarrow> string option \<Rightarrow> pyval \<Rightarrow> py_exc + signal_bundle" where
  "build_bundle en cluster verdict band sev chain focus vendor =
     and_then (nway_counts (en_n_way en)) (\<lambda>(agreed, total).
     and_then (score_int cluster) (\<lambda>cl. and_then (score_int vendor) (\<lambda>vs.
       count_rows (en_triage en)
         \<lparr>sb_verdict = verdict, sb_band = (if band = [] then ''low'' else band),
          sb_severity = (if sev = [] then ''medium'' else sev),
          sb_exact_cosine = Option.bind (en_exact_match en) em_score,
          sb_exact_verdict = Option.bind (en_exact_match en) em_verdict,
          sb_nway_agreed = agreed, sb_nway_total = total, sb_nway_verdict = Option.bind (en_n_way en) nw_verdict,
          sb_similar_top = similar_top (en_similar en),
          sb_similar_verified = int (length (filter p_human_verified (en_similar en))),
          sb_ioc_verdict = None, sb_ioc_consistency = 0, sb_ioc_seen = 0,
          sb_vt = 0, sb_abuse = 0, sb_threatfox = False, sb_ti_sources = 0,
          sb_chain = chain, sb_focus = focus, sb_asset = None,
          sb_sensitive = (en_sensitive en \<noteq> None), sb_cluster = cl, sb_vendor = vs\<rparr>)))"

section \<open>Bounds and caps\<close>

lemma clamp_rat_bounds: "lo \<le> hi \<Longrightarrow> lo \<le> clamp_rat lo hi x \<and> clamp_rat lo hi x \<le> hi"
  by (auto simp: clamp_rat_def)

lemma clamp_rat_le: "lo \<le> c \<Longrightarrow> x \<le> c \<Longrightarrow> clamp_rat lo hi x \<le> c"
  by (auto simp: clamp_rat_def)

lemma clamp_rat_mono: "x \<le> y \<Longrightarrow> clamp_rat lo hi x \<le> clamp_rat lo hi y"
  by (auto simp: clamp_rat_def)

lemma apply_cap_le: "fst (apply_cap p n c r) \<le> fst r"
  by (simp add: apply_cap_def split: prod.split)

lemma apply_cap_capped: "p \<Longrightarrow> fst (apply_cap p n c r) \<le> c"
  by (auto simp: apply_cap_def split: prod.split)

definition raw_confidence :: "signal_bundle \<Rightarrow> rat" where
  "raw_confidence b =
     band_prior (lower (if sb_band b = [] then ''low'' else sb_band b)) +
     sum_list (map (fst \<circ> snd) (confidence_terms b (upper (sb_verdict b))))"

lemma score_confidence_caps:
  "0 \<le> fst (score_confidence b)" "fst (score_confidence b) \<le> 1"
  "fst (score_confidence b) \<le> max 0 (raw_confidence b)"
  "no_priors b \<Longrightarrow> fst (score_confidence b) \<le> no_priors_cap"
  "upper (sb_verdict b) \<in> {''INCONCLUSIVE'', ''PENDING''} \<Longrightarrow> fst (score_confidence b) \<le> inconclusive_cap"
  "sb_sensitive b \<Longrightarrow> dismisses (upper (sb_verdict b)) \<Longrightarrow> fst (score_confidence b) \<le> sensitive_dismiss_cap"
  "cluster_dismiss_min \<le> sb_cluster b \<Longrightarrow> dismisses (upper (sb_verdict b)) \<Longrightarrow> fst (score_confidence b) \<le> cluster_dismiss_cap"
proof -
  let ?v = "upper (sb_verdict b)"
  let ?r0 = "(raw_confidence b, (''llm_band_prior'', band_prior (lower (if sb_band b = [] then ''low'' else sb_band b)))
      # map (\<lambda>(n, d, shown). (n, shown)) (confidence_terms b ?v))"
  let ?r1 = "apply_cap (no_priors b) ''_cap_no_priors'' no_priors_cap ?r0"
  let ?r2 = "apply_cap (?v = ''INCONCLUSIVE'' \<or> ?v = ''PENDING'') ''_cap_inconclusive'' inconclusive_cap ?r1"
  let ?r3 = "apply_cap (sb_sensitive b \<and> dismisses ?v) ''_cap_sensitive_dismiss'' sensitive_dismiss_cap ?r2"
  let ?r4 = "apply_cap (cluster_dismiss_min \<le> sb_cluster b \<and> dismisses ?v) ''_cap_cluster_dismiss'' cluster_dismiss_cap ?r3"
  have s: "fst (score_confidence b) = clamp_rat 0 1 (fst ?r4)"
    by (simp only: score_confidence_def Let_def raw_confidence_def fst_conv)
  have le: "fst ?r4 \<le> fst ?r3" "fst ?r3 \<le> fst ?r2" "fst ?r2 \<le> fst ?r1" "fst ?r1 \<le> raw_confidence b"
    using apply_cap_le[of "no_priors b" "''_cap_no_priors''" no_priors_cap ?r0] by (simp_all only: apply_cap_le fst_conv)
  show "0 \<le> fst (score_confidence b)" "fst (score_confidence b) \<le> 1"
    unfolding s by (simp_all add: clamp_rat_def)
  show "fst (score_confidence b) \<le> max 0 (raw_confidence b)"
    unfolding s using le by (intro clamp_rat_le) linarith+
  show "fst (score_confidence b) \<le> no_priors_cap" if "no_priors b"
    unfolding s using apply_cap_capped[OF that, of "''_cap_no_priors''" no_priors_cap ?r0] le
    by (intro clamp_rat_le) (simp add: no_priors_cap_def, linarith)
  show "fst (score_confidence b) \<le> inconclusive_cap" if "?v \<in> {''INCONCLUSIVE'', ''PENDING''}"
  proof -
    from that have "?v = ''INCONCLUSIVE'' \<or> ?v = ''PENDING''" by (elim insertE) simp_all
    from apply_cap_capped[OF this, of "''_cap_inconclusive''" inconclusive_cap ?r1] le show ?thesis
      unfolding s by (intro clamp_rat_le) (simp add: inconclusive_cap_def, linarith)
  qed
  show "fst (score_confidence b) \<le> sensitive_dismiss_cap" if "sb_sensitive b" "dismisses ?v"
    unfolding s using apply_cap_capped[of "sb_sensitive b \<and> dismisses ?v" "''_cap_sensitive_dismiss''" sensitive_dismiss_cap ?r2] that le
    by (intro clamp_rat_le) (simp add: sensitive_dismiss_cap_def, linarith)
  show "fst (score_confidence b) \<le> cluster_dismiss_cap" if "cluster_dismiss_min \<le> sb_cluster b" "dismisses ?v"
    unfolding s using apply_cap_capped[of "cluster_dismiss_min \<le> sb_cluster b \<and> dismisses ?v" "''_cap_cluster_dismiss''" cluster_dismiss_cap ?r3] that le
    by (intro clamp_rat_le) (simp add: cluster_dismiss_cap_def, linarith)
qed

text \<open>What supports a verdict beside the model's own confidence: the evidence that the module's documentation calls
  hard, which is an exact match, an n-way vote or a track record of the indicators; and threat intelligence and
  verified neighbours.\<close>

definition hard_evidence :: "signal_bundle \<Rightarrow> bool" where
  "hard_evidence b \<longleftrightarrow>
     (let v = upper (sb_verdict b)
      in agrees (sb_exact_verdict b) (Some v) \<and> (\<exists>c. sb_exact_cosine b = Some c \<and> 70/100 < c) \<or>
         agrees (sb_nway_verdict b) (Some v) \<and> 0 < sb_nway_total b \<and> 0 < sb_nway_agreed b \<or>
         agrees (sb_ioc_verdict b) (Some v) \<and> 0 < sb_ioc_seen b)"

definition soft_evidence :: "signal_bundle \<Rightarrow> bool" where
  "soft_evidence b \<longleftrightarrow>
     (let v = upper (sb_verdict b)
      in v = ''TP'' \<and> 1 \<le> sb_ti_sources b \<or>
         dismisses v \<and> sb_ti_sources b = 0 \<and> (sb_vt b \<noteq> 0 \<or> sb_abuse b \<noteq> 0) \<or>
         sb_similar_top b \<notin> {None, Some 0} \<and> 0 < sb_similar_verified b)"

definition counts_sane :: "signal_bundle \<Rightarrow> bool" where
  "counts_sane b \<longleftrightarrow> 0 \<le> sb_nway_agreed b \<and> 0 \<le> sb_ioc_consistency b"

abbreviation total :: "term_list \<Rightarrow> rat" where
  "total ts \<equiv> sum_list (map (fst \<circ> snd) ts)"

lemma exact_term_le:
  assumes "\<not> (agrees (sb_exact_verdict b) (Some v) \<and> (\<exists>c. sb_exact_cosine b = Some c \<and> 70/100 < c))"
  shows "total (exact_term b v) \<le> 0"
proof (cases "agrees (sb_exact_verdict b) (Some v)")
  case True
  then have "sb_exact_cosine b = Some c \<Longrightarrow> c \<le> 70/100" for c using assms by fastforce
  then show ?thesis by (auto simp: exact_term_def True clamp_rat_def Let_def divide_le_0_iff split: option.split)
qed (auto simp: exact_term_def Let_def p_exact_contra_def clamp_rat_def split: option.split)

lemma nway_term_le:
  assumes "\<not> (agrees (sb_nway_verdict b) (Some v) \<and> 0 < sb_nway_total b \<and> 0 < sb_nway_agreed b)" "0 \<le> sb_nway_agreed b"
  shows "total (nway_term b v) \<le> 0"
proof (cases "agrees (sb_nway_verdict b) (Some v) \<and> 0 < sb_nway_total b")
  case True
  with assms have "sb_nway_agreed b = 0" by auto
  then show ?thesis by (simp add: nway_term_def)
next
  case False
  then show ?thesis using assms(2)
    by (auto simp: nway_term_def Let_def p_nway_contra_def)
qed

lemma ioc_term_le:
  assumes "\<not> (agrees (sb_ioc_verdict b) (Some v) \<and> 0 < sb_ioc_seen b)" "0 \<le> sb_ioc_consistency b"
  shows "total (ioc_term b v) \<le> 0"
  using assms by (auto simp: ioc_term_def Let_def p_ioc_contra_def)

lemma ti_term_le:
  assumes "\<not> (v = ''TP'' \<and> 1 \<le> sb_ti_sources b)"
    "\<not> (dismisses v \<and> sb_ti_sources b = 0 \<and> (sb_vt b \<noteq> 0 \<or> sb_abuse b \<noteq> 0))"
  shows "total (ti_term b v) \<le> 0"
  using assms by (auto simp: ti_term_def Let_def p_ti_contra_def)

lemma similar_term_le:
  "\<not> (sb_similar_top b \<notin> {None, Some 0} \<and> 0 < sb_similar_verified b) \<Longrightarrow> total (similar_term b) \<le> 0"
  by (auto simp: similar_term_def split: option.split)

lemma ti_term_max: "total (ti_term b v) \<le> w_ti_max"
  by (simp add: ti_term_def Let_def w_ti_max_def p_ti_contra_def)

lemma similar_term_max: "total (similar_term b) \<le> w_similar_max"
  by (auto simp: similar_term_def Let_def w_similar_max_def split: option.split)

lemma band_prior_le: "band_prior x \<le> 75/100"
  by (simp add: band_prior_def)

lemma raw_confidence_le:
  assumes "\<not> hard_evidence b" "counts_sane b"
  shows "raw_confidence b \<le> 75/100 + total (ti_term b (upper (sb_verdict b))) + total (similar_term b)"
proof -
  let ?v = "upper (sb_verdict b)"
  from assms have "total (exact_term b ?v) \<le> 0" "total (nway_term b ?v) \<le> 0" "total (ioc_term b ?v) \<le> 0"
    by (simp_all only: hard_evidence_def counts_sane_def Let_def de_Morgan_disj exact_term_le nway_term_le ioc_term_le
        simp_thms)
  moreover have "total (confidence_terms b ?v) =
    total (exact_term b ?v) + total (nway_term b ?v) + total (ioc_term b ?v) + total (ti_term b ?v) + total (similar_term b)"
    by (simp add: confidence_terms_def)
  ultimately show ?thesis
    using band_prior_le[of "lower (if sb_band b = [] then ''low'' else sb_band b)"] unfolding raw_confidence_def by linarith
qed

lemma no_hard_evidence_le:
  assumes "\<not> hard_evidence b" "counts_sane b"
  shows "raw_confidence b \<le> 88/100" "\<not> soft_evidence b \<Longrightarrow> raw_confidence b \<le> 75/100"
proof -
  show "raw_confidence b \<le> 88/100"
    using raw_confidence_le[OF assms] ti_term_max[of b "upper (sb_verdict b)"] similar_term_max[of b]
    unfolding w_ti_max_def w_similar_max_def by linarith
  assume "\<not> soft_evidence b"
  then have "total (ti_term b (upper (sb_verdict b))) \<le> 0" "total (similar_term b) \<le> 0"
    by (simp_all only: soft_evidence_def Let_def de_Morgan_disj ti_term_le similar_term_le simp_thms)
  with raw_confidence_le[OF assms] show "raw_confidence b \<le> 75/100" by linarith
qed

lemma percent_le: "x \<le> of_int n / 100 \<Longrightarrow> py_round (x * 100) \<le> n" for x :: rat
  by (rule py_round_le) simp

lemma p_malicious_range: "0 \<le> c \<Longrightarrow> c \<le> 1 \<Longrightarrow> 0 \<le> p_malicious v c \<and> p_malicious v c \<le> 1"
  by (simp add: p_malicious_def Let_def)

lemma compute_scores_simps:
  "sr_confidence (compute_scores b) = py_round (fst (score_confidence b) * 100)"
  "sr_threat (compute_scores b) =
     py_round (fst (score_threat_inherent b) * p_malicious (sb_verdict b) (fst (score_confidence b)))"
  "sr_inherent (compute_scores b) = py_round (fst (score_threat_inherent b))"
  "sr_p_malicious (compute_scores b) = p_malicious (sb_verdict b) (fst (score_confidence b))"
  "sr_band (compute_scores b) = band_of (fst (score_confidence b))"
  by (simp_all add: compute_scores_def Let_def split: prod.split)

lemma inherent_range: "0 \<le> fst (score_threat_inherent b) \<and> fst (score_threat_inherent b) \<le> 100"
  using clamp_rat_bounds[of 0 100] by (simp add: score_threat_inherent_def Let_def)

lemma scores_in_range:
  "0 \<le> sr_confidence (compute_scores b)" "sr_confidence (compute_scores b) \<le> 100"
  "0 \<le> sr_threat (compute_scores b)" "sr_threat (compute_scores b) \<le> sr_inherent (compute_scores b)"
  "sr_inherent (compute_scores b) \<le> 100"
proof -
  let ?c = "fst (score_confidence b)" and ?i = "fst (score_threat_inherent b)"
  let ?p = "p_malicious (sb_verdict b) ?c"
  have c: "0 \<le> ?c" "?c \<le> 1" using score_confidence_caps(1,2)[of b] by simp_all
  have p: "0 \<le> ?p" "?p \<le> 1" using p_malicious_range[OF c] by simp_all
  have i: "0 \<le> ?i" "?i \<le> 100" using inherent_range[of b] by simp_all
  show "0 \<le> sr_confidence (compute_scores b)" "sr_confidence (compute_scores b) \<le> 100"
    using c py_round_ge[of 0 "?c * 100"] percent_le[of ?c 100] by (simp_all add: compute_scores_simps)
  show "0 \<le> sr_threat (compute_scores b)"
    using py_round_ge[of 0 "?i * ?p"] i p by (simp add: compute_scores_simps)
  show "sr_threat (compute_scores b) \<le> sr_inherent (compute_scores b)"
    unfolding compute_scores_simps using i(1) p(2) by (intro py_round_mono) (simp add: mult_left_le)
  show "sr_inherent (compute_scores b) \<le> 100"
    using py_round_le[of ?i 100] i by (simp add: compute_scores_simps)
qed


definition example_bundle :: signal_bundle where
  "example_bundle =
     \<lparr>sb_verdict = ''TP'', sb_band = ''high'', sb_severity = ''high'', sb_exact_cosine = Some (9/10),
      sb_exact_verdict = Some ''tp'', sb_nway_agreed = 0, sb_nway_total = 0, sb_nway_verdict = None,
      sb_similar_top = None, sb_similar_verified = 0, sb_ioc_verdict = None, sb_ioc_consistency = 0, sb_ioc_seen = 0,
      sb_vt = 0, sb_abuse = 0, sb_threatfox = False, sb_ti_sources = 0, sb_chain = 0, sb_focus = None, sb_asset = None,
      sb_sensitive = False, sb_cluster = 0, sb_vendor = 0\<rparr>"

lemma example_text: "upper ''TP'' = ''TP''" "upper ''tp'' = ''TP''" "lower ''high'' = ''high''"
  by code_simp+

lemma example_score: "sr_confidence (compute_scores example_bundle) = 95"
  by (simp add: compute_scores_simps example_bundle_def score_confidence_def confidence_terms_def
      exact_term_def nway_term_def ioc_term_def ti_term_def similar_term_def apply_cap_def band_prior_def
      clamp_rat_def agrees_def dismisses_def no_priors_def weight_defs py_round_def Let_def example_text)


text \<open>Threat intelligence and neighbours alone lift the model's 75 to 88.\<close>

definition soft_bundle :: signal_bundle where
  "soft_bundle = example_bundle\<lparr>sb_exact_cosine := None, sb_exact_verdict := None, sb_similar_top := Some 1,
     sb_similar_verified := 3, sb_ti_sources := 2\<rparr>"

lemma soft_evidence_exceeds_75:
  "sr_confidence (compute_scores soft_bundle) = 88 \<and> \<not> hard_evidence soft_bundle"
  by (simp add: compute_scores_simps soft_bundle_def example_bundle_def score_confidence_def confidence_terms_def
      exact_term_def nway_term_def ioc_term_def ti_term_def similar_term_def apply_cap_def band_prior_def
      clamp_rat_def agrees_def dismisses_def no_priors_def weight_defs py_round_def Let_def example_text
      hard_evidence_def truthy_str_def)

text \<open>More evidence of the same kind never lowers the inherent threat.\<close>

lemma more_evidence_more_threat:
  assumes "sb_severity b' = sb_severity b" "sb_focus b' = sb_focus b" "sb_asset b' = sb_asset b"
    and "sb_vt b \<le> sb_vt b'" "sb_abuse b \<le> sb_abuse b'" "sb_threatfox b \<longrightarrow> sb_threatfox b'" "sb_chain b \<le> sb_chain b'"
    and "sb_cluster b \<le> sb_cluster b'" "sb_vendor b \<le> sb_vendor b'"
  shows "fst (score_threat_inherent b) \<le> fst (score_threat_inherent b')"
proof -
  have "ti_reputation b \<le> ti_reputation b'"
    unfolding ti_reputation_def using assms(4-6)
    by (intro min.mono add_mono mult_right_mono divide_right_mono) (auto intro: min.mono)
  moreover have "attack_shape b \<le> attack_shape b'"
    unfolding attack_shape_def assms(2) using assms(7)
    by (intro min.mono add_mono mult_right_mono divide_right_mono) (auto intro: min.mono)
  moreover have "cluster_corroboration b \<le> cluster_corroboration b'"
    using assms(8) by (auto simp: cluster_corroboration_def t_cluster_max_def intro!: mult_right_mono divide_right_mono)
  moreover have "vendor_nudge b \<le> vendor_nudge b'"
    using assms(9) by (auto simp: vendor_nudge_def t_vendor_max_def intro!: mult_right_mono divide_right_mono)
  moreover have "fst (score_threat_inherent c) =
    clamp_rat 0 100 (sev_base (lower (if sb_severity c = [] then ''medium'' else sb_severity c)) + ti_reputation c +
      attack_shape c + asset_weight c + cluster_corroboration c + vendor_nudge c)" for c
    by (simp only: score_threat_inherent_def Let_def fst_conv)
  ultimately show ?thesis
    by (simp only: assms(1,3) asset_weight_def, intro clamp_rat_mono add_mono order_refl)
qed

end
