(* ===== verification/Pipeline.thy ===== *)
theory Pipeline
  imports Case_System Agent_Routing Ti_Lookup Exclusions Severity_Map Sensitive Score_Fusion
begin

text \<open>
  The alert pipeline, \<open>pipeline/orchestrator.py\<close>: the deterministic steps from parsing to the decision
  gate, each under \<open>_safe_step\<close>, the persona synthesis, and \<open>run_pipeline\<close> around them. A step is
  a function on the run's state that also returns the exception it raised: what it changed before is
  kept, as the session is not rolled back. What the steps ask the outside world, or code of the
  repository that is not modelled (parsers, indicator extraction, the model calls), is a field
  of the environment: its answer, or the exception it raised. Correlation is off, as it is by default,
  and so is the LangGraph path. Of the timeline the event types are kept, without the detail events of
  the model's tool calls, of deobfuscation, of YARA matches, of the Vision One and knowledge-base lookups and
  of the pre-analysis Microsoft lookup.
\<close>

section \<open>The environment and the state of a run\<close>

datatype llm_answer = Answer string | No_Answer

record pipe_env =
  pe_now :: instant
  pe_lib :: py_lib
  pe_six :: ipv6_syntax
  pe_parsed :: "py_exc + (string \<times> pyval) list"    \<comment> \<open>\<open>parser_adapter.parse_to_normalized\<close>\<close>
  pe_title :: "string option \<Rightarrow> string option \<Rightarrow> string"   \<comment> \<open>\<open>_derive_title\<close> on this raw text\<close>
  pe_new_tenant :: uid
  pe_yaml :: "py_exc + autoclose_rule list"
  pe_rules :: "py_exc + autoclose_row list"
  pe_has_content :: bool
  pe_exact_hits :: "prior list option"
  pe_similar_hits :: "prior list option"
  pe_rule_key :: "string option \<Rightarrow> string"          \<comment> \<open>the rule-name normalizer of the store\<close>
  pe_iocs :: "py_exc + (ioc_type \<times> string) list"    \<comment> \<open>extracted and decoded indicators\<close>
  pe_exclusions :: "py_exc + exclusion list"
  pe_feeds :: "py_exc + threat_row list"
  pe_triage :: "py_exc + triage_row list"
  pe_ipinfo :: "py_exc + string option list"        \<comment> \<open>the \<open>org\<close> of each looked-up address\<close>
  pe_entities :: "uid list"                          \<comment> \<open>the entities resolved from the alert\<close>
  pe_v1 :: pyval
  pe_fast :: llm_answer
  pe_deep :: llm_answer
  pe_hunt :: "string option"                         \<comment> \<open>spread assessment of the parsed hunt\<close>
  pe_forensics :: bool                               \<comment> \<open>whether its answer parsed\<close>
  pe_validate :: "(string \<times> pyval) list \<Rightarrow> analysis_verdict option"
  pe_daily_cap :: rat
  pe_incident_cap :: rat
  pe_calls :: "llm_call list"
  pe_policy_file :: "policy option"
  pe_policy_rows :: "py_exc + autonomy_row list"

record run =
  rn_inc :: incident
  rn_db :: case_db
  rn_tenants :: tenant_db

type_synonym step = "run \<Rightarrow> run \<times> py_exc option"

definition emit :: "pipe_env \<Rightarrow> string \<Rightarrow> run \<Rightarrow> run" where
  "emit env ev r = r\<lparr>rn_db := add_timeline (pe_now env) ''system'' ev (i_id (rn_inc r)) (rn_db r)\<rparr>"

definition set_inc :: "(incident \<Rightarrow> incident) \<Rightarrow> run \<Rightarrow> run" where
  "set_inc f r = r\<lparr>rn_inc := f (rn_inc r)\<rparr>"

definition set_en :: "(Incident.enrichment \<Rightarrow> Incident.enrichment) \<Rightarrow> run \<Rightarrow> run" where
  "set_en f = set_inc (\<lambda>inc. inc\<lparr>i_enrichment := f (i_enrichment inc)\<rparr>)"

definition set_status :: "case_status \<Rightarrow> run \<Rightarrow> run" where
  "set_status st = set_inc (\<lambda>inc. inc\<lparr>i_status := st\<rparr>)"

definition field :: "run \<Rightarrow> string \<Rightarrow> pyval" where
  "field r k = get (map_of (i_normalized (rn_inc r))) k"

text \<open>\<open>nm.get(k) or old\<close> on the parser's text fields, which are strings or null.\<close>

definition text_or :: "pyval \<Rightarrow> string option \<Rightarrow> string option" where
  "text_or v old = (case v of PyStr s \<Rightarrow> (if s = [] then old else Some s) | _ \<Rightarrow> old)"

definition audit_system :: "pipe_env \<Rightarrow> string \<Rightarrow> run \<Rightarrow> run" where
  "audit_system env action r =
     r\<lparr>rn_db := (rn_db r)\<lparr>cd_audit :=
        audit_log (pe_now env) None action (Some (i_id (rn_inc r))) (i_tenant_id (rn_inc r)) (cd_audit (rn_db r))\<rparr>\<rparr>"

definition safe_step :: "pipe_env \<Rightarrow> string \<Rightarrow> step \<Rightarrow> run \<Rightarrow> run" where
  "safe_step env label step r =
     (case step (emit env (label @ ''_running'') r) of
        (r', None) \<Rightarrow> emit env (label @ ''_done'') r'
      | (r', Some _) \<Rightarrow> audit_system env ''pipeline.step_failed'' (emit env (label @ ''_failed'') r'))"

section \<open>Parsing\<close>

definition severity_from :: "pyval \<Rightarrow> severity \<Rightarrow> severity" where
  "severity_from v old =
     (let i = (case v of PyInt n \<Rightarrow> Some n | PyBool b \<Rightarrow> Some (of_bool b) | _ \<Rightarrow> None)
      in case i of
           None \<Rightarrow> old
         | Some n \<Rightarrow> (case severity_of (ocsf_to_severity_word n) of None \<Rightarrow> old | Some s \<Rightarrow> s))"

definition bind_tenant :: "pipe_env \<Rightarrow> step" where
  "bind_tenant env r =
     (let inc = rn_inc r
      in if truthy_str (i_customer inc) \<and> i_tenant_id inc = None then
           (case ensure_tenant_for_customer (pe_new_tenant env) (opt_str (i_customer inc)) (rn_tenants r) of
              (ts, Inl e) \<Rightarrow> (r\<lparr>rn_tenants := ts\<rparr>, Some e)
            | (ts, Inr t) \<Rightarrow> (set_inc (\<lambda>inc. inc\<lparr>i_tenant_id := Some t\<rparr>) (r\<lparr>rn_tenants := ts\<rparr>), None))
         else (r, None))"

definition parsed_incident :: "pipe_env \<Rightarrow> (string \<times> pyval) list \<Rightarrow> incident \<Rightarrow> incident" where
  "parsed_incident env nm inc =
     (let rule = text_or (get (map_of nm) ''rule_name'') (i_rule_name inc);
          customer = text_or (get (map_of nm) ''customer'') (i_customer inc)
      in inc\<lparr>i_normalized := nm, i_rule_name := rule, i_customer := customer,
             i_severity := severity_from (get (map_of nm) ''severity_id'') (i_severity inc),
             i_title := pe_title env rule customer\<rparr>)"

definition step_parse :: "pipe_env \<Rightarrow> step" where
  "step_parse env r =
     (case pe_parsed env of
        Inl e \<Rightarrow> (r, Some e)
      | Inr nm \<Rightarrow>
          (case bind_tenant env (set_inc (parsed_incident env nm) r) of
             (r', Some e) \<Rightarrow> (r', Some e)
           | (r', None) \<Rightarrow> (emit env ''parse'' (set_status Parsed r'), None)))"

section \<open>Auto-close rules before enrichment\<close>

definition alert_fields :: "(string \<times> pyval) list \<Rightarrow> pydict" where
  "alert_fields nm =
     (let s = (\<lambda>k. PyStr (str_or_empty (get (map_of nm) k)))
      in map_of
           ([(k, s k). k \<leftarrow> [''customer'', ''rule_name'', ''src_ip'', ''dst_ip'', ''application'',
                             ''url_category'', ''src_zone'', ''dst_zone'']] @
            [(''dst_port'', get (map_of nm) ''dst_port'')]))"

definition autoclose_now :: "pipe_env \<Rightarrow> (string \<times> pyval) list option \<Rightarrow> run \<Rightarrow> autoclose_hit option" where
  "autoclose_now env en r =
     autoclose_check (pe_yaml env) (pe_rules env) (alert_fields (i_normalized (rn_inc r))) en"

definition step_autoclose_pre :: "pipe_env \<Rightarrow> step" where
  "step_autoclose_pre env r =
     (case autoclose_now env None r of
        None \<Rightarrow> (r, None)
      | Some hit \<Rightarrow>
          (emit env ''auto_close_pre''
             (set_inc (\<lambda>inc. inc\<lparr>i_autoclose_pre := Some hit, i_autoclose_post := None,
                                 i_status := Auto_Closed_Candidate\<rparr>) r), None))"

section \<open>Similar cases\<close>

definition step_dedup :: "pipe_env \<Rightarrow> step" where
  "step_dedup env r =
     (let inc = rn_inc r;
          exact = find_exact_match (pe_has_content env) (pe_exact_hits env) (pe_rule_key env)
                    (pe_rule_key env (i_rule_name inc));
          sim = rerank (pe_now env) (search_similar (pe_has_content env) (pe_similar_hits env)) (i_customer inc);
          nway = compute_n_way sim (i_customer inc) n_way_populate_min;
          r1 = set_en (\<lambda>en. en\<lparr>en_exact_match := exact, en_n_way := nway, en_similar := sim\<rparr>) r;
          r2 = (if exact = None then r1 else emit env ''exact_match'' r1)
      in (if nway = None then r2 else emit env ''n_way'' r2, None))"

section \<open>Enrichment\<close>

definition bump_severity :: "severity \<Rightarrow> severity" where
  "bump_severity s = (case s of Low \<Rightarrow> Medium | Medium \<Rightarrow> High | High \<Rightarrow> Critical | Critical \<Rightarrow> Critical)"

definition raise_confidence :: "string \<Rightarrow> confidence option \<Rightarrow> confidence option" where
  "raise_confidence b cur =
     (case map_of [(''high'', CHigh), (''medium'', CMedium)] b of
        None \<Rightarrow> cur
      | Some target \<Rightarrow>
          (case cur of
             None \<Rightarrow> Some target
           | Some c \<Rightarrow> if confidence_rank c < confidence_rank target then Some target else cur))"

definition apply_threat_intel_signal :: "pipe_env \<Rightarrow> ioc_match list \<Rightarrow> run \<Rightarrow> run" where
  "apply_threat_intel_signal env ms r =
     (let s = summarize (map feed_match_of ms) (pe_now env) default_half_life_days
      in emit env ''threat_intel_match''
           (set_en (\<lambda>en. en\<lparr>en_ti_matches :=
                        map (\<lambda>m. \<lparr>tm_value = fm_value m, tm_score = fm_score m\<rparr>) (ts_matches s)\<rparr>)
             (set_inc (\<lambda>inc. inc\<lparr>i_severity := bump_severity (i_severity inc),
                                 i_confidence := raise_confidence (ts_band s) (i_confidence inc)\<rparr>) r)))"

definition ioc_row :: "uid \<Rightarrow> ioc_type \<times> string \<Rightarrow> ioc_record" where
  "ioc_row i tv = \<lparr>ir_incident_id = i, ir_type = fst tv, ir_value = snd tv, ir_excluded = False\<rparr>"

text \<open>The indicators left after the allowlist, and whether it set any aside.\<close>

definition filtered_iocs :: "pipe_env \<Rightarrow> string option \<Rightarrow> py_exc + (ioc_type \<times> string) list \<times> bool" where
  "filtered_iocs env customer =
     and_then (pe_iocs env) (\<lambda>raw.
     and_then (if raw = [] then Inr [] else pe_exclusions env) (\<lambda>table.
       (let (kept, excluded) = apply_exclusions (pe_six env) table customer
              (map (\<lambda>(t, v). (ioc_type_value t, v)) raw)
        in Inr (List.map_filter (\<lambda>(t, v). map_option (\<lambda>ty. (ty, v)) (ioc_type_of t)) kept, excluded \<noteq> []))))"

definition kept_iocs :: "pipe_env \<Rightarrow> string option \<Rightarrow> py_exc + (ioc_type \<times> string) list" where
  "kept_iocs env customer = and_then (filtered_iocs env customer) (\<lambda>(iocs, _). Inr iocs)"

text \<open>The insert of the indicators meets the unique constraint on incident, type and value: the flush
  fails, and with it the transaction and the run.\<close>

definition ioc_conflict :: "pipe_env \<Rightarrow> run \<Rightarrow> bool" where
  "ioc_conflict env r =
     (case kept_iocs env (i_customer (rn_inc r)) of
        Inl _ \<Rightarrow> False
      | Inr iocs \<Rightarrow>
          (let rows = map (ioc_row (i_id (rn_inc r))) iocs; key = (\<lambda>x. (ir_incident_id x, ir_type x, ir_value x))
           in \<not> distinct (map key rows) \<or> list_ex (\<lambda>x. key x \<in> key ` set (cd_iocs (rn_db r))) rows))"

definition lenient_int :: "pyval \<Rightarrow> int" where
  "lenient_int v =
     (case (case v of PyStr s \<Rightarrow> py_int (PyStr (rstrip_char (CHR ''%'') s)) | _ \<Rightarrow> py_int (py_or v (PyInt 0))) of
        Inl _ \<Rightarrow> 0 | Inr n \<Rightarrow> n)"

definition post_enrichment_hostnames :: "triage_row list \<Rightarrow> string list" where
  "post_enrichment_hostnames rows =
     take 10 (filter (\<lambda>n. n \<noteq> []) (map opt_str (concat (map tr_hostnames rows))))"

definition post_enrichment :: "string option list \<Rightarrow> triage_row list \<Rightarrow> (string \<times> pyval) list" where
  "post_enrichment orgs rows =
     [(''dst_asn'', PyStr (case orgs of [] \<Rightarrow> [] | o1 # _ \<Rightarrow> opt_str o1)),
      (''dst_hostnames'', PyList (map PyStr (post_enrichment_hostnames rows))),
      (''vt_clean'', PyBool (list_all (\<lambda>r.
          max (lenient_int (get (map_of (tr_summary r)) ''vt_malicious''))
              (lenient_int (get (map_of (tr_summary r)) ''virustotal_malicious'')) \<le> 1) rows)),
      (''abuseipdb_score'', PyInt (case map (\<lambda>r. lenient_int (get (map_of (tr_summary r)) ''abuseipdb'')) rows of
          [] \<Rightarrow> 0 | n # ns \<Rightarrow> Max (set (n # ns))))]"

text \<open>\<open>_ok\<close>: a lookup that failed counts as an empty one, and leaves a warning.\<close>

definition ok_list :: "py_exc + 'a list \<Rightarrow> 'a list" where
  "ok_list res = (case res of Inl _ \<Rightarrow> [] | Inr xs \<Rightarrow> xs)"

definition warn_failed :: "pipe_env \<Rightarrow> py_exc + 'a list \<Rightarrow> run \<Rightarrow> run" where
  "warn_failed env res r = (case res of Inl _ \<Rightarrow> emit env ''enrich_subtask_failed'' r | Inr _ \<Rightarrow> r)"

definition autoclose_post :: "pipe_env \<Rightarrow> run \<Rightarrow> run" where
  "autoclose_post env r =
     (case autoclose_now env
             (Some (post_enrichment (ok_list (pe_ipinfo env)) (en_triage (i_enrichment (rn_inc r))))) r of
        None \<Rightarrow> r
      | Some hit \<Rightarrow> emit env ''auto_close_post'' (set_inc (\<lambda>inc. inc\<lparr>i_autoclose_post := Some hit\<rparr>) r))"

definition after_lookup :: "pipe_env \<Rightarrow> run \<Rightarrow> run" where
  "after_lookup env r =
     emit env ''enrich_done''
       (autoclose_post env
         (set_en (\<lambda>en. en\<lparr>en_triage := ok_list (pe_triage env)\<rparr>)
           (warn_failed env (pe_ipinfo env) (warn_failed env (pe_triage env) r))))"

definition store_iocs :: "(ioc_type \<times> string) list \<Rightarrow> run \<Rightarrow> run" where
  "store_iocs iocs r =
     r\<lparr>rn_db := (rn_db r)\<lparr>cd_iocs := cd_iocs (rn_db r) @ map (ioc_row (i_id (rn_inc r))) iocs\<rparr>\<rparr>"

definition step_enrich :: "pipe_env \<Rightarrow> step" where
  "step_enrich env r0 =
     (let r = emit env ''enrich_start'' (set_status Enriching r0)
      in case filtered_iocs env (i_customer (rn_inc r)) of
           Inl e \<Rightarrow> (r, Some e)
         | Inr (iocs, excluded) \<Rightarrow>
             (let r1 = store_iocs iocs (if excluded then emit env ''iocs_excluded'' r else r)
              in case pe_feeds env of
                   Inl e \<Rightarrow> (r1, Some e)
                 | Inr feeds \<Rightarrow>
                     (let ms = match_iocs feeds (map (\<lambda>(t, v). (ioc_type_value t, PyStr v)) iocs)
                      in (after_lookup env (if ms = [] then r1 else apply_threat_intel_signal env ms r1), None))))"

section \<open>Entities\<close>

text \<open>The entities of the alert, linked to the incident once each.\<close>

definition link_entity :: "uid \<Rightarrow> uid \<Rightarrow> (uid \<times> uid) list \<Rightarrow> (uid \<times> uid) list" where
  "link_entity i e links = (if (i, e) \<in> set links then links else links @ [(i, e)])"

definition step_entities :: "pipe_env \<Rightarrow> step" where
  "step_entities env r =
     (if pe_entities env = [] then (r, None)
      else (emit env ''entities_resolved''
              (r\<lparr>rn_db := (rn_db r)\<lparr>cd_entity_links :=
                   fold (link_entity (i_id (rn_inc r))) (pe_entities env) (cd_entity_links (rn_db r))\<rparr>\<rparr>), None))"

section \<open>The decision gate\<close>

definition sensitive_keyword :: "run \<Rightarrow> string option" where
  "sensitive_keyword r =
     snd (is_sensitive [(case i_rule_name (rn_inc r) of None \<Rightarrow> PyNone | Some s \<Rightarrow> PyStr s),
                        field r ''event_name'', field r ''event_description''])"

text \<open>The fused scores are best effort: an exception leaves the enrichment as it is. Correlation is off by default, so
  the enrichment names no cluster.\<close>

definition with_threat :: "string \<Rightarrow> string \<Rightarrow> int \<Rightarrow> string option \<Rightarrow> run \<Rightarrow> run" where
  "with_threat v c chain focus r =
     (case build_bundle (i_enrichment (rn_inc r)) PyNone v c (severity_value (i_severity (rn_inc r))) chain focus
             (field r ''vendor_score'') of
        Inl _ \<Rightarrow> r
      | Inr b \<Rightarrow> set_en (\<lambda>en. en\<lparr>en_threat := Some (of_int (sr_threat (compute_scores b)))\<rparr>) r)"

definition gate_result :: "incident \<Rightarrow> (verdict \<times> confidence \<times> gate) option" where
  "gate_result inc =
     (let en = i_enrichment inc;
          ac = (case i_autoclose_post inc of None \<Rightarrow> i_autoclose_pre inc | Some h \<Rightarrow> Some h)
      in evaluate (en_exact_match en) (en_n_way en) ac (en_triage en))"

definition step_decision :: "pipe_env \<Rightarrow> step" where
  "step_decision env r =
     (case sensitive_keyword r of
        Some kw \<Rightarrow>
          (emit env ''decision_gate''
             (set_status Awaiting_Synthesis (set_en (\<lambda>en. en\<lparr>en_sensitive := Some kw\<rparr>) r)), None)
      | None \<Rightarrow>
          (case gate_result (rn_inc r) of
             Some (v, c, g) \<Rightarrow>
               (emit env ''decision_gate''
                  (set_status Decided_Short_Circuit
                    (with_threat (verdict_value v) (confidence_value c) 0 None
                      (set_inc (\<lambda>inc. inc\<lparr>i_verdict := v, i_confidence := Some c, i_short_circuit := Some g\<rparr>) r))),
                None)
           | None \<Rightarrow> (emit env ''decision_gate'' (set_status Awaiting_Synthesis r), None)))"

section \<open>The fast classifier\<close>

text \<open>\<open>re.search(r"\{[^{}]*\}", s)\<close>.\<close>

fun flat_object :: "string \<Rightarrow> string option" where
  "flat_object [] = None"
| "flat_object (c # s) =
     (let body = takeWhile (\<lambda>d. d \<noteq> CHR ''{'' \<and> d \<noteq> CHR ''}'') s
      in if c = CHR ''{'' \<and> prefix ''}'' (drop (length body) s) then Some (c # body @ ''}'')
         else flat_object s)"

definition strip_fences :: "string \<Rightarrow> string" where
  "strip_fences t =
     (let s = (if prefix ''```'' t then lstrip (skip_json (drop 3 t)) else t)
      in if suffix ''```'' (rstrip s) then rstrip (take (length (rstrip s) - 3) (rstrip s)) else s)"

definition answer_field :: "py_lib \<Rightarrow> (string \<times> pyval) list \<Rightarrow> string \<Rightarrow> string \<Rightarrow> string" where
  "answer_field lib d k dflt = py_str lib (py_or (get (map_of d) k) (PyStr dflt))"

definition parse_fast_classifier :: "py_lib \<Rightarrow> string \<Rightarrow> py_exc + fast_verdict" where
  "parse_fast_classifier lib txt =
     (let s = strip_fences (strip txt);
          body = (case flat_object s of None \<Rightarrow> s | Some b \<Rightarrow> b)
      in case pl_loads lib body of
           None \<Rightarrow> Inr \<lparr>fv_verdict = ''?'', fv_confidence = ''?'',
                        fv_reason = ''(fast classifier returned non-JSON)''\<rparr>
         | Some (PyDict d) \<Rightarrow>
             Inr \<lparr>fv_verdict = upper (answer_field lib d ''verdict'' ''?''),
                  fv_confidence = upper (answer_field lib d ''confidence'' ''?''),
                  fv_reason = take 300 (answer_field lib d ''reason'' [])\<rparr>
         | Some _ \<Rightarrow> Inl AttributeError)"

definition add_stage :: "string \<Rightarrow> run \<Rightarrow> run" where
  "add_stage st = set_en (\<lambda>en. en\<lparr>en_stages := (if st \<in> set (en_stages en) then en_stages en else en_stages en @ [st])\<rparr>)"

text \<open>Tier 1. The result is the fast verdict, when the model answered.\<close>

definition fast_tier :: "pipe_env \<Rightarrow> run \<Rightarrow> run \<times> (py_exc + fast_verdict option)" where
  "fast_tier env r0 =
     (let r = emit env ''l1_running'' r0
      in case pe_fast env of
           No_Answer \<Rightarrow> (emit env ''l1_done'' r, Inr None)
         | Answer txt \<Rightarrow>
             (case parse_fast_classifier (pe_lib env) txt of
                Inl e \<Rightarrow> (r, Inl e)
              | Inr fv \<Rightarrow>
                  (emit env ''l1_done'' (add_stage ''l1'' (set_en (\<lambda>en. en\<lparr>en_fast := Some fv\<rparr>) r)),
                   Inr (Some fv))))"

definition fast_gate_applies :: "fast_verdict \<Rightarrow> bool" where
  "fast_gate_applies fv \<longleftrightarrow>
     upper (fv_confidence fv) = ''HIGH'' \<and> upper (fv_verdict fv) \<in> {''FP'', ''BENIGN''}"

definition fast_block :: "string option \<Rightarrow> fast_verdict \<Rightarrow> incident \<Rightarrow> block_reason option" where
  "fast_block sensitive fv inc =
     short_circuit_block_reason (upper (fv_verdict fv)) sensitive (en_exact_match (i_enrichment inc))
       (en_n_way (i_enrichment inc)) (i_autoclose_pre inc) (i_autoclose_post inc)"

definition fast_close :: "pipe_env \<Rightarrow> fast_verdict \<Rightarrow> run \<Rightarrow> run" where
  "fast_close env fv r =
     emit env ''decision_gate''
       (set_inc (\<lambda>inc. inc\<lparr>i_verdict := (if upper (fv_verdict fv) = ''FP'' then FP else Benign),
                           i_confidence := Some CHigh,
                           i_short_circuit := Some (Fast_Classifier_Gate (fv_reason fv)),
                           i_status := Decided_Short_Circuit\<rparr>) r)"

section \<open>The deep tier and the manager\<close>

definition map_confidence :: "string \<Rightarrow> confidence option" where
  "map_confidence c = confidence_of (lower c)"

definition hunt_stage :: "pipe_env \<Rightarrow> analysis_verdict \<Rightarrow> run \<Rightarrow> run \<times> string option" where
  "hunt_stage env l2 r =
     (if \<not> should_hunt l2 then (emit env ''hunt_skipped'' r, None)
      else
        (let r1 = emit env ''hunt_running'' r
         in (emit env ''hunt_done'' (if pe_hunt env = None then r1 else add_stage ''hunt'' r1), pe_hunt env)))"

definition forensics_stage :: "pipe_env \<Rightarrow> analysis_verdict \<Rightarrow> string option \<Rightarrow> run \<Rightarrow> run" where
  "forensics_stage env l2 hunt r =
     (if \<not> should_run_forensics l2 hunt then emit env ''forensics_skipped'' r
      else
        (let r1 = emit env ''forensics_running'' r
         in emit env ''forensics_done'' (if pe_forensics env then add_stage ''forensics'' r1 else r1)))"

definition manager_actions :: "pipe_env \<Rightarrow> analysis_verdict \<Rightarrow> incident \<Rightarrow> py_exc + proposed_action list" where
  "manager_actions env l2 inc =
     and_then (propose_response_actions (pe_lib env) l2 (i_enrichment inc) (pe_v1 env) (i_normalized inc)) (\<lambda>acts.
       (let marked = apply_guardrails acts (av_confidence l2)
                       (load_policy (pe_policy_file env) (pe_policy_rows env) (i_tenant_id inc))
        in Inr (marked @ [create_case_action (length marked)])))"

definition manager_stage :: "pipe_env \<Rightarrow> analysis_verdict \<Rightarrow> step" where
  "manager_stage env l2 r0 =
     (let r = emit env ''synthesis_running'' r0
      in case manager_actions env l2 (rn_inc r) of
           Inl e \<Rightarrow> (r, Some e)
         | Inr acts \<Rightarrow>
             (let v = map_verdict_to_isoc (av_verdict l2);
                  r1 = set_en (\<lambda>en. en\<lparr>en_proposal := Some \<lparr>pp_verdict = Some v, pp_confidence = Some (av_confidence l2)\<rparr>\<rparr>) r;
                  r2 = set_en (\<lambda>en. en\<lparr>en_proposed_actions := acts\<rparr>) 
                         (with_threat v (av_confidence l2) (int (length (av_attack_chain l2))) (av_hunt_focus l2) r1);
                  r3 = set_inc (\<lambda>inc. inc\<lparr>i_confidence :=
                         (case map_confidence (av_confidence l2) of None \<Rightarrow> i_confidence inc | Some c \<Rightarrow> Some c),
                         i_status := Awaiting_Signoff\<rparr>) r2
              in (emit env ''awaiting_signoff'' (emit env ''synthesis_done'' r3), None)))"

definition analysis_of :: "pipe_env \<Rightarrow> string \<Rightarrow> analysis_verdict" where
  "analysis_of env txt =
     (case parse_analysis_verdict (pl_loads (pe_lib env)) (pe_validate env) (Some txt) of
        None \<Rightarrow> default_analysis | Some v \<Rightarrow> v)"

definition deep_tier :: "pipe_env \<Rightarrow> bool \<Rightarrow> step" where
  "deep_tier env has_l1 r0 =
     (let r = emit env ''l2_running'' r0
      in case over_budget (pe_daily_cap env) (pe_incident_cap env) (pe_now env) (pe_calls env) (i_id (rn_inc r)) of
           Some _ \<Rightarrow> (set_status Awaiting_Review (emit env ''l2_done'' r), None)
         | None \<Rightarrow>
             (case pe_deep env of
                No_Answer \<Rightarrow> (emit env ''l2_done'' (set_status Failed r), None)
              | Answer txt \<Rightarrow>
                  (let l2 = analysis_of env txt;
                       r1 = (if has_l1 then add_stage ''l1'' r else r);
                       r2 = emit env ''l2_done''
                              (add_stage ''l2'' (set_inc (\<lambda>inc. inc\<lparr>i_llm_report := Some txt\<rparr>) r1));
                       (r3, hunt) = hunt_stage env l2 r2
                   in manager_stage env l2 (forensics_stage env l2 hunt r3))))"

definition persist_sensitive :: "pipe_env \<Rightarrow> run \<Rightarrow> run" where
  "persist_sensitive env r =
     (case sensitive_keyword r of
        None \<Rightarrow> r
      | Some kw \<Rightarrow> emit env ''sensitive_rule_match'' (set_en (\<lambda>en. en\<lparr>en_sensitive := Some kw\<rparr>) r))"

definition step_synthesis :: "bool \<Rightarrow> pipe_env \<Rightarrow> step" where
  "step_synthesis force_deep env r0 =
     (let sens = sensitive_keyword r0; r = persist_sensitive env r0
      in if force_deep then
           deep_tier env False (emit env ''deep_forced'' (set_inc (\<lambda>inc. inc\<lparr>i_short_circuit := None\<rparr>) r))
         else
           (case fast_tier env r of
              (r1, Inl e) \<Rightarrow> (r1, Some e)
            | (r1, Inr None) \<Rightarrow> deep_tier env False r1
            | (r1, Inr (Some fv)) \<Rightarrow>
                if \<not> fast_gate_applies fv then deep_tier env True r1
                else (case fast_block sens fv (rn_inc r1) of
                        Some _ \<Rightarrow> deep_tier env True (emit env ''short_circuit_blocked'' r1)
                      | None \<Rightarrow> (fast_close env fv r1, None))))"

section \<open>The run\<close>

definition before_enrich :: "pipe_env \<Rightarrow> run \<Rightarrow> run" where
  "before_enrich env r =
     safe_step env ''dedup'' (step_dedup env)
       (safe_step env ''auto_close_pre'' (step_autoclose_pre env)
         (safe_step env ''parse'' (step_parse env) r))"

definition after_enrich :: "pipe_env \<Rightarrow> run \<Rightarrow> run" where
  "after_enrich env r =
     safe_step env ''decision'' (step_decision env)
       (safe_step env ''correlate'' (\<lambda>r. (r, None))
         (safe_step env ''entities'' (step_entities env)
           (safe_step env ''enrich'' (step_enrich env) r)))"

definition settle :: "run \<Rightarrow> run" where
  "settle r =
     (if i_status (rn_inc r) \<in> {Closed, Awaiting_Signoff} then r
      else set_status (if i_verdict (rn_inc r) = Pending then Awaiting_Review else Closed) r)"

definition close_ledger :: "pipe_env \<Rightarrow> run \<Rightarrow> run" where
  "close_ledger env r =
     (if i_status (rn_inc r) = Closed then
        (let r1 = set_inc (\<lambda>inc. inc\<lparr>i_closed_at := (case i_closed_at inc of None \<Rightarrow> Some (pe_now env) | Some t \<Rightarrow> Some t)\<rparr>) r;
             inc = rn_inc r1
         in r1\<lparr>rn_db := mirror inc (i_verdict inc)
                (record_sla_event (pe_now env) Closed_Event None inc
                  (record_sla_event (pe_now env) Resolved None inc (rn_db r1)))\<rparr>)
      else r)"

definition finish_run :: "pipe_env \<Rightarrow> run \<Rightarrow> run" where
  "finish_run env r = emit env ''pipeline_done'' (close_ledger env (settle r))"

definition fail_run :: "pipe_env \<Rightarrow> run \<Rightarrow> run" where
  "fail_run env r = audit_system env ''pipeline.failed'' (emit env ''pipeline_failed'' (set_status Failed r))"

definition complete_run :: "pipe_env \<Rightarrow> run \<Rightarrow> run" where
  "complete_run env r =
     (if i_status (rn_inc r) = Awaiting_Synthesis then
        (case step_synthesis False env r of
           (r', None) \<Rightarrow> finish_run env r' | (r', Some _) \<Rightarrow> fail_run env r')
      else finish_run env r)"

text \<open>Writing the incident object back to its row.\<close>

definition commit_run :: "run \<Rightarrow> case_db \<times> tenant_db" where
  "commit_run r = (upd_incident (i_id (rn_inc r)) (\<lambda>_. rn_inc r) (rn_db r), rn_tenants r)"

definition start_run :: "pipe_env \<Rightarrow> incident \<Rightarrow> case_db \<Rightarrow> tenant_db \<Rightarrow> run" where
  "start_run env inc db ts =
     \<lparr>rn_inc = inc, rn_db = record_sla_event (pe_now env) Detected None inc db, rn_tenants = ts\<rparr>"

text \<open>\<open>None\<close> as the exception: the run ended. A failed flush loses what was not committed, and the
  emission of the failure event raises again: the run ends with that exception and the state of the last
  commit.\<close>

definition run_pipeline ::
  "pipe_env \<Rightarrow> uid \<Rightarrow> case_db \<times> tenant_db \<Rightarrow> (case_db \<times> tenant_db) \<times> py_exc option" where
  "run_pipeline env i st =
     (let (db, ts) = st
      in case get_incident i db of
           None \<Rightarrow> (st, None)
         | Some inc \<Rightarrow>
             (let r = before_enrich env (start_run env inc db ts)
              in if ioc_conflict env r then (commit_run r, Some (RuntimeError ''IntegrityError''))
                 else (commit_run (complete_run env (after_enrich env r)), None)))"

text \<open>\<open>pipeline_synthesize_only\<close> of \<open>worker.py\<close>: an exception leaves the row as it was.\<close>

definition pipeline_synthesize_only ::
  "pipe_env \<Rightarrow> bool \<Rightarrow> uid \<Rightarrow> case_db \<times> tenant_db \<Rightarrow> case_db \<times> tenant_db" where
  "pipeline_synthesize_only env force_deep i st =
     (let (db, ts) = st
      in case get_incident i db of
           None \<Rightarrow> st
         | Some inc \<Rightarrow>
             (case step_synthesis force_deep env \<lparr>rn_inc = inc, rn_db = db, rn_tenants = ts\<rparr> of
                (r, None) \<Rightarrow> commit_run r | (_, Some _) \<Rightarrow> st))"

section \<open>What a run leaves alone\<close>

text \<open>The fields of the row that belong to people, and the tables the pipeline has no business in.\<close>

definition human_fields :: "incident \<Rightarrow> _" where
  "human_fields inc =
     (i_id inc, i_case_number inc, (i_approved_by_id inc, i_signed_off_at inc), (i_assignee_id inc, i_claimed_at inc),
      (i_snoozed_until inc, i_escalated_at inc, i_deleted_at inc), i_created_at inc, en_v1_actions (i_enrichment inc))"

definition outside_tables :: "case_db \<Rightarrow> _" where
  "outside_tables db =
     (cd_incidents db, cd_edr db, (cd_customer_cases db, cd_case_incidents db), (cd_suggestions db, cd_memory db),
      (cd_jobs db, cd_notifications db, cd_watchers db), cd_risk db)"

definition outside :: "run \<Rightarrow> _" where
  "outside r = (human_fields (rn_inc r), outside_tables (rn_db r))"

text \<open>The ledger and the mirror, which only the close writes.\<close>

definition inside :: "run \<Rightarrow> _" where
  "inside r = (outside r, cd_sla (rn_db r), cd_mirrored (rn_db r))"

lemma outside_id: "outside r' = outside r \<Longrightarrow> i_id (rn_inc r') = i_id (rn_inc r)"
  by (simp add: outside_def human_fields_def)

lemma inside_outside: "inside r' = inside r \<Longrightarrow> outside r' = outside r"
  by (simp add: inside_def)

lemma inside_simps [simp]:
  "inside (emit env ev r) = inside r"
  "inside (audit_system env a r) = inside r"
  "inside (store_iocs xs r) = inside r"
  "inside (set_status st r) = inside r"
  "inside (add_stage l r) = inside r"
  "inside (with_threat v c n fo r) = inside r"
  "inside (r\<lparr>rn_tenants := ts\<rparr>) = inside r"
  by (simp_all add: inside_def outside_def outside_tables_def human_fields_def emit_def audit_system_def store_iocs_def
      set_status_def set_inc_def set_en_def add_stage_def with_threat_def add_timeline_def split: option.split sum.split)

lemma inside_set_inc [simp]:
  "human_fields (f (rn_inc r)) = human_fields (rn_inc r) \<Longrightarrow> inside (set_inc f r) = inside r"
  by (simp add: inside_def outside_def set_inc_def)

lemma inside_set_en [simp]:
  "en_v1_actions (f (i_enrichment (rn_inc r))) = en_v1_actions (i_enrichment (rn_inc r)) \<Longrightarrow>
   inside (set_en f r) = inside r"
  by (simp add: set_en_def human_fields_def)

lemma inside_warn [simp]: "inside (warn_failed env res r) = inside r"
  by (simp add: warn_failed_def split: sum.split)

lemma inside_safe_step:
  "(\<And>r. inside (fst (st r)) = inside r) \<Longrightarrow> inside (safe_step env l st r) = inside r"
  by (simp add: safe_step_def split: prod.split option.split) (metis fst_conv inside_simps(1))

lemma inside_parse: "inside (fst (step_parse env r)) = inside r"
proof -
  have "inside (fst (bind_tenant env r)) = inside r" for r
    by (simp add: bind_tenant_def Let_def human_fields_def inside_def outside_def set_inc_def
        split: prod.split sum.split)
  moreover have "inside (set_inc (parsed_incident env nm) r) = inside r" for nm
    by (simp add: parsed_incident_def Let_def human_fields_def)
  ultimately show ?thesis
    by (auto simp: step_parse_def split: sum.split prod.split option.split) (metis fst_conv)+
qed

lemma inside_autoclose: "inside (fst (step_autoclose_pre env r)) = inside r"
  by (simp add: step_autoclose_pre_def human_fields_def split: option.split)

lemma inside_dedup: "inside (fst (step_dedup env r)) = inside r"
  by (simp add: step_dedup_def Let_def)

lemma inside_signal [simp]: "inside (apply_threat_intel_signal env ms r) = inside r"
  by (simp add: apply_threat_intel_signal_def Let_def human_fields_def)

lemma inside_after_lookup [simp]: "inside (after_lookup env r) = inside r"
  by (simp add: after_lookup_def autoclose_post_def human_fields_def split: option.split)

lemma inside_enrich: "inside (fst (step_enrich env r)) = inside r"
  by (simp add: step_enrich_def Let_def split: sum.split)

lemma inside_entities: "inside (fst (step_entities env r)) = inside r"
  by (simp add: step_entities_def inside_def outside_def outside_tables_def emit_def add_timeline_def)

lemma inside_decision: "inside (fst (step_decision env r)) = inside r"
  by (simp add: step_decision_def human_fields_def split: option.split prod.split)

lemmas inside_steps = inside_parse inside_autoclose inside_dedup inside_enrich inside_entities inside_decision

lemma inside_before_enrich [simp]: "inside (before_enrich env r) = inside r"
  by (simp add: before_enrich_def inside_safe_step inside_steps)

lemma inside_after_enrich [simp]: "inside (after_enrich env r) = inside r"
  by (simp add: after_enrich_def inside_safe_step inside_steps)

lemma inside_fast_tier: "inside (fst (fast_tier env r)) = inside r"
  by (simp add: fast_tier_def Let_def split: llm_answer.split sum.split)

lemma inside_fast_close [simp]: "inside (fast_close env fv r) = inside r"
  by (simp add: fast_close_def human_fields_def)

lemma inside_hunt: "inside (fst (hunt_stage env l2 r)) = inside r"
  by (simp add: hunt_stage_def Let_def)

lemma inside_forensics [simp]: "inside (forensics_stage env l2 h r) = inside r"
  by (simp add: forensics_stage_def Let_def)

lemma inside_manager: "inside (fst (manager_stage env l2 r)) = inside r"
  by (simp add: manager_stage_def Let_def human_fields_def split: sum.split)

lemma inside_deep: "inside (fst (deep_tier env b r)) = inside r"
proof -
  have "inside (fst (case hunt_stage env l2 r' of (r3, hunt) \<Rightarrow> manager_stage env l2 (forensics_stage env l2 hunt r3))) =
        inside r'" for l2 r'
    using inside_hunt[of env l2 r'] by (cases "hunt_stage env l2 r'") (simp add: inside_manager)
  then show ?thesis
    by (simp add: deep_tier_def Let_def human_fields_def split: option.split llm_answer.split)
qed

lemma inside_persist [simp]: "inside (persist_sensitive env r) = inside r"
  by (simp add: persist_sensitive_def split: option.split)

lemma inside_synthesis: "inside (fst (step_synthesis fd env r)) = inside r"
proof -
  have "inside (fst (fast_tier env (persist_sensitive env r))) = inside r"
    by (simp add: inside_fast_tier)
  then show ?thesis
    by (auto simp: step_synthesis_def Let_def inside_deep human_fields_def
        split: prod.split sum.split option.split)
qed

lemmas outside_simps [simp] = inside_simps [THEN inside_outside]

lemma outside_finish: "outside (finish_run env r) = outside r"
proof -
  have "outside (close_ledger env r) = outside r" for r
    by (simp add: close_ledger_def Let_def outside_def set_inc_def outside_tables_def human_fields_def mirror_def
        record_sla_event_def)
  then show ?thesis by (simp add: finish_run_def settle_def)
qed

lemma inside_fail [simp]: "inside (fail_run env r) = inside r"
  by (simp add: fail_run_def)

lemma outside_complete: "outside (complete_run env r) = outside r"
proof -
  obtain r' e where st: "step_synthesis False env r = (r', e)" by (cases "step_synthesis False env r")
  with inside_synthesis[of False env r] have "outside r' = outside r" by (intro inside_outside) simp
  with st show ?thesis
    by (cases e) (simp_all add: complete_run_def outside_finish inside_fail[THEN inside_outside])
qed

end
