(* ===== verification/Pipeline_Safety.thy ===== *)
theory Pipeline_Safety
  imports Pipeline
begin

text \<open>
  What the alert pipeline promises. The steps of \<open>Pipeline\<close> keep the recorded evidence honest: an
  auto-close hit is one of the rules on this alert, a match or an n-way block is one of the cases the store
  returned, with a verdict a person verified. A run that closes the incident rests on such evidence, ends in
  one of four statuses, and leaves everything alone that belongs to people.
\<close>

section \<open>What a close rests on\<close>

definition hits_of :: "prior list option \<Rightarrow> prior set" where
  "hits_of hs = (case hs of None \<Rightarrow> {} | Some ps \<Rightarrow> set ps)"

text \<open>A case someone verified, with this verdict, among those the store returned.\<close>

definition verified_case :: "pipe_env \<Rightarrow> string option \<Rightarrow> bool" where
  "verified_case env v \<longleftrightarrow>
     (\<exists>p \<in> hits_of (pe_exact_hits env) \<union> hits_of (pe_similar_hits env). p_human_verified p \<and> p_verdict p = v)"

text \<open>An auto-close hit of the rules on this alert.\<close>

definition rule_hit :: "pipe_env \<Rightarrow> incident \<Rightarrow> autoclose_hit \<Rightarrow> bool" where
  "rule_hit env inc a \<longleftrightarrow>
     (\<exists>en. autoclose_check (pe_yaml env) (pe_rules env) (alert_fields (i_normalized inc)) en = Some a)"

definition from_rules :: "pipe_env \<Rightarrow> incident \<Rightarrow> bool" where
  "from_rules env inc \<longleftrightarrow>
     (\<forall>a. i_autoclose_pre inc = Some a \<or> i_autoclose_post inc = Some a \<longrightarrow> rule_hit env inc a)"

definition from_cases :: "pipe_env \<Rightarrow> incident \<Rightarrow> bool" where
  "from_cases env inc \<longleftrightarrow>
     (\<forall>e. en_exact_match (i_enrichment inc) = Some e \<longrightarrow> verified_case env (em_verdict e)) \<and>
     (\<forall>n. en_n_way (i_enrichment inc) = Some n \<longrightarrow> verified_case env (nw_verdict n))"

definition backed :: "pipe_env \<Rightarrow> incident \<Rightarrow> bool" where
  "backed env inc \<longleftrightarrow>
     (\<exists>a. rule_hit env inc a \<and> lower (opt_str (ac_verdict a)) = lower (verdict_value (i_verdict inc))) \<or>
     (\<exists>v. verified_case env v \<and> lower (opt_str v) = lower (verdict_value (i_verdict inc)))"

text \<open>The part of the row the evidence is in.\<close>

definition evidence :: "incident \<Rightarrow> _" where
  "evidence inc =
     (i_normalized inc, i_rule_name inc, i_autoclose_pre inc, i_autoclose_post inc,
      en_exact_match (i_enrichment inc), en_n_way (i_enrichment inc))"

lemma evidence_preds:
  assumes "evidence inc' = evidence inc"
  shows "from_rules env inc' = from_rules env inc" "from_cases env inc' = from_cases env inc"
    "rule_hit env inc' a = rule_hit env inc a"
  using assms by (simp_all add: evidence_def from_rules_def from_cases_def rule_hit_def)

lemma keyword_evidence:
  "evidence (rn_inc r') = evidence (rn_inc r) \<Longrightarrow> sensitive_keyword r' = sensitive_keyword r"
  by (simp add: sensitive_keyword_def field_def evidence_def)

lemma rn_inc_simps [simp]:
  "rn_inc (emit env ev r) = rn_inc r"
  "rn_inc (audit_system env a r) = rn_inc r"
  "rn_inc (store_iocs xs r) = rn_inc r"
  "rn_inc (set_inc f r) = f (rn_inc r)"
  "rn_inc (warn_failed env res r) = rn_inc r"
  "rn_inc (set_en g r) = (rn_inc r)\<lparr>i_enrichment := g (i_enrichment (rn_inc r))\<rparr>"
  "rn_inc (set_status st r) = (rn_inc r)\<lparr>i_status := st\<rparr>"
  by (simp_all add: emit_def audit_system_def store_iocs_def set_inc_def warn_failed_def set_en_def set_status_def
      split: sum.split)

lemma rn_inc_safe_step [simp]:
  "rn_inc (safe_step env l st r) = rn_inc (fst (st (emit env (l @ ''_running'') r)))"
  by (simp add: safe_step_def split: prod.split option.split)

lemma evidence_upd [simp]:
  "evidence (inc\<lparr>i_status := st\<rparr>) = evidence inc" "evidence (inc\<lparr>i_verdict := v\<rparr>) = evidence inc"
  "evidence (inc\<lparr>i_confidence := c\<rparr>) = evidence inc" "evidence (inc\<lparr>i_short_circuit := g\<rparr>) = evidence inc"
  "evidence (inc\<lparr>i_severity := sv\<rparr>) = evidence inc" "evidence (inc\<lparr>i_llm_report := t\<rparr>) = evidence inc"
  "evidence (inc\<lparr>i_closed_at := w\<rparr>) = evidence inc"
  "en_exact_match en = en_exact_match (i_enrichment inc) \<Longrightarrow> en_n_way en = en_n_way (i_enrichment inc) \<Longrightarrow>
   evidence (inc\<lparr>i_enrichment := en\<rparr>) = evidence inc"
  by (simp_all add: evidence_def)

lemma rn_inc_threat [simp]:
  "evidence (rn_inc (with_threat v c n fo r)) = evidence (rn_inc r)"
  "i_verdict (rn_inc (with_threat v c n fo r)) = i_verdict (rn_inc r)"
  "i_status (rn_inc (with_threat v c n fo r)) = i_status (rn_inc r)"
  "i_closed_at (rn_inc (with_threat v c n fo r)) = i_closed_at (rn_inc r)"
  by (simp_all add: with_threat_def split: sum.split)

lemma rn_inc_stage [simp]:
  "evidence (rn_inc (add_stage l r)) = evidence (rn_inc r)"
  "i_verdict (rn_inc (add_stage l r)) = i_verdict (rn_inc r)"
  "i_status (rn_inc (add_stage l r)) = i_status (rn_inc r)"
  "i_closed_at (rn_inc (add_stage l r)) = i_closed_at (rn_inc r)"
  by (simp_all add: add_stage_def)

subsection \<open>Up to the gate\<close>

lemma parse_keeps:
  "i_verdict (rn_inc (fst (step_parse env r))) = i_verdict (rn_inc r)"
  "i_autoclose_pre (rn_inc (fst (step_parse env r))) = i_autoclose_pre (rn_inc r)"
  "i_autoclose_post (rn_inc (fst (step_parse env r))) = i_autoclose_post (rn_inc r)"
  "i_closed_at (rn_inc (fst (step_parse env r))) = i_closed_at (rn_inc r)"
  by (simp_all add: step_parse_def bind_tenant_def parsed_incident_def Let_def split: sum.split prod.split option.split)

lemma pre_from_rules:
  assumes "i_autoclose_pre (rn_inc r) = None" "i_autoclose_post (rn_inc r) = None"
  shows "from_rules env (rn_inc (fst (step_autoclose_pre env r)))"
  using assms
  by (auto simp: step_autoclose_pre_def from_rules_def rule_hit_def autoclose_now_def split: option.split)

lemma pre_keeps:
  "i_verdict (rn_inc (fst (step_autoclose_pre env r))) = i_verdict (rn_inc r)"
  "i_closed_at (rn_inc (fst (step_autoclose_pre env r))) = i_closed_at (rn_inc r)"
  by (simp_all add: step_autoclose_pre_def split: option.split)

lemma dedup_keeps:
  "i_verdict (rn_inc (fst (step_dedup env r))) = i_verdict (rn_inc r)"
  "i_closed_at (rn_inc (fst (step_dedup env r))) = i_closed_at (rn_inc r)"
  "from_rules env (rn_inc (fst (step_dedup env r))) = from_rules env (rn_inc r)"
  by (simp_all add: step_dedup_def Let_def from_rules_def rule_hit_def)

lemma search_similar_hits: "p \<in> set (search_similar hc hits) \<Longrightarrow> p \<in> hits_of hits"
  by (auto simp: search_similar_def hits_of_def split: if_splits option.splits)

lemma n_way_verified:
  assumes "compute_n_way (rerank now (search_similar hc (pe_similar_hits env)) c) c n_way_populate_min = Some n"
  shows "verified_case env (nw_verdict n)"
proof -
  obtain w where w: "nw_verdict n = Some w"
    and m: "nw_matches n = filter (\<lambda>m. p_verdict m = Some w)
       (verified_priors (rerank now (search_similar hc (pe_similar_hits env)) c) c)"
    and k: "n_way_populate_min \<le> length (nw_matches n)"
    using compute_n_way_sound[OF assms] by metis
  from k obtain x where x: "x \<in> set (nw_matches n)"
    by (cases "nw_matches n") (auto simp: n_way_populate_min_def)
  with m obtain p where "p \<in> set (search_similar hc (pe_similar_hits env))"
    "p_human_verified p" "p_verdict p = Some w"
    by (auto simp: verified_priors_set set_rerank)
  with w show ?thesis by (auto simp: verified_case_def dest: search_similar_hits)
qed

lemma dedup_from_cases: "from_cases env (rn_inc (fst (step_dedup env r)))"
proof -
  have "verified_case env (em_verdict e)"
    if "find_exact_match hc (pe_exact_hits env) cl q = Some e" for hc cl q e
    using find_exact_match_trusted[OF that] by (auto simp: verified_case_def hits_of_def)
  then show ?thesis
    by (auto simp: step_dedup_def Let_def from_cases_def intro: n_way_verified)
qed

lemma signal_keeps [simp]:
  "evidence (rn_inc (apply_threat_intel_signal env ms r)) = evidence (rn_inc r)"
  "i_verdict (rn_inc (apply_threat_intel_signal env ms r)) = i_verdict (rn_inc r)"
  "i_closed_at (rn_inc (apply_threat_intel_signal env ms r)) = i_closed_at (rn_inc r)"
  by (simp_all add: apply_threat_intel_signal_def Let_def)

lemma after_lookup_keeps:
  "i_verdict (rn_inc (after_lookup env r)) = i_verdict (rn_inc r)"
  "i_closed_at (rn_inc (after_lookup env r)) = i_closed_at (rn_inc r)"
  "from_cases env (rn_inc (after_lookup env r)) = from_cases env (rn_inc r)"
  "from_rules env (rn_inc r) \<Longrightarrow> from_rules env (rn_inc (after_lookup env r))"
  by (auto simp: after_lookup_def autoclose_post_def from_cases_def from_rules_def rule_hit_def autoclose_now_def
      split: option.split)

lemma enrich_keeps:
  "i_verdict (rn_inc (fst (step_enrich env r))) = i_verdict (rn_inc r)"
  "i_closed_at (rn_inc (fst (step_enrich env r))) = i_closed_at (rn_inc r)"
  "from_cases env (rn_inc r) \<Longrightarrow> from_cases env (rn_inc (fst (step_enrich env r)))"
  "from_rules env (rn_inc r) \<Longrightarrow> from_rules env (rn_inc (fst (step_enrich env r)))"
  using evidence_preds[OF signal_keeps(1)]
  by (auto simp: step_enrich_def Let_def after_lookup_keeps evidence_preds(1,2)[OF evidence_upd(1)] split: sum.split)

lemma entities_keep [simp]: "rn_inc (fst (step_entities env r)) = rn_inc r"
  by (simp add: step_entities_def)

text \<open>The incident as a new alert creates it.\<close>

definition new_incident :: "incident \<Rightarrow> bool" where
  "new_incident inc \<longleftrightarrow>
     i_verdict inc = Pending \<and> i_autoclose_pre inc = None \<and> i_autoclose_post inc = None \<and> i_closed_at inc = None"

lemma before_gate:
  assumes "new_incident inc"
    and r: "r = safe_step env ''entities'' (step_entities env) (safe_step env ''enrich'' (step_enrich env)
     (before_enrich env (start_run env inc db ts)))"
  shows "i_verdict (rn_inc r) = Pending \<and> i_closed_at (rn_inc r) = None \<and>
    from_rules env (rn_inc r) \<and> from_cases env (rn_inc r)"
  using assms(1) unfolding r
  by (auto simp: before_enrich_def start_run_def new_incident_def enrich_keeps dedup_keeps dedup_from_cases pre_keeps
      parse_keeps intro!: enrich_keeps(3,4) pre_from_rules)

subsection \<open>The gate and after\<close>

text \<open>A deterministic decision rests on the recorded evidence.\<close>

lemma gate_source:
  "exact_gate em = Some (v, c, g) \<Longrightarrow>
   \<exists>e. em = Some e \<and> v \<noteq> Pending \<and> lower (opt_str (em_verdict e)) = lower (verdict_value v)"
  "autoclose_gate ac tr = Some (v, c, g) \<Longrightarrow>
   \<exists>a. ac = Some a \<and> v \<noteq> Pending \<and> lower (opt_str (ac_verdict a)) = lower (verdict_value v)"
  "n_way_gate nw = Some (v, c, g) \<Longrightarrow>
   \<exists>n. nw = Some n \<and> v \<noteq> Pending \<and> lower (opt_str (nw_verdict n)) = lower (verdict_value v)"
  unfolding exact_gate_Some autoclose_gate_Some n_way_gate_Some by (elim exE conjE disjE; simp)+

lemma gate_backed:
  assumes "gate_result inc = Some (v, c, g)" "from_rules env inc" "from_cases env inc"
  shows "v \<noteq> Pending \<and> backed env (inc\<lparr>i_verdict := v, i_confidence := c', i_short_circuit := g'\<rparr>)"
proof -
  let ?inc = "inc\<lparr>i_verdict := v, i_confidence := c', i_short_circuit := g'\<rparr>"
  have hits: "rule_hit env ?inc a = rule_hit env inc a" for a by (simp add: rule_hit_def)
  from assms(1)[unfolded gate_result_def Let_def evaluate_cases]
  consider (exact) "exact_gate (en_exact_match (i_enrichment inc)) = Some (v, c, g)"
    | (rule) "autoclose_gate (case i_autoclose_post inc of None \<Rightarrow> i_autoclose_pre inc | Some h \<Rightarrow> Some h)
        (en_triage (i_enrichment inc)) = Some (v, c, g)"
    | (nway) "n_way_gate (en_n_way (i_enrichment inc)) = Some (v, c, g)"
    by (elim disjE conjE) auto
  then show ?thesis
  proof cases
    case exact
    from gate_source(1)[OF this] obtain e where e: "en_exact_match (i_enrichment inc) = Some e" "v \<noteq> Pending"
      "lower (opt_str (em_verdict e)) = lower (verdict_value v)" by blast
    with assms(3) have "verified_case env (em_verdict e)" by (simp add: from_cases_def)
    with e show ?thesis unfolding backed_def by auto
  next
    case rule
    from gate_source(2)[OF this] obtain a where
      a: "(case i_autoclose_post inc of None \<Rightarrow> i_autoclose_pre inc | Some h \<Rightarrow> Some h) = Some a"
      "v \<noteq> Pending" "lower (opt_str (ac_verdict a)) = lower (verdict_value v)" by blast
    from a(1) have "i_autoclose_pre inc = Some a \<or> i_autoclose_post inc = Some a" by (simp split: option.splits)
    with assms(2) have "rule_hit env ?inc a" unfolding from_rules_def hits by blast
    with a show ?thesis unfolding backed_def by auto
  next
    case nway
    from gate_source(3)[OF this] obtain n where n: "en_n_way (i_enrichment inc) = Some n" "v \<noteq> Pending"
      "lower (opt_str (nw_verdict n)) = lower (verdict_value v)" by blast
    with assms(3) have "verified_case env (nw_verdict n)" by (simp add: from_cases_def)
    with n show ?thesis unfolding backed_def by auto
  qed
qed

lemma backed_evidence:
  assumes "evidence inc' = evidence inc" "i_verdict inc' = i_verdict inc"
  shows "backed env inc' = backed env inc"
  by (simp add: backed_def evidence_preds(3)[OF assms(1)] assms(2))

text \<open>The state of a run after the gate: undecided and on its way to the model, or decided on evidence
  under a rule that is not sensitive.\<close>

definition undecided :: "pipe_env \<Rightarrow> run \<Rightarrow> bool" where
  "undecided env r \<longleftrightarrow>
     i_verdict (rn_inc r) = Pending \<and> i_closed_at (rn_inc r) = None \<and>
     from_rules env (rn_inc r) \<and> from_cases env (rn_inc r)"

definition decided :: "pipe_env \<Rightarrow> run \<Rightarrow> bool" where
  "decided env r \<longleftrightarrow>
     i_verdict (rn_inc r) \<noteq> Pending \<and> i_closed_at (rn_inc r) = None \<and>
     i_status (rn_inc r) = Decided_Short_Circuit \<and>
     sensitive_keyword r = None \<and> backed env (rn_inc r)"

lemma decision_outcome:
  assumes "undecided env r"
  shows "undecided env (fst (step_decision env r)) \<and>
           i_status (rn_inc (fst (step_decision env r))) = Awaiting_Synthesis \<or>
         decided env (fst (step_decision env r))"
proof (cases "sensitive_keyword r")
  case (Some kw)
  then show ?thesis
    using assms by (simp add: step_decision_def undecided_def from_rules_def from_cases_def rule_hit_def)
next
  case none: None
  show ?thesis
  proof (cases "gate_result (rn_inc r)")
    case None
    with none assms show ?thesis
      by (simp add: step_decision_def undecided_def from_rules_def from_cases_def rule_hit_def)
  next
    case (Some vcg)
    then obtain v c g where g: "gate_result (rn_inc r) = Some (v, c, g)" by (cases vcg) auto
    let ?inc = "(rn_inc r)\<lparr>i_verdict := v, i_confidence := Some c, i_short_circuit := Some g\<rparr>"
    let ?r = "fst (step_decision env r)"
    have ev: "evidence (rn_inc ?r) = evidence ?inc" "i_verdict (rn_inc ?r) = v"
      "i_status (rn_inc ?r) = Decided_Short_Circuit" "i_closed_at (rn_inc ?r) = i_closed_at (rn_inc r)"
      using none g by (simp_all add: step_decision_def)
    have "v \<noteq> Pending" "backed env ?inc"
      using gate_backed[OF g, where env = env and c' = "Some c" and g' = "Some g"] assms by (simp_all add: undecided_def)
    moreover have "sensitive_keyword ?r = None"
      using none keyword_evidence[of r ?r] ev(1) by simp
    ultimately have "decided env ?r"
      using ev backed_evidence[of "rn_inc ?r" ?inc env] assms by (simp add: decided_def undecided_def)
    then show ?thesis ..
  qed
qed

text \<open>A fast-tier close is corroborated by the same evidence.\<close>

lemma fast_close_inc:
  "i_verdict (rn_inc (fast_close env fv r)) = (if upper (fv_verdict fv) = ''FP'' then FP else Benign)"
  "i_status (rn_inc (fast_close env fv r)) = Decided_Short_Circuit"
  "evidence (rn_inc (fast_close env fv r)) = evidence (rn_inc r)"
  "i_closed_at (rn_inc (fast_close env fv r)) = i_closed_at (rn_inc r)"
  by (simp_all add: fast_close_def)

lemma corroborates_source:
  "exact_corroborates v em \<Longrightarrow> \<exists>e. em = Some e \<and> lower (opt_str (em_verdict e)) = v"
  "n_way_corroborates v nw \<Longrightarrow> \<exists>n. nw = Some n \<and> lower (opt_str (nw_verdict n)) = v"
  "autoclose_corroborates v ac \<Longrightarrow> \<exists>a. ac = Some a \<and> lower (opt_str (ac_verdict a)) = v"
  by (simp_all add: exact_corroborates_def n_way_corroborates_def autoclose_corroborates_def split: option.splits)

lemma fast_backed:
  assumes "fast_gate_applies fv" "fast_block sens fv (rn_inc r) = None"
    and "from_rules env (rn_inc r)" "from_cases env (rn_inc r)"
  shows "sens = None \<and> backed env (rn_inc (fast_close env fv r)) \<and> i_verdict (rn_inc (fast_close env fv r)) \<noteq> Pending"
proof -
  let ?inc = "rn_inc (fast_close env fv r)" and ?old = "rn_inc r" and ?v = "lower (upper (fv_verdict fv))"
  have lo: "?v = lower (verdict_value (i_verdict ?inc))"
    using assms(1) unfolding fast_gate_applies_def fast_close_inc by (auto simp del: lower_upper)
  have hits: "rule_hit env ?inc a = rule_hit env ?old a" for a
    by (rule evidence_preds) (rule fast_close_inc)
  have "sens = None" and
    "exact_corroborates ?v (en_exact_match (i_enrichment ?old)) \<or>
     n_way_corroborates ?v (en_n_way (i_enrichment ?old)) \<or>
     autoclose_corroborates ?v (i_autoclose_pre ?old) \<or> autoclose_corroborates ?v (i_autoclose_post ?old)"
    using assms(2) unfolding fast_block_def short_circuit_block_reason_def Let_def
    by (auto split: option.splits if_splits)
  then consider (e) e where "en_exact_match (i_enrichment ?old) = Some e" "lower (opt_str (em_verdict e)) = ?v"
    | (n) n where "en_n_way (i_enrichment ?old) = Some n" "lower (opt_str (nw_verdict n)) = ?v"
    | (a) a where "i_autoclose_pre ?old = Some a \<or> i_autoclose_post ?old = Some a" "lower (opt_str (ac_verdict a)) = ?v"
    using corroborates_source by metis
  then have "backed env ?inc"
  proof cases
    case e
    then show ?thesis using assms(4) unfolding backed_def from_cases_def lo by blast
  next
    case n
    then show ?thesis using assms(4) unfolding backed_def from_cases_def lo by blast
  next
    case a
    then show ?thesis using assms(3) unfolding backed_def from_rules_def hits lo by blast
  qed
  with \<open>sens = None\<close> show ?thesis by (simp add: fast_close_inc)
qed

subsection \<open>The model's turn\<close>

text \<open>What a close depends on.\<close>

definition core :: "run \<Rightarrow> _" where
  "core r = (evidence (rn_inc r), i_verdict (rn_inc r), i_closed_at (rn_inc r))"

lemma core_simps [simp]:
  "core (emit env ev r) = core r" "core (set_status st r) = core r" "core (add_stage l r) = core r"
  "core (with_threat v c n fo r) = core r"
  by (simp_all add: core_def)

lemma core_set_inc:
  "evidence (f (rn_inc r)) = evidence (rn_inc r) \<Longrightarrow> i_verdict (f (rn_inc r)) = i_verdict (rn_inc r) \<Longrightarrow>
   i_closed_at (f (rn_inc r)) = i_closed_at (rn_inc r) \<Longrightarrow> core (set_inc f r) = core r"
  by (simp add: core_def)

lemma core_set_en [simp]:
  "en_exact_match (f (i_enrichment (rn_inc r))) = en_exact_match (i_enrichment (rn_inc r)) \<Longrightarrow>
   en_n_way (f (i_enrichment (rn_inc r))) = en_n_way (i_enrichment (rn_inc r)) \<Longrightarrow> core (set_en f r) = core r"
  by (simp add: core_def)

lemma core_undecided:
  "core r' = core r \<Longrightarrow> undecided env r' = undecided env r"
  by (simp add: undecided_def core_def evidence_preds(1,2)[of "rn_inc r'" "rn_inc r"])

lemma core_persist [simp]: "core (persist_sensitive env r) = core r"
  by (simp add: persist_sensitive_def split: option.split)

lemma core_fast_tier: "core (fst (fast_tier env r)) = core r"
  by (simp add: fast_tier_def Let_def split: llm_answer.split sum.split)

lemma core_hunt: "core (fst (hunt_stage env l2 r)) = core r"
  by (simp add: hunt_stage_def Let_def)

lemma core_forensics [simp]: "core (forensics_stage env l2 h r) = core r"
  by (simp add: forensics_stage_def Let_def)

lemma core_manager: "core (fst (manager_stage env l2 r)) = core r"
  by (simp add: manager_stage_def Let_def core_set_inc split: sum.split)

lemma manager_status:
  "snd (manager_stage env l2 r) = None \<Longrightarrow> i_status (rn_inc (fst (manager_stage env l2 r))) = Awaiting_Signoff"
  by (simp add: manager_stage_def Let_def split: sum.splits)

text \<open>The deep tier never commits a verdict: it fails, waits for budget or waits for a person.\<close>

lemma deep_outcome:
  "core (fst (deep_tier env b r)) = core r \<and>
   (snd (deep_tier env b r) = None \<longrightarrow>
    i_status (rn_inc (fst (deep_tier env b r))) \<in> {Awaiting_Review, Failed, Awaiting_Signoff})"
proof -
  have last: "core (fst (case hunt_stage env l2 x of (r3, hunt) \<Rightarrow> manager_stage env l2 (forensics_stage env l2 hunt r3))) =
        core x \<and>
      (snd (case hunt_stage env l2 x of (r3, hunt) \<Rightarrow> manager_stage env l2 (forensics_stage env l2 hunt r3)) = None
       \<longrightarrow> i_status (rn_inc (fst (case hunt_stage env l2 x of (r3, hunt) \<Rightarrow>
              manager_stage env l2 (forensics_stage env l2 hunt r3)))) = Awaiting_Signoff)" for l2 x
    using core_hunt[of env l2 x] by (cases "hunt_stage env l2 x") (simp add: core_manager manager_status)
  show ?thesis
    by (simp add: deep_tier_def Let_def last core_set_inc split: option.split llm_answer.split)
qed

text \<open>The state after the synthesis: closed by the fast tier on evidence, or left to a person.\<close>

lemma synthesis_outcome:
  assumes u: "undecided env r" and st: "step_synthesis False env r = (r', e)"
  shows "decided env r' \<and> e = None \<or>
         i_verdict (rn_inc r') = Pending \<and> i_closed_at (rn_inc r') = None \<and>
         (e = None \<longrightarrow> i_status (rn_inc r') \<in> {Awaiting_Review, Failed, Awaiting_Signoff})"
proof -
  define p where "p = persist_sensitive env r"
  define q where "q = fst (fast_tier env p)"
  obtain o1 where ft: "fast_tier env p = (q, o1)" unfolding q_def by (cases "fast_tier env p") simp
  have cq: "core q = core r" by (simp add: q_def core_fast_tier p_def)
  have uq: "undecided env q" using u core_undecided[OF cq] by simp
  have deep: ?thesis if d: "deep_tier env b x = (r', e)" "core x = core r" for b x
  proof -
    from deep_outcome[of env b x] d have "core r' = core r"
      and "e = None \<longrightarrow> i_status (rn_inc r') \<in> {Awaiting_Review, Failed, Awaiting_Signoff}" by simp_all
    with u show ?thesis by (simp add: core_def undecided_def)
  qed
  show ?thesis
  proof (cases o1)
    case (Inl x)
    then have "r' = q" "e = Some x" using st ft by (simp_all add: step_synthesis_def p_def[symmetric] Let_def)
    then show ?thesis using uq by (simp add: undecided_def)
  next
    case (Inr o')
    show ?thesis
    proof (cases o')
      case None
      then show ?thesis
        using st ft Inr cq by (intro deep[of False q]) (simp_all add: step_synthesis_def p_def[symmetric] Let_def)
    next
      case (Some fv)
      show ?thesis
      proof (cases "fast_gate_applies fv \<and> fast_block (sensitive_keyword r) fv (rn_inc q) = None")
        case True
        then have r': "r' = fast_close env fv q" "e = None"
          using st ft Inr Some by (simp_all add: step_synthesis_def p_def[symmetric] Let_def)
        from True uq have b: "sensitive_keyword r = None" "backed env (rn_inc r')" "i_verdict (rn_inc r') \<noteq> Pending"
          using fast_backed[of fv "sensitive_keyword r" q env] by (simp_all add: r' undecided_def)
        have "sensitive_keyword r' = sensitive_keyword r"
          by (rule keyword_evidence) (use cq in \<open>simp add: r' fast_close_inc core_def\<close>)
        with b r' uq show ?thesis by (simp add: decided_def fast_close_inc undecided_def)
      next
        case False
        then have "deep_tier env True (if fast_gate_applies fv then emit env ''short_circuit_blocked'' q else q) = (r', e)"
          using st ft Inr Some by (auto simp: step_synthesis_def p_def[symmetric] Let_def split: option.splits)
        then show ?thesis by (rule deep) (simp add: cq)
      qed
    qed
  qed
qed

section \<open>The end of a run\<close>

definition closed_on_evidence :: "pipe_env \<Rightarrow> run \<Rightarrow> bool" where
  "closed_on_evidence env r \<longleftrightarrow>
     i_status (rn_inc r) = Closed \<and> i_verdict (rn_inc r) \<noteq> Pending \<and> i_closed_at (rn_inc r) = Some (pe_now env) \<and>
     sensitive_keyword r = None \<and> backed env (rn_inc r)"

definition left_to_people :: "run \<Rightarrow> bool" where
  "left_to_people r \<longleftrightarrow>
     i_status (rn_inc r) \<in> {Awaiting_Signoff, Awaiting_Review, Failed} \<and> i_verdict (rn_inc r) = Pending \<and>
     i_closed_at (rn_inc r) = None"

definition sla_row :: "pipe_env \<Rightarrow> sla_kind \<Rightarrow> incident \<Rightarrow> sla_event" where
  "sla_row env k inc = \<lparr>se_incident_id = i_id inc, se_tenant_id = i_tenant_id inc, se_kind = k, se_at = pe_now env,
     se_actor_id = None\<rparr>"

definition ledger :: "run \<Rightarrow> sla_event list \<times> (uid \<times> verdict) list" where
  "ledger r = (cd_sla (rn_db r), cd_mirrored (rn_db r))"

lemma ledger_simps [simp]:
  "ledger (emit env ev r) = ledger r" "ledger (set_inc f r) = ledger r" "ledger (set_status st r) = ledger r"
  "ledger (audit_system env a r) = ledger r"
  by (simp_all add: ledger_def emit_def add_timeline_def set_inc_def set_status_def audit_system_def)

lemma inside_ledger: "inside r' = inside r \<Longrightarrow> ledger r' = ledger r"
  by (simp add: inside_def ledger_def)

text \<open>What the ledger gains: the two closing events and the mirrored verdict, or nothing.\<close>

definition ends :: "pipe_env \<Rightarrow> run \<Rightarrow> run \<Rightarrow> bool" where
  "ends env r r' \<longleftrightarrow>
     closed_on_evidence env r' \<and>
       ledger r' = (cd_sla (rn_db r) @ [sla_row env Resolved (rn_inc r'), sla_row env Closed_Event (rn_inc r')],
                    cd_mirrored (rn_db r) @ [(i_id (rn_inc r'), i_verdict (rn_inc r'))]) \<or>
     left_to_people r' \<and> ledger r' = ledger r"

lemma finish_decided:
  assumes "decided env r"
  shows "ends env r (finish_run env r)"
proof -
  let ?r = "finish_run env r"
  have s: "rn_inc ?r = (rn_inc r)\<lparr>i_status := Closed, i_closed_at := Some (pe_now env)\<rparr>"
    and l: "ledger ?r = (cd_sla (rn_db r) @ [sla_row env Resolved (rn_inc ?r), sla_row env Closed_Event (rn_inc ?r)],
                    cd_mirrored (rn_db r) @ [(i_id (rn_inc ?r), i_verdict (rn_inc ?r))])"
    using assms
    by (simp_all add: finish_run_def settle_def close_ledger_def decided_def Let_def ledger_def mirror_def
        record_sla_event_def sla_row_def emit_def add_timeline_def set_status_def set_inc_def)
  have ev: "evidence (rn_inc ?r) = evidence (rn_inc r)" "i_verdict (rn_inc ?r) = i_verdict (rn_inc r)" by (simp_all add: s)
  have "backed env (rn_inc ?r)" "sensitive_keyword ?r = None"
    using assms by (simp_all add: decided_def keyword_evidence[OF ev(1)] backed_evidence[OF ev])
  then have "closed_on_evidence env ?r"
    using assms unfolding closed_on_evidence_def by (simp add: s decided_def)
  with l show ?thesis unfolding ends_def by blast
qed

lemma finish_waiting:
  assumes "i_verdict (rn_inc r) = Pending" "i_closed_at (rn_inc r) = None"
    and "i_status (rn_inc r) \<in> {Awaiting_Review, Failed, Awaiting_Signoff}"
  shows "left_to_people (finish_run env r) \<and> ledger (finish_run env r) = ledger r"
proof -
  have "i_status (rn_inc (settle r)) \<noteq> Closed" using assms by (auto simp: settle_def)
  with assms show ?thesis
    by (auto simp: finish_run_def close_ledger_def left_to_people_def settle_def)
qed

lemma fail_waiting:
  assumes "i_verdict (rn_inc r) = Pending" "i_closed_at (rn_inc r) = None"
  shows "left_to_people (fail_run env r) \<and> ledger (fail_run env r) = ledger r"
  using assms by (simp add: fail_run_def left_to_people_def)

lemma complete_ends:
  assumes "undecided env r \<and> i_status (rn_inc r) = Awaiting_Synthesis \<or> decided env r"
  shows "ends env r (complete_run env r)"
  using assms
proof (elim disjE conjE)
  assume d: "decided env r"
  then have "complete_run env r = finish_run env r" by (simp add: complete_run_def decided_def)
  with finish_decided[OF d] show ?thesis by simp
next
  assume u: "undecided env r" and a: "i_status (rn_inc r) = Awaiting_Synthesis"
  obtain r' e where st: "step_synthesis False env r = (r', e)" by (cases "step_synthesis False env r")
  have "inside r' = inside r" using inside_synthesis[of False env r] st by simp
  then have l: "ledger r' = ledger r" by (rule inside_ledger)
  consider "decided env r'" "e = None"
    | "i_verdict (rn_inc r') = Pending" "i_closed_at (rn_inc r') = None"
      "e = None \<longrightarrow> i_status (rn_inc r') \<in> {Awaiting_Review, Failed, Awaiting_Signoff}"
    using synthesis_outcome[OF u st] by argo
  then show ?thesis
  proof cases
    case 1
    with a st have "complete_run env r = finish_run env r'" by (simp add: complete_run_def)
    with finish_decided[OF 1(1)] l show ?thesis by (simp add: ends_def ledger_def)
  next
    case 2
    show ?thesis
    proof (cases e)
      case None
      with a st have "complete_run env r = finish_run env r'" by (simp add: complete_run_def)
      with finish_waiting[of r' env] 2 None l show ?thesis by (simp add: ends_def)
    next
      case (Some x)
      with a st have "complete_run env r = fail_run env r'" by (simp add: complete_run_def)
      with fail_waiting[of r' env] 2 l show ?thesis by (simp add: ends_def)
    qed
  qed
qed

text \<open>The whole run of a new incident.\<close>

lemma inside_after_enrich_ledger: "ledger (after_enrich env (before_enrich env r)) = ledger r"
  by (rule inside_ledger) simp

lemma run_ends:
  assumes "new_incident inc"
  shows "ends env (start_run env inc db ts) (complete_run env (after_enrich env (before_enrich env (start_run env inc db ts))))"
proof -
  let ?b = "before_enrich env (start_run env inc db ts)"
  let ?g = "safe_step env ''entities'' (step_entities env) (safe_step env ''enrich'' (step_enrich env) ?b)"
  let ?c = "safe_step env ''correlate'' (\<lambda>r. (r, None)) ?g"
  from before_gate[OF assms refl, of env db ts]
  have u: "undecided env (emit env ''decision_running'' ?c)" by (simp add: undecided_def)
  have "rn_inc (after_enrich env ?b) = rn_inc (fst (step_decision env (emit env ''decision_running'' ?c)))"
    by (simp add: after_enrich_def)
  then have "undecided env (after_enrich env ?b) \<and> i_status (rn_inc (after_enrich env ?b)) = Awaiting_Synthesis \<or>
      decided env (after_enrich env ?b)"
    using decision_outcome[OF u] by (simp add: undecided_def decided_def sensitive_keyword_def field_def)
  from complete_ends[OF this] show ?thesis
    using inside_after_enrich_ledger[of env "start_run env inc db ts"] by (simp add: ends_def ledger_def)
qed

section \<open>The promises of the pipeline\<close>

lemma get_commit:
  assumes "outside r = outside (start_run env inc db ts)" "get_incident i db = Some inc"
  shows "get_incident j (fst (commit_run r)) = (if j = i then Some (rn_inc r) else get_incident j db)"
proof -
  have id: "i_id (rn_inc r) = i" and rows: "cd_incidents (rn_db r) = cd_incidents db"
    using assms get_incident_id[OF assms(2)]
    by (auto simp: outside_def human_fields_def outside_tables_def start_run_def record_sla_event_def)
  have g: "get_row i_id k (upd_row i_id i (\<lambda>_. rn_inc r) xs) =
        (if k = i then map_option (\<lambda>_. rn_inc r) (get_row i_id k xs) else get_row i_id k xs)" for k xs
    using id by (induction xs) (auto simp: upd_row_def)
  from assms(2) show ?thesis
    by (simp add: commit_run_def get_incident_def upd_incident_def rows id g)
qed

lemma run_pipeline_completes:
  assumes "get_incident i db = Some inc" "\<not> ioc_conflict env (before_enrich env (start_run env inc db ts))"
  defines "r \<equiv> complete_run env (after_enrich env (before_enrich env (start_run env inc db ts)))"
  shows "run_pipeline env i (db, ts) = (commit_run r, None)" "get_incident i (fst (commit_run r)) = Some (rn_inc r)"
    "ledger r = (cd_sla (fst (commit_run r)), cd_mirrored (fst (commit_run r)))" "i_id (rn_inc r) = i"
proof -
  have o: "outside r = outside (start_run env inc db ts)"
    unfolding r_def outside_complete by (rule inside_outside) simp
  show "get_incident i (fst (commit_run r)) = Some (rn_inc r)" by (simp add: get_commit[OF o assms(1)])
  show "i_id (rn_inc r) = i"
    using outside_id[OF o] get_incident_id[OF assms(1)] by (simp add: start_run_def)
qed (use assms in \<open>simp_all add: run_pipeline_def Let_def ledger_def commit_run_def upd_incident_def\<close>)

text \<open>C2. A run that leaves a new alert closed rests on evidence: no sensitive keyword of the rule allowlist is
  in the alert, the verdict is committed, and an auto-close rule that fires on this alert says that verdict, or
  a stored case a person verified has it. A confident answer of the fast model alone never closes.\<close>

theorem closes_rest_on_evidence:
  assumes "get_incident i db = Some inc" "new_incident inc"
    and "run_pipeline env i (db, ts) = ((db', ts'), None)" "get_incident i db' = Some inc'" "i_status inc' = Closed"
  shows "i_verdict inc' \<noteq> Pending \<and> backed env inc' \<and>
    sensitive_keyword \<lparr>rn_inc = inc', rn_db = db', rn_tenants = ts'\<rparr> = None"
proof -
  let ?s = "start_run env inc db ts"
  have c: "\<not> ioc_conflict env (before_enrich env ?s)"
    using assms(1,3) by (auto simp: run_pipeline_def Let_def split: if_splits)
  note comp = run_pipeline_completes[OF assms(1) c]
  let ?r = "complete_run env (after_enrich env (before_enrich env ?s))"
  have inc': "inc' = rn_inc ?r"
    using assms(3,4) comp(1,2) by simp
  have "closed_on_evidence env ?r"
    using run_ends[OF assms(2), of env db ts] assms(5) by (auto simp: ends_def left_to_people_def inc')
  then show ?thesis by (simp add: closed_on_evidence_def inc' sensitive_keyword_def field_def)
qed

text \<open>C4. Unless the insert of the indicators meets a row of an earlier run, the run of a new alert ends and settles
  the incident: closed now, with a verdict, the two closing events in the SLA ledger and the verdict mirrored; or
  awaiting sign-off, awaiting review or failed, with the verdict still pending, and neither ledger nor mirror
  touched beyond the detection.\<close>

theorem runs_settle:
  assumes "get_incident i db = Some inc" "new_incident inc"
    and "\<not> ioc_conflict env (before_enrich env (start_run env inc db ts))"
  shows "\<exists>db' ts' inc'. run_pipeline env i (db, ts) = ((db', ts'), None) \<and> get_incident i db' = Some inc' \<and>
    (i_status inc' = Closed \<and> i_closed_at inc' = Some (pe_now env) \<and> i_verdict inc' \<noteq> Pending \<and>
       cd_sla db' = cd_sla db @ [sla_row env Detected inc, sla_row env Resolved inc', sla_row env Closed_Event inc'] \<and>
       cd_mirrored db' = cd_mirrored db @ [(i, i_verdict inc')] \<or>
     i_status inc' \<in> {Awaiting_Signoff, Awaiting_Review, Failed} \<and> i_closed_at inc' = None \<and>
       i_verdict inc' = Pending \<and> cd_sla db' = cd_sla db @ [sla_row env Detected inc] \<and> cd_mirrored db' = cd_mirrored db)"
proof -
  let ?s = "start_run env inc db ts"
  define r where "r = complete_run env (after_enrich env (before_enrich env ?s))"
  note comp = run_pipeline_completes[OF assms(1,3), folded r_def]
  have s: "cd_sla (rn_db ?s) = cd_sla db @ [sla_row env Detected inc]" "cd_mirrored (rn_db ?s) = cd_mirrored db"
    by (simp_all add: start_run_def record_sla_event_def sla_row_def)
  have "ends env ?s r" using run_ends[OF assms(2)] by (simp add: r_def)
  then show ?thesis
    using comp(1,2,4) comp(3)
    by (intro exI[of _ "fst (commit_run r)"] exI[of _ "snd (commit_run r)"] exI[of _ "rn_inc r"])
      (auto simp: ends_def closed_on_evidence_def left_to_people_def s ledger_def)
qed

text \<open>Everything but this incident's row and the ledgers of its run is left as it was, and of the row what belongs
  to people: its number and age, who approved, owns, snoozed, escalated or deleted it, and the executed actions.\<close>

definition untouched :: "uid \<Rightarrow> case_db \<Rightarrow> case_db \<Rightarrow> bool" where
  "untouched i db db' \<longleftrightarrow>
     cd_edr db' = cd_edr db \<and> cd_customer_cases db' = cd_customer_cases db \<and>
     cd_case_incidents db' = cd_case_incidents db \<and> cd_suggestions db' = cd_suggestions db \<and>
     cd_memory db' = cd_memory db \<and> cd_jobs db' = cd_jobs db \<and> cd_notifications db' = cd_notifications db \<and>
     cd_watchers db' = cd_watchers db \<and> cd_risk db' = cd_risk db \<and>
     (\<forall>j. j \<noteq> i \<longrightarrow> get_incident j db' = get_incident j db) \<and>
     map_option human_fields (get_incident i db') = map_option human_fields (get_incident i db)"

lemma untouched_commit:
  assumes o: "outside r = outside \<lparr>rn_inc = inc, rn_db = db0, rn_tenants = ts\<rparr>" "outside_tables db0 = outside_tables db"
    and g: "get_incident i db = Some inc"
  shows "untouched i db (fst (commit_run r))"
proof -
  have o': "outside r = outside (start_run env inc db ts)" for env
    using o by (simp add: outside_def start_run_def record_sla_event_def outside_tables_def)
  have "human_fields (rn_inc r) = human_fields inc" "outside_tables (rn_db r) = outside_tables db"
    using o by (simp_all add: outside_def)
  then show ?thesis
    by (simp add: untouched_def get_commit[OF o' g] g) (simp add: commit_run_def upd_incident_def outside_tables_def)
qed

text \<open>The one write to a provider that is left: a run that closes the incident mirrors its verdict.\<close>

definition mirrors_its_verdict_at_most :: "uid \<Rightarrow> case_db \<Rightarrow> case_db \<Rightarrow> bool" where
  "mirrors_its_verdict_at_most i db db' \<longleftrightarrow>
     cd_mirrored db' = cd_mirrored db \<or>
     (case get_incident i db' of
        None \<Rightarrow> False
      | Some inc \<Rightarrow> i_status inc = Closed \<and> cd_mirrored db' = cd_mirrored db @ [(i, i_verdict inc)])"

definition run_mirrors :: "run \<Rightarrow> run \<Rightarrow> bool" where
  "run_mirrors r r' \<longleftrightarrow>
     cd_mirrored (rn_db r') = cd_mirrored (rn_db r) \<or>
     i_status (rn_inc r') = Closed \<and>
       cd_mirrored (rn_db r') = cd_mirrored (rn_db r) @ [(i_id (rn_inc r'), i_verdict (rn_inc r'))]"

lemma finish_mirrors: "run_mirrors r (finish_run env r)"
proof -
  have "ledger (settle r) = ledger r" by (simp add: settle_def)
  then have "cd_mirrored (rn_db (settle r)) = cd_mirrored (rn_db r)" by (simp add: ledger_def)
  then show ?thesis
    by (simp add: run_mirrors_def finish_run_def close_ledger_def Let_def mirror_def record_sla_event_def emit_def
        add_timeline_def set_inc_def)
qed

lemma complete_mirrors: "run_mirrors r (complete_run env r)"
proof (cases "i_status (rn_inc r) = Awaiting_Synthesis")
  case True
  obtain r' e where st: "step_synthesis False env r = (r', e)" by (cases "step_synthesis False env r")
  then have "cd_mirrored (rn_db r') = cd_mirrored (rn_db r)"
    using inside_synthesis[of False env r] by (simp add: inside_def)
  moreover have "ledger (fail_run env r') = ledger r'" by (simp add: fail_run_def)
  ultimately show ?thesis
    using True st finish_mirrors[of r' env]
    by (cases e) (simp_all add: complete_run_def run_mirrors_def ledger_def)
qed (simp add: complete_run_def finish_mirrors)

lemma commit_mirrors:
  assumes "run_mirrors r0 r" "outside r = outside (start_run env inc db ts)" "get_incident i db = Some inc"
    and "cd_mirrored (rn_db r0) = cd_mirrored db"
  shows "mirrors_its_verdict_at_most i db (fst (commit_run r))"
proof -
  have "i_id (rn_inc r) = i"
    using outside_id[OF assms(2)] get_incident_id[OF assms(3)] by (simp add: start_run_def)
  moreover have "cd_mirrored (fst (commit_run r)) = cd_mirrored (rn_db r)"
    by (simp add: commit_run_def upd_incident_def)
  ultimately show ?thesis
    using assms(1,4) by (auto simp: mirrors_its_verdict_at_most_def run_mirrors_def get_commit[OF assms(2,3)])
qed


section \<open>Witnesses\<close>

definition example_prior :: prior where
  "example_prior = \<lparr>p_alert_id = Some ''a1'', p_rule_name = Some ''Beacon'', p_verdict = Some ''FP'',
     p_verdict_reason = None, p_customer = Some ''ACME'', p_timestamp = None, p_human_verified = True,
     p_cosine = Some 1, p_score = None, p_adjusted = None\<rparr>"

text \<open>Nothing answers but the case memory.\<close>

definition example_pipe :: pipe_env where
  "example_pipe =
     \<lparr>pe_now = 100, pe_lib = example_lib, pe_six = (\<lambda>_. None),
      pe_parsed = Inl ValueError, pe_title = (\<lambda>_ _. []), pe_new_tenant = 9, pe_yaml = Inr [], pe_rules = Inr [],
      pe_has_content = True, pe_exact_hits = Some [example_prior], pe_similar_hits = None, pe_rule_key = (\<lambda>_. ''Beacon''),
      pe_iocs = Inl ValueError, pe_exclusions = Inr [], pe_feeds = Inr [], pe_triage = Inr [], pe_ipinfo = Inr [],
      pe_entities = [], pe_v1 = PyNone, pe_fast = No_Answer, pe_deep = No_Answer,
      pe_hunt = None, pe_forensics = False, pe_validate = (\<lambda>_. None), pe_daily_cap = 1, pe_incident_cap = 1,
      pe_calls = [], pe_policy_file = None, pe_policy_rows = Inr []\<rparr>"

definition example_new_incident :: incident where
  "example_new_incident = (example_incident 7 Received)\<lparr>i_rule_name := None\<rparr>"

definition example_pipe_db :: case_db where
  "example_pipe_db = empty_case_db\<lparr>cd_incidents := [example_new_incident]\<rparr>"

definition example_tenancy :: tenant_db where
  "example_tenancy = \<lparr>td_tenants = [], td_members = [], td_audit = []\<rparr>"

lemma example_new:
  "get_incident 7 example_pipe_db = Some example_new_incident" "new_incident example_new_incident"
  by (simp_all add: example_pipe_db_def get_incident_def example_new_incident_def example_incident_def new_incident_def)

lemma example_no_conflict: "\<not> ioc_conflict example_pipe r"
  by (simp add: ioc_conflict_def kept_iocs_def filtered_iocs_def example_pipe_def and_then_def)

definition example_outcome :: run where
  "example_outcome = complete_run example_pipe (after_enrich example_pipe (before_enrich example_pipe
     (start_run example_pipe example_new_incident example_pipe_db example_tenancy)))"

lemma example_exact:
  "find_exact_match True (Some [example_prior]) (\<lambda>_. ''Beacon'') ''Beacon'' =
   Some \<lparr>em_alert_id = Some ''a1'', em_verdict = Some ''FP'', em_verdict_reason = None, em_score = Some 1\<rparr>"
  by (simp add: find_exact_match_def example_prior_def py_round_digits_def py_round_def)

lemma example_not_sensitive: "snd (is_sensitive [PyNone, PyNone, PyNone]) = None"
  by code_simp

lemma example_rows:
  "autoclose_now example_pipe en r = None" "search_similar hc (pe_similar_hits example_pipe) = []"
  by (simp_all add: autoclose_now_def autoclose_check_def example_pipe_def search_similar_def load_db_rules_def)

lemma example_gate:
  "exact_gate (Some \<lparr>em_alert_id = Some ''a1'', em_verdict = Some ''FP'', em_verdict_reason = None, em_score = Some 1\<rparr>) =
   Some (FP, CHigh, Exact_Match_Gate (Some ''a1'') (Some 1) None)"
  by (simp add: exact_gate_def)

lemma example_closes: "i_status (rn_inc example_outcome) = Closed"
proof -
  let ?b = "before_enrich example_pipe (start_run example_pipe example_new_incident example_pipe_db example_tenancy)"
  have env: "pe_parsed example_pipe = Inl ValueError" "pe_iocs example_pipe = Inl ValueError" "pe_entities example_pipe = []"
    "pe_has_content example_pipe" "pe_exact_hits example_pipe = Some [example_prior]"
    "pe_rule_key example_pipe = (\<lambda>_. ''Beacon'')"
    by (simp_all add: example_pipe_def)
  have "en_exact_match (i_enrichment (rn_inc ?b)) =
      Some \<lparr>em_alert_id = Some ''a1'', em_verdict = Some ''FP'', em_verdict_reason = None, em_score = Some 1\<rparr>
    \<and> i_normalized (rn_inc ?b) = [] \<and> i_rule_name (rn_inc ?b) = None"
    by (simp add: before_enrich_def step_dedup_def step_autoclose_pre_def example_rows step_parse_def env Let_def
        example_exact start_run_def example_new_incident_def example_incident_def)
  then have "i_status (rn_inc (after_enrich example_pipe ?b)) = Decided_Short_Circuit \<and>
      i_verdict (rn_inc (after_enrich example_pipe ?b)) = FP"
    by (simp add: after_enrich_def step_enrich_def filtered_iocs_def env and_then_def step_entities_def step_decision_def
        sensitive_keyword_def field_def example_not_sensitive gate_result_def evaluate_def example_gate Let_def get_def)
  then show ?thesis
    by (simp add: example_outcome_def complete_run_def finish_run_def settle_def close_ledger_def Let_def)
qed

lemma closes_rest_on_evidence_witness:
  "i_verdict (rn_inc example_outcome) \<noteq> Pending \<and> backed example_pipe (rn_inc example_outcome)"
  using closes_rest_on_evidence[OF example_new, where env = example_pipe and ts = example_tenancy
      and db' = "fst (commit_run example_outcome)" and ts' = "snd (commit_run example_outcome)"
      and inc' = "rn_inc example_outcome"]
    run_pipeline_completes(1,2)[OF example_new(1) example_no_conflict, where ts = example_tenancy,
      folded example_outcome_def] example_closes
  by simp

lemma runs_settle_witness:
  "\<exists>db' ts' inc'. run_pipeline example_pipe 7 (example_pipe_db, example_tenancy) = ((db', ts'), None) \<and>
    get_incident 7 db' = Some inc' \<and> i_status inc' \<in> {Closed, Awaiting_Signoff, Awaiting_Review, Failed}"
  using runs_settle[OF example_new example_no_conflict, where ts = example_tenancy] by fast

end
