(* ===== verification/Url_Safety.thy ===== *)
theory Url_Safety
  imports Exclusions
begin

text \<open>
  The guard on URLs an administrator configures, \<open>security/url_safety.py\<close>: what the back end may be
  told to dial. The parts of the standard library the guard calls are written out (\<open>urlparse\<close> and
  \<open>urlunparse\<close> as in Python 3.12.0, the address classes of \<open>ipaddress\<close>); the IPv6 text syntax and
  the name resolution are parameters.
\<close>

section \<open>Splitting a URL\<close>

definition is_alpha :: "char \<Rightarrow> bool" where
  "is_alpha c \<longleftrightarrow> 97 \<le> char_code (lower_char c) \<and> char_code (lower_char c) \<le> 122"

definition scheme_char :: "char \<Rightarrow> bool" where
  "scheme_char c \<longleftrightarrow> is_alpha c \<or> is_digit c \<or> c \<in> set ''+-.''"

definition control_or_space :: "char \<Rightarrow> bool" where
  "control_or_space c \<longleftrightarrow> char_code c \<le> 32"

definition unsafe_url_byte :: "char \<Rightarrow> bool" where
  "unsafe_url_byte c \<longleftrightarrow> char_code c \<in> {9, 10, 13}"

definition url_delim :: "char \<Rightarrow> bool" where
  "url_delim c \<longleftrightarrow> c = CHR ''/'' \<or> c = CHR ''?'' \<or> c = CHR ''#''"

text \<open>\<open>s.partition(c)[2]\<close>.\<close>

definition rest_after :: "char \<Rightarrow> string \<Rightarrow> string" where
  "rest_after c s = tl (dropWhile (\<lambda>d. d \<noteq> c) s)"

record url_parts =
  up_scheme :: string
  up_netloc :: string
  up_path :: string
  up_fragment :: string

definition split_scheme :: "string \<Rightarrow> string \<times> string" where
  "split_scheme s =
     (let p = before_first (CHR '':'') s
      in if CHR '':'' \<in> set s \<and> p \<noteq> [] \<and> is_alpha (hd p) \<and> list_all scheme_char p
         then (lower p, rest_after (CHR '':'') s) else ([], s))"

definition split_netloc :: "string \<Rightarrow> string \<times> string" where
  "split_netloc s =
     (if prefix ''//'' s then (takeWhile (\<lambda>c. \<not> url_delim c) (drop 2 s), dropWhile (\<lambda>c. \<not> url_delim c) (drop 2 s))
      else ([], s))"

type_synonym scoped_ipv6_syntax = "string \<Rightarrow> (128 word \<times> string) option"
  \<comment> \<open>the address and its zone, empty if it has none\<close>

text \<open>A bracketed host is an IPv6 address, or an \<open>IPvFuture\<close> literal.\<close>

definition is_hex :: "char \<Rightarrow> bool" where
  "is_hex c \<longleftrightarrow> is_digit c \<or> 97 \<le> char_code (lower_char c) \<and> char_code (lower_char c) \<le> 102"

definition bracketed_host_ok :: "scoped_ipv6_syntax \<Rightarrow> string \<Rightarrow> bool" where
  "bracketed_host_ok six h =
     (if prefix ''v'' h then
        (let hex = takeWhile is_hex (tl h); rest = dropWhile is_hex (tl h)
         in hex \<noteq> [] \<and> prefix ''.'' rest \<and> tl rest \<noteq> [])
      else six h \<noteq> None)"

definition urlsplit :: "scoped_ipv6_syntax \<Rightarrow> string \<Rightarrow> url_parts option" where
  "urlsplit six url =
     (let u = filter (\<lambda>c. \<not> unsafe_url_byte c) (dropWhile control_or_space url);
          (scheme, r) = split_scheme u;
          (netloc, rest) = split_netloc r
      in if (CHR ''['' \<in> set netloc) \<noteq> (CHR '']'' \<in> set netloc) then None
         else if CHR ''['' \<in> set netloc \<and>
                 \<not> bracketed_host_ok six (before_first (CHR '']'') (rest_after (CHR ''['') netloc)) then None
         else Some \<lparr>up_scheme = scheme, up_netloc = netloc,
                    up_path = before_first (CHR ''?'') (before_first (CHR ''#'') rest),
                    up_fragment = rest_after (CHR ''#'') rest\<rparr>)"

text \<open>\<open>urlparse\<close> also cuts the parameters off the last segment of the path; every scheme the guard lets
  pass has them.\<close>

definition split_params :: "string \<Rightarrow> string" where
  "split_params path =
     (let seg = after_last (CHR ''/'') path
      in take (length path - length seg) path @ before_first (CHR '';'') seg)"

definition hostinfo :: "string \<Rightarrow> string" where
  "hostinfo netloc = after_last (CHR ''@'') netloc"

definition url_userinfo :: "string \<Rightarrow> string option" where
  "url_userinfo netloc =
     (if CHR ''@'' \<in> set netloc then Some (take (length netloc - length (hostinfo netloc) - 1) netloc) else None)"

definition has_userinfo :: "string \<Rightarrow> bool" where
  "has_userinfo netloc =
     (case url_userinfo netloc of
        None \<Rightarrow> False
      | Some u \<Rightarrow> before_first (CHR '':'') u \<noteq> [] \<or> rest_after (CHR '':'') u \<noteq> [])"

text \<open>The host name and the text of the port.\<close>

definition host_port :: "string \<Rightarrow> string \<times> string" where
  "host_port netloc =
     (let h = hostinfo netloc
      in if CHR ''['' \<in> set h then
           (let b = rest_after (CHR ''['') h
            in (before_first (CHR '']'') b, rest_after (CHR '':'') (rest_after (CHR '']'') b)))
         else (before_first (CHR '':'') h, rest_after (CHR '':'') h))"

text \<open>\<open>parsed.port\<close>: \<open>None\<close> where it raises, \<open>Some None\<close> where there is none.\<close>

definition url_port :: "string \<Rightarrow> int option option" where
  "url_port netloc =
     (let p = snd (host_port netloc)
      in if p = [] then Some None
         else if list_all is_digit p then
           (case parse_int p of Some n \<Rightarrow> (if n \<le> 65535 then Some (Some n) else None) | None \<Rightarrow> None)
         else None)"

definition unparse_url :: "string \<Rightarrow> string \<Rightarrow> string \<Rightarrow> string" where
  "unparse_url scheme netloc path =
     (let u = (if netloc \<noteq> [] \<or> scheme \<noteq> [] \<or> prefix ''//'' path
               then ''//'' @ netloc @ (if path \<noteq> [] \<and> hd path \<noteq> CHR ''/'' then ''/'' @ path else path) else path)
      in if scheme = [] then u else scheme @ '':'' @ u)"

section \<open>Address classes\<close>

definition in4 :: "nat list \<Rightarrow> nat \<Rightarrow> 32 word \<Rightarrow> bool" where
  "in4 octets n w = in_network (Addr4 w) (Net4 (word_of_nat (foldl (\<lambda>a d. a * 256 + d) 0 octets)) n)"

definition in6 :: "int \<Rightarrow> nat \<Rightarrow> nat \<Rightarrow> 128 word \<Rightarrow> bool" where
  "in6 hi k n w = in_network (Addr6 w) (Net6 (push_bit k (word_of_int hi)) n)"

definition private4 :: "32 word \<Rightarrow> bool" where
  "private4 w \<longleftrightarrow>
     (in4 [0,0,0,0] 8 w \<or> in4 [10,0,0,0] 8 w \<or> in4 [127,0,0,0] 8 w \<or> in4 [169,254,0,0] 16 w \<or>
      in4 [172,16,0,0] 12 w \<or> in4 [192,0,0,0] 24 w \<or> in4 [192,0,0,170] 31 w \<or> in4 [192,0,2,0] 24 w \<or>
      in4 [192,168,0,0] 16 w \<or> in4 [198,18,0,0] 15 w \<or> in4 [198,51,100,0] 24 w \<or> in4 [203,0,113,0] 24 w \<or>
      in4 [240,0,0,0] 4 w \<or> in4 [255,255,255,255] 32 w) \<and>
     \<not> in4 [192,0,0,9] 32 w \<and> \<not> in4 [192,0,0,10] 32 w"

definition ipv4_mapped :: "128 word \<Rightarrow> 32 word option" where
  "ipv4_mapped a = (if drop_bit 32 a = 0xFFFF then Some (ucast a) else None)"

definition private6 :: "128 word \<Rightarrow> bool" where
  "private6 a =
     (case ipv4_mapped a of
        Some w \<Rightarrow> private4 w
      | None \<Rightarrow>
          (in6 1 0 128 a \<or> in6 0 0 128 a \<or> in6 0xFFFF 32 96 a \<or> in6 0x64FF9B0001 80 48 a \<or> in6 0x100 112 64 a \<or>
           in6 0x20010000 96 23 a \<or> in6 0x20010DB8 96 32 a \<or> in6 0x2002 112 16 a \<or> in6 0xFC00 112 7 a \<or>
           in6 0xFE80 112 10 a) \<and>
          \<not> (in6 0x20010001000000000000000000000001 0 128 a \<or> in6 0x20010001000000000000000000000002 0 128 a \<or>
             in6 0x20010003 96 32 a \<or> in6 0x200100040112 80 48 a \<or> in6 0x20010020 96 28 a \<or> in6 0x20010030 96 28 a))"

definition reserved6 :: "128 word \<Rightarrow> bool" where
  "reserved6 a \<longleftrightarrow>
     in6 0 112 8 a \<or> in6 0x100 112 8 a \<or> in6 0x200 112 7 a \<or> in6 0x400 112 6 a \<or> in6 0x800 112 5 a \<or>
     in6 0x1000 112 4 a \<or> in6 0x4000 112 3 a \<or> in6 0x6000 112 3 a \<or> in6 0x8000 112 3 a \<or> in6 0xA000 112 3 a \<or>
     in6 0xC000 112 3 a \<or> in6 0xE000 112 4 a \<or> in6 0xF000 112 5 a \<or> in6 0xF800 112 6 a \<or> in6 0xFE00 112 9 a"

datatype ip_class = Metadata | Loopback | Private | Link_Local | Multicast | Reserved | Unspecified

text \<open>An address as \<open>ip_address\<close> reads it, with its zone.\<close>

definition scoped_address :: "scoped_ipv6_syntax \<Rightarrow> string \<Rightarrow> (ip_addr \<times> string) option" where
  "scoped_address six s =
     (case parse_ipv4 s of Some w \<Rightarrow> Some (Addr4 w, []) | None \<Rightarrow> map_option (\<lambda>(a, z). (Addr6 a, z)) (six s))"

text \<open>\<open>str(ip)\<close> is one of the metadata addresses: a zone is part of the text.\<close>

fun is_metadata :: "ip_addr \<times> string \<Rightarrow> bool" where
  "is_metadata (Addr4 w, z) = (w = 0xA9FEA9FE)"
| "is_metadata (Addr6 a, z) = (z = [] \<and> a = 0xFD000EC2000000000000000000000254)"

fun address_class :: "ip_addr \<Rightarrow> ip_class option" where
  "address_class (Addr4 w) =
     (if in4 [127,0,0,0] 8 w then Some Loopback else if private4 w then Some Private
      else if in4 [169,254,0,0] 16 w then Some Link_Local else if in4 [224,0,0,0] 4 w then Some Multicast
      else if in4 [240,0,0,0] 4 w then Some Reserved else if w = 0 then Some Unspecified else None)"
| "address_class (Addr6 a) =
     (if a = 1 then Some Loopback else if private6 a then Some Private
      else if in6 0xFE80 112 10 a then Some Link_Local else if in6 0xFF00 112 8 a then Some Multicast
      else if reserved6 a then Some Reserved else if a = 0 then Some Unspecified else None)"

definition ip_block_reason :: "bool \<Rightarrow> ip_addr \<times> string \<Rightarrow> ip_class option" where
  "ip_block_reason metadata_only ip =
     (if is_metadata ip then Some Metadata else if metadata_only then None else address_class (fst ip))"

section \<open>The guard\<close>

record url_env =
  ue_six :: scoped_ipv6_syntax
  ue_resolve :: "string \<Rightarrow> string list option"   \<comment> \<open>\<open>_resolve\<close>; \<open>None\<close>: \<open>gaierror\<close>\<close>

datatype url_error = Url_Safety_Error | Url_Value_Error

record safe_url =
  su_sanitized :: string
  su_host :: string
  su_port :: int
  su_scheme :: string

definition literal_or_resolved :: "url_env \<Rightarrow> bool \<Rightarrow> string \<Rightarrow> (ip_addr \<times> string) option list option" where
  "literal_or_resolved env metadata_only host =
     (case scoped_address (ue_six env) host of
        Some ip \<Rightarrow> Some [Some ip]
      | None \<Rightarrow>
          (case ue_resolve env host of
             Some texts \<Rightarrow> Some (map (scoped_address (ue_six env)) texts)
           | None \<Rightarrow> if metadata_only then Some [] else None))"

definition addr_blocked :: "bool \<Rightarrow> (ip_addr \<times> string) option \<Rightarrow> bool" where
  "addr_blocked metadata_only a =
     (case a of None \<Rightarrow> True | Some ip \<Rightarrow> ip_block_reason metadata_only ip \<noteq> None)"

text \<open>\<open>hostname\<close> keeps the case of a zone, \<open>_validate\<close> lowers it too.\<close>

definition validate_url :: "bool \<Rightarrow> url_env \<Rightarrow> string \<Rightarrow> url_error + safe_url" where
  "validate_url metadata_only env url =
     (if url = [] then Inl Url_Safety_Error
      else case urlsplit (ue_six env) (strip url) of
        None \<Rightarrow> Inl Url_Value_Error
      | Some u \<Rightarrow>
          (let netloc = up_netloc u; host = lower (fst (host_port netloc))
           in if up_scheme u \<notin> {''http'', ''https''} then Inl Url_Safety_Error
              else if host = [] then Inl Url_Safety_Error
              else if has_userinfo netloc then Inl Url_Safety_Error
              else if up_fragment u \<noteq> [] then Inl Url_Safety_Error
              else (case literal_or_resolved env metadata_only host of
                  None \<Rightarrow> Inl Url_Safety_Error
                | Some addrs \<Rightarrow>
                    if list_ex (addr_blocked metadata_only) addrs then Inl Url_Safety_Error
                    else (case url_port netloc of
                        None \<Rightarrow> Inl Url_Value_Error
                      | Some p \<Rightarrow>
                          Inr \<lparr>su_sanitized = unparse_url (up_scheme u) (hostinfo netloc) (split_params (up_path u)),
                               su_host = host,
                               su_port = (case p of
                                   Some n \<Rightarrow> (if n = 0 then (if up_scheme u = ''https'' then 443 else 80) else n)
                                 | None \<Rightarrow> (if up_scheme u = ''https'' then 443 else 80)),
                               su_scheme = up_scheme u\<rparr>))))"

definition validate_public_url :: "url_env \<Rightarrow> string \<Rightarrow> url_error + safe_url" where
  "validate_public_url = validate_url False"

definition validate_endpoint_url :: "url_env \<Rightarrow> string \<Rightarrow> url_error + safe_url" where
  "validate_endpoint_url = validate_url True"

section \<open>Lemmas on splitting\<close>

lemma after_last_split:
  "\<exists>d. s = d @ after_last c s \<and> (d = [] \<or> last d = c) \<and> c \<notin> set (after_last c s)"
proof -
  let ?r = "rev s"
  have "s = rev (dropWhile (\<lambda>d. d \<noteq> c) ?r) @ after_last c s"
    unfolding after_last_def rev_append[symmetric] by simp
  moreover have "rev (dropWhile (\<lambda>d. d \<noteq> c) ?r) = [] \<or> last (rev (dropWhile (\<lambda>d. d \<noteq> c) ?r)) = c"
    using hd_dropWhile[of "\<lambda>d. d \<noteq> c" ?r] by (auto simp: last_rev)
  moreover have "c \<notin> set (after_last c s)" by (auto simp: after_last_def dest: set_takeWhileD)
  ultimately show ?thesis by blast
qed

lemma after_last_append:
  assumes "c \<notin> set t" "d = [] \<or> last d = c"
  shows "after_last c (d @ t) = t"
proof -
  have "takeWhile (\<lambda>x. x \<noteq> c) (rev t @ rev d) = rev t"
    using assms by (cases "rev d") (auto simp: takeWhile_append2 last_rev takeWhile_tail)
  then show ?thesis by (simp add: after_last_def)
qed

lemma before_first_notin: "c \<notin> set s \<Longrightarrow> before_first c s = s"
  by (auto simp: before_first_def takeWhile_eq_all_conv)

lemma before_first_hit: "c \<notin> set p \<Longrightarrow> before_first c (p @ c # s) = p"
  by (induction p) (auto simp: before_first_def)

lemma before_first_free: "c \<notin> set (before_first c s)"
  by (auto simp: before_first_def dest: set_takeWhileD)

lemma before_first_subset: "set (before_first c s) \<subseteq> set s"
  by (auto simp: before_first_def dest: set_takeWhileD)

lemma rest_after_notin: "c \<notin> set s \<Longrightarrow> rest_after c s = []"
  by (induction s) (auto simp: rest_after_def)

lemma rest_after_hit: "c \<notin> set p \<Longrightarrow> rest_after c (p @ c # s) = s"
  by (induction p) (auto simp: rest_after_def)

lemma rest_after_subset: "set (rest_after c s) \<subseteq> set s"
  by (induction s) (auto simp: rest_after_def)

text \<open>Cutting the parameters twice is cutting them once.\<close>

lemma split_params_shape:
  obtains d seg where "path = d @ seg" "d = [] \<or> last d = CHR ''/''" "CHR ''/'' \<notin> set seg"
    "split_params path = d @ before_first (CHR '';'') seg"
proof -
  obtain d where d: "path = d @ after_last (CHR ''/'') path" "d = [] \<or> last d = CHR ''/''"
    "CHR ''/'' \<notin> set (after_last (CHR ''/'') path)"
    using after_last_split by blast
  have "take (length path - length (after_last (CHR ''/'') path)) path = d"
    using d(1) by (metis append_eq_conv_conj length_append add_diff_cancel_right')
  then have "split_params path = d @ before_first (CHR '';'') (after_last (CHR ''/'') path)"
    by (simp add: split_params_def Let_def)
  with d that show thesis by blast
qed

lemma split_params_idem: "split_params (split_params path) = split_params path"
proof -
  obtain d seg where p: "d = [] \<or> last d = CHR ''/''" "CHR ''/'' \<notin> set seg"
    "split_params path = d @ before_first (CHR '';'') seg"
    using split_params_shape by metis
  have n: "CHR ''/'' \<notin> set (before_first (CHR '';'') seg)" using p(2) before_first_subset by fast
  show ?thesis
    unfolding p(3) unfolding split_params_def after_last_append[OF n p(1)] Let_def
    by (simp add: before_first_notin before_first_free)
qed

lemma split_params_subset: "set (split_params path) \<subseteq> set path"
proof -
  obtain d seg where "path = d @ seg" "split_params path = d @ before_first (CHR '';'') seg"
    using split_params_shape by metis
  then show ?thesis using before_first_subset[of "CHR '';''" seg] by auto
qed

lemma split_params_slash:
  assumes "path = [] \<or> hd path = CHR ''/''"
  shows "split_params path = [] \<or> hd (split_params path) = CHR ''/''"
proof -
  obtain d seg where p: "path = d @ seg" "CHR ''/'' \<notin> set seg" "split_params path = d @ before_first (CHR '';'') seg"
    using split_params_shape by metis
  show ?thesis
  proof (cases d)
    case Nil
    with p assms have "seg = []" by (cases seg) auto
    with p Nil show ?thesis by (simp add: before_first_def)
  next
    case (Cons x xs)
    with p assms show ?thesis by simp
  qed
qed

lemma hostinfo_free: "CHR ''@'' \<notin> set (hostinfo n)"
  using after_last_split[of n "CHR ''@''"] by (auto simp: hostinfo_def)

lemma hostinfo_id: "CHR ''@'' \<notin> set n \<Longrightarrow> hostinfo n = n"
  using after_last_append[of "CHR ''@''" n "[]"] by (simp add: hostinfo_def)

text \<open>Without user information the authority is its host part, or that behind an empty one.\<close>

lemma no_userinfo:
  assumes "\<not> has_userinfo n"
  obtains "n = hostinfo n" | "n = ''@'' @ hostinfo n" | "n = '':@'' @ hostinfo n"
proof (cases "CHR ''@'' \<in> set n")
  case False
  then show ?thesis using that(1) hostinfo_id by simp
next
  case True
  obtain d where d: "n = d @ hostinfo n" "d = [] \<or> last d = CHR ''@''"
    using after_last_split[of n "CHR ''@''"] by (auto simp: hostinfo_def)
  then have "d \<noteq> []" using True hostinfo_free[of n] by (metis append_Nil)
  with d obtain u where u: "n = u @ CHR ''@'' # hostinfo n" by (metis append_butlast_last_id append_Cons append_Nil append_assoc)
  then have "take (length n - length (hostinfo n) - 1) n = u"
    by (metis add_diff_cancel_right' append_eq_conv_conj diff_diff_left length_Cons length_append
        plus_1_eq_Suc Suc_eq_plus1)
  with True assms have e: "before_first (CHR '':'') u = []" "rest_after (CHR '':'') u = []"
    by (auto simp: has_userinfo_def url_userinfo_def)
  show ?thesis
  proof (cases u)
    case Nil
    with u that(2) show ?thesis by simp
  next
    case (Cons x xs)
    with e(1) have "x = CHR '':''" by (auto simp: before_first_def split: if_splits)
    with e(2) Cons have "xs = []" by (simp add: rest_after_def)
    with Cons \<open>x = CHR '':''\<close> u that(3) show ?thesis by simp
  qed
qed

section \<open>Lemmas on addresses\<close>

lemma masked_eq_div:
  fixes x a :: "'a::len word"
  assumes "w = LENGTH('a)" "n \<le> w"
  shows "x AND netmask w n = a AND netmask w n \<longleftrightarrow> unat x div 2 ^ (w - n) = unat a div 2 ^ (w - n)"
proof -
  let ?k = "w - n"
  have "x AND netmask w n = a AND netmask w n \<longleftrightarrow> (\<forall>i. ?k \<le> i \<longrightarrow> bit x i = bit a i)"
    unfolding bit_eq_iff using assms(1) by (auto simp: bit_netmask bit_and_iff dest: bit_imp_le_length)
  also have "\<dots> \<longleftrightarrow> (\<forall>j. bit x (?k + j) = bit a (?k + j))"
    by (metis le_add1 le_add_diff_inverse)
  also have "\<dots> \<longleftrightarrow> drop_bit ?k x = drop_bit ?k a"
    by (auto simp: bit_eq_iff bit_drop_bit_eq) (metis bit_imp_le_length add_lessD1 add.commute)+
  also have "\<dots> \<longleftrightarrow> unat x div 2 ^ ?k = unat a div 2 ^ ?k"
    by (simp only: word_unat_eq_iff unat_drop_bit_eq) (simp add: drop_bit_eq_div)
  finally show ?thesis .
qed

lemma netmask_id:
  fixes b :: "'a::len word"
  assumes "w = LENGTH('a)" "unat b mod 2 ^ (w - n) = 0"
  shows "b AND netmask w n = b"
proof (rule bit_eqI)
  fix i
  have low: "\<not> bit b i" if "i < w - n"
  proof -
    have "2 ^ Suc i dvd (2::nat) ^ (w - n)" using that by (intro le_imp_power_dvd) simp
    moreover have "(2::nat) ^ (w - n) dvd unat b" using assms(2) by presburger
    ultimately have "2 ^ Suc i dvd unat b" by (rule dvd_trans)
    then have "even (unat b div 2 ^ i)" by (auto simp: dvd_def)
    then have "\<not> bit (unat b) i" by (simp only: bit_iff_odd) simp
    then show ?thesis by (simp only: bit_unsigned_iff) simp
  qed
  show "bit (b AND netmask w n) i = bit b i"
    using low assms(1) by (auto simp: bit_and_iff bit_netmask dest: bit_imp_le_length intro: leI)
qed

lemma in4_div:
  assumes "foldl (\<lambda>a d. a * 256 + d) 0 octets = b" "b < 2 ^ 32" "b mod 2 ^ (32 - n) = 0" "n \<le> 32"
  shows "in4 octets n w \<longleftrightarrow> unat w div 2 ^ (32 - n) = b div 2 ^ (32 - n)"
proof -
  let ?b = "word_of_nat b :: 32 word"
  have u: "unat ?b = b" using assms(2) by (simp add: unat_of_nat)
  have "?b AND netmask 32 n = ?b" by (rule netmask_id) (use assms(3) u in simp_all)
  then have "in4 octets n w \<longleftrightarrow> w AND netmask 32 n = ?b AND netmask 32 n"
    by (simp add: in4_def assms(1))
  then show ?thesis using masked_eq_div[of 32 n w ?b] assms(4) u by simp
qed

lemma in6_div:
  assumes "0 \<le> hi" "nat hi * 2 ^ k < 2 ^ 128" "(nat hi * 2 ^ k) mod 2 ^ (128 - n) = 0" "n \<le> 128"
  shows "in6 hi k n a \<longleftrightarrow> unat a div 2 ^ (128 - n) = (nat hi * 2 ^ k) div 2 ^ (128 - n)"
proof -
  let ?b = "push_bit k (word_of_int hi) :: 128 word"
  have b: "?b = word_of_nat (nat hi * 2 ^ k)"
    using assms(1) by (simp add: push_bit_eq_mult)
  have u: "unat ?b = nat hi * 2 ^ k" unfolding b unat_of_nat using assms(2) by simp
  have "?b AND netmask 128 n = ?b" by (rule netmask_id) (use assms(3) u in simp_all)
  then have "in6 hi k n a \<longleftrightarrow> a AND netmask 128 n = ?b AND netmask 128 n" by (simp add: in6_def)
  then show ?thesis using masked_eq_div[of 128 n a ?b] assms(4) u by simp
qed

lemma in4_blocks:
  "in4 [0,0,0,0] 8 w \<longleftrightarrow> unat w div 2 ^ 24 = 0" "in4 [10,0,0,0] 8 w \<longleftrightarrow> unat w div 2 ^ 24 = 10"
  "in4 [127,0,0,0] 8 w \<longleftrightarrow> unat w div 2 ^ 24 = 127" "in4 [169,254,0,0] 16 w \<longleftrightarrow> unat w div 2 ^ 16 = 43518"
  "in4 [172,16,0,0] 12 w \<longleftrightarrow> unat w div 2 ^ 20 = 2753" "in4 [192,168,0,0] 16 w \<longleftrightarrow> unat w div 2 ^ 16 = 49320"
  "in4 [224,0,0,0] 4 w \<longleftrightarrow> unat w div 2 ^ 28 = 14" "in4 [240,0,0,0] 4 w \<longleftrightarrow> unat w div 2 ^ 28 = 15"
  "in4 [192,0,0,9] 32 w \<longleftrightarrow> unat w = 3221225481" "in4 [192,0,0,10] 32 w \<longleftrightarrow> unat w = 3221225482"
  "in4 [192,0,0,0] 24 w \<longleftrightarrow> unat w div 2 ^ 8 = 12582912" "in4 [192,0,2,0] 24 w \<longleftrightarrow> unat w div 2 ^ 8 = 12582914"
  "in4 [198,18,0,0] 15 w \<longleftrightarrow> unat w div 2 ^ 17 = 25353" "in4 [198,51,100,0] 24 w \<longleftrightarrow> unat w div 2 ^ 8 = 12989284"
  "in4 [203,0,113,0] 24 w \<longleftrightarrow> unat w div 2 ^ 8 = 13303921"
  by (simp_all add: in4_div)

lemma div_eq_iff: "0 < k \<Longrightarrow> x div k = j \<longleftrightarrow> k * j \<le> x \<and> x < k * Suc j" for x k j :: nat
  using div_nat_eqI[of k j x] by (auto simp: dividend_less_times_div)

text \<open>The addresses a public console cannot have: this network, private use, loopback, link-local, the protocol
  assignments but for the two anycast addresses, documentation, benchmarks, multicast and reserved. The shared
  address space 100.64.0.0/10 is not among them.\<close>

definition dotted :: "nat \<Rightarrow> nat \<Rightarrow> nat \<Rightarrow> nat \<Rightarrow> nat" where
  "dotted a b c d = ((a * 256 + b) * 256 + c) * 256 + d"

definition special_ranges :: "(nat \<times> nat) list" where
  "special_ranges =
     [(dotted 0 0 0 0, dotted 0 255 255 255), (dotted 10 0 0 0, dotted 10 255 255 255),
      (dotted 127 0 0 0, dotted 127 255 255 255), (dotted 169 254 0 0, dotted 169 254 255 255),
      (dotted 172 16 0 0, dotted 172 31 255 255), (dotted 192 0 0 0, dotted 192 0 0 8),
      (dotted 192 0 0 11, dotted 192 0 0 255), (dotted 192 0 2 0, dotted 192 0 2 255),
      (dotted 192 168 0 0, dotted 192 168 255 255), (dotted 198 18 0 0, dotted 198 19 255 255),
      (dotted 198 51 100 0, dotted 198 51 100 255), (dotted 203 0 113 0, dotted 203 0 113 255),
      (dotted 224 0 0 0, dotted 255 255 255 255)]"

text \<open>An IPv6 address is global unicast, or in the deprecated site-local block, and it is not for documentation, not
  6to4, and in the protocol assignments 2001::/23 only where those are globally reachable.\<close>

definition assigned6 :: "nat \<Rightarrow> bool" where
  "assigned6 n \<longleftrightarrow>
     n \<in> {0x20010001000000000000000000000001, 0x20010001000000000000000000000002} \<or>
     n div 2 ^ 96 = 0x20010003 \<or> n div 2 ^ 80 = 0x200100040112 \<or> n div 2 ^ 100 \<in> {0x2001002, 0x2001003}"

fun external :: "ip_addr \<Rightarrow> bool" where
  "external (Addr4 w) \<longleftrightarrow> list_all (\<lambda>(lo, hi). unat w < lo \<or> hi < unat w) special_ranges"
| "external (Addr6 a) \<longleftrightarrow>
     (unat a div 2 ^ 125 = 1 \<or> unat a div 2 ^ 118 = 1019) \<and>
     unat a div 2 ^ 96 \<noteq> 0x20010DB8 \<and> unat a div 2 ^ 112 \<noteq> 0x2002 \<and>
     (unat a div 2 ^ 105 = 0x100080 \<longrightarrow> assigned6 (unat a))"

lemma div_neq: "x div k \<noteq> v \<longleftrightarrow> x < lo \<or> hi < x" if "lo = k * v" "Suc hi = k * Suc v" "0 < k" for x k v :: nat
  using div_eq_iff[OF that(3), of x v] that(1,2) by linarith
lemma outside_special_ranges:
  fixes x :: nat
  assumes "x < 2 ^ 32"
  shows "list_all (\<lambda>(lo, hi). x < lo \<or> hi < x) special_ranges \<longleftrightarrow>
    x div 2 ^ 24 \<noteq> 0 \<and> x div 2 ^ 24 \<noteq> 10 \<and> x div 2 ^ 24 \<noteq> 127 \<and> x div 2 ^ 16 \<noteq> 43518 \<and> x div 2 ^ 20 \<noteq> 2753 \<and>
    (x div 2 ^ 8 \<noteq> 12582912 \<or> x = 3221225481 \<or> x = 3221225482) \<and> x div 2 ^ 8 \<noteq> 12582914 \<and> x div 2 ^ 16 \<noteq> 49320 \<and>
    x div 2 ^ 17 \<noteq> 25353 \<and> x div 2 ^ 8 \<noteq> 12989284 \<and> x div 2 ^ 8 \<noteq> 13303921 \<and> x < 224 * 2 ^ 24"
proof -
  have b: "x div 2 ^ 24 \<noteq> 0 \<longleftrightarrow> x < dotted 0 0 0 0 \<or> dotted 0 255 255 255 < x"
    "x div 2 ^ 24 \<noteq> 10 \<longleftrightarrow> x < dotted 10 0 0 0 \<or> dotted 10 255 255 255 < x"
    "x div 2 ^ 24 \<noteq> 127 \<longleftrightarrow> x < dotted 127 0 0 0 \<or> dotted 127 255 255 255 < x"
    "x div 2 ^ 16 \<noteq> 43518 \<longleftrightarrow> x < dotted 169 254 0 0 \<or> dotted 169 254 255 255 < x"
    "x div 2 ^ 20 \<noteq> 2753 \<longleftrightarrow> x < dotted 172 16 0 0 \<or> dotted 172 31 255 255 < x"
    "x div 2 ^ 8 \<noteq> 12582912 \<longleftrightarrow> x < dotted 192 0 0 0 \<or> dotted 192 0 0 255 < x"
    "x div 2 ^ 8 \<noteq> 12582914 \<longleftrightarrow> x < dotted 192 0 2 0 \<or> dotted 192 0 2 255 < x"
    "x div 2 ^ 16 \<noteq> 49320 \<longleftrightarrow> x < dotted 192 168 0 0 \<or> dotted 192 168 255 255 < x"
    "x div 2 ^ 17 \<noteq> 25353 \<longleftrightarrow> x < dotted 198 18 0 0 \<or> dotted 198 19 255 255 < x"
    "x div 2 ^ 8 \<noteq> 12989284 \<longleftrightarrow> x < dotted 198 51 100 0 \<or> dotted 198 51 100 255 < x"
    "x div 2 ^ 8 \<noteq> 13303921 \<longleftrightarrow> x < dotted 203 0 113 0 \<or> dotted 203 0 113 255 < x"
    by (rule div_neq; simp add: dotted_def)+
  have s: "(x < dotted 192 0 0 0 \<or> dotted 192 0 0 8 < x) \<and> (x < dotted 192 0 0 11 \<or> dotted 192 0 0 255 < x) \<longleftrightarrow>
      (x < dotted 192 0 0 0 \<or> dotted 192 0 0 255 < x) \<or> x = 3221225481 \<or> x = 3221225482"
    by (simp add: dotted_def) arith
  have m: "x < dotted 224 0 0 0 \<or> dotted 255 255 255 255 < x \<longleftrightarrow> x < 224 * 2 ^ 24"
    using assms by (auto simp: dotted_def)
  show ?thesis
    unfolding special_ranges_def list.pred_inject prod.case b m s[symmetric] by (simp only: list.pred_inject simp_thms conj_assoc)
qed
text \<open>The guard on consoles keeps out just these addresses.\<close>

lemma class4_iff: "address_class (Addr4 w) = None \<longleftrightarrow> external (Addr4 w)"
proof -
  define x where "x = unat w"
  have x: "x < 2 ^ 32" using unsigned_less[of w] by (simp add: x_def)
  have d: "x div 2 ^ 8 = x div 2 div 2 ^ 7" unfolding div_mult2_eq[symmetric] by simp
  have sub: "x div 2 = 1610612821 \<Longrightarrow> x div 2 ^ 8 = 12582912 \<and> x \<noteq> 3221225481 \<and> x \<noteq> 3221225482"
    unfolding d by auto
  have "x div 2 ^ 28 < 16" using x by (intro less_mult_imp_div_less) simp
  moreover have "x div 2 ^ 28 < 14 \<longleftrightarrow> x < 224 * 2 ^ 24" by (simp add: div_less_iff_less_mult)
  ultimately have h: "x < 224 * 2 ^ 24 \<longleftrightarrow> x div 2 ^ 28 \<noteq> 14 \<and> x div 2 ^ 28 \<noteq> 15" by arith
  have top: "x = 4294967295 \<Longrightarrow> x div 2 ^ 28 = 15" by simp
  have zero: "w = 0 \<longleftrightarrow> x = 0" "x = 0 \<Longrightarrow> x div 2 ^ 24 = 0" by (simp_all add: x_def unat_eq_zero)
  have c: "address_class (Addr4 w) = None \<longleftrightarrow> \<not> in4 [127,0,0,0] 8 w \<and> \<not> private4 w \<and> \<not> in4 [169,254,0,0] 16 w \<and>
      \<not> in4 [224,0,0,0] 4 w \<and> \<not> in4 [240,0,0,0] 4 w \<and> w \<noteq> 0" by auto
  have e: "in4 [192,0,0,170] 31 w \<longleftrightarrow> x div 2 = 1610612821" "in4 [255,255,255,255] 32 w \<longleftrightarrow> x = 4294967295"
    by (simp_all add: in4_div x_def)
  note unfold = c external.simps outside_special_ranges[OF x, folded x_def] private4_def in4_blocks e zero(1)
      x_def[symmetric] h
  show ?thesis
  proof (cases "x = 3221225481 \<or> x = 3221225482")
    case True
    then show ?thesis unfolding unfold by (elim disjE) simp_all
  next
    case False
    then show ?thesis unfolding unfold using sub top zero(2) False by argo
  qed
qed

lemma shared_space_passes: "ip_block_reason False (Addr4 0x64400001, z) = None"
proof -
  have "external (Addr4 0x64400001)" by (simp add: special_ranges_def dotted_def)
  then show ?thesis unfolding class4_iff[symmetric] by (simp add: ip_block_reason_def)
qed

lemma in6_blocks:
  "in6 0 112 8 a \<longleftrightarrow> unat a div 2 ^ 120 = 0" "in6 0x100 112 8 a \<longleftrightarrow> unat a div 2 ^ 120 = 1"
  "in6 0x200 112 7 a \<longleftrightarrow> unat a div 2 ^ 121 = 1" "in6 0x400 112 6 a \<longleftrightarrow> unat a div 2 ^ 122 = 1"
  "in6 0x800 112 5 a \<longleftrightarrow> unat a div 2 ^ 123 = 1" "in6 0x1000 112 4 a \<longleftrightarrow> unat a div 2 ^ 124 = 1"
  "in6 0x4000 112 3 a \<longleftrightarrow> unat a div 2 ^ 125 = 2" "in6 0x6000 112 3 a \<longleftrightarrow> unat a div 2 ^ 125 = 3"
  "in6 0x8000 112 3 a \<longleftrightarrow> unat a div 2 ^ 125 = 4" "in6 0xA000 112 3 a \<longleftrightarrow> unat a div 2 ^ 125 = 5"
  "in6 0xC000 112 3 a \<longleftrightarrow> unat a div 2 ^ 125 = 6" "in6 0xE000 112 4 a \<longleftrightarrow> unat a div 2 ^ 124 = 14"
  "in6 0xF000 112 5 a \<longleftrightarrow> unat a div 2 ^ 123 = 30" "in6 0xF800 112 6 a \<longleftrightarrow> unat a div 2 ^ 122 = 62"
  "in6 0xFE00 112 9 a \<longleftrightarrow> unat a div 2 ^ 119 = 508" "in6 0xFC00 112 7 a \<longleftrightarrow> unat a div 2 ^ 121 = 126"
  "in6 0xFE80 112 10 a \<longleftrightarrow> unat a div 2 ^ 118 = 1018" "in6 0xFF00 112 8 a \<longleftrightarrow> unat a div 2 ^ 120 = 255"
  "in6 0x20010DB8 96 32 a \<longleftrightarrow> unat a div 2 ^ 96 = 0x20010DB8" "in6 0x2002 112 16 a \<longleftrightarrow> unat a div 2 ^ 112 = 0x2002"
  "in6 0x20010000 96 23 a \<longleftrightarrow> unat a div 2 ^ 105 = 0x100080"
  "in6 0x20010003 96 32 a \<longleftrightarrow> unat a div 2 ^ 96 = 0x20010003"
  "in6 0x20010001000000000000000000000001 0 128 a \<longleftrightarrow> unat a = 0x20010001000000000000000000000001"
  "in6 0x20010001000000000000000000000002 0 128 a \<longleftrightarrow> unat a = 0x20010001000000000000000000000002"
  "in6 0x200100040112 80 48 a \<longleftrightarrow> unat a div 2 ^ 80 = 0x200100040112"
  "in6 0x20010020 96 28 a \<longleftrightarrow> unat a div 2 ^ 100 = 0x2001002" "in6 0x20010030 96 28 a \<longleftrightarrow> unat a div 2 ^ 100 = 0x2001003"
  by (simp_all add: in6_div)

lemma assigned6_block: "assigned6 n \<Longrightarrow> n div 2 ^ 105 = 0x100080"
proof -
  have e: "n div 2 ^ 105 = n div 2 ^ 96 div 2 ^ 9" "n div 2 ^ 105 = n div 2 ^ 80 div 2 ^ 25"
    "n div 2 ^ 105 = n div 2 ^ 100 div 2 ^ 5"
    unfolding div_mult2_eq[symmetric] by simp_all
  show "assigned6 n \<Longrightarrow> n div 2 ^ 105 = 0x100080"
    unfolding assigned6_def by (elim disjE insertE) (simp, simp, simp, simp add: e(1), simp add: e(2), simp_all add: e(3))
qed

lemma other_block: "n div 2 ^ 96 = 0x20010DB8 \<or> n div 2 ^ 112 = 0x2002 \<Longrightarrow> \<not> assigned6 n"
proof -
  have e: "n div 2 ^ 105 = n div 2 ^ 96 div 2 ^ 9" "n div 2 ^ 112 = n div 2 ^ 105 div 2 ^ 7"
    unfolding div_mult2_eq[symmetric] by simp_all
  show "n div 2 ^ 96 = 0x20010DB8 \<or> n div 2 ^ 112 = 0x2002 \<Longrightarrow> \<not> assigned6 n"
    using assigned6_block[of n] by (auto simp: e)
qed

lemma class6_external:
  assumes "address_class (Addr6 a) = None"
  shows "external (Addr6 a)"
proof -
  define t where "t = unat a div 2 ^ 118"
  have "unat a < 2 ^ 128" using unsigned_less[of a] by simp
  then have t: "t < 1024" unfolding t_def by (intro less_mult_imp_div_less) simp
  have d: "unat a div 2 ^ 119 = t div 2" "unat a div 2 ^ 120 = t div 4" "unat a div 2 ^ 121 = t div 8"
    "unat a div 2 ^ 122 = t div 16" "unat a div 2 ^ 123 = t div 32" "unat a div 2 ^ 124 = t div 64"
    "unat a div 2 ^ 125 = t div 128"
    unfolding t_def div_mult2_eq[symmetric] by simp_all
  have n: "\<not> private6 a" "\<not> in6 0xFE80 112 10 a" "\<not> in6 0xFF00 112 8 a" "\<not> reserved6 a"
    using assms by (auto split: if_splits)
  have m: "ipv4_mapped a = None"
  proof (rule ccontr)
    assume "ipv4_mapped a \<noteq> None"
    then have "drop_bit 32 a = 0xFFFF" by (simp add: ipv4_mapped_def split: if_splits)
    then have "drop_bit 32 (unat a) = unat (0xFFFF :: 128 word)" by (simp only: flip: unat_drop_bit_eq)
    then have "unat a div 2 ^ 32 = 65535" by (simp add: drop_bit_eq_div)
    moreover have "unat a div 2 ^ 120 = unat a div 2 ^ 32 div 2 ^ 88" unfolding div_mult2_eq[symmetric] by simp
    ultimately have "unat a div 2 ^ 120 = 0" by simp
    with n(4) show False by (simp add: reserved6_def in6_blocks)
  qed
  note r = n(2,3,4)[unfolded reserved6_def in6_blocks d t_def[symmetric]]
  have "t div 8 \<noteq> 126 \<or> t div 128 = 1"
  proof -
    have e: "t = unat a div 2 ^ 96 div 2 ^ 22" "t = unat a div 2 ^ 80 div 2 ^ 38" "t = unat a div 2 ^ 100 div 2 ^ 18"
      unfolding t_def div_mult2_eq[symmetric] by simp_all
    have "t = 128" if "in6 0x20010001000000000000000000000001 0 128 a \<or> in6 0x20010001000000000000000000000002 0 128 a \<or>
       in6 0x20010003 96 32 a \<or> in6 0x200100040112 80 48 a \<or> in6 0x20010020 96 28 a \<or> in6 0x20010030 96 28 a"
      using that unfolding in6_blocks
      by (elim disjE) (simp add: t_def, simp add: t_def, simp add: e(1), simp add: e(2), simp add: e(3), simp add: e(3))
    then have "in6 0xFC00 112 7 a \<Longrightarrow> private6 a"
      unfolding private6_def m option.case using d(3) in6_blocks(16)[of a] by auto
    then show ?thesis using n(1) unfolding in6_blocks d by blast
  qed
  note r' = this
  have "t div 128 = 1 \<or> t = 1019"
    using r r' t by (simp add: div_eq_iff) presburger
  then show ?thesis
    using n(1) other_block[of "unat a"]
    unfolding external.simps assigned6_def d(7) t_def[symmetric] private6_def m option.case in6_blocks by blast
qed

section \<open>A sanitized URL splits into what it was made of\<close>

definition visible :: "string \<Rightarrow> bool" where
  "visible s \<longleftrightarrow> list_all (\<lambda>c. 32 < char_code c) s"

lemma visible_subset: "visible s \<Longrightarrow> set t \<subseteq> set s \<Longrightarrow> visible t"
  by (auto simp: visible_def list_all_iff)

lemma visible_simps [simp]:
  "visible []" "visible (c # s) \<longleftrightarrow> 32 < char_code c \<and> visible s" "visible (s @ t) \<longleftrightarrow> visible s \<and> visible t"
  by (auto simp: visible_def)

lemma visible_strip: "visible s \<Longrightarrow> strip s = s"
proof -
  assume v: "visible s"
  have "dropWhile is_space x = x" if "set x \<subseteq> set s" for x
    using v that by (cases x) (auto simp: visible_def list_all_iff is_space_def)
  then show ?thesis by (simp add: strip_def lstrip_def rstrip_def)
qed

lemma visible_clean:
  "visible s \<Longrightarrow> filter (\<lambda>c. \<not> unsafe_url_byte c) (dropWhile control_or_space s) = s"
proof -
  assume v: "visible s"
  then have "dropWhile control_or_space s = s"
    by (cases s) (auto simp: visible_def control_or_space_def)
  moreover have "filter (\<lambda>c. \<not> unsafe_url_byte c) s = s"
    using v by (auto simp: filter_id_conv visible_def list_all_iff unsafe_url_byte_def)
  ultimately show ?thesis by simp
qed

lemma scheme_split:
  assumes "sch \<in> {''http'', ''https''}"
  shows "split_scheme (sch @ '':'' @ r) = (sch, r)"
proof -
  have f: "CHR '':'' \<notin> set sch" "sch \<noteq> []" "is_alpha (hd sch)" "list_all scheme_char sch" "lower sch = sch"
    using assms by (elim insertE; simp; code_simp)+
  have "before_first (CHR '':'') (sch @ '':'' @ r) = sch" "rest_after (CHR '':'') (sch @ '':'' @ r) = r"
    using before_first_hit[OF f(1), of r] rest_after_hit[OF f(1), of r] by simp_all
  with f show ?thesis by (simp add: split_scheme_def Let_def)
qed

lemma netloc_split:
  assumes "\<forall>c \<in> set h. \<not> url_delim c" "path = [] \<or> hd path = CHR ''/''"
  shows "split_netloc (''//'' @ h @ path) = (h, path)"
proof -
  have "takeWhile (\<lambda>c. \<not> url_delim c) (h @ path) = h" "dropWhile (\<lambda>c. \<not> url_delim c) (h @ path) = path"
    using assms by (cases path; force simp: takeWhile_append2 dropWhile_append2 url_delim_def takeWhile_eq_all_conv)+
  then show ?thesis by (simp add: split_netloc_def)
qed

lemma split_netloc_parts:
  assumes "split_netloc r = (n, rest)" "n \<noteq> []"
  shows "r = ''//'' @ n @ rest \<and> (\<forall>c \<in> set n. \<not> url_delim c) \<and> (rest = [] \<or> url_delim (hd rest))"
proof -
  from assms have p: "prefix ''//'' r" "n = takeWhile (\<lambda>c. \<not> url_delim c) (drop 2 r)"
    "rest = dropWhile (\<lambda>c. \<not> url_delim c) (drop 2 r)"
    by (auto simp: split_netloc_def split: if_splits)
  then have "r = ''//'' @ drop 2 r" by (auto simp: prefix_def)
  moreover have "drop 2 r = n @ rest" using p by simp
  moreover have "\<forall>c \<in> set n. \<not> url_delim c" using p(2) set_takeWhileD by fast
  moreover have "rest = [] \<or> url_delim (hd rest)" using hd_dropWhile p(3) by blast
  ultimately show ?thesis by metis
qed

text \<open>What \<open>urlsplit\<close> gives for a URL of the guard's schemes.\<close>

definition brackets_ok :: "scoped_ipv6_syntax \<Rightarrow> string \<Rightarrow> bool" where
  "brackets_ok six n \<longleftrightarrow>
     (CHR ''['' \<in> set n) = (CHR '']'' \<in> set n) \<and>
     (CHR ''['' \<in> set n \<longrightarrow> bracketed_host_ok six (before_first (CHR '']'') (rest_after (CHR ''['') n)))"

lemma urlsplit_visible:
  assumes "visible s"
  shows "urlsplit six s =
    (case split_scheme s of (sch, r) \<Rightarrow> case split_netloc r of (n, rest) \<Rightarrow>
       if brackets_ok six n then
         Some \<lparr>up_scheme = sch, up_netloc = n, up_path = before_first (CHR ''?'') (before_first (CHR ''#'') rest),
               up_fragment = rest_after (CHR ''#'') rest\<rparr>
       else None)"
  unfolding urlsplit_def visible_clean[OF assms] brackets_ok_def Let_def by (auto split: prod.split)

lemma split_scheme_subset: "split_scheme s = (sch, r) \<Longrightarrow> set r \<subseteq> set s"
  using rest_after_subset by (auto simp: split_scheme_def Let_def split: if_splits)

lemma url_path_shape:
  assumes "rest = [] \<or> url_delim (hd rest)"
  defines "path \<equiv> before_first (CHR ''?'') (before_first (CHR ''#'') rest)"
  shows "path = [] \<or> hd path = CHR ''/''" "set path \<subseteq> set rest" "CHR ''?'' \<notin> set path" "CHR ''#'' \<notin> set path"
proof -
  show "path = [] \<or> hd path = CHR ''/''"
    using assms(1) unfolding path_def by (cases rest) (auto simp: before_first_def url_delim_def)
  show "set path \<subseteq> set rest"
    unfolding path_def by (rule subset_trans[OF before_first_subset before_first_subset])
  show "CHR ''?'' \<notin> set path" unfolding path_def by (rule before_first_free)
  show "CHR ''#'' \<notin> set path"
    unfolding path_def using before_first_subset[THEN subsetD] before_first_free by metis
qed

lemma brackets_ok_hostinfo:
  assumes "\<not> has_userinfo n"
  shows "brackets_ok six (hostinfo n) = brackets_ok six n"
proof -
  have r: "rest_after (CHR ''['') (u @ hostinfo n) = rest_after (CHR ''['') (hostinfo n)" if "CHR ''['' \<notin> set u" for u
    using that by (induction u) (auto simp: rest_after_def)
  have b: "brackets_ok six (u @ hostinfo n) = brackets_ok six (hostinfo n)"
    if "CHR ''['' \<notin> set u" "CHR '']'' \<notin> set u" for u
    using that by (simp add: brackets_ok_def r)
  from no_userinfo[OF assms] show ?thesis
  proof cases
    case 1
    then show ?thesis by (rule arg_cong[OF sym])
  next
    case 2
    from arg_cong[OF this, of "brackets_ok six"] b[of "''@''"] show ?thesis by simp
  next
    case 3
    from arg_cong[OF this, of "brackets_ok six"] b[of "'':@''"] show ?thesis by simp
  qed
qed

lemma hostinfo_subset: "set (hostinfo n) \<subseteq> set n"
  using after_last_split[of n "CHR ''@''"] by (metis Un_iff hostinfo_def set_append subsetI)

lemma host_port_hostinfo: "host_port (hostinfo n) = host_port n"
  by (simp add: host_port_def hostinfo_id[OF hostinfo_free])

lemma no_userinfo_hostinfo: "\<not> has_userinfo (hostinfo n)"
  by (simp add: has_userinfo_def url_userinfo_def hostinfo_free)

lemma sanitized_splits:
  assumes "visible (sch @ h @ path)" "sch \<in> {''http'', ''https''}" "\<forall>c \<in> set h. \<not> url_delim c" "h \<noteq> []"
    "path = [] \<or> hd path = CHR ''/''" "CHR ''?'' \<notin> set path" "CHR ''#'' \<notin> set path" "brackets_ok six h"
  shows "visible (unparse_url sch h path)"
    "urlsplit six (unparse_url sch h path) = Some \<lparr>up_scheme = sch, up_netloc = h, up_path = path, up_fragment = []\<rparr>"
proof -
  have u: "unparse_url sch h path = sch @ '':'' @ ''//'' @ h @ path"
    using assms(2,4,5) by (cases path) (auto simp: unparse_url_def)
  have "32 < char_code (CHR '':'')" "32 < char_code (CHR ''/'')" by code_simp+
  with assms(1) show v: "visible (unparse_url sch h path)" by (simp add: u)
  have "before_first (CHR ''?'') (before_first (CHR ''#'') path) = path" "rest_after (CHR ''#'') path = []"
    using assms(6,7) by (simp_all add: before_first_notin rest_after_notin)
  then show "urlsplit six (unparse_url sch h path) =
      Some \<lparr>up_scheme = sch, up_netloc = h, up_path = path, up_fragment = []\<rparr>"
    unfolding urlsplit_visible[OF v] unfolding u scheme_split[OF assms(2)] prod.case netloc_split[OF assms(3,5)]
    using assms(8) by simp
qed

section \<open>The guard's promise\<close>

definition accepted :: "url_parts \<Rightarrow> int option \<Rightarrow> safe_url" where
  "accepted u p = \<lparr>su_sanitized = unparse_url (up_scheme u) (hostinfo (up_netloc u)) (split_params (up_path u)),
     su_host = lower (fst (host_port (up_netloc u))),
     su_port = (case p of
         Some n \<Rightarrow> (if n = 0 then (if up_scheme u = ''https'' then 443 else 80) else n)
       | None \<Rightarrow> (if up_scheme u = ''https'' then 443 else 80)),
     su_scheme = up_scheme u\<rparr>"

lemma validate_url_Inr:
  "validate_url mo env url = Inr safe \<longleftrightarrow>
   (\<exists>u addrs p. url \<noteq> [] \<and> urlsplit (ue_six env) (strip url) = Some u \<and> up_scheme u \<in> {''http'', ''https''} \<and>
      lower (fst (host_port (up_netloc u))) \<noteq> [] \<and> \<not> has_userinfo (up_netloc u) \<and> up_fragment u = [] \<and>
      literal_or_resolved env mo (lower (fst (host_port (up_netloc u)))) = Some addrs \<and>
      \<not> list_ex (addr_blocked mo) addrs \<and> url_port (up_netloc u) = Some p \<and> safe = accepted u p)"
proof (cases "urlsplit (ue_six env) (strip url)")
  case None
  then show ?thesis by (simp add: validate_url_def)
next
  case u: (Some u)
  let ?lit = "literal_or_resolved env mo (lower (fst (host_port (up_netloc u))))"
  show ?thesis
  proof (cases ?lit; cases "url_port (up_netloc u)")
    fix addrs p
    assume "?lit = Some addrs" "url_port (up_netloc u) = Some p"
    with u show ?thesis
      by (simp add: validate_url_def Let_def) (auto simp: accepted_def)
  qed (use u in \<open>simp_all add: validate_url_def Let_def\<close>)
qed

lemma class_external: "address_class ip = None \<Longrightarrow> external ip"
  using class4_iff class6_external by (cases ip) blast+

lemma not_metadata:
  "\<not> is_metadata (ip, z) \<longleftrightarrow>
   ip \<noteq> Addr4 (of_nat (dotted 169 254 169 254)) \<and> (z = [] \<longrightarrow> ip \<noteq> Addr6 0xFD000EC2000000000000000000000254)"
  by (cases ip) (auto simp: dotted_def)

lemma accepted_addr:
  "\<not> addr_blocked mo a \<Longrightarrow> \<exists>ip z. a = Some (ip, z) \<and> (if mo then \<not> is_metadata (ip, z) else external ip)"
  using class_external
  by (cases a; cases mo) (auto simp: addr_blocked_def ip_block_reason_def simp del: external.simps address_class.simps split: if_splits)

text \<open>C30. A URL the guard lets pass is of scheme http or https, and of the addresses its host is or resolves to, each
  lies, for a console, outside the special-purpose blocks: an IPv4 address outside those of \<open>special_ranges\<close>, an IPv6
  address in global unicast (or the deprecated site-local block) without documentation, 6to4 and the unreachable
  protocol assignments. The address of an endpoint, if its name resolves at all, is not 169.254.169.254 and not
  fd00:ec2::254, which leaves their IPv4-mapped and zoned forms. The sanitized form of a URL without white space is a
  fixed point: checked again it gives the same host, port and text.\<close>

theorem guarded_urls_are_external:
  assumes "validate_url metadata_only env url = Inr safe"
  shows "su_scheme safe \<in> {''http'', ''https''} \<and>
    (\<exists>addrs. literal_or_resolved env metadata_only (su_host safe) = Some addrs \<and>
       (\<forall>a \<in> set addrs. \<exists>ip z. a = Some (ip, z) \<and>
          (if metadata_only then ip \<noteq> Addr4 (of_nat (dotted 169 254 169 254)) \<and> (z = [] \<longrightarrow> ip \<noteq> Addr6 0xFD000EC2000000000000000000000254)
           else external ip))) \<and>
    (visible url \<longrightarrow> validate_url metadata_only env (su_sanitized safe) = Inr safe)"
proof -
  from assms obtain u addrs p where u: "urlsplit (ue_six env) (strip url) = Some u"
    and sch: "up_scheme u \<in> {''http'', ''https''}" and host: "lower (fst (host_port (up_netloc u))) \<noteq> []"
    and ui: "\<not> has_userinfo (up_netloc u)"
    and lit: "literal_or_resolved env metadata_only (lower (fst (host_port (up_netloc u)))) = Some addrs"
    and free: "\<not> list_ex (addr_blocked metadata_only) addrs" and port: "url_port (up_netloc u) = Some p"
    and safe: "safe = accepted u p"
    unfolding validate_url_Inr by blast
  let ?h = "hostinfo (up_netloc u)" and ?p = "split_params (up_path u)"
  have "validate_url metadata_only env (su_sanitized safe) = Inr safe" if v: "visible url"
  proof -
    obtain sch' r n rest where s: "split_scheme url = (sch', r)" "split_netloc r = (n, rest)" by (metis surj_pair)
    from u[unfolded visible_strip[OF v] urlsplit_visible[OF v] s prod.case]
    have b: "brackets_ok (ue_six env) n" and e: "up_netloc u = n" "up_scheme u = sch'"
      "up_path u = before_first (CHR ''?'') (before_first (CHR ''#'') rest)" by (auto split: if_splits)
    have "n \<noteq> []" using host e by (auto simp: host_port_def hostinfo_def after_last_def before_first_def lower_def)
    note r = split_netloc_parts[OF s(2) this]
    then have path: "up_path u = [] \<or> hd (up_path u) = CHR ''/''" "set (up_path u) \<subseteq> set rest"
      "CHR ''?'' \<notin> set (up_path u)" "CHR ''#'' \<notin> set (up_path u)"
      unfolding e(3) using url_path_shape by blast+
    have hn: "?h \<noteq> []" using host by (auto simp: host_port_def before_first_def lower_def)
    have vis: "visible (up_scheme u @ ?h @ ?p)"
    proof -
      have "visible r" using v split_scheme_subset[OF s(1)] visible_subset by blast
      then have "visible n" "visible rest" using r by (metis visible_simps(3))+
      then have "visible ?h" "visible ?p"
        using visible_subset hostinfo_subset split_params_subset path(2) unfolding e(1) by blast+
      moreover have "visible (up_scheme u)" using sch by (elim insertE) (simp_all, code_simp+)
      ultimately show ?thesis by simp
    qed
    have d: "\<forall>c \<in> set ?h. \<not> url_delim c" using r hostinfo_subset unfolding e(1) by blast
    have q: "CHR ''?'' \<notin> set ?p" "CHR ''#'' \<notin> set ?p" using path(3,4) split_params_subset by blast+
    have bh: "brackets_ok (ue_six env) ?h" using b brackets_ok_hostinfo[OF ui] unfolding e(1) by simp
    note sp = sanitized_splits[OF vis sch d hn split_params_slash[OF path(1)] q bh]
    have "unparse_url (up_scheme u) ?h ?p \<noteq> []" using hn by (simp add: unparse_url_def Let_def)
    then show ?thesis
      unfolding validate_url_Inr safe
      by (intro exI[of _ "\<lparr>up_scheme = up_scheme u, up_netloc = ?h, up_path = ?p, up_fragment = []\<rparr>"] exI[of _ addrs] exI[of _ p])
        (use sp visible_strip[OF sp(1)] sch host lit free port in
          \<open>simp add: accepted_def host_port_hostinfo no_userinfo_hostinfo split_params_idem hostinfo_id hostinfo_free url_port_def\<close>)
  qed
  moreover have "\<forall>a \<in> set addrs. \<exists>ip z. a = Some (ip, z) \<and> (if metadata_only then \<not> is_metadata (ip, z) else external ip)"
    using free accepted_addr by (auto simp: list_ex_iff)
  ultimately show ?thesis
    using sch lit unfolding not_metadata by (simp only: safe accepted_def safe_url.simps) blast
qed

text \<open>What the guard does not see: the metadata address written as an IPv4-mapped IPv6 address, or with a zone,
  passes the endpoint check.\<close>

lemma mapped_metadata_passes:
  "is_metadata (Addr4 0xA9FEA9FE, []) \<and> ipv4_mapped 0xFFFFA9FEA9FE = Some 0xA9FEA9FE \<and>
   ip_block_reason True (Addr6 0xFFFFA9FEA9FE, []) = None"
  by (simp add: ipv4_mapped_def ip_block_reason_def drop_bit_eq_div)

lemma zoned_metadata_passes:
  "is_metadata (Addr6 a, []) \<Longrightarrow> z \<noteq> [] \<Longrightarrow> ip_block_reason True (Addr6 a, z) = None"
  by (simp add: ip_block_reason_def)

definition example_dns :: url_env where
  "example_dns = \<lparr>ue_six = (\<lambda>_. None), ue_resolve = (\<lambda>h. if h = ''a.b'' then Some [''8.8.8.8''] else None)\<rparr>"

lemma example_public:
  "validate_url False example_dns ''https://A.b/x;v?q'' =
   Inr \<lparr>su_sanitized = ''https://A.b/x'', su_host = ''a.b'', su_port = 443, su_scheme = ''https''\<rparr>"
proof -
  have "urlsplit (ue_six example_dns) (strip ''https://A.b/x;v?q'') =
      Some \<lparr>up_scheme = ''https'', up_netloc = ''A.b'', up_path = ''/x;v'', up_fragment = []\<rparr>"
    by (simp only: example_dns_def url_env.simps, code_simp)
  moreover have "host_port ''A.b'' = (''A.b'', [])" "lower ''A.b'' = ''a.b''" "has_userinfo ''A.b'' = False"
    "url_port ''A.b'' = Some None" "hostinfo ''A.b'' = ''A.b''" "split_params ''/x;v'' = ''/x''"
    "unparse_url ''https'' ''A.b'' ''/x'' = ''https://A.b/x''"
    by code_simp+
  moreover have "scoped_address (ue_six example_dns) ''a.b'' = None"
    by (simp only: example_dns_def url_env.simps, code_simp)
  moreover have "scoped_address (ue_six example_dns) ''8.8.8.8'' = Some (Addr4 134744072, [])"
  proof -
    have "split_on (CHR ''.'') ''8.8.8.8'' = [''8'', ''8'', ''8'', ''8'']" "parse_octet ''8'' = Some 8" by code_simp+
    then show ?thesis by (simp add: scoped_address_def parse_ipv4_def)
  qed
  moreover have "ip_block_reason False (Addr4 134744072, []) = None"
    by (simp add: ip_block_reason_def private4_def in4_blocks in4_div)
  moreover have "ue_resolve example_dns ''a.b'' = Some [''8.8.8.8'']" by (simp add: example_dns_def)
  ultimately show ?thesis by (simp add: validate_url_def literal_or_resolved_def addr_blocked_def)
qed

lemma guarded_urls_are_external_witness:
  "external (Addr4 134744072) \<and> visible ''https://A.b/x;v?q'' \<and>
   validate_url False example_dns ''https://A.b/x'' =
     Inr \<lparr>su_sanitized = ''https://A.b/x'', su_host = ''a.b'', su_port = 443, su_scheme = ''https''\<rparr>"
proof -
  have "visible ''https://A.b/x;v?q''" by code_simp
  then show ?thesis using guarded_urls_are_external[OF example_public] by (simp add: special_ranges_def dotted_def)
qed

end
