(* ===== verification/Customer_Cases.thy ===== *)
theory Customer_Cases
  imports Gate Request_System
begin

text \<open>
  The customer-facing cases, \<open>routes/customer_cases.py\<close>: promotion of an incident, editing, the status
  machine, the text a model drafts, the bundle of incidents and the mail to the customer. The incidents and
  tenants are read from the tables of the other components; the template engine, the HTML sanitizer, the
  model's answer and the mail transport are parameters. Comments, watchers and the read-only views are not
  modelled.
\<close>

section \<open>The tables\<close>

record case_content =
  ct_locale :: string
  ct_title :: "string option"
  ct_analysis :: "string option"
  ct_attack :: "string option"
  ct_impact :: "string option"
  ct_recommended :: "string list option"
  ct_taken :: "string list option"
  ct_ti_summary :: "string option"
  ct_attribution :: "string option"
  ct_prior_note :: "string option"

record notice =
  nc_id :: uid
  nc_number :: string
  nc_source :: uid
  nc_tenant :: "uid option"
  nc_status :: customer_case_status
  nc_content :: case_content
  nc_edited_html :: "string option"
  nc_body_source :: string
  nc_sent_at :: "instant option"
  nc_sent_by :: "uid option"
  nc_sent_to :: "string option"
  nc_sent_cc :: "string option"
  nc_sent_subject :: "string option"

record case_link =
  lk_case :: uid
  lk_incident :: uid
  lk_at :: instant
  lk_by :: uid

record mail =
  ml_case :: uid
  ml_to :: string
  ml_cc :: "string list"
  ml_subject :: string
  ml_html :: string

record notice_db =
  nd_cases :: "notice list"
  nd_links :: "case_link list"
  nd_incidents :: "incident list"
  nd_tenants :: "tenant list"
  nd_calls :: "uid list"            \<comment> \<open>the incident of each recorded model call\<close>
  nd_audit :: "audit_entry list"
  nd_outbox :: "mail list"          \<comment> \<open>what the transport delivered\<close>

record llm_fields =
  lf_title :: string
  lf_attack :: string
  lf_analysis :: string
  lf_impact :: string
  lf_recommended :: "string list"
  lf_taken :: "string list"
  lf_ti_summary :: string
  lf_attribution :: string
  lf_prior_note :: string

text \<open>What is fixed for a deployment, and what differs per request.\<close>

record site =
  si_render :: "instant \<Rightarrow> string \<Rightarrow> case_content \<Rightarrow> incident \<Rightarrow> string option \<Rightarrow> incident list \<Rightarrow> string"
    \<comment> \<open>the template, on case number, texts, source incident, customer name and bundle\<close>
  si_sanitize :: "string \<Rightarrow> string"
  si_mail_configured :: bool

record notice_env =
  ne_now :: instant
  ne_new_id :: uid
  ne_new_number :: string
  ne_llm :: "llm_fields option"     \<comment> \<open>\<open>None\<close>: no usable answer\<close>
  ne_delivers :: bool               \<comment> \<open>the transport does not raise\<close>

definition get_notice :: "uid \<Rightarrow> notice_db \<Rightarrow> notice option" where
  "get_notice i db = get_row nc_id i (nd_cases db)"

definition upd_notice :: "uid \<Rightarrow> (notice \<Rightarrow> notice) \<Rightarrow> notice_db \<Rightarrow> notice_db" where
  "upd_notice i f db = db\<lparr>nd_cases := upd_row nc_id i f (nd_cases db)\<rparr>"

definition audit_notice :: "instant \<Rightarrow> user \<Rightarrow> string \<Rightarrow> notice \<Rightarrow> notice_db \<Rightarrow> notice_db" where
  "audit_notice now u action c db =
     db\<lparr>nd_audit := audit_log now (Some (u_id u)) action (Some (nc_id c)) (nc_tenant c) (nd_audit db)\<rparr>"

text \<open>What every route on a case starts with.\<close>

definition with_notice ::
  "uid \<Rightarrow> user \<Rightarrow> tenant_scope \<Rightarrow> (notice \<Rightarrow> (notice_db, 'a) handled) \<Rightarrow> notice_db \<Rightarrow> (notice_db, 'a) handled" where
  "with_notice i u scope h db =
     (case require_analyst u of
        Inl (HTTP c) \<Rightarrow> raise_http db c
      | Inr _ \<Rightarrow>
          (case get_notice i db of
             None \<Rightarrow> raise_http db 404
           | Some c \<Rightarrow>
               (case require_in_scope (nc_tenant c) scope of
                  Inl (HTTP e) \<Rightarrow> raise_http db e
                | Inr _ \<Rightarrow> h c)))"

definition unless_sent :: "notice \<Rightarrow> notice_db \<Rightarrow> (notice_db, 'a) handled \<Rightarrow> (notice_db, 'a) handled" where
  "unless_sent c db h = (if nc_status c = Sent then raise_http db 409 else h)"

text \<open>The widths of the columns: the database refuses a longer text when the row is flushed.\<close>

definition fits :: "nat \<Rightarrow> string option \<Rightarrow> bool" where
  "fits n s = (length (opt_str s) \<le> n)"

definition content_fits :: "case_content \<Rightarrow> bool" where
  "content_fits ct \<longleftrightarrow> length (ct_locale ct) \<le> 8 \<and> fits 255 (ct_attack ct) \<and> fits 255 (ct_attribution ct) \<and>
     fits 255 (ct_prior_note ct)"

section \<open>Creating a case\<close>

definition case_locale :: "tenant list \<Rightarrow> uid option \<Rightarrow> string option \<Rightarrow> string" where
  "case_locale tenants tenant_id locale =
     (let from_tenant = (case tenant_id of
                           None \<Rightarrow> locale
                         | Some t \<Rightarrow>
                             (case get_row t_id t tenants of
                                None \<Rightarrow> Some ''en''
                              | Some r \<Rightarrow> if truthy_str (t_locale r) then t_locale r else Some ''en''));
          l = (if truthy_str locale then locale else from_tenant)
      in if truthy_str l then opt_str l else ''en'')"

definition new_notice :: "notice_env \<Rightarrow> tenant list \<Rightarrow> string option \<Rightarrow> incident \<Rightarrow> notice" where
  "new_notice env tenants locale inc =
     \<lparr>nc_id = ne_new_id env, nc_number = ne_new_number env, nc_source = i_id inc, nc_tenant = i_tenant_id inc,
      nc_status = Draft,
      nc_content = \<lparr>ct_locale = case_locale tenants (i_tenant_id inc) locale, ct_title = Some (i_title inc),
        ct_analysis = None, ct_attack = None, ct_impact = None, ct_recommended = None, ct_taken = None,
        ct_ti_summary = None, ct_attribution = None, ct_prior_note = None\<rparr>,
      nc_edited_html = None, nc_body_source = ''generated'', nc_sent_at = None, nc_sent_by = None,
      nc_sent_to = None, nc_sent_cc = None, nc_sent_subject = None\<rparr>"

definition create_case ::
  "notice_env \<Rightarrow> uid option \<Rightarrow> string option \<Rightarrow> user \<Rightarrow> tenant_scope \<Rightarrow> notice_db \<Rightarrow> (notice_db, uid) handled" where
  "create_case env source locale u scope db =
     (case require_analyst u of
        Inl (HTTP c) \<Rightarrow> raise_http db c
      | Inr _ \<Rightarrow>
          (case source of
             None \<Rightarrow> raise_http db 400
           | Some i \<Rightarrow>
               (case get_row i_id i (nd_incidents db) of
                  None \<Rightarrow> raise_http db 404
                | Some inc \<Rightarrow>
                    (case require_in_scope (i_tenant_id inc) scope of
                       Inl (HTTP e) \<Rightarrow> raise_http db e
                     | Inr _ \<Rightarrow>
                         (let c = new_notice env (nd_tenants db) locale inc
                          in if nc_id c \<in> nc_id ` set (nd_cases db) \<or> \<not> content_fits (nc_content c) then raise_http db 500
                             else reply (audit_notice (ne_now env) u ''case.create'' c
                                    (db\<lparr>nd_cases := nd_cases db @ [c],
                                        nd_links := nd_links db @ [\<lparr>lk_case = nc_id c, lk_incident = i, lk_at = ne_now env,
                                          lk_by = u_id u\<rparr>]\<rparr>)) (nc_id c))))))"

section \<open>Editing\<close>

datatype case_edit =
    Edit_Title "string option" | Edit_Locale "string option" | Edit_Analysis "string option"
  | Edit_Attack "string option" | Edit_Impact "string option" | Edit_Recommended "string list option"
  | Edit_Taken "string list option" | Edit_Ti_Summary "string option" | Other_Field

text \<open>\<open>setattr\<close> of an editable field; a null locale is refused by the database.\<close>

fun apply_edit :: "case_edit \<Rightarrow> case_content \<Rightarrow> case_content option" where
  "apply_edit (Edit_Title v) ct = Some (ct\<lparr>ct_title := v\<rparr>)"
| "apply_edit (Edit_Locale v) ct = map_option (\<lambda>l. ct\<lparr>ct_locale := l\<rparr>) v"
| "apply_edit (Edit_Analysis v) ct = Some (ct\<lparr>ct_analysis := v\<rparr>)"
| "apply_edit (Edit_Attack v) ct = Some (ct\<lparr>ct_attack := v\<rparr>)"
| "apply_edit (Edit_Impact v) ct = Some (ct\<lparr>ct_impact := v\<rparr>)"
| "apply_edit (Edit_Recommended v) ct = Some (ct\<lparr>ct_recommended := v\<rparr>)"
| "apply_edit (Edit_Taken v) ct = Some (ct\<lparr>ct_taken := v\<rparr>)"
| "apply_edit (Edit_Ti_Summary v) ct = Some (ct\<lparr>ct_ti_summary := v\<rparr>)"
| "apply_edit Other_Field ct = Some ct"

fun apply_edits :: "case_edit list \<Rightarrow> case_content \<Rightarrow> case_content option" where
  "apply_edits [] ct = Some ct"
| "apply_edits (e # es) ct = Option.bind (apply_edit e ct) (apply_edits es)"

definition patch_case ::
  "instant \<Rightarrow> uid \<Rightarrow> case_edit list \<Rightarrow> user \<Rightarrow> tenant_scope \<Rightarrow> notice_db \<Rightarrow> (notice_db, unit) handled" where
  "patch_case now i edits u scope db =
     with_notice i u scope (\<lambda>c. unless_sent c db
       (case apply_edits edits (nc_content c) of
          None \<Rightarrow> raise_http db 500
        | Some ct \<Rightarrow>
            if ct = nc_content c then reply db ()
            else if \<not> content_fits ct then raise_http db 500
            else reply (audit_notice now u ''case.patch'' c (upd_notice i (\<lambda>c. c\<lparr>nc_content := ct\<rparr>) db)) ())) db"

definition allowed_transitions :: "customer_case_status \<Rightarrow> customer_case_status set" where
  "allowed_transitions s = (case s of Draft \<Rightarrow> {Reviewed} | Reviewed \<Rightarrow> {Draft} | Sent \<Rightarrow> {Draft})"

definition clear_snapshot :: "notice \<Rightarrow> notice" where
  "clear_snapshot c = c\<lparr>nc_sent_at := None, nc_sent_by := None, nc_sent_to := None, nc_sent_cc := None,
     nc_sent_subject := None\<rparr>"

definition set_case_status ::
  "instant \<Rightarrow> uid \<Rightarrow> customer_case_status option \<Rightarrow> user \<Rightarrow> tenant_scope \<Rightarrow> notice_db \<Rightarrow> (notice_db, unit) handled" where
  "set_case_status now i target u scope db =
     (case require_analyst u of
        Inl (HTTP c) \<Rightarrow> raise_http db c
      | Inr _ \<Rightarrow>
          if target = None \<or> target = Some Sent then raise_http db 400
          else with_notice i u scope (\<lambda>c.
            (let t = the target
             in if t = nc_status c then reply db ()
                else if t \<notin> allowed_transitions (nc_status c) then raise_http db 409
                else reply (audit_notice now u ''case.status'' c
                       (upd_notice i (\<lambda>c. (if t = Draft \<and> nc_status c = Sent then clear_snapshot c else c)\<lparr>nc_status := t\<rparr>)
                         db)) ())) db)"

definition or_null :: "string \<Rightarrow> string option" where
  "or_null s = (if s = [] then None else Some s)"

definition drafted :: "llm_fields \<Rightarrow> notice \<Rightarrow> notice" where
  "drafted f c =
     (let ct = nc_content c
      in c\<lparr>nc_content := ct\<lparr>ct_title := (if lf_title f = [] then ct_title ct else Some (lf_title f)),
             ct_attack := or_null (lf_attack f), ct_analysis := or_null (lf_analysis f),
             ct_impact := or_null (lf_impact f), ct_recommended := Some (lf_recommended f), ct_taken := Some (lf_taken f),
             ct_ti_summary := or_null (lf_ti_summary f), ct_attribution := or_null (lf_attribution f),
             ct_prior_note := or_null (lf_prior_note f)\<rparr>,
           nc_body_source := ''generated'', nc_edited_html := None\<rparr>)"

text \<open>The call is recorded in the same transaction: a failed one is rolled back with it.\<close>

definition llm_generate ::
  "notice_env \<Rightarrow> uid \<Rightarrow> bool \<Rightarrow> user \<Rightarrow> tenant_scope \<Rightarrow> notice_db \<Rightarrow> (notice_db, unit) handled" where
  "llm_generate env i force u scope db =
     with_notice i u scope (\<lambda>c. unless_sent c db
       (if nc_body_source c = ''edited'' \<and> \<not> force then raise_http db 409
        else if get_row i_id (nc_source c) (nd_incidents db) = None then raise_http db 409
        else (case ne_llm env of
            None \<Rightarrow> raise_http db 502
          | Some f \<Rightarrow>
              if \<not> content_fits (nc_content (drafted f c)) then raise_http db 500
              else reply (audit_notice (ne_now env) u ''case.llm_generate'' c
                     (upd_notice i (drafted f) (db\<lparr>nd_calls := nd_calls db @ [nc_source c]\<rparr>))) ()))) db"

definition save_body ::
  "uid \<Rightarrow> string option \<Rightarrow> user \<Rightarrow> tenant_scope \<Rightarrow> notice_db \<Rightarrow> (notice_db, unit) handled" where
  "save_body i html u scope db =
     with_notice i u scope (\<lambda>c. unless_sent c db
       (let body = strip (opt_str html)
        in reply (upd_notice i (\<lambda>c. c\<lparr>nc_edited_html := or_null body,
                    nc_body_source := (if body = [] then ''generated'' else ''edited'')\<rparr>) db) ())) db"

section \<open>The bundle\<close>

definition attached :: "uid \<Rightarrow> uid \<Rightarrow> notice_db \<Rightarrow> bool" where
  "attached i inc_id db = list_ex (\<lambda>l. lk_case l = i \<and> lk_incident l = inc_id) (nd_links db)"

definition attach_incident ::
  "instant \<Rightarrow> uid \<Rightarrow> uid option \<Rightarrow> user \<Rightarrow> tenant_scope \<Rightarrow> notice_db \<Rightarrow> (notice_db, unit) handled" where
  "attach_incident now i incident u scope db =
     (case require_analyst u of
        Inl (HTTP c) \<Rightarrow> raise_http db c
      | Inr _ \<Rightarrow>
          (case incident of
             None \<Rightarrow> raise_http db 400
           | Some inc_id \<Rightarrow>
               with_notice i u scope (\<lambda>c. unless_sent c db
                 (case get_row i_id inc_id (nd_incidents db) of
                    None \<Rightarrow> raise_http db 404
                  | Some inc \<Rightarrow>
                      (case require_in_scope (i_tenant_id inc) scope of
                         Inl (HTTP e) \<Rightarrow> raise_http db e
                       | Inr _ \<Rightarrow>
                           if i_tenant_id inc \<noteq> nc_tenant c then raise_http db 409
                           else if attached i inc_id db then raise_http db 409
                           else reply (audit_notice now u ''case.attach_incident'' c
                                  (db\<lparr>nd_links := nd_links db @ [\<lparr>lk_case = i, lk_incident = inc_id, lk_at = now,
                                     lk_by = u_id u\<rparr>]\<rparr>)) ()))) db))"

definition detach_incident ::
  "instant \<Rightarrow> uid \<Rightarrow> uid \<Rightarrow> user \<Rightarrow> tenant_scope \<Rightarrow> notice_db \<Rightarrow> (notice_db, unit) handled" where
  "detach_incident now i inc_id u scope db =
     with_notice i u scope (\<lambda>c. unless_sent c db
       (if inc_id = nc_source c then raise_http db 409
        else if \<not> attached i inc_id db then raise_http db 404
        else reply (audit_notice now u ''case.detach_incident'' c
               (db\<lparr>nd_links := filter (\<lambda>l. \<not> (lk_case l = i \<and> lk_incident l = inc_id)) (nd_links db)\<rparr>)) ())) db"

section \<open>Sending\<close>

definition notification_subject :: "notice \<Rightarrow> string option \<Rightarrow> string" where
  "notification_subject c tenant_name =
     (let use_case = (if truthy_str (ct_attack (nc_content c)) then ct_attack (nc_content c) else ct_title (nc_content c));
          s = join '' - '' (filter (\<lambda>p. p \<noteq> []) [nc_number c, opt_str tenant_name, opt_str use_case])
      in if s = [] then ''Security notification '' @ nc_number c else s)"

definition cc_addresses :: "string option \<Rightarrow> string list" where
  "cc_addresses cc = filter (\<lambda>a. a \<noteq> []) (map strip (split_on (CHR '','') (opt_str cc)))"

definition bundle_of :: "uid \<Rightarrow> notice_db \<Rightarrow> incident list" where
  "bundle_of i db =
     List.map_filter (\<lambda>l. get_row i_id (lk_incident l) (nd_incidents db))
       (sort_key lk_at (filter (\<lambda>l. lk_case l = i) (nd_links db)))"

definition render_case :: "site \<Rightarrow> instant \<Rightarrow> notice \<Rightarrow> incident \<Rightarrow> string option \<Rightarrow> notice_db \<Rightarrow> string" where
  "render_case si now c inc tenant_name db =
     si_render si now (nc_number c) (nc_content c) inc tenant_name (bundle_of (nc_id c) db)"

definition mail_body :: "site \<Rightarrow> instant \<Rightarrow> notice \<Rightarrow> incident \<Rightarrow> string option \<Rightarrow> notice_db \<Rightarrow> string" where
  "mail_body si now c inc tenant_name db =
     (if nc_body_source c = ''edited'' \<and> truthy_str (nc_edited_html c)
      then si_sanitize si (opt_str (nc_edited_html c))
      else render_case si now c inc tenant_name db)"

definition sent_notice :: "instant \<Rightarrow> user \<Rightarrow> string \<Rightarrow> string list \<Rightarrow> string \<Rightarrow> notice \<Rightarrow> notice" where
  "sent_notice now u to cc subject c =
     c\<lparr>nc_status := Sent, nc_sent_at := Some now, nc_sent_by := Some (u_id u), nc_sent_to := Some to,
       nc_sent_cc := or_null (join '', '' cc), nc_sent_subject := Some subject\<rparr>"

text \<open>The mail is out once the transport returns; a snapshot that does not fit its column then fails the
  transaction behind it.\<close>

definition mail_for ::
  "site \<Rightarrow> instant \<Rightarrow> string option \<Rightarrow> notice \<Rightarrow> tenant \<Rightarrow> incident \<Rightarrow> notice_db \<Rightarrow> mail" where
  "mail_for si now override c t inc db =
     (let custom = strip (opt_str override)
      in \<lparr>ml_case = nc_id c, ml_to = strip (opt_str (t_email t)), ml_cc = cc_addresses (t_email_cc t),
          ml_subject = (if custom = [] then notification_subject c (Some (t_name t)) else custom),
          ml_html = mail_body si now c inc (Some (t_name t)) db\<rparr>)"

definition deliver ::
  "site \<Rightarrow> notice_env \<Rightarrow> string option \<Rightarrow> user \<Rightarrow> notice \<Rightarrow> tenant \<Rightarrow> incident \<Rightarrow> notice_db \<Rightarrow> (notice_db, unit) handled" where
  "deliver si env override u c t inc db =
     (let to = opt_str (t_email t);
          m = mail_for si (ne_now env) override c t inc db
      in if \<not> ne_delivers env \<or> strip to = [] then raise_http db 502
         else
           (let out = db\<lparr>nd_outbox := nd_outbox db @ [m]\<rparr>
            in if \<not> fits 512 (Some to) \<or> \<not> fits 512 (Some (join '', '' (ml_cc m))) then raise_http out 500
               else reply (audit_notice (ne_now env) u ''case.sent'' c
                      (upd_notice (nc_id c) (sent_notice (ne_now env) u to (ml_cc m) (ml_subject m)) out)) ()))"

definition send_case ::
  "site \<Rightarrow> notice_env \<Rightarrow> uid \<Rightarrow> string option \<Rightarrow> user \<Rightarrow> tenant_scope \<Rightarrow> notice_db \<Rightarrow> (notice_db, unit) handled" where
  "send_case si env i override u scope db =
     (case require_analyst u of
        Inl (HTTP c) \<Rightarrow> raise_http db c
      | Inr _ \<Rightarrow>
          if \<not> si_mail_configured si then raise_http db 503
          else with_notice i u scope (\<lambda>c. unless_sent c db
            (case Option.bind (nc_tenant c) (\<lambda>t. get_row t_id t (nd_tenants db)) of
               None \<Rightarrow> raise_http db 409
             | Some t \<Rightarrow>
                 if \<not> truthy_str (t_email t) then raise_http db 409
                 else (case get_row i_id (nc_source c) (nd_incidents db) of
                     None \<Rightarrow> raise_http db 409
                   | Some inc \<Rightarrow> deliver si env override u c t inc db))) db)"

section \<open>Requests\<close>

datatype notice_op =
    Create "uid option" "string option"
  | Patch_Case uid "case_edit list"
  | Set_Case_Status uid "customer_case_status option"
  | Generate uid bool
  | Save_Body uid "string option"
  | Attach uid "uid option"
  | Detach uid uid
  | Send uid "string option"
  | Elsewhere "incident list" "tenant list"

text \<open>The other components change incidents and tenants; the foreign keys null the tenant of a case whose tenant
  is deleted, cascade to the links of a deleted incident and keep the source incident of a case.\<close>

definition elsewhere :: "incident list \<Rightarrow> tenant list \<Rightarrow> notice_db \<Rightarrow> notice_db" where
  "elsewhere incs ts db =
     (if \<not> list_all (\<lambda>c. nc_source c \<in> i_id ` set incs) (nd_cases db) then db
      else db\<lparr>nd_incidents := incs, nd_tenants := ts,
              nd_links := filter (\<lambda>l. lk_incident l \<in> i_id ` set incs) (nd_links db),
              nd_cases := map (\<lambda>c. if list_ex (\<lambda>t. nc_tenant c = Some (t_id t)) ts then c else c\<lparr>nc_tenant := None\<rparr>)
                (nd_cases db)\<rparr>)"

type_synonym notice_request = "notice_env \<times> user \<times> tenant_scope \<times> notice_op"

fun notice_step :: "site \<Rightarrow> notice_request \<Rightarrow> notice_db \<Rightarrow> notice_db" where
  "notice_step si (env, u, scope, Create src loc) db = fst (create_case env src loc u scope db)"
| "notice_step si (env, u, scope, Patch_Case i es) db = fst (patch_case (ne_now env) i es u scope db)"
| "notice_step si (env, u, scope, Set_Case_Status i t) db = fst (set_case_status (ne_now env) i t u scope db)"
| "notice_step si (env, u, scope, Generate i force) db = fst (llm_generate env i force u scope db)"
| "notice_step si (env, u, scope, Save_Body i html) db = fst (save_body i html u scope db)"
| "notice_step si (env, u, scope, Attach i inc) db = fst (attach_incident (ne_now env) i inc u scope db)"
| "notice_step si (env, u, scope, Detach i inc) db = fst (detach_incident (ne_now env) i inc u scope db)"
| "notice_step si (env, u, scope, Send i sub) db = fst (send_case si env i sub u scope db)"
| "notice_step si (env, u, scope, Elsewhere incs ts) db = elsewhere incs ts db"

definition run_notices :: "site \<Rightarrow> notice_request list \<Rightarrow> notice_db \<Rightarrow> notice_db" where
  "run_notices si rs db = fold (notice_step si) rs db"

section \<open>What a sent case stands for\<close>

text \<open>The mail a sent case records: its recipients and subject, and a body made from the texts it still has.\<close>

definition mailed :: "site \<Rightarrow> mail list \<Rightarrow> notice \<Rightarrow> bool" where
  "mailed si ms c \<longleftrightarrow>
     (\<exists>m \<in> set ms. ml_case m = nc_id c \<and> map_option strip (nc_sent_to c) = Some (ml_to m) \<and>
        nc_sent_cc c = or_null (join '', '' (ml_cc m)) \<and> nc_sent_subject c = Some (ml_subject m) \<and>
        (if nc_body_source c = ''edited'' \<and> truthy_str (nc_edited_html c)
         then ml_html m = si_sanitize si (opt_str (nc_edited_html c))
         else \<exists>now inc name bundle. ml_html m = si_render si now (nc_number c) (nc_content c) inc name bundle))"

definition notice_ok :: "site \<Rightarrow> notice_db \<Rightarrow> notice \<Rightarrow> bool" where
  "notice_ok si db c \<longleftrightarrow>
     (if nc_status c = Sent then nc_sent_at c \<noteq> None \<and> mailed si (nd_outbox db) c
      else nc_sent_at c = None \<and> nc_sent_by c = None \<and> nc_sent_to c = None \<and> nc_sent_cc c = None \<and>
           nc_sent_subject c = None) \<and>
     attached (nc_id c) (nc_source c) db"

definition notice_inv :: "site \<Rightarrow> notice_db \<Rightarrow> bool" where
  "notice_inv si db \<longleftrightarrow>
     distinct (map nc_id (nd_cases db)) \<and> (\<forall>c \<in> set (nd_cases db). notice_ok si db c) \<and>
     distinct (map (\<lambda>l. (lk_case l, lk_incident l)) (nd_links db)) \<and>
     (\<forall>l \<in> set (nd_links db). lk_case l \<in> nc_id ` set (nd_cases db))"

text \<open>A mail has a warrant: an analyst or administrator sent it for a case in scope that was not sent, to the
  address of the case's tenant.\<close>

definition mail_warranted :: "notice_request \<Rightarrow> notice_db \<Rightarrow> mail \<Rightarrow> bool" where
  "mail_warranted r db m \<longleftrightarrow>
     (\<exists>env u scope i sub c t. r = (env, u, scope, Send i sub) \<and> require_analyst u = Inr u \<and> get_notice i db = Some c \<and>
        in_scope (nc_tenant c) scope \<and> nc_status c \<noteq> Sent \<and> nc_tenant c = Some (t_id t) \<and>
        t \<in> set (nd_tenants db) \<and> ml_case m = i \<and> ml_to m = strip (opt_str (t_email t)) \<and> ml_to m \<noteq> [] \<and>
        ml_cc m = cc_addresses (t_email_cc t))"

section \<open>Lemmas\<close>

lemma require_analyst_Inr: "require_analyst u = Inr v \<Longrightarrow> v = u"
  by (auto simp: require_analyst_def require_role_def split: if_splits)

lemma with_notice_effect:
  "fst (with_notice i u scope h db) = db \<or>
   (\<exists>c. require_analyst u = Inr u \<and> get_notice i db = Some c \<and> in_scope (nc_tenant c) scope \<and>
      fst (with_notice i u scope h db) = fst (h c))"
  by (auto simp: with_notice_def raise_http_def require_in_scope_def require_analyst_Inr
      split: sum.splits option.splits http_error.splits if_splits dest: require_analyst_Inr)

lemma get_noticeD: "get_notice i db = Some c \<Longrightarrow> c \<in> set (nd_cases db) \<and> nc_id c = i"
  unfolding get_notice_def by (rule get_row_Some)

lemma attached_mono: "set (nd_links db) \<subseteq> set (nd_links db') \<Longrightarrow> attached i j db \<Longrightarrow> attached i j db'"
  by (auto simp: attached_def list_ex_iff)

lemma mailed_mono: "set ms \<subseteq> set ms' \<Longrightarrow> mailed si ms c \<Longrightarrow> mailed si ms' c"
  unfolding mailed_def by blast

lemma notice_ok_mono:
  assumes "notice_ok si db c" "set (nd_outbox db) \<subseteq> set (nd_outbox db')" "attached (nc_id c) (nc_source c) db'"
  shows "notice_ok si db' c"
  using assms mailed_mono[OF assms(2)] by (auto simp: notice_ok_def split: if_splits)

text \<open>An assignment to a case keeps the invariant when the changed case meets it.\<close>

lemma notice_inv_upd:
  assumes inv: "notice_inv si db" and i: "get_notice i db = Some c"
    and f: "\<And>x. nc_id (f x) = nc_id x" "nc_source (f c) = nc_source c"
    and cases: "nd_cases db' = upd_row nc_id i f (nd_cases db)" and links: "nd_links db' = nd_links db"
    and mail: "set (nd_outbox db) \<subseteq> set (nd_outbox db')" and new: "attached i (nc_source c) db' \<Longrightarrow> notice_ok si db' (f c)"
  shows "notice_inv si db'"
proof -
  have c: "c \<in> set (nd_cases db)" "nc_id c = i" using get_noticeD[OF i] by simp_all
  have ok: "x \<in> set (nd_cases db) \<Longrightarrow> notice_ok si db' x" for x
    using inv attached_mono[of db db'] by (intro notice_ok_mono[OF _ mail]) (auto simp: notice_inv_def notice_ok_def links)
  have "attached i (nc_source c) db'"
    using inv c attached_mono[of db db'] by (auto simp: notice_inv_def notice_ok_def links)
  then have n: "notice_ok si db' (f c)" by (rule new)
  have u: "x \<in> set (nd_cases db) \<Longrightarrow> nc_id x = i \<Longrightarrow> x = c" for x
    using i inv get_row_in[of nc_id "nd_cases db" x] by (simp add: get_notice_def notice_inv_def)
  have ids: "map nc_id (nd_cases db') = map nc_id (nd_cases db)" by (simp add: cases f(1))
  then have "nc_id ` set (nd_cases db') = nc_id ` set (nd_cases db)" by (metis set_map)
  moreover have "\<forall>x \<in> set (nd_cases db'). notice_ok si db' x"
    using ok n u by (auto simp: cases set_upd_row)
  ultimately show ?thesis using inv ids by (simp add: notice_inv_def links)
qed

lemma notice_inv_links:
  assumes inv: "notice_inv si db" and "nd_cases db' = nd_cases db" "nd_outbox db' = nd_outbox db"
    and d: "distinct (map (\<lambda>l. (lk_case l, lk_incident l)) (nd_links db'))"
    and l: "\<And>l. l \<in> set (nd_links db') \<Longrightarrow> lk_case l \<in> nc_id ` set (nd_cases db)"
    and a: "\<And>c. c \<in> set (nd_cases db) \<Longrightarrow> attached (nc_id c) (nc_source c) db \<Longrightarrow> attached (nc_id c) (nc_source c) db'"
  shows "notice_inv si db'"
proof -
  have "notice_ok si db' c" if c: "c \<in> set (nd_cases db)" for c
  proof (rule notice_ok_mono)
    show "notice_ok si db c" using inv c by (simp add: notice_inv_def)
    then show "attached (nc_id c) (nc_source c) db'" using a c by (simp add: notice_ok_def)
  qed (simp add: assms(3))
  then show ?thesis using inv d l assms(2) by (simp add: notice_inv_def)
qed

subsection \<open>Every operation keeps the invariant\<close>

lemma audit_notice_simps [simp]:
  "nd_cases (audit_notice now u a c db) = nd_cases db" "nd_links (audit_notice now u a c db) = nd_links db"
  "nd_outbox (audit_notice now u a c db) = nd_outbox db"
  by (simp_all add: audit_notice_def)

lemma upd_notice_simps [simp]:
  "nd_cases (upd_notice i f db) = upd_row nc_id i f (nd_cases db)" "nd_links (upd_notice i f db) = nd_links db"
  "nd_outbox (upd_notice i f db) = nd_outbox db"
  by (simp_all add: upd_notice_def)

lemma fst_reply [simp]: "fst (reply db x) = db" and fst_raise [simp]: "fst (raise_http db n) = db"
  by (simp_all add: reply_def raise_http_def)

lemma unsent_ok: "notice_ok si db c \<Longrightarrow> nc_status c \<noteq> Sent \<Longrightarrow> attached (nc_id c) (nc_source c) db' \<Longrightarrow> notice_ok si db' c"
  by (simp add: notice_ok_def)

lemma inv_ok: "notice_inv si db \<Longrightarrow> get_notice i db = Some c \<Longrightarrow> notice_ok si db c"
  by (auto simp: notice_inv_def dest: get_noticeD)

lemma notice_inv_audit [simp]: "notice_inv si (audit_notice now u a c db) = notice_inv si db"
  by (simp add: notice_inv_def notice_ok_def attached_def)

lemma notice_inv_calls [simp]: "notice_inv si (upd_notice i f (nd_calls_update g db)) = notice_inv si (upd_notice i f db)"
  by (simp add: notice_inv_def notice_ok_def attached_def upd_notice_def)

text \<open>An edit of a case that was not sent.\<close>

lemma notice_inv_edit:
  assumes inv: "notice_inv si db" and i: "get_notice i db = Some c" and s: "nc_status c \<noteq> Sent"
    and f: "\<And>x. nc_id (f x) = nc_id x" "nc_source (f c) = nc_source c" "nc_status (f c) \<noteq> Sent"
      "nc_sent_at (f c) = nc_sent_at c" "nc_sent_by (f c) = nc_sent_by c" "nc_sent_to (f c) = nc_sent_to c"
      "nc_sent_cc (f c) = nc_sent_cc c" "nc_sent_subject (f c) = nc_sent_subject c"
  shows "notice_inv si (upd_notice i f db)"
proof (rule notice_inv_upd[OF inv i f(1,2)])
  assume "attached i (nc_source c) (upd_notice i f db)"
  then show "notice_ok si (upd_notice i f db) (f c)"
    using inv_ok[OF inv i] s f get_noticeD[OF i] by (simp add: notice_ok_def)
qed simp_all

lemma notice_inv_mail:
  assumes inv: "notice_inv si db" and "nd_cases db' = nd_cases db" "nd_links db' = nd_links db"
    "set (nd_outbox db) \<subseteq> set (nd_outbox db')"
  shows "notice_inv si db'"
proof -
  have "notice_ok si db' c" if c: "c \<in> set (nd_cases db)" for c
  proof (rule notice_ok_mono[OF _ assms(4)])
    show "notice_ok si db c" using inv c by (simp add: notice_inv_def)
    then show "attached (nc_id c) (nc_source c) db'" by (simp add: notice_ok_def attached_def assms)
  qed
  with inv assms(2,3) show ?thesis by (simp add: notice_inv_def)
qed

text \<open>What a route on a case does is the row unchanged or the handler on the loaded case.\<close>

lemma with_notice_keeps:
  assumes "P db"
    and "\<And>c. require_analyst u = Inr u \<Longrightarrow> get_notice i db = Some c \<Longrightarrow> in_scope (nc_tenant c) scope \<Longrightarrow> P (fst (h c))"
  shows "P (fst (with_notice i u scope h db))"
  using with_notice_effect[of i u scope h db] assms by (elim disjE exE conjE) simp_all

lemma unless_sent_keeps: "P db \<Longrightarrow> (nc_status c \<noteq> Sent \<Longrightarrow> P (fst h)) \<Longrightarrow> P (fst (unless_sent c db h))"
  by (simp add: unless_sent_def)

lemmas route_keeps_inv = with_notice_keeps[where P = "notice_inv si" for si] unless_sent_keeps[where P = "notice_inv si" for si]

lemma patch_case_inv:
  assumes inv: "notice_inv si db"
  shows "notice_inv si (fst (patch_case now i es u scope db))"
  unfolding patch_case_def
proof (rule route_keeps_inv(1)[OF inv], rule route_keeps_inv(2)[OF inv])
  fix c assume c: "get_notice i db = Some c" "nc_status c \<noteq> Sent"
  then have "notice_inv si (upd_notice i (\<lambda>c. c\<lparr>nc_content := ct\<rparr>) db)" for ct
    by (rule notice_inv_edit[OF inv]) (use c in simp_all)
  with inv show "notice_inv si (fst (case apply_edits es (nc_content c) of
          None \<Rightarrow> raise_http db 500
        | Some ct \<Rightarrow>
            if ct = nc_content c then reply db ()
            else if \<not> content_fits ct then raise_http db 500
            else reply (audit_notice now u ''case.patch'' c (upd_notice i (\<lambda>c. c\<lparr>nc_content := ct\<rparr>) db)) ()))"
    by (simp split: option.split)
qed

lemma llm_generate_inv:
  assumes inv: "notice_inv si db"
  shows "notice_inv si (fst (llm_generate env i force u scope db))"
  unfolding llm_generate_def
proof (rule route_keeps_inv(1)[OF inv], rule route_keeps_inv(2)[OF inv])
  fix c assume c: "get_notice i db = Some c" "nc_status c \<noteq> Sent"
  then have "notice_inv si (upd_notice i (drafted f) db)" for f
    by (rule notice_inv_edit[OF inv]) (use c in \<open>simp_all add: drafted_def Let_def\<close>)
  with inv show "notice_inv si (fst (if nc_body_source c = ''edited'' \<and> \<not> force then raise_http db 409
        else if get_row i_id (nc_source c) (nd_incidents db) = None then raise_http db 409
        else (case ne_llm env of
            None \<Rightarrow> raise_http db 502
          | Some f \<Rightarrow>
              if \<not> content_fits (nc_content (drafted f c)) then raise_http db 500
              else reply (audit_notice (ne_now env) u ''case.llm_generate'' c
                     (upd_notice i (drafted f) (db\<lparr>nd_calls := nd_calls db @ [nc_source c]\<rparr>))) ())))"
    by (simp split: option.split)
qed

lemma save_body_inv:
  assumes inv: "notice_inv si db"
  shows "notice_inv si (fst (save_body i html u scope db))"
  unfolding save_body_def Let_def
proof (rule route_keeps_inv(1)[OF inv], rule route_keeps_inv(2)[OF inv])
  fix c assume c: "get_notice i db = Some c" "nc_status c \<noteq> Sent"
  then have "notice_inv si (upd_notice i (\<lambda>c. c\<lparr>nc_edited_html := a, nc_body_source := b\<rparr>) db)" for a b
    by (rule notice_inv_edit[OF inv]) (use c in simp_all)
  then show "notice_inv si (fst (reply (upd_notice i (\<lambda>c. c\<lparr>nc_edited_html := or_null (strip (opt_str html)),
      nc_body_source := (if strip (opt_str html) = [] then ''generated'' else ''edited'')\<rparr>) db) ()))"
    by simp
qed

lemma set_case_status_inv:
  assumes inv: "notice_inv si db"
  shows "notice_inv si (fst (set_case_status now i t u scope db))"
proof -
  have "notice_inv si (fst (with_notice i u scope (\<lambda>c.
            (let t = the t
             in if t = nc_status c then reply db ()
                else if t \<notin> allowed_transitions (nc_status c) then raise_http db 409
                else reply (audit_notice now u ''case.status'' c
                       (upd_notice i (\<lambda>c. (if t = Draft \<and> nc_status c = Sent then clear_snapshot c else c)\<lparr>nc_status := t\<rparr>)
                         db)) ())) db))" if "t \<noteq> Some Sent" "t \<noteq> None"
  proof (rule with_notice_keeps[where P = "notice_inv si"])
    fix c assume i: "get_notice i db = Some c"
    let ?f = "\<lambda>c. (if the t = Draft \<and> nc_status c = Sent then clear_snapshot c else c)\<lparr>nc_status := the t\<rparr>"
    have ok: "notice_ok si db c" "nc_id c = i" using inv_ok[OF inv i] get_noticeD[OF i] by simp_all
    have "notice_inv si (audit_notice now u ''case.status'' c (upd_notice i ?f db))"
      if "the t \<in> allowed_transitions (nc_status c)"
      unfolding notice_inv_audit
      by (rule notice_inv_upd[OF inv i, where f = ?f])
        (use that ok \<open>t \<noteq> Some Sent\<close> \<open>t \<noteq> None\<close> in \<open>auto simp: notice_ok_def clear_snapshot_def allowed_transitions_def
           split: customer_case_status.splits if_splits\<close>)
    with inv show "notice_inv si (fst (let t = the t
             in if t = nc_status c then reply db ()
                else if t \<notin> allowed_transitions (nc_status c) then raise_http db 409
                else reply (audit_notice now u ''case.status'' c
                       (upd_notice i (\<lambda>c. (if t = Draft \<and> nc_status c = Sent then clear_snapshot c else c)\<lparr>nc_status := t\<rparr>)
                         db)) ()))"
      by (simp add: Let_def)
  qed (rule inv)
  with inv show ?thesis
    by (simp add: set_case_status_def split: sum.splits http_error.splits)
qed

lemma attach_incident_inv:
  assumes inv: "notice_inv si db"
  shows "notice_inv si (fst (attach_incident now i inc u scope db))"
proof -
  have "notice_inv si (fst (with_notice i u scope (\<lambda>c. unless_sent c db
                 (case get_row i_id j (nd_incidents db) of
                    None \<Rightarrow> raise_http db 404
                  | Some inc \<Rightarrow>
                      (case require_in_scope (i_tenant_id inc) scope of
                         Inl (HTTP e) \<Rightarrow> raise_http db e
                       | Inr _ \<Rightarrow>
                           if i_tenant_id inc \<noteq> nc_tenant c then raise_http db 409
                           else if attached i j db then raise_http db 409
                           else reply (audit_notice now u ''case.attach_incident'' c
                                  (db\<lparr>nd_links := nd_links db @ [\<lparr>lk_case = i, lk_incident = j, lk_at = now,
                                     lk_by = u_id u\<rparr>]\<rparr>)) ()))) db))" for j
  proof (rule route_keeps_inv(1)[OF inv], rule route_keeps_inv(2)[OF inv])
    fix c assume i: "get_notice i db = Some c"
    have "notice_inv si (db\<lparr>nd_links := nd_links db @ [\<lparr>lk_case = i, lk_incident = j, lk_at = now, lk_by = u_id u\<rparr>]\<rparr>)"
      if j: "\<not> attached i j db"
    proof (rule notice_inv_links[OF inv])
      show "distinct (map (\<lambda>l. (lk_case l, lk_incident l))
        (nd_links (db\<lparr>nd_links := nd_links db @ [\<lparr>lk_case = i, lk_incident = j, lk_at = now, lk_by = u_id u\<rparr>]\<rparr>)))"
        using inv j by (auto simp: notice_inv_def attached_def list_ex_iff)
      show "l \<in> set (nd_links (db\<lparr>nd_links := nd_links db @ [\<lparr>lk_case = i, lk_incident = j, lk_at = now, lk_by = u_id u\<rparr>]\<rparr>)) \<Longrightarrow>
        lk_case l \<in> nc_id ` set (nd_cases db)" for l
        using inv get_noticeD[OF i] by (auto simp: notice_inv_def)
    qed (simp_all add: attached_def)
    with inv show "notice_inv si (fst (case get_row i_id j (nd_incidents db) of
                    None \<Rightarrow> raise_http db 404
                  | Some inc \<Rightarrow>
                      (case require_in_scope (i_tenant_id inc) scope of
                         Inl (HTTP e) \<Rightarrow> raise_http db e
                       | Inr _ \<Rightarrow>
                           if i_tenant_id inc \<noteq> nc_tenant c then raise_http db 409
                           else if attached i j db then raise_http db 409
                           else reply (audit_notice now u ''case.attach_incident'' c
                                  (db\<lparr>nd_links := nd_links db @ [\<lparr>lk_case = i, lk_incident = j, lk_at = now,
                                     lk_by = u_id u\<rparr>]\<rparr>)) ())))"
      by (simp split: option.split sum.split http_error.split)
  qed
  with inv show ?thesis
    by (simp add: attach_incident_def split: sum.split http_error.split option.split)
qed

lemma detach_incident_inv:
  assumes inv: "notice_inv si db"
  shows "notice_inv si (fst (detach_incident now i j u scope db))"
  unfolding detach_incident_def
proof (rule route_keeps_inv(1)[OF inv], rule route_keeps_inv(2)[OF inv])
  fix c assume i: "get_notice i db = Some c"
  let ?db = "db\<lparr>nd_links := filter (\<lambda>l. \<not> (lk_case l = i \<and> lk_incident l = j)) (nd_links db)\<rparr>"
  have "notice_inv si ?db" if j: "j \<noteq> nc_source c"
  proof (rule notice_inv_links[OF inv])
    fix x assume x: "x \<in> set (nd_cases db)" "attached (nc_id x) (nc_source x) db"
    have "nc_id x = i \<Longrightarrow> x = c"
      using i inv x(1) get_row_in[of nc_id "nd_cases db" x] by (simp add: get_notice_def notice_inv_def)
    with x(2) j show "attached (nc_id x) (nc_source x) ?db"
      by (auto simp: attached_def list_ex_iff)
  qed (use inv in \<open>auto simp: notice_inv_def distinct_map_filter\<close>)
  with inv show "notice_inv si (fst (if j = nc_source c then raise_http db 409
        else if \<not> attached i j db then raise_http db 404
        else reply (audit_notice now u ''case.detach_incident'' c ?db) ()))"
    by simp
qed

lemma create_case_inv:
  assumes inv: "notice_inv si db"
  shows "notice_inv si (fst (create_case env src loc u scope db))"
proof -
  have "notice_inv si (db\<lparr>nd_cases := nd_cases db @ [c],
      nd_links := nd_links db @ [\<lparr>lk_case = nc_id c, lk_incident = nc_source c, lk_at = t, lk_by = b\<rparr>]\<rparr>)"
    if c: "nc_id c \<notin> nc_id ` set (nd_cases db)" "c = new_notice env ts loc inc" for c ts inc t b
  proof -
    let ?db = "db\<lparr>nd_cases := nd_cases db @ [c],
      nd_links := nd_links db @ [\<lparr>lk_case = nc_id c, lk_incident = nc_source c, lk_at = t, lk_by = b\<rparr>]\<rparr>"
    have "notice_ok si ?db x" if "x \<in> set (nd_cases db)" for x
    proof (rule notice_ok_mono)
      show "notice_ok si db x" using inv that by (simp add: notice_inv_def)
      then show "attached (nc_id x) (nc_source x) ?db" by (simp add: notice_ok_def attached_def)
    qed simp
    moreover have "notice_ok si ?db c" by (simp add: c(2) new_notice_def notice_ok_def attached_def)
    moreover have "distinct (map (\<lambda>l. (lk_case l, lk_incident l)) (nd_links ?db))"
      using inv c(1) by (auto simp: notice_inv_def)
    ultimately show ?thesis using inv c(1) by (auto simp: notice_inv_def)
  qed
  note new = this[OF _ refl, unfolded new_notice_def notice.simps]
  from inv show ?thesis
    by (auto simp: create_case_def Let_def new_notice_def dest: get_row_Some intro!: new
        split: sum.split http_error.split option.split)
qed

lemma mail_for_simps [simp]:
  "ml_case (mail_for si now sub c t inc db) = nc_id c"
  "ml_to (mail_for si now sub c t inc db) = strip (opt_str (t_email t))"
  "ml_cc (mail_for si now sub c t inc db) = cc_addresses (t_email_cc t)"
  "ml_html (mail_for si now sub c t inc db) = mail_body si now c inc (Some (t_name t)) db"
  by (simp_all add: mail_for_def Let_def)

lemma sent_notice_keys [simp]:
  "nc_id (sent_notice now u to cc subject c) = nc_id c" "nc_source (sent_notice now u to cc subject c) = nc_source c"
  by (simp_all add: sent_notice_def)

lemma deliver_inv:
  assumes inv: "notice_inv si db" and c: "get_notice i db = Some c"
  shows "notice_inv si (fst (deliver si env sub u c t inc db))"
proof -
  let ?m = "mail_for si (ne_now env) sub c t inc db"
  let ?out = "db\<lparr>nd_outbox := nd_outbox db @ [?m]\<rparr>"
  let ?f = "sent_notice (ne_now env) u (opt_str (t_email t)) (ml_cc ?m) (ml_subject ?m)"
  have out: "notice_inv si ?out" by (rule notice_inv_mail[OF inv]) auto
  have "notice_inv si (upd_notice i ?f ?out)"
  proof (rule notice_inv_upd[OF inv c, where f = ?f])
    show "notice_ok si (upd_notice i ?f ?out) (?f c)" if "attached i (nc_source c) (upd_notice i ?f ?out)"
      using that get_noticeD[OF c]
      by (auto simp: notice_ok_def sent_notice_def mailed_def mail_body_def render_case_def)
  qed auto
  with inv out get_noticeD[OF c] show ?thesis by (simp add: deliver_def Let_def del: mail_for_simps)
qed

lemma send_case_keeps:
  assumes db: "P db"
    and sent: "\<And>c t inc. require_analyst u = Inr u \<Longrightarrow> get_notice i db = Some c \<Longrightarrow> in_scope (nc_tenant c) scope \<Longrightarrow>
      nc_status c \<noteq> Sent \<Longrightarrow> nc_tenant c = Some (t_id t) \<Longrightarrow> t \<in> set (nd_tenants db) \<Longrightarrow>
      P (fst (deliver si env sub u c t inc db))"
  shows "P (fst (send_case si env i sub u scope db))"
proof -
  have "P (fst (with_notice i u scope (\<lambda>c. unless_sent c db
            (case Option.bind (nc_tenant c) (\<lambda>t. get_row t_id t (nd_tenants db)) of
               None \<Rightarrow> raise_http db 409
             | Some t \<Rightarrow>
                 if \<not> truthy_str (t_email t) then raise_http db 409
                 else (case get_row i_id (nc_source c) (nd_incidents db) of
                     None \<Rightarrow> raise_http db 409
                   | Some inc \<Rightarrow> deliver si env sub u c t inc db))) db))"
  proof (rule with_notice_keeps[where P = P, OF db], rule unless_sent_keeps[where P = P, OF db])
    fix c assume c: "require_analyst u = Inr u" "get_notice i db = Some c" "in_scope (nc_tenant c) scope" "nc_status c \<noteq> Sent"
    have "P (fst (deliver si env sub u c t inc db))" if "nc_tenant c = Some k" "get_row t_id k (nd_tenants db) = Some t" for k t inc
      using sent[OF c] get_row_Some[OF that(2)] that(1) by simp
    with db show "P (fst (case Option.bind (nc_tenant c) (\<lambda>t. get_row t_id t (nd_tenants db)) of
               None \<Rightarrow> raise_http db 409
             | Some t \<Rightarrow>
                 if \<not> truthy_str (t_email t) then raise_http db 409
                 else (case get_row i_id (nc_source c) (nd_incidents db) of
                     None \<Rightarrow> raise_http db 409
                   | Some inc \<Rightarrow> deliver si env sub u c t inc db)))"
      by (cases "nc_tenant c") (simp_all split: option.split)
  qed
  with db show ?thesis by (simp add: send_case_def split: sum.split http_error.split)
qed

lemma elsewhere_inv:
  assumes inv: "notice_inv si db"
  shows "notice_inv si (elsewhere incs ts db)"
proof (cases "list_all (\<lambda>c. nc_source c \<in> i_id ` set incs) (nd_cases db)")
  case True
  let ?g = "\<lambda>c. if list_ex (\<lambda>t. nc_tenant c = Some (t_id t)) ts then c else c\<lparr>nc_tenant := None\<rparr>"
  have ok: "notice_ok si (elsewhere incs ts db) (?g c)" if c: "c \<in> set (nd_cases db)" for c
  proof -
    have "notice_ok si db c" using inv c by (simp add: notice_inv_def)
    moreover have "nc_source c \<in> i_id ` set incs" using True c by (simp add: list_all_iff)
    moreover have "mailed si ms (c\<lparr>nc_tenant := None\<rparr>) = mailed si ms c" for ms by (simp add: mailed_def)
    ultimately show ?thesis
      using True by (auto simp: notice_ok_def elsewhere_def attached_def list_ex_iff)
  qed
  have ids: "map nc_id (nd_cases (elsewhere incs ts db)) = map nc_id (nd_cases db)"
    using True by (simp add: elsewhere_def)
  then have "nc_id ` set (nd_cases (elsewhere incs ts db)) = nc_id ` set (nd_cases db)" by (metis set_map)
  moreover have "\<forall>c \<in> set (nd_cases (elsewhere incs ts db)). notice_ok si (elsewhere incs ts db) c"
  proof -
    have "nd_cases (elsewhere incs ts db) = map ?g (nd_cases db)" using True by (simp add: elsewhere_def)
    then have "set (nd_cases (elsewhere incs ts db)) = ?g ` set (nd_cases db)" by (simp only: set_map)
    then show ?thesis by (simp only: ball_simps) (intro ballI ok)
  qed
  moreover have "nd_links (elsewhere incs ts db) = filter (\<lambda>l. lk_incident l \<in> i_id ` set incs) (nd_links db)"
    using True by (simp add: elsewhere_def)
  ultimately show ?thesis using inv ids by (auto simp: notice_inv_def distinct_map_filter)
qed (use inv in \<open>simp add: elsewhere_def\<close>)

lemma notice_step_inv: "notice_inv si db \<Longrightarrow> notice_inv si (notice_step si r db)"
  by (induction si r db rule: notice_step.induct)
    (simp_all add: create_case_inv patch_case_inv set_case_status_inv llm_generate_inv save_body_inv attach_incident_inv
      detach_incident_inv send_case_keeps[where P = "notice_inv si" for si] deliver_inv elsewhere_inv)

subsection \<open>Where mail comes from\<close>

lemma outbox_with_notice:
  "(\<And>c. nd_outbox (fst (h c)) = nd_outbox db) \<Longrightarrow> nd_outbox (fst (with_notice i u scope h db)) = nd_outbox db"
  by (rule with_notice_keeps[where P = "\<lambda>d. nd_outbox d = nd_outbox db"]) auto

lemma outbox_unless_sent: "nd_outbox (fst h) = nd_outbox db \<Longrightarrow> nd_outbox (fst (unless_sent c db h)) = nd_outbox db"
  by (simp add: unless_sent_def)

lemma deliver_mail:
  "nd_outbox (fst (deliver si env sub u c t inc db)) = nd_outbox db \<or>
   strip (opt_str (t_email t)) \<noteq> [] \<and>
   nd_outbox (fst (deliver si env sub u c t inc db)) = nd_outbox db @ [mail_for si (ne_now env) sub c t inc db]"
  by (simp add: deliver_def Let_def)

lemma notice_step_mail:
  "nd_outbox (notice_step si r db) = nd_outbox db \<or>
   (\<exists>m. nd_outbox (notice_step si r db) = nd_outbox db @ [m] \<and> mail_warranted r db m)"
proof (induction si r db rule: notice_step.induct)
  case (8 si env u scope i sub db)
  show ?case unfolding notice_step.simps
  proof (rule send_case_keeps)
    fix c t inc
    assume *: "require_analyst u = Inr u" "get_notice i db = Some c" "in_scope (nc_tenant c) scope" "nc_status c \<noteq> Sent"
      "nc_tenant c = Some (t_id t)" "t \<in> set (nd_tenants db)"
    then have "mail_warranted (env, u, scope, Send i sub) db (mail_for si (ne_now env) sub c t inc db)"
      if "strip (opt_str (t_email t)) \<noteq> []"
      using that get_noticeD[OF *(2)] by (auto simp: mail_warranted_def)
    with deliver_mail[of si env sub u c t inc db]
    show "nd_outbox (fst (deliver si env sub u c t inc db)) = nd_outbox db \<or>
      (\<exists>m. nd_outbox (fst (deliver si env sub u c t inc db)) = nd_outbox db @ [m] \<and>
         mail_warranted (env, u, scope, Send i sub) db m)"
      by blast
  qed simp
qed (auto simp: create_case_def patch_case_def set_case_status_def llm_generate_def save_body_def attach_incident_def
    detach_incident_def elsewhere_def Let_def split: sum.split http_error.split option.split
    intro!: outbox_with_notice outbox_unless_sent)

section \<open>The property\<close>

interpretation notices: append_log "notice_step si" "\<lambda>_. True" "notice_inv si" nd_outbox mail_warranted for si
proof
  fix r db
  show "\<exists>new. nd_outbox (notice_step si r db) = nd_outbox db @ new \<and> (\<forall>m \<in> set new. mail_warranted r db m)"
    using notice_step_mail[of si r db] by (metis append_Nil2 empty_iff list.set(1) set_ConsD)
qed (rule notice_step_inv)

text \<open>C9. Cases and the mail to customers stay accounted for. Whatever sequence of requests runs, with the
  other components changing incidents and tenants in between, case ids stay unique, every case keeps its source
  incident in its bundle and no incident twice, a case that is not sent carries no send stamp, and a sent case has a
  mail in the outbox with the recipients and the subject it records and a body made of the text it still shows. Every
  mail that goes out answers one send request, made by somebody with the analyst's role for a case in their
  scope that had not been sent, and goes to the address of that case's tenant alone, with its copy list.\<close>

theorem customer_mail_is_accounted_for:
  assumes "notice_inv si db"
  shows "notice_inv si (run_notices si rs db) \<and>
    (\<exists>ms. nd_outbox (run_notices si rs db) = nd_outbox db @ ms \<and>
       (\<forall>m \<in> set ms. \<exists>pre r post. rs = pre @ r # post \<and> mail_warranted r (run_notices si pre db) m))"
  using notices.run_inv[OF assms, of rs] notices.accounted_in_order[OF assms, of rs] by (simp add: run_notices_def)

definition example_site :: site where
  "example_site = \<lparr>si_render = (\<lambda>_ n _ _ _ _. n), si_sanitize = id, si_mail_configured = True\<rparr>"

definition example_notice_env :: notice_env where
  "example_notice_env =
     \<lparr>ne_now = 5, ne_new_id = 9, ne_new_number = ''C9'', ne_llm = None, ne_delivers = True\<rparr>"

definition example_notice_db :: notice_db where
  "example_notice_db =
     \<lparr>nd_cases = [], nd_links = [], nd_incidents = [example_incident 1 Awaiting_Review],
      nd_tenants = [(example_tenant 3 Client None)\<lparr>t_email := Some ''a''\<rparr>], nd_calls = [], nd_audit = [], nd_outbox = []\<rparr>"

definition example_notices :: "notice_request list" where
  "example_notices =
     [(example_notice_env, example_user 2 Analyst, None, Create (Some 1) None),
      (example_notice_env, example_user 2 Analyst, None, Send 9 (Some ''s''))]"

lemmas example_notice_defs = example_site_def example_notice_env_def example_notice_db_def example_notices_def
  example_user_def example_tenant_def example_incident_def

lemma example_notices_send: "map ml_to (nd_outbox (run_notices example_site example_notices example_notice_db)) = [''a'']"
  by (simp add: example_notice_defs run_notices_def create_case_def send_case_def deliver_def mail_for_def new_notice_def
      case_locale_def with_notice_def unless_sent_def require_analyst_def require_role_def require_in_scope_def in_scope_def
      get_notice_def upd_notice_def upd_row_def audit_notice_def reply_def raise_http_def content_fits_def fits_def
      truthy_str_def opt_str_def cc_addresses_def strip_def lstrip_def rstrip_def is_space_def char_code_def Let_def)

theorem customer_mail_is_accounted_for_witness:
  "map ml_to (nd_outbox (run_notices example_site example_notices example_notice_db)) = [''a''] \<and>
   (\<exists>pre r post m. example_notices = pre @ r # post \<and>
      mail_warranted r (run_notices example_site pre example_notice_db) m)"
proof -
  have "notice_inv example_site example_notice_db" by (simp add: notice_inv_def example_notice_db_def)
  from customer_mail_is_accounted_for[OF this, of example_notices]
  obtain ms where ms: "nd_outbox (run_notices example_site example_notices example_notice_db) = ms"
    and w: "\<forall>m \<in> set ms. \<exists>pre r post. example_notices = pre @ r # post \<and>
      mail_warranted r (run_notices example_site pre example_notice_db) m"
    by (auto simp: example_notice_db_def)
  from example_notices_send ms obtain m where "m \<in> set ms" by (cases ms) auto
  with w example_notices_send show ?thesis by blast
qed

end
