(* ===== verification/Correlation.thy ===== *)
theory Correlation
  imports Gate Request_System
begin

text \<open>
  Correlation of alerts: the strong-signal test \<open>pipeline/correlation.py\<close>, the cluster store
  \<open>adapters/cluster_store.py\<close> and the cluster view \<open>get_cluster\<close> of \<open>routes/cases.py\<close>. Incidents of one
  tenant that share a strong entity within a time window are put in one cluster; clusters that meet are merged.

  The abstract specification is a partition: \<open>cluster_of\<close> gives the block of an incident, and a correlation fuses
  the blocks it touches. The advisory lock makes correlations of one tenant run one after the other, so each is one
  step on the store. Where the order of rows is left to the database, it is that of the tables.
\<close>

section \<open>The tables\<close>

record entity_row =
  en_id :: uid
  en_type :: string
  en_type_id :: "int option"     \<comment> \<open>\<open>attributes.type_id\<close>\<close>
  en_name :: string

record entity_link =
  el_incident :: uid
  el_entity :: uid
  el_role :: string

record cluster =
  cl_id :: uid
  cl_tenant :: "uid option"
  cl_seed :: "uid option"
  cl_title :: "string option"
  cl_count :: nat

record member =
  mb_cluster :: uid
  mb_incident :: uid
  mb_shared :: "uid option"

record corr_db =
  co_incidents :: "incident list"
  co_entities :: "entity_row list"
  co_links :: "entity_link list"
  co_clusters :: "cluster list"
  co_members :: "member list"

record corr_settings =
  window_hours :: int
  fanout_cap :: nat
  min_shared :: nat

section \<open>Strong signals\<close>

definition strong_entity_types :: "string set" where
  "strong_entity_types = {''file'', ''user'', ''device''}"

definition strong_observable_type_ids :: "int set" where
  "strong_observable_type_ids = {4, 5, 6, 8, 10}"

definition is_strong_entity :: "string \<Rightarrow> int option \<Rightarrow> bool" where
  "is_strong_entity ty type_id =
     (if ty \<in> strong_entity_types then True
      else if ty = ''observable'' then (case type_id of None \<Rightarrow> False | Some k \<Rightarrow> k \<in> strong_observable_type_ids)
      else False)"

text \<open>The incidents the guards count: of one tenant (two nulls count as the same), not archived.\<close>

definition same_tenant_live :: "corr_db \<Rightarrow> incident \<Rightarrow> uid \<Rightarrow> bool" where
  "same_tenant_live db inc i =
     (case get_row i_id i (co_incidents db) of
        None \<Rightarrow> False
      | Some r \<Rightarrow> i_deleted_at r = None \<and> i_tenant_id r = i_tenant_id inc)"

definition fanout :: "corr_db \<Rightarrow> incident \<Rightarrow> uid \<Rightarrow> nat" where
  "fanout db inc e =
     length (remdups (map el_incident
       (filter (\<lambda>l. el_entity l = e \<and> same_tenant_live db inc (el_incident l)) (co_links db))))"

fun keep_strong :: "corr_db \<Rightarrow> incident \<Rightarrow> nat \<Rightarrow> uid list \<Rightarrow> entity_row list \<Rightarrow> uid list" where
  "keep_strong db inc cap seen [] = []"
| "keep_strong db inc cap seen (e # es) =
     (if en_id e \<in> set seen then keep_strong db inc cap seen es
      else if \<not> is_strong_entity (en_type e) (en_type_id e) then keep_strong db inc cap (en_id e # seen) es
      else if cap < fanout db inc (en_id e) then keep_strong db inc cap (en_id e # seen) es
      else en_id e # keep_strong db inc cap (en_id e # seen) es)"

definition strong_entity_ids :: "corr_db \<Rightarrow> incident \<Rightarrow> nat \<Rightarrow> uid list" where
  "strong_entity_ids db inc cap =
     keep_strong db inc cap []
       (List.map_filter (\<lambda>l. get_row en_id (el_entity l) (co_entities db))
         (filter (\<lambda>l. el_incident l = i_id inc) (co_links db)))"

section \<open>Siblings\<close>

definition hour :: int where
  "hour = 3600000000"

definition shared_count :: "corr_db \<Rightarrow> uid list \<Rightarrow> uid \<Rightarrow> nat" where
  "shared_count db es i =
     length (remdups (map el_entity (filter (\<lambda>l. el_incident l = i \<and> el_entity l \<in> set es) (co_links db))))"

definition in_window :: "corr_db \<Rightarrow> instant \<Rightarrow> uid \<Rightarrow> bool" where
  "in_window db start i =
     (case get_row i_id i (co_incidents db) of None \<Rightarrow> False | Some r \<Rightarrow> start \<le> i_created_at r)"

definition sibling_incident_ids :: "corr_db \<Rightarrow> corr_settings \<Rightarrow> instant \<Rightarrow> incident \<Rightarrow> uid list \<Rightarrow> uid list" where
  "sibling_incident_ids db cs now inc es =
     filter (\<lambda>i. min_shared cs \<le> shared_count db es i)
       (remdups (map el_incident
         (filter (\<lambda>l. el_entity l \<in> set es \<and> el_incident l \<noteq> i_id inc \<and> same_tenant_live db inc (el_incident l) \<and>
                    in_window db (now - window_hours cs * hour) (el_incident l)) (co_links db))))"

definition shared_entity_for :: "corr_db \<Rightarrow> uid list \<Rightarrow> uid \<Rightarrow> uid option" where
  "shared_entity_for db es i =
     map_option el_entity (find (\<lambda>l. el_incident l = i \<and> el_entity l \<in> set es) (co_links db))"

section \<open>The cluster rows\<close>

definition oldest_incident :: "corr_db \<Rightarrow> uid list \<Rightarrow> incident option" where
  "oldest_incident db ids =
     (case sort_key i_created_at (filter (\<lambda>r. i_id r \<in> set ids) (co_incidents db)) of [] \<Rightarrow> None | r # _ \<Rightarrow> Some r)"

text \<open>The insert of a member does nothing where a unique constraint is met: an incident is in one cluster at most.\<close>

definition insert_member :: "uid \<Rightarrow> uid \<Rightarrow> uid option \<Rightarrow> member list \<Rightarrow> member list" where
  "insert_member c i shared ms =
     (if list_ex (\<lambda>m. mb_incident m = i) ms then ms
      else ms @ [\<lparr>mb_cluster = c, mb_incident = i, mb_shared = shared\<rparr>])"

definition create_cluster :: "uid \<Rightarrow> incident \<Rightarrow> uid list \<Rightarrow> corr_db \<Rightarrow> corr_db" where
  "create_cluster new_id inc ids db =
     (let seed = (case oldest_incident db ids of None \<Rightarrow> inc | Some s \<Rightarrow> s);
          title = (if i_title seed = [] then None else Some (take 512 (i_title seed)))
      in db\<lparr>co_clusters := co_clusters db @ [\<lparr>cl_id = new_id, cl_tenant = i_tenant_id inc, cl_seed = Some (i_id seed),
             cl_title = title, cl_count = length ids\<rparr>]\<rparr>)"

text \<open>The rank of a cluster in a merge: one with a known seed before one without, then the older seed, then the id.\<close>

definition merge_rank :: "corr_db \<Rightarrow> cluster \<Rightarrow> bool \<times> instant \<times> uid" where
  "merge_rank db c =
     (case Option.bind (cl_seed c) (\<lambda>s. get_row i_id s (co_incidents db)) of
        None \<Rightarrow> (True, 0, cl_id c)
      | Some s \<Rightarrow> (False, i_created_at s, cl_id c))"

text \<open>Members of a losing cluster move to the winner; one whose incident the winner holds already is deleted.\<close>

definition reparent :: "uid \<Rightarrow> uid \<Rightarrow> member list \<Rightarrow> member list" where
  "reparent w l ms =
     List.map_filter (\<lambda>m.
       if mb_cluster m \<noteq> l then Some m
       else if list_ex (\<lambda>m'. mb_cluster m' = w \<and> mb_incident m' = mb_incident m) ms then None
       else Some (m\<lparr>mb_cluster := w\<rparr>)) ms"

definition merge_winner :: "corr_db \<Rightarrow> uid list \<Rightarrow> uid" where
  "merge_winner db cids =
     cl_id (arg_min_list (merge_rank db) (filter (\<lambda>c. cl_id c \<in> set cids) (co_clusters db)))"

definition merge_clusters :: "uid list \<Rightarrow> corr_db \<Rightarrow> corr_db" where
  "merge_clusters cids db =
     (let w = merge_winner db cids;
          losers = filter (\<lambda>c. c \<noteq> w) (map cl_id (filter (\<lambda>c. cl_id c \<in> set cids) (co_clusters db)))
      in db\<lparr>co_members := filter (\<lambda>m. mb_cluster m \<notin> set losers) (fold (reparent w) losers (co_members db)),
            co_clusters := filter (\<lambda>c. cl_id c \<notin> set losers) (co_clusters db)\<rparr>)"

definition members_of :: "corr_db \<Rightarrow> uid \<Rightarrow> uid list" where
  "members_of db c = map mb_incident (filter (\<lambda>m. mb_cluster m = c) (co_members db))"

definition refreshed :: "nat \<Rightarrow> incident option \<Rightarrow> cluster \<Rightarrow> cluster" where
  "refreshed n seed c =
     (case seed of
        None \<Rightarrow> c\<lparr>cl_count := n\<rparr>
      | Some s \<Rightarrow> c\<lparr>cl_count := n, cl_seed := Some (i_id s),
          cl_title := (if i_title s = [] then cl_title c else Some (take 512 (i_title s)))\<rparr>)"

definition reconcile_cluster :: "uid \<Rightarrow> corr_db \<Rightarrow> corr_db" where
  "reconcile_cluster c db =
     (let ids = members_of db c
      in db\<lparr>co_clusters := upd_row cl_id c (refreshed (length ids) (oldest_incident db ids)) (co_clusters db)\<rparr>)"

text \<open>The cluster of a group of incidents: a new one, the one they have, or the winner of a merge. \<open>new_id\<close> is the
  identifier a new cluster gets.\<close>

definition pick_cluster :: "uid \<Rightarrow> incident \<Rightarrow> uid list \<Rightarrow> corr_db \<Rightarrow> uid \<times> corr_db" where
  "pick_cluster new_id inc ids db =
     (let cids = remdups (map mb_cluster (filter (\<lambda>m. mb_incident m \<in> set ids) (co_members db)))
      in case cids of
           [] \<Rightarrow> (new_id, create_cluster new_id inc ids db)
         | [c] \<Rightarrow> (c, db)
         | _ \<Rightarrow> (merge_winner db cids, merge_clusters cids db))"

text \<open>The strong entities and the siblings are read before the advisory lock of the tenant is taken, in the state
  \<open>seen\<close>; what follows works on the state \<open>db\<close> that the lock finds. The insert of a member whose incident is gone by
  then fails in a savepoint of its own.\<close>

definition correlate_locked :: "uid \<Rightarrow> incident \<Rightarrow> uid list \<Rightarrow> uid list \<Rightarrow> corr_db \<Rightarrow> corr_db \<times> (uid \<times> nat) option" where
  "correlate_locked new_id inc es siblings db =
     (let ids = i_id inc # siblings;
          (c, db1) = pick_cluster new_id inc ids db;
          present = filter (\<lambda>i. get_row i_id i (co_incidents db) \<noteq> None) ids;
          db2 = db1\<lparr>co_members := fold (\<lambda>i. insert_member c i (shared_entity_for db es i)) present (co_members db1)\<rparr>
      in (reconcile_cluster c db2, Some (c, length (members_of db2 c))))"

definition correlate_incident ::
  "corr_settings \<Rightarrow> instant \<Rightarrow> uid \<Rightarrow> incident \<Rightarrow> corr_db \<Rightarrow> corr_db \<Rightarrow> corr_db \<times> (uid \<times> nat) option" where
  "correlate_incident cs now new_id inc seen db =
     (let es = strong_entity_ids seen inc (fanout_cap cs)
      in if es = [] then (db, None)
         else
           (let siblings = sibling_incident_ids seen cs now inc es
            in if siblings = [] then (db, None) else correlate_locked new_id inc es siblings db))"

section \<open>The view of a cluster\<close>

record cluster_member =
  cm_incident :: incident
  cm_is_seed :: bool
  cm_shared :: "string option"

record cluster_view =
  cv_cluster :: cluster
  cv_members :: "cluster_member list"
  cv_count :: nat

definition get_cluster :: "uid \<Rightarrow> tenant_scope \<Rightarrow> corr_db \<Rightarrow> http_error + cluster_view option" where
  "get_cluster i scope db =
     (case get_row i_id i (co_incidents db) of
        None \<Rightarrow> Inl (HTTP 404)
      | Some inc \<Rightarrow>
          (case require_in_scope (i_tenant_id inc) scope of
             Inl e \<Rightarrow> Inl e
           | Inr _ \<Rightarrow>
               (case find (\<lambda>m. mb_incident m = i) (co_members db) of
                  None \<Rightarrow> Inr None
                | Some m0 \<Rightarrow>
                    (case get_row cl_id (mb_cluster m0) (co_clusters db) of
                       None \<Rightarrow> Inr None
                     | Some c \<Rightarrow>
                         (let rows = List.map_filter (\<lambda>m.
                                       map_option (\<lambda>r. (r, mb_shared m)) (get_row i_id (mb_incident m) (co_incidents db)))
                                       (filter (\<lambda>m. mb_cluster m = cl_id c) (co_members db));
                              shown = rev (sort_key (\<lambda>(r, _). i_created_at r) (filter (\<lambda>(r, _). i_deleted_at r = None) rows));
                              ms = map (\<lambda>(r, s). \<lparr>cm_incident = r, cm_is_seed = (cl_seed c = Some (i_id r)),
                                       cm_shared = Option.bind s (\<lambda>e. map_option en_name (get_row en_id e (co_entities db)))\<rparr>) shown
                          in Inr (Some \<lparr>cv_cluster = c, cv_members = ms, cv_count = length ms\<rparr>))))))"

section \<open>Requests\<close>

text \<open>What happens to the store: a correlation by the pipeline, which read an earlier state \<open>seen\<close> and whose savepoint
  is rolled back when the new identifier is taken; writes of the other components to incidents, links and entities,
  with the cascades of the foreign keys; the deletion of a tenant; the move of an incident to another tenant by a patch
  of its customer. Between the reads of a correlation and its lock the incidents it found stay in their tenant.\<close>

datatype corr_op =
    Correlate corr_settings instant uid uid corr_db
  | Rows "incident list" "entity_link list" "entity_row list"
  | Drop_Tenant uid
  | Move uid "uid option"

definition still_there :: "corr_settings \<Rightarrow> instant \<Rightarrow> incident \<Rightarrow> corr_db \<Rightarrow> corr_db \<Rightarrow> bool" where
  "still_there cs now inc seen db \<longleftrightarrow>
     list_all (\<lambda>i. case get_row i_id i (co_incidents db) of None \<Rightarrow> False | Some r \<Rightarrow> i_tenant_id r = i_tenant_id inc)
       (i_id inc # sibling_incident_ids seen cs now inc (strong_entity_ids seen inc (fanout_cap cs)))"

definition keeps_tenants :: "corr_db \<Rightarrow> incident list \<Rightarrow> bool" where
  "keeps_tenants db incs \<longleftrightarrow> distinct (map i_id incs) \<and>
     list_all (\<lambda>r. case get_row i_id (i_id r) (co_incidents db) of None \<Rightarrow> True | Some r0 \<Rightarrow> i_tenant_id r = i_tenant_id r0) incs"

definition null_seed :: "incident list \<Rightarrow> cluster \<Rightarrow> cluster" where
  "null_seed incs c = (if list_ex (\<lambda>r. cl_seed c = Some (i_id r)) incs then c else c\<lparr>cl_seed := None\<rparr>)"

definition orphan_incident :: "uid \<Rightarrow> incident \<Rightarrow> incident" where
  "orphan_incident t r = (if i_tenant_id r = Some t then r\<lparr>i_tenant_id := None\<rparr> else r)"

definition orphan_cluster :: "uid \<Rightarrow> cluster \<Rightarrow> cluster" where
  "orphan_cluster t c = (if cl_tenant c = Some t then c\<lparr>cl_tenant := None\<rparr> else c)"

fun corr_step :: "corr_op \<Rightarrow> corr_db \<Rightarrow> corr_db" where
  "corr_step (Correlate cs now new_id i seen) db =
     (case get_row i_id i (co_incidents seen) of
        None \<Rightarrow> db
      | Some inc \<Rightarrow>
          if new_id \<in> cl_id ` set (co_clusters db) \<or> \<not> still_there cs now inc seen db then db
          else fst (correlate_incident cs now new_id inc seen db))"
| "corr_step (Rows incs links ents) db =
     (if \<not> keeps_tenants db incs then db
      else db\<lparr>co_incidents := incs, co_links := links, co_entities := ents,
              co_members := filter (\<lambda>m. mb_incident m \<in> i_id ` set incs) (co_members db),
              co_clusters := map (null_seed incs) (co_clusters db)\<rparr>)"
| "corr_step (Drop_Tenant t) db =
     db\<lparr>co_incidents := map (orphan_incident t) (co_incidents db), co_clusters := map (orphan_cluster t) (co_clusters db)\<rparr>"
| "corr_step (Move i t) db =
     db\<lparr>co_incidents := upd_row i_id i (\<lambda>r. r\<lparr>i_tenant_id := t\<rparr>) (co_incidents db)\<rparr>"

definition run_corr :: "corr_op list \<Rightarrow> corr_db \<Rightarrow> corr_db" where
  "run_corr ops db = fold corr_step ops db"

fun moves :: "corr_op \<Rightarrow> bool" where
  "moves (Move i t) = True"
| "moves (Correlate cs now new_id i seen) = False"
| "moves (Rows incs links ents) = False"
| "moves (Drop_Tenant t) = False"

section \<open>The abstract specification\<close>

definition block :: "member list \<Rightarrow> uid \<Rightarrow> uid option" where
  "block ms i = map_option mb_cluster (find (\<lambda>m. mb_incident m = i) ms)"

definition cluster_of :: "corr_db \<Rightarrow> uid \<Rightarrow> uid option" where
  "cluster_of db = block (co_members db)"

definition together :: "corr_db \<Rightarrow> uid \<Rightarrow> uid \<Rightarrow> bool" where
  "together db i j \<longleftrightarrow> cluster_of db i \<noteq> None \<and> cluster_of db i = cluster_of db j"

text \<open>What a set of incidents is fused with: itself and the blocks it meets.\<close>

definition fused :: "corr_db \<Rightarrow> uid set \<Rightarrow> uid set" where
  "fused db S = S \<union> {i. \<exists>j \<in> S. together db i j}"

text \<open>The store is sound: ids are unique, an incident is in one cluster at most, every cluster holds incidents of
  its own tenant only.\<close>

definition member_ok :: "corr_db \<Rightarrow> uid \<Rightarrow> uid \<Rightarrow> bool" where
  "member_ok db i c \<longleftrightarrow>
     (case (get_row cl_id c (co_clusters db), get_row i_id i (co_incidents db)) of
        (Some k, Some r) \<Rightarrow> i_tenant_id r = cl_tenant k
      | _ \<Rightarrow> False)"

definition corr_inv :: "corr_db \<Rightarrow> bool" where
  "corr_inv db \<longleftrightarrow>
     distinct (map i_id (co_incidents db)) \<and> distinct (map cl_id (co_clusters db)) \<and>
     distinct (map mb_incident (co_members db)) \<and>
     (\<forall>m \<in> set (co_members db). member_ok db (mb_incident m) (mb_cluster m))"

section \<open>The effect of each step on the partition\<close>

lemma block_Nil [simp]: "block [] i = None"
  by (simp add: block_def)

lemma block_Cons: "block (m # ms) i = (if mb_incident m = i then Some (mb_cluster m) else block ms i)"
  by (simp add: block_def)

lemma block_append: "block (ms @ ms') i = (case block ms i of None \<Rightarrow> block ms' i | Some c \<Rightarrow> Some c)"
  by (induction ms) (simp_all add: block_Cons)

lemma block_None_iff: "block ms i = None \<longleftrightarrow> i \<notin> mb_incident ` set ms"
  by (induction ms) (auto simp: block_Cons)

lemma block_in: "block ms i = Some c \<Longrightarrow> \<exists>m \<in> set ms. mb_incident m = i \<and> mb_cluster m = c"
  by (induction ms) (auto simp: block_Cons split: if_splits)

lemma block_of: "distinct (map mb_incident ms) \<Longrightarrow> m \<in> set ms \<Longrightarrow> block ms (mb_incident m) = Some (mb_cluster m)"
  by (induction ms) (auto simp: block_Cons)

definition moved :: "uid \<Rightarrow> uid set \<Rightarrow> member \<Rightarrow> member" where
  "moved w L m = (if mb_cluster m \<in> L then m\<lparr>mb_cluster := w\<rparr> else m)"

lemma mb_incident_moved [simp]: "mb_incident (moved w L m) = mb_incident m"
  by (simp add: moved_def)

lemma block_moved: "block (map (moved w L) ms) i = map_option (\<lambda>c. if c \<in> L then w else c) (block ms i)"
  by (induction ms) (simp_all add: block_Cons moved_def)

lemma map_filter_total: "(\<And>x. x \<in> set xs \<Longrightarrow> f x = Some (g x)) \<Longrightarrow> List.map_filter f xs = map g xs"
  by (induction xs) (simp_all add: List.map_filter_simps)

lemma reparent_map:
  assumes "distinct (map mb_incident ms)" "l \<noteq> w"
  shows "reparent w l ms = map (\<lambda>m. if mb_cluster m = l then m\<lparr>mb_cluster := w\<rparr> else m) ms"
  unfolding reparent_def
proof (rule map_filter_total)
  fix m assume m: "m \<in> set ms"
  have "m' = m" if "m' \<in> set ms" "mb_incident m' = mb_incident m" for m'
    using assms(1) m that by (auto simp: distinct_map inj_on_def)
  then have "mb_cluster m = l \<Longrightarrow> \<not> list_ex (\<lambda>m'. mb_cluster m' = w \<and> mb_incident m' = mb_incident m) ms"
    using assms(2) by (auto simp: list_ex_iff)
  then show "(if mb_cluster m \<noteq> l then Some m
       else if list_ex (\<lambda>m'. mb_cluster m' = w \<and> mb_incident m' = mb_incident m) ms then None
       else Some (m\<lparr>mb_cluster := w\<rparr>)) = Some (if mb_cluster m = l then m\<lparr>mb_cluster := w\<rparr> else m)"
    by simp
qed

lemma fold_reparent:
  "distinct (map mb_incident ms) \<Longrightarrow> w \<notin> set ls \<Longrightarrow> fold (reparent w) ls ms = map (moved w (set ls)) ms"
proof (induction ls arbitrary: ms)
  case Nil
  show ?case by (simp add: moved_def)
next
  case (Cons l ls)
  have r: "reparent w l ms = map (moved w {l}) ms" using Cons.prems by (simp add: reparent_map moved_def)
  have "distinct (map mb_incident (map (moved w {l}) ms))" using Cons.prems(1) by (simp add: comp_def)
  then have "fold (reparent w) (l # ls) ms = map (moved w (set ls)) (map (moved w {l}) ms)"
    using Cons.IH[of "map (moved w {l}) ms"] Cons.prems(2) by (simp add: r)
  also have "\<dots> = map (moved w (set (l # ls))) ms"
    using Cons.prems(2) by (auto simp: moved_def)
  finally show ?case .
qed

lemma arg_min_list_mem: "xs \<noteq> [] \<Longrightarrow> arg_min_list f xs \<in> set xs"
  by (rule arg_min_list_in)

lemma merge_winner_mem:
  assumes "cids \<noteq> []" "set cids \<subseteq> cl_id ` set (co_clusters db)"
  shows "merge_winner db cids \<in> set cids"
proof -
  from assms obtain k where "k \<in> set (co_clusters db)" "cl_id k \<in> set cids" by (cases cids) auto
  then have "filter (\<lambda>c. cl_id c \<in> set cids) (co_clusters db) \<noteq> []" by (auto simp: filter_empty_conv)
  from arg_min_list_in[OF this, of "merge_rank db"] show ?thesis by (auto simp: merge_winner_def)
qed

lemma merge_members:
  assumes "distinct (map mb_incident (co_members db))" "cids \<noteq> []" "set cids \<subseteq> cl_id ` set (co_clusters db)"
  shows "co_members (merge_clusters cids db) =
    map (moved (merge_winner db cids) (set cids - {merge_winner db cids})) (co_members db)"
proof -
  let ?w = "merge_winner db cids"
  let ?ls = "filter (\<lambda>c. c \<noteq> ?w) (map cl_id (filter (\<lambda>c. cl_id c \<in> set cids) (co_clusters db)))"
  have ls: "set ?ls = set cids - {?w}" using assms(3) by auto
  have "fold (reparent ?w) ?ls (co_members db) = map (moved ?w (set cids - {?w})) (co_members db)"
    using fold_reparent[OF assms(1), of ?w ?ls] ls by simp
  then show ?thesis by (auto simp: merge_clusters_def Let_def ls moved_def intro!: filter_True)
qed

lemma merge_cluster_of:
  assumes "distinct (map mb_incident (co_members db))" "cids \<noteq> []" "set cids \<subseteq> cl_id ` set (co_clusters db)"
  shows "cluster_of (merge_clusters cids db) i =
    (if cluster_of db i \<in> Some ` set cids then Some (merge_winner db cids) else cluster_of db i)"
  using merge_winner_mem[OF assms(2,3)]
  by (cases "block (co_members db) i") (auto simp: cluster_of_def merge_members[OF assms] block_moved)

lemma insert_member_block:
  "block (insert_member c i s ms) j = (if j = i \<and> block ms j = None then Some c else block ms j)"
proof (cases "list_ex (\<lambda>m. mb_incident m = i) ms")
  case True
  then have "block ms i \<noteq> None" by (auto simp: block_None_iff list_ex_iff)
  with True show ?thesis by (auto simp: insert_member_def)
next
  case False
  then have "block ms i = None" by (auto simp: block_None_iff list_ex_iff)
  with False show ?thesis by (auto simp: insert_member_def block_append block_Cons split: option.split)
qed

lemma insert_members_block:
  "block (fold (\<lambda>i. insert_member c i (g i)) ids ms) j =
   (if j \<in> set ids \<and> block ms j = None then Some c else block ms j)"
  by (induction ids arbitrary: ms) (auto simp: insert_member_block)

lemma insert_member_distinct:
  "distinct (map mb_incident ms) \<Longrightarrow> distinct (map mb_incident (insert_member c i s ms))"
  by (auto simp: insert_member_def list_ex_iff)

lemma insert_members_distinct:
  "distinct (map mb_incident ms) \<Longrightarrow> distinct (map mb_incident (fold (\<lambda>i. insert_member c i (g i)) ids ms))"
  by (induction ids arbitrary: ms) (simp_all add: insert_member_distinct)

lemma get_row_filter_key:
  "get_row key i (filter (\<lambda>r. key r \<notin> L) rows) = (if i \<in> L then None else get_row key i rows)"
  by (induction rows) auto

section \<open>Which incidents are correlated\<close>

text \<open>An entity links strongly for an incident when it is a strong signal, is linked to the incident, and is
  shared by no more than \<open>fanout_cap\<close> live incidents of the tenant.\<close>

definition linked :: "corr_db \<Rightarrow> uid \<Rightarrow> uid \<Rightarrow> bool" where
  "linked db i e \<longleftrightarrow> (\<exists>l \<in> set (co_links db). el_incident l = i \<and> el_entity l = e)"

definition strong_link :: "corr_db \<Rightarrow> corr_settings \<Rightarrow> incident \<Rightarrow> uid \<Rightarrow> bool" where
  "strong_link db cs inc e \<longleftrightarrow>
     linked db (i_id inc) e \<and>
     (\<exists>r. get_row en_id e (co_entities db) = Some r \<and> is_strong_entity (en_type r) (en_type_id r)) \<and>
     card {i. linked db i e \<and> same_tenant_live db inc i} \<le> fanout_cap cs"

definition correlated :: "corr_db \<Rightarrow> corr_settings \<Rightarrow> instant \<Rightarrow> incident \<Rightarrow> uid \<Rightarrow> bool" where
  "correlated db cs now inc i \<longleftrightarrow>
     i \<noteq> i_id inc \<and> same_tenant_live db inc i \<and> in_window db (now - window_hours cs * hour) i \<and>
     (\<exists>e. strong_link db cs inc e \<and> linked db i e) \<and>
     min_shared cs \<le> card {e. strong_link db cs inc e \<and> linked db i e}"

lemma fanout_card: "fanout db inc e = card {i. linked db i e \<and> same_tenant_live db inc i}"
proof -
  have "{i. linked db i e \<and> same_tenant_live db inc i} =
    set (map el_incident (filter (\<lambda>l. el_entity l = e \<and> same_tenant_live db inc (el_incident l)) (co_links db)))"
    by (auto simp: linked_def)
  then show ?thesis by (simp only: fanout_def length_remdups_card_conv)
qed

lemma keep_strong_set:
  "(\<And>e e'. e \<in> set rows \<Longrightarrow> e' \<in> set rows \<Longrightarrow> en_id e = en_id e' \<Longrightarrow> e = e') \<Longrightarrow>
   set (keep_strong db inc cap seen rows) =
     {en_id e | e. e \<in> set rows \<and> en_id e \<notin> set seen \<and> is_strong_entity (en_type e) (en_type_id e) \<and>
        fanout db inc (en_id e) \<le> cap}"
proof (induction rows arbitrary: seen)
  case (Cons r rows)
  have ih: "set (keep_strong db inc cap s rows) =
     {en_id e | e. e \<in> set rows \<and> en_id e \<notin> set s \<and> is_strong_entity (en_type e) (en_type_id e) \<and>
        fanout db inc (en_id e) \<le> cap}" for s
    using Cons by simp
  have same: "e \<in> set rows \<Longrightarrow> en_id e = en_id r \<Longrightarrow> e = r" for e
    using Cons.prems[of e r] by simp
  show ?case by (auto simp: ih not_less dest: same)
qed simp

lemma strong_entity_ids_set: "set (strong_entity_ids db inc (fanout_cap cs)) = {e. strong_link db cs inc e}"
proof -
  let ?rows = "List.map_filter (\<lambda>l. get_row en_id (el_entity l) (co_entities db))
         (filter (\<lambda>l. el_incident l = i_id inc) (co_links db))"
  have rows: "set ?rows = {r. \<exists>e. linked db (i_id inc) e \<and> get_row en_id e (co_entities db) = Some r}"
    by (force simp: List.map_filter_def linked_def)
  have "e = e'" if "e \<in> set ?rows" "e' \<in> set ?rows" "en_id e = en_id e'" for e e'
  proof -
    from that(1,2) obtain a b where ab: "get_row en_id a (co_entities db) = Some e" "get_row en_id b (co_entities db) = Some e'"
      unfolding rows by blast
    then have "a = b" using get_row_Some[OF ab(1)] get_row_Some[OF ab(2)] that(3) by simp
    with ab show ?thesis by simp
  qed
  then have "set (strong_entity_ids db inc (fanout_cap cs)) =
    {en_id e | e. e \<in> set ?rows \<and> is_strong_entity (en_type e) (en_type_id e) \<and> fanout db inc (en_id e) \<le> fanout_cap cs}"
    unfolding strong_entity_ids_def by (subst keep_strong_set) auto
  also have "\<dots> = {e. strong_link db cs inc e}"
    unfolding rows by (auto simp: strong_link_def fanout_card dest: get_row_Some)
  finally show ?thesis .
qed

lemma siblings_set:
  "set (sibling_incident_ids db cs now inc (strong_entity_ids db inc (fanout_cap cs))) = {i. correlated db cs now inc i}"
proof -
  have c: "shared_count db (strong_entity_ids db inc (fanout_cap cs)) i = card {e. strong_link db cs inc e \<and> linked db i e}" for i
  proof -
    have "{e. strong_link db cs inc e \<and> linked db i e} =
      set (map el_entity (filter (\<lambda>l. el_incident l = i \<and> strong_link db cs inc (el_entity l)) (co_links db)))"
      by (auto simp: linked_def)
    then show ?thesis by (simp only: shared_count_def length_remdups_card_conv strong_entity_ids_set mem_Collect_eq)
  qed
  show ?thesis
    by (auto simp: sibling_incident_ids_def c strong_entity_ids_set correlated_def linked_def)
qed

lemma no_strong_no_siblings: "strong_entity_ids db inc (fanout_cap cs) = [] \<Longrightarrow> \<not> correlated db cs now inc i"
  using strong_entity_ids_set[of db inc cs] by (auto simp: correlated_def)

section \<open>A correlation fuses blocks\<close>

lemma corr_inv_member:
  assumes "corr_inv db" "cluster_of db i = Some c"
  shows "\<exists>k r. get_row cl_id c (co_clusters db) = Some k \<and> get_row i_id i (co_incidents db) = Some r \<and>
    i_tenant_id r = cl_tenant k"
proof -
  from assms(2) obtain m where "m \<in> set (co_members db)" "mb_incident m = i" "mb_cluster m = c"
    unfolding cluster_of_def by (meson block_in)
  with assms(1) have "member_ok db i c" by (auto simp: corr_inv_def)
  then show ?thesis by (auto simp: member_ok_def split: option.splits)
qed

lemma corr_invI:
  assumes "distinct (map i_id (co_incidents db))" "distinct (map cl_id (co_clusters db))"
    and d: "distinct (map mb_incident (co_members db))"
    and "\<And>i c. cluster_of db i = Some c \<Longrightarrow> member_ok db i c"
  shows "corr_inv db"
  using assms block_of[OF d] by (simp add: corr_inv_def cluster_of_def)

definition touched :: "corr_db \<Rightarrow> uid set \<Rightarrow> uid set" where
  "touched db S = {c. \<exists>i \<in> S. cluster_of db i = Some c}"

lemma fused_touched: "fused db S = S \<union> {i. cluster_of db i \<in> Some ` touched db S}"
  by (auto simp: fused_def together_def touched_def image_iff) metis+

lemma touched_tenant:
  assumes inv: "corr_inv db" and S: "\<And>i. i \<in> S \<Longrightarrow> \<exists>r. get_row i_id i (co_incidents db) = Some r \<and> i_tenant_id r = t"
    and c: "c \<in> touched db S"
  shows "\<exists>k. get_row cl_id c (co_clusters db) = Some k \<and> cl_tenant k = t"
proof -
  from c obtain i where i: "i \<in> S" "cluster_of db i = Some c" by (auto simp: touched_def)
  from corr_inv_member[OF inv i(2)] S[OF i(1)] show ?thesis by auto
qed

lemma cids_set:
  assumes "distinct (map mb_incident (co_members db))"
  shows "set (remdups (map mb_cluster (filter (\<lambda>m. mb_incident m \<in> S) (co_members db)))) = touched db S"
  using block_of[OF assms] by (auto simp: touched_def cluster_of_def dest: block_in)

definition untouched_rows :: "corr_db \<Rightarrow> corr_db \<Rightarrow> bool" where
  "untouched_rows db db' \<longleftrightarrow> co_incidents db' = co_incidents db \<and> co_links db' = co_links db \<and> co_entities db' = co_entities db"

lemma pick_cluster_spec:
  assumes inv: "corr_inv db" and new: "new_id \<notin> cl_id ` set (co_clusters db)"
    and S: "\<And>i. i \<in> set ids \<Longrightarrow> \<exists>r. get_row i_id i (co_incidents db) = Some r \<and> i_tenant_id r = i_tenant_id inc"
    and p: "pick_cluster new_id inc ids db = (c, db1)"
  shows "c \<in> touched db (set ids) \<or> c = new_id \<and> touched db (set ids) = {}"
    and "cluster_of db1 j = (if cluster_of db j \<in> Some ` touched db (set ids) then Some c else cluster_of db j)"
    and "distinct (map mb_incident (co_members db1))" and "distinct (map cl_id (co_clusters db1))"
    and "untouched_rows db db1"
    and "\<exists>k. get_row cl_id c (co_clusters db1) = Some k \<and> cl_tenant k = i_tenant_id inc"
    and "x \<notin> touched db (set ids) \<Longrightarrow> x \<noteq> c \<Longrightarrow> get_row cl_id x (co_clusters db1) = get_row cl_id x (co_clusters db)"
proof -
  let ?cids = "remdups (map mb_cluster (filter (\<lambda>m. mb_incident m \<in> set ids) (co_members db)))"
  have dm: "distinct (map mb_incident (co_members db))" and dc: "distinct (map cl_id (co_clusters db))"
    using inv by (simp_all add: corr_inv_def)
  have cs: "set ?cids = touched db (set ids)" by (rule cids_set[OF dm])
  have sub: "set ?cids \<subseteq> cl_id ` set (co_clusters db)"
    unfolding cs using touched_tenant[OF inv S] get_row_Some[of cl_id _ "co_clusters db"] by (metis imageI subsetI)
  have nonew: "get_row cl_id new_id (co_clusters db) = None" using new by (simp add: get_row_None_iff)
  consider (fresh) "?cids = []" | (one) k where "?cids = [k]" | (many) k1 k2 ks where "?cids = k1 # k2 # ks"
    by (metis neq_Nil_conv)
  then have "(c \<in> touched db (set ids) \<or> c = new_id \<and> touched db (set ids) = {}) \<and>
    (\<forall>j. cluster_of db1 j = (if cluster_of db j \<in> Some ` touched db (set ids) then Some c else cluster_of db j)) \<and>
    distinct (map mb_incident (co_members db1)) \<and> distinct (map cl_id (co_clusters db1)) \<and> untouched_rows db db1 \<and>
    (\<exists>k. get_row cl_id c (co_clusters db1) = Some k \<and> cl_tenant k = i_tenant_id inc) \<and>
    (\<forall>x. x \<notin> touched db (set ids) \<longrightarrow> x \<noteq> c \<longrightarrow> get_row cl_id x (co_clusters db1) = get_row cl_id x (co_clusters db))"
  proof cases
    case fresh
    then have "c = new_id" "db1 = create_cluster new_id inc ids db" "touched db (set ids) = {}"
      using p cs by (auto simp: pick_cluster_def)
    then show ?thesis using dm dc new nonew
      by (simp add: create_cluster_def cluster_of_def untouched_rows_def get_row_append Let_def split: option.split)
  next
    case one
    then have "c = k" "db1 = db" using p by (auto simp: pick_cluster_def)
    moreover have "touched db (set ids) = {k}" using cs unfolding one by simp
    ultimately
    show ?thesis using dm dc touched_tenant[OF inv S, where c = k] by (simp add: untouched_rows_def image_iff)
  next
    case many
    then have ne: "?cids \<noteq> []" and eq: "c = merge_winner db ?cids" "db1 = merge_clusters ?cids db"
      using p by (simp_all add: pick_cluster_def Let_def)
    have w: "c \<in> touched db (set ids)" using merge_winner_mem[OF ne sub] cs eq(1) by simp
    let ?ls = "filter (\<lambda>k. k \<noteq> c) (map cl_id (filter (\<lambda>k. cl_id k \<in> set ?cids) (co_clusters db)))"
    have ls: "set ?ls = touched db (set ids) - {c}" using sub cs by auto
    have cl: "co_clusters db1 = filter (\<lambda>k. cl_id k \<notin> touched db (set ids) - {c}) (co_clusters db)"
      unfolding ls[symmetric] by (simp add: eq merge_clusters_def Let_def)
    have "get_row cl_id x (co_clusters db1) = (if x \<in> touched db (set ids) - {c} then None else get_row cl_id x (co_clusters db))" for x
      unfolding cl by (rule get_row_filter_key)
    moreover have "distinct (map cl_id (co_clusters db1))" unfolding cl using dc by (simp add: distinct_map_filter)
    moreover have "map mb_incident (co_members db1) = map mb_incident (co_members db)"
      by (simp add: eq merge_members[OF dm ne sub])
    moreover have "untouched_rows db db1" by (simp add: eq merge_clusters_def untouched_rows_def Let_def)
    ultimately show ?thesis
      using w dm touched_tenant[OF inv S w] merge_cluster_of[OF dm ne sub, unfolded cs, folded eq] by simp
  qed
  then show "c \<in> touched db (set ids) \<or> c = new_id \<and> touched db (set ids) = {}"
    "cluster_of db1 j = (if cluster_of db j \<in> Some ` touched db (set ids) then Some c else cluster_of db j)"
    "distinct (map mb_incident (co_members db1))" "distinct (map cl_id (co_clusters db1))" "untouched_rows db db1"
    "\<exists>k. get_row cl_id c (co_clusters db1) = Some k \<and> cl_tenant k = i_tenant_id inc"
    "x \<notin> touched db (set ids) \<Longrightarrow> x \<noteq> c \<Longrightarrow> get_row cl_id x (co_clusters db1) = get_row cl_id x (co_clusters db)"
    by blast+
qed

lemma oldest_incidentD:
  assumes "oldest_incident db ids = Some s"
  shows "i_id s \<in> set ids" "s \<in> set (co_incidents db)"
    "x \<in> set (co_incidents db) \<Longrightarrow> i_id x \<in> set ids \<Longrightarrow> i_created_at s \<le> i_created_at x"
proof -
  from assms obtain rs where rs: "sort_key i_created_at (filter (\<lambda>r. i_id r \<in> set ids) (co_incidents db)) = s # rs"
    by (auto simp: oldest_incident_def split: list.splits)
  then have set: "set (s # rs) = {r \<in> set (co_incidents db). i_id r \<in> set ids}"
    using set_sort[of i_created_at "filter (\<lambda>r. i_id r \<in> set ids) (co_incidents db)"] by simp
  then show "i_id s \<in> set ids" "s \<in> set (co_incidents db)" by auto
  have "sorted (map i_created_at (s # rs))" by (metis rs sorted_sort_key)
  with set show "x \<in> set (co_incidents db) \<Longrightarrow> i_id x \<in> set ids \<Longrightarrow> i_created_at s \<le> i_created_at x"
    by (auto simp: sorted_wrt_map dest: equalityD2[THEN subsetD])
qed

lemma reconcile_rows [simp]:
  "co_members (reconcile_cluster c db) = co_members db" "untouched_rows db (reconcile_cluster c db)"
  by (simp_all add: reconcile_cluster_def untouched_rows_def Let_def)

lemma refreshed_simps [simp]:
  "cl_id (refreshed n seed c) = cl_id c" "cl_tenant (refreshed n seed c) = cl_tenant c" "cl_count (refreshed n seed c) = n"
  "cl_seed (refreshed n (Some s) c) = Some (i_id s)"
  by (simp_all add: refreshed_def split: option.split)

lemma reconcile_clusters:
  "map cl_id (co_clusters (reconcile_cluster c db)) = map cl_id (co_clusters db)"
  "map_option cl_tenant (get_row cl_id x (co_clusters (reconcile_cluster c db))) =
     map_option cl_tenant (get_row cl_id x (co_clusters db))"
  "x \<noteq> c \<Longrightarrow> get_row cl_id x (co_clusters (reconcile_cluster c db)) = get_row cl_id x (co_clusters db)"
  "get_row cl_id c (co_clusters (reconcile_cluster c db)) =
     map_option (refreshed (length (members_of db c)) (oldest_incident db (members_of db c))) (get_row cl_id c (co_clusters db))"
  by (simp_all add: reconcile_cluster_def option.map_comp comp_def Let_def)

lemma members_of_card:
  assumes "distinct (map mb_incident (co_members db))"
  shows "set (members_of db c) = {i. cluster_of db i = Some c}" "length (members_of db c) = card {i. cluster_of db i = Some c}"
proof -
  show s: "set (members_of db c) = {i. cluster_of db i = Some c}"
    using block_of[OF assms] by (auto simp: members_of_def cluster_of_def dest: block_in)
  have "distinct (members_of db c)" using assms by (simp add: members_of_def distinct_map_filter)
  then show "length (members_of db c) = card {i. cluster_of db i = Some c}"
    by (simp add: s[symmetric] distinct_card)
qed

lemma oldest_exists: "x \<in> set (co_incidents db) \<Longrightarrow> i_id x \<in> set ids \<Longrightarrow> \<exists>s. oldest_incident db ids = Some s"
proof -
  assume "x \<in> set (co_incidents db)" "i_id x \<in> set ids"
  then have "x \<in> set (sort_key i_created_at (filter (\<lambda>r. i_id r \<in> set ids) (co_incidents db)))" by simp
  then show ?thesis unfolding oldest_incident_def
    by (cases "sort_key i_created_at (filter (\<lambda>r. i_id r \<in> set ids) (co_incidents db))") auto
qed

text \<open>The sound row of a cluster: its count is that of its members, its seed the oldest of them.\<close>

definition cluster_row_ok :: "corr_db \<Rightarrow> uid \<Rightarrow> bool" where
  "cluster_row_ok db c \<longleftrightarrow>
     (\<exists>k s. get_row cl_id c (co_clusters db) = Some k \<and> cl_count k = card {i. cluster_of db i = Some c} \<and>
        cl_seed k = Some (i_id s) \<and> s \<in> set (co_incidents db) \<and> cluster_of db (i_id s) = Some c \<and>
        (\<forall>x \<in> set (co_incidents db). cluster_of db (i_id x) = Some c \<longrightarrow> i_created_at s \<le> i_created_at x))"

lemma fuse_step:
  assumes inv: "corr_inv db" and new: "new_id \<notin> cl_id ` set (co_clusters db)"
    and S0: "\<forall>i \<in> set ids. \<exists>r. get_row i_id i (co_incidents db) = Some r \<and> i_tenant_id r = i_tenant_id inc"
    and ne: "ids \<noteq> []" and p: "pick_cluster new_id inc ids db = (c, db1)"
    and db2: "db2 = db1\<lparr>co_members := fold (\<lambda>i. insert_member c i (g i)) ids (co_members db1)\<rparr>"
  shows "corr_inv (reconcile_cluster c db2)"
    and "cluster_of (reconcile_cluster c db2) j = (if j \<in> fused db (set ids) then Some c else cluster_of db j)"
    and "cluster_of db j = Some c \<Longrightarrow> j \<in> fused db (set ids)"
    and "length (members_of db2 c) = card (fused db (set ids))"
    and "cluster_row_ok (reconcile_cluster c db2) c" and "untouched_rows db (reconcile_cluster c db2)"
proof -
  have S: "i \<in> set ids \<Longrightarrow> \<exists>r. get_row i_id i (co_incidents db) = Some r \<and> i_tenant_id r = i_tenant_id inc" for i
    using S0 by blast
  note pc = pick_cluster_spec[OF inv new S p]
  have co: "cluster_of db2 j = (if j \<in> fused db (set ids) then Some c else cluster_of db j)" for j
  proof -
    have "cluster_of db2 j = (if j \<in> set ids \<and> cluster_of db1 j = None then Some c else cluster_of db1 j)"
      by (simp add: db2 cluster_of_def insert_members_block)
    moreover have "cluster_of db j \<in> Some ` touched db (set ids)" if "j \<in> set ids" "cluster_of db j \<noteq> None"
      using that by (auto simp: touched_def)
    ultimately show ?thesis using pc(2)[of j] by (auto simp: fused_touched)
  qed
  have rc: "cluster_of (reconcile_cluster c db2) = cluster_of db2" by (simp add: cluster_of_def)
  show bk: "j \<in> fused db (set ids)" if "cluster_of db j = Some c" for j
  proof -
    have "c \<noteq> new_id" using corr_inv_member[OF inv that] new get_row_Some[of cl_id c] by fastforce
    then show ?thesis using pc(1) that by (auto simp: fused_touched)
  qed
  show "cluster_of (reconcile_cluster c db2) j = (if j \<in> fused db (set ids) then Some c else cluster_of db j)"
    by (simp add: rc co)
  have d2: "distinct (map mb_incident (co_members db2))" using insert_members_distinct[OF pc(3)] by (simp add: db2)
  have inc2: "co_incidents db2 = co_incidents db" using pc(5) by (simp add: db2 untouched_rows_def)
  have cl2: "co_clusters db2 = co_clusters db1" by (simp add: db2)
  have fset: "{i. cluster_of db2 i = Some c} = fused db (set ids)" using bk by (auto simp: co)
  show "length (members_of db2 c) = card (fused db (set ids))" using members_of_card(2)[OF d2, of c] by (simp add: fset)
  show "untouched_rows db (reconcile_cluster c db2)"
    using pc(5) reconcile_rows(2)[of db2 c] by (simp add: untouched_rows_def db2)
  have ten: "\<exists>r. get_row i_id j (co_incidents db) = Some r \<and> i_tenant_id r = i_tenant_id inc" if "j \<in> fused db (set ids)" for j
  proof (cases "j \<in> set ids")
    case False
    with that obtain x where x: "cluster_of db j = Some x" "x \<in> touched db (set ids)" by (auto simp: fused_touched)
    with corr_inv_member[OF inv x(1)] touched_tenant[OF inv S x(2)] show ?thesis by auto
  qed (rule S)
  have rows: "co_incidents (reconcile_cluster c db2) = co_incidents db"
    using reconcile_rows(2)[of db2 c] by (simp add: untouched_rows_def inc2)
  show "corr_inv (reconcile_cluster c db2)"
  proof (rule corr_invI)
    fix j x assume "cluster_of (reconcile_cluster c db2) j = Some x"
    then have x: "cluster_of db2 j = Some x" by (simp add: rc)
    show "member_ok (reconcile_cluster c db2) j x"
    proof (cases "j \<in> fused db (set ids)")
      case True
      with x have "x = c" by (simp add: co)
      moreover obtain r where "get_row i_id j (co_incidents db) = Some r" "i_tenant_id r = i_tenant_id inc" using ten[OF True] by blast
      ultimately show ?thesis
        using pc(6) reconcile_clusters(4)[of c db2] by (auto simp: member_ok_def rows cl2)
    next
      case False
      with x have j: "cluster_of db j = Some x" by (simp add: co)
      then have "x \<noteq> c" "x \<notin> touched db (set ids)" using bk False by (auto simp: fused_touched)
      with corr_inv_member[OF inv j] pc(7)[of x] reconcile_clusters(3)[of x c db2] show ?thesis
        by (auto simp: member_ok_def rows cl2)
    qed
  qed (use inv d2 pc(4) in \<open>simp_all add: rows corr_inv_def reconcile_clusters(1) cl2\<close>)
  have ms: "set (members_of db2 c) = fused db (set ids)" using members_of_card(1)[OF d2, of c] by (simp add: fset)
  obtain i where "i \<in> set ids" using ne by (cases ids) auto
  then obtain r where "r \<in> set (co_incidents db)" "i_id r = i" "i \<in> fused db (set ids)"
    using S[of i] get_row_Some[of i_id i "co_incidents db"] by (auto simp: fused_def)
  then obtain s where s: "oldest_incident db2 (members_of db2 c) = Some s"
    using oldest_exists[of r db2 "members_of db2 c"] by (auto simp: inc2 ms)
  obtain k where "get_row cl_id c (co_clusters db1) = Some k" using pc(6) by blast
  then have "get_row cl_id c (co_clusters (reconcile_cluster c db2)) =
    Some (refreshed (card {i. cluster_of db2 i = Some c}) (Some s) k)"
    using reconcile_clusters(4)[of c db2] s members_of_card(2)[OF d2, of c] by (simp add: cl2)
  moreover have "cluster_of db2 x = Some c \<longleftrightarrow> x \<in> set (members_of db2 c)" for x
    using members_of_card(1)[OF d2, of c] by simp
  moreover have "s \<in> set (co_incidents db)" using oldest_incidentD(2)[OF s] by (simp add: inc2)
  ultimately show "cluster_row_ok (reconcile_cluster c db2) c"
    using oldest_incidentD(1)[OF s] oldest_incidentD(3)[OF s]
    unfolding cluster_row_ok_def rc rows
    by (intro exI[of _ "refreshed (card {i. cluster_of db2 i = Some c}) (Some s) k"] exI[of _ s]) (simp add: inc2)
qed

lemma live_in_tenant: "same_tenant_live db inc i \<Longrightarrow>
   \<exists>r. get_row i_id i (co_incidents db) = Some r \<and> i_tenant_id r = i_tenant_id inc"
  by (auto simp: same_tenant_live_def split: option.splits)

text \<open>What one correlation does to the store.\<close>

definition fuses :: "corr_db \<Rightarrow> uid set \<Rightarrow> uid \<Rightarrow> corr_db \<Rightarrow> bool" where
  "fuses db B c db' \<longleftrightarrow>
     (\<forall>i. cluster_of db' i = (if i \<in> B then Some c else cluster_of db i)) \<and>
     (\<forall>i j. together db' i j \<longleftrightarrow> together db i j \<or> i \<in> B \<and> j \<in> B) \<and>
     cluster_row_ok db' c \<and> untouched_rows db db'"

lemma still_there_iff:
  "still_there cs now inc seen db \<longleftrightarrow>
     (\<forall>i \<in> insert (i_id inc) {i. correlated seen cs now inc i}.
        \<exists>r. get_row i_id i (co_incidents db) = Some r \<and> i_tenant_id r = i_tenant_id inc)"
  unfolding still_there_def list_all_iff set_simps siblings_set by (auto split: option.splits)

lemma still_there_refl: "get_row i_id (i_id inc) (co_incidents db) = Some inc \<Longrightarrow> still_there cs now inc db db"
  by (auto simp: still_there_iff correlated_def live_in_tenant)

lemma correlate_effect:
  assumes inv: "corr_inv db" and there: "still_there cs now inc seen db" and new: "new_id \<notin> cl_id ` set (co_clusters db)"
  shows "case correlate_incident cs now new_id inc seen db of (db', res) \<Rightarrow>
    corr_inv db' \<and>
    (if \<exists>i. correlated seen cs now inc i
     then (\<exists>c. res = Some (c, card (fused db (insert (i_id inc) {i. correlated seen cs now inc i}))) \<and>
        fuses db (fused db (insert (i_id inc) {i. correlated seen cs now inc i})) c db')
     else res = None \<and> db' = db)"
proof -
  let ?es = "strong_entity_ids seen inc (fanout_cap cs)"
  let ?sibs = "sibling_incident_ids seen cs now inc ?es"
  let ?ids = "i_id inc # ?sibs"
  have ids: "set ?ids = insert (i_id inc) {i. correlated seen cs now inc i}" by (simp add: siblings_set)
  show ?thesis
  proof (cases "\<exists>i. correlated seen cs now inc i")
    case False
    then have "?es = [] \<or> ?sibs = []" using siblings_set[of seen cs now inc] by (metis Collect_empty_eq set_empty)
    with False inv show ?thesis by (auto simp: correlate_incident_def Let_def)
  next
    case True
    then have ne: "?es \<noteq> []" "?sibs \<noteq> []" using no_strong_no_siblings siblings_set[of seen cs now inc] by auto
    obtain c db1 where p: "pick_cluster new_id inc ?ids db = (c, db1)" by fastforce
    define db2 where "db2 = db1\<lparr>co_members := fold (\<lambda>i. insert_member c i (shared_entity_for db ?es i)) ?ids (co_members db1)\<rparr>"
    have S: "\<forall>i \<in> set ?ids. \<exists>r. get_row i_id i (co_incidents db) = Some r \<and> i_tenant_id r = i_tenant_id inc"
      using there unfolding ids still_there_iff .
    then have all: "filter (\<lambda>i. get_row i_id i (co_incidents db) \<noteq> None) ?ids = ?ids"
      unfolding filter_id_conv by force
    define B where "B = fused db (insert (i_id inc) {i. correlated seen cs now inc i})"
    have ne': "?ids \<noteq> []" by simp
    note step = fuse_step[OF inv new S ne' p db2_def, unfolded ids, folded B_def]
    have r: "correlate_incident cs now new_id inc seen db = (reconcile_cluster c db2, Some (c, card B))"
      using ne p step(4) all unfolding correlate_incident_def correlate_locked_def Let_def db2_def by simp
    have up: "i \<in> B \<Longrightarrow> cluster_of db i \<noteq> None \<and> cluster_of db i = cluster_of db j \<Longrightarrow> j \<in> B" for i j
      unfolding B_def fused_def together_def by (simp, metis)
    have "together (reconcile_cluster c db2) i j \<longleftrightarrow> together db i j \<or> i \<in> B \<and> j \<in> B" for i j
      using step(3)[of i] step(3)[of j] up[of i j] up[of j i] unfolding together_def step(2)
      by (cases "i \<in> B"; cases "j \<in> B"; cases "cluster_of db j") auto
    then have "fuses db B c (reconcile_cluster c db2)" using step by (simp add: fuses_def)
    then show ?thesis using True step(1) unfolding r B_def[symmetric] by auto
  qed
qed

section \<open>The properties\<close>

text \<open>C31. A correlation refines the fusion of blocks of a partition. On a sound store, when no live incident of the
  same tenant inside the window shares enough strong entities of low fan-out with the incident, nothing changes.
  Otherwise the incident, all such incidents and the blocks any of them is in become one block, and no other
  two incidents come together or apart; the answer carries the size of the block, which the row of the cluster
  stores with its oldest member as seed. The store stays sound. What is shared is what was read before the lock, in
  \<open>seen\<close>; the blocks are those the lock finds, in which the incidents read are still there, in their tenant (as they
  are when nothing was written in between).\<close>

theorem correlation_fuses_blocks:
  assumes "corr_inv db" and "new_id \<notin> cl_id ` set (co_clusters db)"
    and "seen = db \<and> get_row i_id (i_id inc) (co_incidents db) = Some inc \<or> still_there cs now inc seen db"
  shows "case correlate_incident cs now new_id inc seen db of (db', res) \<Rightarrow>
    corr_inv db' \<and>
    (if \<exists>i. correlated seen cs now inc i
     then (\<exists>c. res = Some (c, card (fused db (insert (i_id inc) {i. correlated seen cs now inc i}))) \<and>
        fuses db (fused db (insert (i_id inc) {i. correlated seen cs now inc i})) c db')
     else res = None \<and> db' = db)"
  using assms still_there_refl by (intro correlate_effect) blast+

subsection \<open>Clusters and tenants\<close>

lemma member_ok_cluster: "corr_inv db \<Longrightarrow> m \<in> set (co_members db) \<Longrightarrow> member_ok db (mb_incident m) (mb_cluster m)"
  by (simp add: corr_inv_def)

lemma get_row_map:
  "(\<And>r. key (f r) = key r) \<Longrightarrow> get_row key i (map f rows) = map_option f (get_row key i rows)"
  by (induction rows) simp_all

lemma null_seed_keys [simp]: "cl_id (null_seed incs c) = cl_id c" "cl_tenant (null_seed incs c) = cl_tenant c"
  by (simp_all add: null_seed_def)

lemma rows_inv:
  assumes inv: "corr_inv db" and k: "keeps_tenants db incs"
  shows "corr_inv (corr_step (Rows incs links ents) db)"
proof -
  have "member_ok (corr_step (Rows incs links ents) db) (mb_incident m) (mb_cluster m)"
    if m: "m \<in> set (co_members db)" "mb_incident m \<in> i_id ` set incs" for m
  proof -
    from m(2) obtain r where r: "r \<in> set incs" "i_id r = mb_incident m" by auto
    then have g: "get_row i_id (mb_incident m) incs = Some r"
      using k get_row_in[of i_id incs r] by (simp add: keeps_tenants_def)
    from member_ok_cluster[OF inv m(1)] r k g show ?thesis
      by (auto simp: member_ok_def keeps_tenants_def list_all_iff get_row_map split: option.splits)
  qed
  then show ?thesis using inv k by (auto simp: corr_inv_def keeps_tenants_def distinct_map_filter comp_def)
qed

lemma orphan_keys [simp]:
  "i_id (orphan_incident t r) = i_id r" "cl_id (orphan_cluster t c) = cl_id c"
  "i_tenant_id (orphan_incident t r) = (if i_tenant_id r = Some t then None else i_tenant_id r)"
  "cl_tenant (orphan_cluster t c) = (if cl_tenant c = Some t then None else cl_tenant c)"
  by (simp_all add: orphan_incident_def orphan_cluster_def)

lemma drop_tenant_inv:
  assumes inv: "corr_inv db"
  shows "corr_inv (corr_step (Drop_Tenant t) db)"
proof -
  have "member_ok (corr_step (Drop_Tenant t) db) (mb_incident m) (mb_cluster m)" if "m \<in> set (co_members db)" for m
    using member_ok_cluster[OF inv that] by (auto simp: member_ok_def get_row_map split: option.splits)
  with inv show ?thesis by (simp add: corr_inv_def comp_def)
qed

lemma corr_step_inv: "corr_inv db \<Longrightarrow> \<not> moves op \<Longrightarrow> corr_inv (corr_step op db)"
proof (cases op)
  case (Correlate cs now new_id i seen)
  assume inv: "corr_inv db"
  have "corr_inv (fst (correlate_incident cs now new_id inc seen db))"
    if "still_there cs now inc seen db" "new_id \<notin> cl_id ` set (co_clusters db)" for inc
    using correlate_effect[OF inv that] by (auto split: prod.splits)
  with inv show ?thesis by (simp add: Correlate split: option.split)
next
  case (Rows incs links ents)
  assume "corr_inv db"
  then show ?thesis using rows_inv[of db incs links ents] by (cases "keeps_tenants db incs") (simp_all add: Rows)
next
  case (Drop_Tenant t)
  assume "corr_inv db"
  then show ?thesis unfolding Drop_Tenant by (rule drop_tenant_inv)
qed simp

interpretation clusters: request_system corr_step "\<lambda>op. \<not> moves op" corr_inv
  by unfold_locales (rule corr_step_inv)

lemma run_corr_inv: "corr_inv db \<Longrightarrow> \<not> list_ex moves ops \<Longrightarrow> corr_inv (run_corr ops db)"
  unfolding run_corr_def by (rule clusters.run_inv) (auto simp: list_all_iff list_ex_iff)

lemma in_map_filter_iff: "y \<in> set (List.map_filter f xs) \<longleftrightarrow> (\<exists>x \<in> set xs. f x = Some y)"
  by (force simp: List.map_filter_def)

lemma get_cluster_members:
  assumes inv: "corr_inv db" and v: "get_cluster i scope db = Inr (Some v)" and m: "m \<in> set (cv_members v)"
  shows "in_scope (i_tenant_id (cm_incident m)) scope \<and> together db i (i_id (cm_incident m)) \<and>
    i_deleted_at (cm_incident m) = None"
proof -
  from v obtain inc where inc: "get_row i_id i (co_incidents db) = Some inc"
    by (auto simp: get_cluster_def split: option.splits)
  with v have scope: "in_scope (i_tenant_id inc) scope"
    by (auto simp: get_cluster_def require_in_scope_def split: if_splits)
  from v inc scope obtain m0 c where m0: "find (\<lambda>m. mb_incident m = i) (co_members db) = Some m0"
    and c: "get_row cl_id (mb_cluster m0) (co_clusters db) = Some c"
    by (auto simp: get_cluster_def require_in_scope_def split: option.splits)
  have ci: "cluster_of db i = Some (mb_cluster m0)" by (simp add: cluster_of_def block_def m0)
  from v m inc scope m0 c obtain x where x: "x \<in> set (co_members db)" "mb_cluster x = cl_id c"
      "get_row i_id (mb_incident x) (co_incidents db) = Some (cm_incident m)" "i_deleted_at (cm_incident m) = None"
    by (auto simp: get_cluster_def require_in_scope_def Let_def in_map_filter_iff)
  have id: "i_id (cm_incident m) = mb_incident x" using get_row_Some[OF x(3)] by simp
  have cx: "cluster_of db (mb_incident x) = Some (mb_cluster m0)"
    using inv block_of[of "co_members db" x] x(1,2) get_row_Some[OF c] by (simp add: corr_inv_def cluster_of_def)
  from corr_inv_member[OF inv ci] corr_inv_member[OF inv cx] inc x(3) c have "i_tenant_id (cm_incident m) = i_tenant_id inc" by auto
  with scope id cx ci x(4) show ?thesis by (simp add: together_def)
qed

text \<open>C32. Clusters never show another tenant's incidents. Starting from a sound store, whatever correlations run, in
  any order, with any settings and on reads of any earlier state, whatever rows the other components write and whichever tenants are deleted, as long
  as no incident is moved to another tenant: every cluster holds incidents of its own tenant only, and the cluster
  view lists, for a caller in any scope, only unarchived incidents of the same cluster that are in that scope.\<close>

theorem clusters_stay_in_one_tenant:
  assumes "corr_inv db" and "\<not> list_ex moves ops"
  shows "corr_inv (run_corr ops db) \<and>
    (\<forall>i scope v m. get_cluster i scope (run_corr ops db) = Inr (Some v) \<longrightarrow> m \<in> set (cv_members v) \<longrightarrow>
       in_scope (i_tenant_id (cm_incident m)) scope \<and> together (run_corr ops db) i (i_id (cm_incident m)) \<and>
       i_deleted_at (cm_incident m) = None)"
  using run_corr_inv[OF assms] get_cluster_members[OF run_corr_inv[OF assms]] by blast

section \<open>Concrete runs\<close>

definition example_corr_settings :: corr_settings where
  "example_corr_settings = \<lparr>window_hours = 24, fanout_cap = 50, min_shared = 1\<rparr>"

definition example_corr_db :: corr_db where
  "example_corr_db =
     \<lparr>co_incidents = [example_incident 1 Awaiting_Review, example_incident 2 Awaiting_Review],
      co_entities = [\<lparr>en_id = 7, en_type = ''file'', en_type_id = None, en_name = ''h''\<rparr>],
      co_links = [\<lparr>el_incident = 1, el_entity = 7, el_role = ''actor''\<rparr>, \<lparr>el_incident = 2, el_entity = 7, el_role = ''actor''\<rparr>],
      co_clusters = [], co_members = []\<rparr>"

lemma example_corr_inv: "corr_inv example_corr_db"
  by (simp add: corr_inv_def example_corr_db_def example_incident_def)

lemmas corr_eval = example_corr_db_def example_corr_settings_def example_incident_def correlate_incident_def
  correlate_locked_def still_there_def
  strong_entity_ids_def fanout_def same_tenant_live_def is_strong_entity_def strong_entity_types_def
  sibling_incident_ids_def shared_count_def in_window_def hour_def pick_cluster_def create_cluster_def oldest_incident_def
  insert_member_def shared_entity_for_def members_of_def reconcile_cluster_def refreshed_def upd_row_def
  List.map_filter_def Let_def

lemma example_correlates:
  "snd (correlate_incident example_corr_settings 0 9 (example_incident 2 Awaiting_Review) example_corr_db example_corr_db) = Some (9, 2)"
  by (simp add: corr_eval)

lemma correlation_fuses_blocks_witness:
  "case correlate_incident example_corr_settings 0 9 (example_incident 2 Awaiting_Review) example_corr_db example_corr_db of (db', res) \<Rightarrow>
     res = Some (9, 2) \<and> corr_inv db' \<and>
     (\<exists>B. card B = 2 \<and> fuses example_corr_db B 9 db')"
  using correlation_fuses_blocks[OF example_corr_inv, of 9 example_corr_db "example_incident 2 Awaiting_Review" example_corr_settings 0]
    example_correlates
  by (auto simp: example_corr_db_def example_incident_def split: prod.splits if_splits)

definition example_corr_ops :: "corr_op list" where
  "example_corr_ops = [Correlate example_corr_settings 0 9 2 example_corr_db]"

lemma clusters_stay_in_one_tenant_witness:
  "corr_inv (run_corr example_corr_ops example_corr_db) \<and>
   (\<exists>v. get_cluster 2 (Some {3}) (run_corr example_corr_ops example_corr_db) = Inr (Some v) \<and> cv_count v = 2 \<and>
      (\<forall>m \<in> set (cv_members v). in_scope (i_tenant_id (cm_incident m)) (Some {3})))"
proof -
  have v: "\<exists>v. get_cluster 2 (Some {3}) (run_corr example_corr_ops example_corr_db) = Inr (Some v) \<and> cv_count v = 2"
    by (simp add: example_corr_ops_def run_corr_def get_cluster_def require_in_scope_def in_scope_def corr_eval)
  have "\<not> list_ex moves example_corr_ops" by (simp add: example_corr_ops_def)
  from clusters_stay_in_one_tenant[OF example_corr_inv this] v show ?thesis by blast
qed

text \<open>The proviso is needed. Moving an incident to another tenant keeps its membership, and the view does not filter
  the members by scope: a caller confined to the new tenant is shown an incident of the old one.\<close>

lemma moved_incident_shows_other_tenant:
  "\<exists>v. get_cluster 2 (Some {4}) (run_corr (example_corr_ops @ [Move 2 (Some 4)]) example_corr_db) = Inr (Some v) \<and>
     list_ex (\<lambda>m. \<not> in_scope (i_tenant_id (cm_incident m)) (Some {4})) (cv_members v)"
  by (simp add: example_corr_ops_def run_corr_def get_cluster_def require_in_scope_def in_scope_def corr_eval)

end
