(* ===== verification/Handler_Rules.thy ===== *)
theory Handler_Rules
  imports Py_Value
begin

text \<open>
  Proof rules for request handlers: to show that a predicate holds of the state a handler leaves behind, follow its
  branches. Used with the predicate given, as in \<open>handler_keeps[where P = "inv"]\<close>.
\<close>

lemma raise_keeps: "P db \<Longrightarrow> P (fst (raise_http db c))"
  by (simp add: raise_http_def)

lemma reply_keeps: "P db \<Longrightarrow> P (fst (reply db x))"
  by (simp add: reply_def)

lemma case_option_keeps:
  "(x = None \<Longrightarrow> P (fst a)) \<Longrightarrow> (\<And>y. x = Some y \<Longrightarrow> P (fst (b y))) \<Longrightarrow>
   P (fst (case x of None \<Rightarrow> a | Some y \<Rightarrow> b y))"
  by (cases x) simp_all

lemma case_guard_keeps:
  "(\<And>c. x = Inl (HTTP c) \<Longrightarrow> P (fst (a c))) \<Longrightarrow> (\<And>y. x = Inr y \<Longrightarrow> P (fst (b y))) \<Longrightarrow>
   P (fst (case x of Inl (HTTP c) \<Rightarrow> a c | Inr y \<Rightarrow> b y))"
  by (cases x rule: sum.exhaust) (auto split: http_error.split)

lemma case_pair_keeps:
  "(\<And>a b. x = (a, b) \<Longrightarrow> P (fst (f a b))) \<Longrightarrow> P (fst (case x of (a, b) \<Rightarrow> f a b))"
  by (cases x) simp

lemma if_keeps: "(c \<Longrightarrow> P (fst a)) \<Longrightarrow> (\<not> c \<Longrightarrow> P (fst b)) \<Longrightarrow> P (fst (if c then a else b))"
  by simp

lemma let_keeps: "(\<And>y. y = x \<Longrightarrow> P (fst (f y))) \<Longrightarrow> P (fst (Let x f))"
  by (simp add: Let_def)

lemmas handler_keeps = raise_keeps reply_keeps case_option_keeps case_guard_keeps case_pair_keeps if_keeps let_keeps

end
