(* ===== verification/Exclusion_Admin.thy ===== *)
theory Exclusion_Admin
  imports Exclusions Auto_Tune Ti_Lookup Customer_Cases Handler_Rules
begin

text \<open>
  The administration of the allowlist: the routes of \<open>routes/exclusions.py\<close> (rules and the review queue of
  auto-tuned suggestions) and the analyst's exclusion from the indicator table of an incident,
  \<open>exclude_ioc\<close> of \<open>routes/cases.py\<close>. Rules live in a table of their own next to the store of the
  incidents, where the suggestions and indicators are; the verdict hook of auto-tuning is a request of the
  system as well. The IPv6 text syntax is the parameter \<open>six\<close> of the filter.
\<close>

record allowlist_db =
  xd_rules :: "exclusion list"
  xd_cases :: case_db

definition audit_exclusion ::
  "instant \<Rightarrow> user \<Rightarrow> string \<Rightarrow> uid \<Rightarrow> uid option \<Rightarrow> allowlist_db \<Rightarrow> allowlist_db" where
  "audit_exclusion now u action target tenant db =
     db\<lparr>xd_cases := (xd_cases db)\<lparr>cd_audit :=
          audit_log now (Some (u_id u)) action (Some target) tenant (cd_audit (xd_cases db))\<rparr>\<rparr>"

section \<open>Which rules are accepted\<close>

definition valid_types :: "string list" where
  "valid_types = [''ip'', ''cidr'', ''domain'', ''hash'']"

definition is_hex :: "char \<Rightarrow> bool" where
  "is_hex c \<longleftrightarrow> c \<in> set ''0123456789abcdefABCDEF''"

definition validate :: "ipv6_syntax \<Rightarrow> string option \<Rightarrow> string option \<Rightarrow> http_error + unit" where
  "validate six val t =
     (if t \<notin> Some ` set valid_types then Inl (HTTP 400)
      else
        (let v = strip (opt_str val)
         in if v = [] then Inl (HTTP 400)
            else if t = Some ''ip'' then (case ip_address six v of None \<Rightarrow> Inl (HTTP 400) | Some _ \<Rightarrow> Inr ())
            else if t = Some ''cidr'' then (case ip_network six v of None \<Rightarrow> Inl (HTTP 400) | Some _ \<Rightarrow> Inr ())
            else if t = Some ''hash'' then
              (if length v \<notin> {32, 40, 64, 128} then Inl (HTTP 400)
               else if \<not> list_all is_hex v then Inl (HTTP 400) else Inr ())
            else if contains ''://'' v \<or> contains ''/'' v \<or> contains '' '' v \<or> \<not> contains ''.'' v
                 then Inl (HTTP 400) else Inr ()))"

text \<open>The flush of a rule: the unique key on value and type, and the widths of the columns.\<close>

definition storable :: "exclusion \<Rightarrow> bool" where
  "storable r \<longleftrightarrow> length (ex_type r) \<le> 16 \<and> fits 128 (ex_customer r)"

definition insert_rule :: "exclusion \<Rightarrow> allowlist_db \<Rightarrow> allowlist_db option" where
  "insert_rule r db =
     (if storable r \<and> ex_id r \<notin> ex_id ` set (xd_rules db) \<and>
         (ex_value r, ex_type r) \<notin> (\<lambda>x. (ex_value x, ex_type x)) ` set (xd_rules db)
      then Some (db\<lparr>xd_rules := xd_rules db @ [r]\<rparr>) else None)"

section \<open>Views\<close>

text \<open>Rows are kept in the order of their insertion, so the newest come last. \<open>ILIKE\<close> compares in lower
  case; a null note matches nothing.\<close>

definition ilike :: "string \<Rightarrow> string \<Rightarrow> bool" where
  "ilike p s = like (lower p) (lower s)"

definition list_exclusions ::
  "string option \<Rightarrow> string option \<Rightarrow> nat \<Rightarrow> nat \<Rightarrow> allowlist_db \<Rightarrow> nat \<times> exclusion list" where
  "list_exclusions q t limit offset db =
     (let pat = ''%'' @ opt_str q @ ''%'';
          rows = filter (\<lambda>r. (truthy_str q \<longrightarrow> ilike pat (ex_value r) \<or>
                                (case ex_notes r of None \<Rightarrow> False | Some n \<Rightarrow> ilike pat n)) \<and>
                             (truthy_str t \<longrightarrow> Some (ex_type r) = t)) (xd_rules db)
      in (length rows, take limit (drop offset (rev rows))))"

definition exclusion_stats :: "allowlist_db \<Rightarrow> nat \<times> nat \<times> (string \<times> nat) list" where
  "exclusion_stats db =
     (let enabled = filter ex_enabled (xd_rules db)
      in (length (xd_rules db), length enabled,
          map (\<lambda>t. (t, length (filter (\<lambda>r. ex_type r = t) enabled))) (remdups (map ex_type enabled))))"

definition list_suggestions :: "string \<Rightarrow> bool \<Rightarrow> nat \<Rightarrow> allowlist_db \<Rightarrow> suggestion list" where
  "list_suggestions status ready_only limit db =
     (let rows = take limit (sort_key (\<lambda>s. (- int (sg_confidence s), - int (sg_fp_count s)))
                   (filter (\<lambda>s. sg_status s = status) (cd_suggestions (xd_cases db))))
      in if ready_only \<and> status = ''pending'' then filter is_promotable rows else rows)"

section \<open>The rules\<close>

definition as_admin :: "user \<Rightarrow> allowlist_db \<Rightarrow> (allowlist_db, 'a) handled \<Rightarrow> (allowlist_db, 'a) handled" where
  "as_admin u db h = (case require_admin u of Inl (HTTP c) \<Rightarrow> raise_http db c | Inr _ \<Rightarrow> h)"

definition create_exclusion ::
  "ipv6_syntax \<Rightarrow> instant \<Rightarrow> uid \<Rightarrow> string \<Rightarrow> string \<Rightarrow> string option \<Rightarrow> bool \<Rightarrow> string option \<Rightarrow> user \<Rightarrow> allowlist_db
     \<Rightarrow> (allowlist_db, exclusion) handled" where
  "create_exclusion six now new_id val t note enabled customer u db = as_admin u db
     (case validate six (Some val) (Some t) of
        Inl (HTTP c) \<Rightarrow> raise_http db c
      | Inr _ \<Rightarrow>
          (let r = \<lparr>ex_id = new_id, ex_value = strip val, ex_type = t, ex_notes = note, ex_enabled = enabled,
                    ex_customer = or_null (opt_str customer), ex_created_by = Some (u_id u)\<rparr>
           in case insert_rule r db of
                None \<Rightarrow> raise_http db 409
              | Some db' \<Rightarrow> reply (audit_exclusion now u ''exclusion.create'' new_id None db') r))"

text \<open>The fields of a patch: absent, or given and possibly null. A null where the column has none, or a value
  and type that another row has, is refused when the row is written, as an internal error.\<close>

record exclusion_patch =
  xp_value :: "string option option"
  xp_type :: "string option option"
  xp_notes :: "string option option"
  xp_enabled :: "bool option option"

definition given_or :: "'a option option \<Rightarrow> 'a \<Rightarrow> 'a option" where
  "given_or p old = (case p of None \<Rightarrow> Some old | Some v \<Rightarrow> v)"

definition patched :: "exclusion_patch \<Rightarrow> exclusion \<Rightarrow> exclusion option" where
  "patched p r =
     (case (given_or (xp_value p) (ex_value r), given_or (xp_type p) (ex_type r), given_or (xp_enabled p) (ex_enabled r)) of
        (Some v, Some t, Some e) \<Rightarrow>
          Some (r\<lparr>ex_value := v, ex_type := t, ex_enabled := e,
                  ex_notes := (case xp_notes p of None \<Rightarrow> ex_notes r | Some n \<Rightarrow> n)\<rparr>)
      | _ \<Rightarrow> None)"

definition patch_exclusion ::
  "ipv6_syntax \<Rightarrow> instant \<Rightarrow> uid \<Rightarrow> exclusion_patch \<Rightarrow> user \<Rightarrow> allowlist_db \<Rightarrow> (allowlist_db, exclusion) handled" where
  "patch_exclusion six now i p u db = as_admin u db
     (case get_row ex_id i (xd_rules db) of
        None \<Rightarrow> raise_http db 404
      | Some r \<Rightarrow>
          (case (if xp_value p \<noteq> None \<or> xp_type p \<noteq> None
                 then validate six (given_or (xp_value p) (ex_value r)) (given_or (xp_type p) (ex_type r)) else Inr ()) of
             Inl (HTTP c) \<Rightarrow> raise_http db c
           | Inr _ \<Rightarrow>
               (case patched p r of
                  None \<Rightarrow> raise_http db 500
                | Some r' \<Rightarrow>
                    if list_ex (\<lambda>x. ex_id x \<noteq> i \<and> (ex_value x, ex_type x) = (ex_value r', ex_type r')) (xd_rules db)
                    then raise_http db 500
                    else reply (audit_exclusion now u ''exclusion.patch'' i None
                                  (db\<lparr>xd_rules := upd_row ex_id i (\<lambda>_. r') (xd_rules db)\<rparr>)) r')))"

definition delete_exclusion ::
  "instant \<Rightarrow> uid \<Rightarrow> user \<Rightarrow> allowlist_db \<Rightarrow> (allowlist_db, unit) handled" where
  "delete_exclusion now i u db = as_admin u db
     (case get_row ex_id i (xd_rules db) of
        None \<Rightarrow> raise_http db 404
      | Some r \<Rightarrow>
          (let db' = audit_exclusion now u ''exclusion.delete'' i None db
           in reply (db'\<lparr>xd_rules := del_row ex_id i (xd_rules db')\<rparr>) ()))"

section \<open>The review queue\<close>

definition set_suggestion :: "uid \<Rightarrow> string \<Rightarrow> allowlist_db \<Rightarrow> allowlist_db" where
  "set_suggestion i status db =
     db\<lparr>xd_cases := (xd_cases db)\<lparr>cd_suggestions :=
          upd_row sg_id i (\<lambda>s. s\<lparr>sg_status := status\<rparr>) (cd_suggestions (xd_cases db))\<rparr>\<rparr>"

definition suggestion_note :: "suggestion \<Rightarrow> string" where
  "suggestion_note s =
     ''auto-tuned from '' @ show_nat (sg_fp_count s) @ '' FP/Benign verdict(s) across '' @
     show_nat (length (sg_seen_rules s)) @ '' rule(s)'' @
     (if truthy_str (sg_customer s) then '' for '' @ opt_str (sg_customer s) else [])"

text \<open>On a conflict the handler rolls back, marks the suggestion approved and raises: the raise rolls that
  mark back too.\<close>

definition approve_suggestion ::
  "ipv6_syntax \<Rightarrow> instant \<Rightarrow> uid \<Rightarrow> uid \<Rightarrow> user \<Rightarrow> allowlist_db \<Rightarrow> (allowlist_db, exclusion) handled" where
  "approve_suggestion six now new_id i u db = as_admin u db
     (case get_row sg_id i (cd_suggestions (xd_cases db)) of
        None \<Rightarrow> raise_http db 404
      | Some s \<Rightarrow>
          if sg_status s = ''approved'' then raise_http db 409
          else (case validate six (Some (sg_value s)) (Some (sg_type s)) of
             Inl (HTTP c) \<Rightarrow> raise_http db c
           | Inr _ \<Rightarrow>
               (let r = \<lparr>ex_id = new_id, ex_value = strip (sg_value s), ex_type = sg_type s,
                         ex_notes = Some (suggestion_note s), ex_enabled = True, ex_customer = sg_customer s,
                         ex_created_by = Some (u_id u)\<rparr>
                in case insert_rule r db of
                     None \<Rightarrow> raise_http db 409
                   | Some db' \<Rightarrow>
                       reply (audit_exclusion now u ''exclusion.suggestion.approve'' new_id None
                                (set_suggestion i ''approved'' db')) r)))"

definition dismiss_suggestion ::
  "instant \<Rightarrow> uid \<Rightarrow> user \<Rightarrow> allowlist_db \<Rightarrow> (allowlist_db, unit) handled" where
  "dismiss_suggestion now i u db = as_admin u db
     (case get_row sg_id i (cd_suggestions (xd_cases db)) of
        None \<Rightarrow> raise_http db 404
      | Some s \<Rightarrow>
          reply (audit_exclusion now u ''exclusion.suggestion.dismiss'' i None (set_suggestion i ''dismissed'' db)) ())"

section \<open>The analyst's exclusion\<close>

definition case_host_of_url :: "string \<Rightarrow> string option" where
  "case_host_of_url url =
     (let after = (case after_scheme url of None \<Rightarrow> url | Some a \<Rightarrow> a);
          host = before_first (CHR ''#'') (before_first (CHR ''?'') (before_first (CHR ''/'') after))
      in or_null (lower (before_first (CHR '':'') (after_first (CHR ''@'') host))))"

definition ioc_to_exclusion :: "string \<Rightarrow> string \<Rightarrow> (string \<times> string) option" where
  "ioc_to_exclusion ioc_type val =
     (let t = lower ioc_type; v = strip val
      in if v = [] then None
         else if t \<in> {''ipv4'', ''ipv6'', ''ip''} then Some (''ip'', v)
         else if t \<in> {''sha256'', ''sha1'', ''md5'', ''hash''} then Some (''hash'', lower v)
         else if t = ''domain'' then Some (''domain'', lower v)
         else if t = ''url'' then map_option (\<lambda>h. (''domain'', h)) (case_host_of_url v)
         else if t = ''email'' then
           (if CHR ''@'' \<in> set v then
              map_option (\<lambda>d. (''domain'', d)) (or_null (rstrip_char (CHR ''.'') (lower (strip (after_last (CHR ''@'') v)))))
            else None)
         else None)"

definition mark_ioc_excluded :: "uid \<Rightarrow> string \<Rightarrow> allowlist_db \<Rightarrow> allowlist_db" where
  "mark_ioc_excluded i val db =
     db\<lparr>xd_cases := (xd_cases db)\<lparr>cd_iocs :=
          map (\<lambda>r. if ir_incident_id r = i \<and> lower (ir_value r) = lower (strip val) then r\<lparr>ir_excluded := True\<rparr> else r)
            (cd_iocs (xd_cases db))\<rparr>\<rparr>"

datatype exclude_reply = Already_Excluded uid | Excluded_Now uid

definition exclude_ioc ::
  "instant \<Rightarrow> uid \<Rightarrow> uid \<Rightarrow> string \<Rightarrow> string \<Rightarrow> string \<Rightarrow> string option \<Rightarrow> user \<Rightarrow> tenant_scope \<Rightarrow> allowlist_db
     \<Rightarrow> (allowlist_db, exclude_reply) handled" where
  "exclude_ioc now new_id i ioc_type val rule_scope note u scope db =
     (case require_analyst u of
        Inl (HTTP c) \<Rightarrow> raise_http db c
      | Inr _ \<Rightarrow>
     (case get_incident i (xd_cases db) of
        None \<Rightarrow> raise_http db 404
      | Some inc \<Rightarrow>
     (case require_in_scope (i_tenant_id inc) scope of
        Inl (HTTP c) \<Rightarrow> raise_http db c
      | Inr _ \<Rightarrow>
     (case ioc_to_exclusion ioc_type val of
        None \<Rightarrow> raise_http db 400
      | Some (t, v) \<Rightarrow>
          let customer = (if rule_scope \<noteq> ''global'' then i_customer inc else None)
          in case find (\<lambda>r. ex_value r = v \<and> ex_type r = t) (xd_rules db) of
               Some r \<Rightarrow> reply (mark_ioc_excluded i val db) (Already_Excluded (ex_id r))
             | None \<Rightarrow>
                 (let r = \<lparr>ex_id = new_id, ex_value = v, ex_type = t,
                           ex_notes = (if truthy_str note then note else
                             Some (''excluded by '' @ u_email u @ '' from '' @ i_case_number inc)),
                           ex_enabled = True, ex_customer = customer, ex_created_by = Some (u_id u)\<rparr>
                  in case insert_rule r db of
                       None \<Rightarrow> raise_http db 409
                     | Some db' \<Rightarrow>
                         (let marked = mark_ioc_excluded i val db'
                          in reply (audit_exclusion now u ''exclusion.create_from_incident'' new_id (i_tenant_id inc)
                               (marked\<lparr>xd_cases := add_timeline now (u_email u) ''analyst_exclude'' i (xd_cases marked)\<rparr>))
                               (Excluded_Now new_id)))))))"


section \<open>The allowlist as a system\<close>

text \<open>\<open>Verdict_Hook\<close> is the auto-tuner after a verdict on the incident, \<open>Case_Work\<close> whatever the other
  components do to incidents, indicators and suggestions in between.\<close>

datatype allowlist_op =
    Add_Rule string string "string option" bool "string option"
  | Amend_Rule uid exclusion_patch
  | Drop_Rule uid
  | Approve_Suggestion uid
  | Dismiss_Suggestion uid
  | Exclude_From_Case uid string string string "string option"
  | Verdict_Hook uid "string \<times> string \<Rightarrow> uid"
  | Case_Work case_db

record allowlist_request =
  rq_now :: instant
  rq_new_id :: uid
  rq_user :: user
  rq_scope :: tenant_scope
  rq_op :: allowlist_op

fun allowlist_run :: "ipv6_syntax \<Rightarrow> instant \<Rightarrow> uid \<Rightarrow> user \<Rightarrow> tenant_scope \<Rightarrow> allowlist_op \<Rightarrow> allowlist_db \<Rightarrow> allowlist_db" where
  "allowlist_run six now n u sc (Add_Rule v t note e c) db = fst (create_exclusion six now n v t note e c u db)"
| "allowlist_run six now n u sc (Amend_Rule i p) db = fst (patch_exclusion six now i p u db)"
| "allowlist_run six now n u sc (Drop_Rule i) db = fst (delete_exclusion now i u db)"
| "allowlist_run six now n u sc (Approve_Suggestion i) db = fst (approve_suggestion six now n i u db)"
| "allowlist_run six now n u sc (Dismiss_Suggestion i) db = fst (dismiss_suggestion now i u db)"
| "allowlist_run six now n u sc (Exclude_From_Case i t v s note) db = fst (exclude_ioc now n i t v s note u sc db)"
| "allowlist_run six now n u sc (Verdict_Hook i ids) db =
     (case get_incident i (xd_cases db) of
        None \<Rightarrow> db
      | Some inc \<Rightarrow> db\<lparr>xd_cases := record_fp_verdict now ids inc (xd_cases db)\<rparr>)"
| "allowlist_run six now n u sc (Case_Work cases) db = db\<lparr>xd_cases := cases\<rparr>"

definition allowlist_step :: "ipv6_syntax \<Rightarrow> allowlist_request \<Rightarrow> allowlist_db \<Rightarrow> allowlist_db" where
  "allowlist_step six rq db = allowlist_run six (rq_now rq) (rq_new_id rq) (rq_user rq) (rq_scope rq) (rq_op rq) db"

definition run_allowlist :: "ipv6_syntax \<Rightarrow> allowlist_request list \<Rightarrow> allowlist_db \<Rightarrow> allowlist_db" where
  "run_allowlist six = fold (allowlist_step six)"

definition allowlist_inv :: "allowlist_db \<Rightarrow> bool" where
  "allowlist_inv db \<longleftrightarrow> distinct (map ex_id (xd_rules db)) \<and> distinct (map (\<lambda>r. (ex_value r, ex_type r)) (xd_rules db))"

text \<open>What a rule of each type has to look like.\<close>

definition well_formed :: "ipv6_syntax \<Rightarrow> string \<Rightarrow> string \<Rightarrow> bool" where
  "well_formed six t v \<longleftrightarrow> v \<noteq> [] \<and>
     (t = ''ip'' \<and> ip_address six v \<noteq> None \<or>
      t = ''cidr'' \<and> ip_network six v \<noteq> None \<or>
      t = ''hash'' \<and> length v \<in> {32, 40, 64, 128} \<and> list_all is_hex v \<or>
      t = ''domain'' \<and> CHR ''/'' \<notin> set v \<and> CHR '' '' \<notin> set v \<and> CHR ''.'' \<in> set v)"

text \<open>The request that may put a rule into the table: an administrator's, for a well-formed value; the approval
  of a suggestion only for the customer it was counted for; an analyst's on an incident in scope, for that
  incident's customer or, when asked, for all.\<close>

definition rule_warranted :: "ipv6_syntax \<Rightarrow> allowlist_request \<Rightarrow> allowlist_db \<Rightarrow> exclusion \<Rightarrow> bool" where
  "rule_warranted six rq db r \<longleftrightarrow>
     (case rq_op rq of
        Add_Rule v t note e c \<Rightarrow>
          u_role (rq_user rq) = Admin \<and> ex_created_by r = Some (u_id (rq_user rq)) \<and>
          ex_value r = strip v \<and> ex_type r = t \<and> well_formed six t (strip v)
      | Amend_Rule i p \<Rightarrow>
          u_role (rq_user rq) = Admin \<and>
          (\<exists>old \<in> set (xd_rules db). ex_id old = i \<and> ex_id r = i \<and> ex_customer r = ex_customer old \<and>
             ex_created_by r = ex_created_by old \<and>
             ((ex_value r, ex_type r) = (ex_value old, ex_type old) \<or> well_formed six (ex_type r) (strip (ex_value r))))
      | Approve_Suggestion i \<Rightarrow>
          u_role (rq_user rq) = Admin \<and> ex_created_by r = Some (u_id (rq_user rq)) \<and>
          (\<exists>s \<in> set (cd_suggestions (xd_cases db)). sg_id s = i \<and> sg_status s \<noteq> ''approved'' \<and>
             ex_customer r = sg_customer s \<and> ex_value r = strip (sg_value s) \<and> ex_type r = sg_type s \<and>
             well_formed six (sg_type s) (strip (sg_value s)))
      | Exclude_From_Case i t v s note \<Rightarrow>
          u_role (rq_user rq) \<in> {Analyst, Admin} \<and> ex_created_by r = Some (u_id (rq_user rq)) \<and>
          ioc_to_exclusion t v = Some (ex_type r, ex_value r) \<and>
          (\<exists>inc. get_incident i (xd_cases db) = Some inc \<and> in_scope (i_tenant_id inc) (rq_scope rq) \<and>
             (ex_customer r = i_customer inc \<or> ex_customer r = None \<and> s = ''global''))
      | _ \<Rightarrow> False)"

section \<open>Lemmas\<close>

lemma audit_exclusion_rules [simp]: "xd_rules (audit_exclusion now u a i t db) = xd_rules db"
  by (simp add: audit_exclusion_def)

lemma set_suggestion_rules [simp]: "xd_rules (set_suggestion i s db) = xd_rules db"
  by (simp add: set_suggestion_def)

lemma mark_ioc_rules [simp]: "xd_rules (mark_ioc_excluded i v db) = xd_rules db"
  by (simp add: mark_ioc_excluded_def)

lemma as_admin_effect:
  "fst (as_admin u db h) = db \<or> (u_role u = Admin \<and> as_admin u db h = h)"
  by (auto simp: as_admin_def require_admin_def require_role_def raise_http_def split: if_splits)

lemma as_admin_keeps: "P db \<Longrightarrow> (u_role u = Admin \<Longrightarrow> P (fst h)) \<Longrightarrow> P (fst (as_admin u db h))"
  using as_admin_effect[of u db h] by auto

lemma insert_rule_Some:
  "insert_rule r db = Some db' \<longleftrightarrow>
     db' = db\<lparr>xd_rules := xd_rules db @ [r]\<rparr> \<and> storable r \<and> ex_id r \<notin> ex_id ` set (xd_rules db) \<and>
     (ex_value r, ex_type r) \<notin> (\<lambda>x. (ex_value x, ex_type x)) ` set (xd_rules db)"
  unfolding insert_rule_def by (simp only: option.inject split: if_split) blast

lemma insert_rule_inv:
  "allowlist_inv db \<Longrightarrow> insert_rule r db = Some db' \<Longrightarrow> allowlist_inv db'"
  by (simp add: insert_rule_Some allowlist_inv_def)

lemma contains_char: "contains [c] s \<longleftrightarrow> c \<in> set s"
  by (induction s) auto

lemma contains_scheme: "contains ''://'' v \<Longrightarrow> CHR ''/'' \<in> set v"
  by (auto simp: contains_iff_sublist sublist_def)

lemma validate_Inr:
  "validate six (Some v) (Some t) = Inr x \<longleftrightarrow> well_formed six t (strip v)"
  using contains_scheme[of "strip v"]
  by (auto simp: validate_def well_formed_def valid_types_def contains_char Let_def split: if_splits option.splits)

lemma validate_given:
  "validate six a b = Inr x \<Longrightarrow> \<exists>v t. a = Some v \<and> b = Some t \<and> well_formed six t (strip v)"
proof -
  assume v: "validate six a b = Inr x"
  then obtain w t where "a = Some w" "b = Some t"
    by (cases a; cases b) (auto simp: validate_def Let_def strip_def lstrip_def rstrip_def split: if_splits)
  with v show ?thesis by (simp add: validate_Inr)
qed

lemma patched_Some:
  "patched p r = Some r' \<Longrightarrow>
     ex_id r' = ex_id r \<and> ex_customer r' = ex_customer r \<and> ex_created_by r' = ex_created_by r \<and>
     given_or (xp_value p) (ex_value r) = Some (ex_value r') \<and> given_or (xp_type p) (ex_type r) = Some (ex_type r')"
  by (auto simp: patched_def split: option.splits)

text \<open>What each request does to the table of rules.\<close>

definition puts :: "ipv6_syntax \<Rightarrow> allowlist_request \<Rightarrow> allowlist_db \<Rightarrow> allowlist_db \<Rightarrow> bool" where
  "puts six rq db db' \<longleftrightarrow>
     (allowlist_inv db \<longrightarrow> allowlist_inv db') \<and>
     (\<forall>r \<in> set (xd_rules db'). r \<in> set (xd_rules db) \<or> rule_warranted six rq db r)"

lemma puts_same: "xd_rules db' = xd_rules db \<Longrightarrow> puts six rq db db'"
  by (simp add: puts_def allowlist_inv_def)

lemma puts_insert:
  "insert_rule r db = Some db1 \<Longrightarrow> xd_rules db' = xd_rules db1 \<Longrightarrow> rule_warranted six rq db r \<Longrightarrow> puts six rq db db'"
  using insert_rule_inv[of db r db1] by (auto simp: puts_def allowlist_inv_def insert_rule_Some)

lemmas puts_rules = handler_keeps[where P = "puts six rq db" for six rq db] as_admin_keeps[where P = "puts six rq db" for six rq db]

lemma puts_refl: "puts six rq db db"
  by (rule puts_same) simp

lemma puts_audit: "puts six rq db d \<Longrightarrow> puts six rq db (audit_exclusion now u a j t d)"
  by (simp add: puts_def allowlist_inv_def)

lemma create_puts:
  assumes "rq_op rq = Add_Rule v t note e c"
  shows "puts six rq db (fst (create_exclusion six now n v t note e c (rq_user rq) db))"
  unfolding create_exclusion_def
proof (intro puts_rules puts_refl puts_audit)
  fix x r db'
  assume a: "u_role (rq_user rq) = Admin" "validate six (Some v) (Some t) = Inr x"
    and r: "r = \<lparr>ex_id = n, ex_value = strip v, ex_type = t, ex_notes = note, ex_enabled = e,
      ex_customer = or_null (opt_str c), ex_created_by = Some (u_id (rq_user rq))\<rparr>" and i: "insert_rule r db = Some db'"
  have "rule_warranted six rq db r" using a by (simp add: rule_warranted_def assms validate_Inr r)
  then show "puts six rq db db'" by (intro puts_insert[OF i]) simp_all
qed

lemma approve_puts:
  assumes "rq_op rq = Approve_Suggestion i"
  shows "puts six rq db (fst (approve_suggestion six now n i (rq_user rq) db))"
  unfolding approve_suggestion_def
proof (intro puts_rules puts_refl puts_audit)
  fix s x r db'
  assume a: "u_role (rq_user rq) = Admin" "validate six (Some (sg_value s)) (Some (sg_type s)) = Inr x"
    and s: "get_row sg_id i (cd_suggestions (xd_cases db)) = Some s" "sg_status s \<noteq> ''approved''"
    and r: "r = \<lparr>ex_id = n, ex_value = strip (sg_value s), ex_type = sg_type s, ex_notes = Some (suggestion_note s),
      ex_enabled = True, ex_customer = sg_customer s, ex_created_by = Some (u_id (rq_user rq))\<rparr>"
    and i: "insert_rule r db = Some db'"
  have "rule_warranted six rq db r"
    using a get_row_Some[OF s(1)] s(2) by (auto simp: rule_warranted_def assms validate_Inr r)
  then show "puts six rq db (set_suggestion i ''approved'' db')" by (intro puts_insert[OF i]) simp_all
qed

lemma exclude_puts:
  assumes "rq_op rq = Exclude_From_Case i t v s note"
  shows "puts six rq db (fst (exclude_ioc now n i t v s note (rq_user rq) (rq_scope rq) db))"
  unfolding exclude_ioc_def
proof (intro puts_rules puts_refl puts_audit)
  show "puts six rq db (mark_ioc_excluded i v db)" by (rule puts_same) simp
next
  fix m inc y p ty va cu r db' marked
  assume u: "require_analyst (rq_user rq) = Inr m"
    and inc: "get_incident i (xd_cases db) = Some inc" and sc: "require_in_scope (i_tenant_id inc) (rq_scope rq) = Inr y"
    and m: "ioc_to_exclusion t v = Some p" "p = (ty, va)" and cu: "cu = (if s \<noteq> ''global'' then i_customer inc else None)"
    and r: "r = \<lparr>ex_id = n, ex_value = va, ex_type = ty,
      ex_notes = (if truthy_str note then note else
        Some (''excluded by '' @ u_email (rq_user rq) @ '' from '' @ i_case_number inc)),
      ex_enabled = True, ex_customer = cu, ex_created_by = Some (u_id (rq_user rq))\<rparr>"
    and i: "insert_rule r db = Some db'" and mk: "marked = mark_ioc_excluded i v db'"
  have "u_role (rq_user rq) \<in> {Analyst, Admin}" using u by (auto simp: require_analyst_def require_role_def split: if_splits)
  moreover have "in_scope (i_tenant_id inc) (rq_scope rq)" using sc by (simp add: require_in_scope_def split: if_splits)
  ultimately have "rule_warranted six rq db r" using inc m by (auto simp: rule_warranted_def assms r cu)
  then show "puts six rq db (marked\<lparr>xd_cases := add_timeline now (u_email (rq_user rq)) ''analyst_exclude'' i (xd_cases marked)\<rparr>)"
    by (intro puts_insert[OF i]) (simp_all add: mk)
qed

lemma delete_puts: "puts six rq db (fst (delete_exclusion now i u db))"
  unfolding delete_exclusion_def
proof (intro puts_rules puts_refl)
  fix r db' assume "db' = audit_exclusion now u ''exclusion.delete'' i None db"
  then show "puts six rq db (db'\<lparr>xd_rules := del_row ex_id i (xd_rules db')\<rparr>)"
    by (simp add: puts_def allowlist_inv_def del_row_def distinct_map_filter)
qed

lemma patch_puts:
  assumes op: "rq_op rq = Amend_Rule i p"
  shows "puts six rq db (fst (patch_exclusion six now i p (rq_user rq) db))"
  unfolding patch_exclusion_def
proof (intro puts_rules puts_refl puts_audit)
  fix r x r'
  assume admin: "u_role (rq_user rq) = Admin"
    and r: "get_row ex_id i (xd_rules db) = Some r" and p: "patched p r = Some r'"
    and v: "(if xp_value p \<noteq> None \<or> xp_type p \<noteq> None
        then validate six (given_or (xp_value p) (ex_value r)) (given_or (xp_type p) (ex_type r)) else Inr ()) = Inr x"
    and free: "\<not> list_ex (\<lambda>x. ex_id x \<noteq> i \<and> (ex_value x, ex_type x) = (ex_value r', ex_type r')) (xd_rules db)"
    from r have rr: "r \<in> set (xd_rules db)" "ex_id r = i" using get_row_Some[OF r] by simp_all
    from patched_Some[OF p] rr have id: "ex_id r' = i" "ex_customer r' = ex_customer r" "ex_created_by r' = ex_created_by r" by simp_all
    have "(ex_value r', ex_type r') = (ex_value r, ex_type r) \<or> well_formed six (ex_type r') (strip (ex_value r'))"
    proof (cases "xp_value p \<noteq> None \<or> xp_type p \<noteq> None")
      case True
      from validate_given[of six _ _ x] v True patched_Some[OF p] show ?thesis by auto
    next
      case False
      with patched_Some[OF p] show ?thesis by (simp add: given_or_def)
    qed
    with rr id admin have w: "rule_warranted six rq db r'"
      by (auto simp: rule_warranted_def op)
    have "allowlist_inv (db\<lparr>xd_rules := upd_row ex_id i (\<lambda>_. r') (xd_rules db)\<rparr>)" if inv: "allowlist_inv db"
    proof -
      let ?k = "\<lambda>r. (ex_value r, ex_type r)"
      have ids: "map ex_id (upd_row ex_id i (\<lambda>_. r') (xd_rules db)) = map ex_id (xd_rules db)"
        by (auto simp: upd_row_def id)
      have "?k r' = ?k r \<or> ?k r' \<notin> ?k ` set (xd_rules db)"
      proof (cases "?k r' \<in> ?k ` set (xd_rules db)")
        case True
        then obtain y where y: "y \<in> set (xd_rules db)" "?k y = ?k r'" by fastforce
        with free have "ex_id y = i" by (auto simp: list_ex_iff)
        with y(1) r inv have "y = r" using get_row_in[of ex_id "xd_rules db" y] by (simp add: allowlist_inv_def)
        with y(2) show ?thesis by simp
      qed simp
      then have "distinct (map ?k (upd_row ex_id i (\<lambda>_. r') (xd_rules db)))"
        using inv r by (intro distinct_upd_row) (simp_all add: allowlist_inv_def)
      with ids inv show ?thesis by (simp add: allowlist_inv_def)
    qed
    with w show "puts six rq db (db\<lparr>xd_rules := upd_row ex_id i (\<lambda>_. r') (xd_rules db)\<rparr>)"
      by (auto simp: puts_def set_upd_row)
qed

lemma dismiss_puts: "puts six rq db (fst (dismiss_suggestion now i u db))"
  unfolding dismiss_suggestion_def by (intro puts_rules puts_refl puts_audit) (rule puts_same, simp)

lemma allowlist_step_puts: "puts six rq db (allowlist_step six rq db)"
  by (cases "rq_op rq")
    (simp_all add: allowlist_step_def create_puts approve_puts exclude_puts delete_puts patch_puts dismiss_puts puts_same
      split: option.split)

interpretation allowlist: accountable "allowlist_step six" "\<lambda>_. True" allowlist_inv "\<lambda>db. set (xd_rules db)" "rule_warranted six" for six
proof
  fix db rq r
  show "allowlist_inv db \<Longrightarrow> allowlist_inv (allowlist_step six rq db)"
    using allowlist_step_puts[of six rq db] by (simp add: puts_def)
  show "r \<in> set (xd_rules (allowlist_step six rq db)) \<Longrightarrow> r \<in> set (xd_rules db) \<or> rule_warranted six rq db r"
    using allowlist_step_puts[of six rq db] by (simp add: puts_def)
qed


section \<open>Who may suppress an indicator\<close>

lemma set_aside:
  "x \<in> set (snd (apply_exclusions six table customer iocs)) \<Longrightarrow>
     xi_rule x \<in> set (active_rules table customer) \<and> covers six (xi_rule x) (xi_type x, xi_value x)"
  using split_iocs_spec[of six "active_rules table customer" iocs] by (simp add: apply_exclusions_def)

lemma active_rule: "r \<in> set (active_rules table customer) \<longleftrightarrow>
    r \<in> set table \<and> ex_enabled r \<and> (\<not> truthy_str (ex_customer r) \<or> ex_customer r = customer)"
  by (auto simp: active_rules_def)

lemma put_by_a_request:
  assumes "allowlist_inv db" "r \<in> set (xd_rules (run_allowlist six rqs db))"
  shows "r \<in> set (xd_rules db) \<or>
    (\<exists>pre rq post. rqs = pre @ rq # post \<and> rule_warranted six rq (run_allowlist six pre db) r)"
  using allowlist.accounted[OF assms(1), of rqs r six] assms(2) by (auto simp: run_allowlist_def)

text \<open>C34. Suppression is accounted for. After any sequence of administration requests, analysts' exclusions,
  verdicts with their auto-tuning and changes by the other components, the table has one rule per value and type,
  and an indicator the filter sets aside for a customer is covered by an enabled rule, global or of that customer,
  that was in the table before or that one request of the sequence put there: an administrator's, with a value of
  the rule's type (for an approved suggestion, only for the customer it was counted for), or an analyst's on an
  incident in scope, for that incident's customer unless asked to be global. Auto-tuning alone never suppresses
  anything.\<close>

theorem suppression_is_accounted_for:
  assumes "allowlist_inv db"
  shows "allowlist_inv (run_allowlist six rqs db) \<and>
    (\<forall>x \<in> set (snd (apply_exclusions six (xd_rules (run_allowlist six rqs db)) customer iocs)).
       ex_enabled (xi_rule x) \<and> (\<not> truthy_str (ex_customer (xi_rule x)) \<or> ex_customer (xi_rule x) = customer) \<and>
       covers six (xi_rule x) (xi_type x, xi_value x) \<and>
       (xi_rule x \<in> set (xd_rules db) \<or>
        (\<exists>pre rq post. rqs = pre @ rq # post \<and> rule_warranted six rq (run_allowlist six pre db) (xi_rule x))))"
proof (intro conjI ballI)
  show "allowlist_inv (run_allowlist six rqs db)" using allowlist.run_inv[OF assms, of rqs six] by (simp add: run_allowlist_def)
  fix x assume "x \<in> set (snd (apply_exclusions six (xd_rules (run_allowlist six rqs db)) customer iocs))"
  from set_aside[OF this] have x: "xi_rule x \<in> set (xd_rules (run_allowlist six rqs db))" "ex_enabled (xi_rule x)"
    "\<not> truthy_str (ex_customer (xi_rule x)) \<or> ex_customer (xi_rule x) = customer"
    "covers six (xi_rule x) (xi_type x, xi_value x)" by (simp_all add: active_rule)
  show "ex_enabled (xi_rule x)" "\<not> truthy_str (ex_customer (xi_rule x)) \<or> ex_customer (xi_rule x) = customer"
    "covers six (xi_rule x) (xi_type x, xi_value x)" by (rule x)+
  show "xi_rule x \<in> set (xd_rules db) \<or>
      (\<exists>pre rq post. rqs = pre @ rq # post \<and> rule_warranted six rq (run_allowlist six pre db) (xi_rule x))"
    by (rule put_by_a_request[OF assms x(1)])
qed

text \<open>An analyst excludes an address; in between the auto-tuner runs.\<close>

definition example_allowlist :: allowlist_db where
  "example_allowlist =
     \<lparr>xd_rules = [], xd_cases = empty_case_db\<lparr>cd_incidents := [example_incident 1 Awaiting_Review],
        cd_iocs := [\<lparr>ir_incident_id = 1, ir_type = Ipv4, ir_value = ''8.8.8.8'', ir_excluded = False\<rparr>]\<rparr>\<rparr>"

definition example_exclusion_requests :: "allowlist_request list" where
  "example_exclusion_requests =
     [\<lparr>rq_now = 1, rq_new_id = 5, rq_user = example_user 2 Analyst, rq_scope = None, rq_op = Verdict_Hook 1 (\<lambda>_. 9)\<rparr>,
      \<lparr>rq_now = 2, rq_new_id = 6, rq_user = example_user 2 Analyst, rq_scope = None,
       rq_op = Exclude_From_Case 1 ''ipv4'' ''8.8.8.8'' ''customer'' None\<rparr>]"

definition no_ipv6 :: ipv6_syntax where
  "no_ipv6 = (\<lambda>_. None)"

lemma strip_example [simp]: "strip ''8.8.8.8'' = ''8.8.8.8''"
  by (simp add: strip_def lstrip_def rstrip_def is_space_def char_code_def)

lemma lower_types [simp]:
  "lower ''ipv4'' = ''ipv4''" "lower ''ipv6'' = ''ipv6''" "lower ''domain'' = ''domain''" "lower ''url'' = ''url''"
  "lower ''email'' = ''email''" "lower ''sha256'' = ''sha256''" "lower ''sha1'' = ''sha1''" "lower ''md5'' = ''md5''"
  by (simp_all add: lower_def lower_char_def char_code_def)

lemmas allowlist_example_defs = example_allowlist_def example_exclusion_requests_def example_user_def example_incident_def
  empty_case_db_def

lemma example_allowlist_run:
  "map (\<lambda>r. (ex_type r, ex_value r, ex_customer r)) (xd_rules (run_allowlist no_ipv6 example_exclusion_requests example_allowlist)) =
     [(''ip'', ''8.8.8.8'', Some ''ACME'')]"
  by (simp add: allowlist_example_defs run_allowlist_def allowlist_step_def record_fp_verdict_def exclude_ioc_def require_analyst_def
      require_role_def require_in_scope_def in_scope_def get_incident_def ioc_to_exclusion_def insert_rule_def storable_def
      fits_def reply_def mark_ioc_excluded_def Let_def)

lemma example_allowlist_filter:
  "snd (apply_exclusions no_ipv6 (xd_rules (run_allowlist no_ipv6 example_exclusion_requests example_allowlist))
          (Some ''ACME'') [(''ipv4'', ''8.8.8.8'')]) \<noteq> []"
  using example_allowlist_run
  by (simp add: allowlist_example_defs run_allowlist_def allowlist_step_def record_fp_verdict_def exclude_ioc_def require_analyst_def
      require_role_def require_in_scope_def in_scope_def get_incident_def ioc_to_exclusion_def insert_rule_def storable_def
      fits_def reply_def mark_ioc_excluded_def Let_def apply_exclusions_def active_rules_def ioc_hit_def ip_hit_def keyed_def
      bucket_def rule_value_def)

theorem suppression_is_accounted_for_witness:
  "\<exists>x pre rq post. x \<in> set (snd (apply_exclusions no_ipv6 (xd_rules (run_allowlist no_ipv6 example_exclusion_requests
        example_allowlist)) (Some ''ACME'') [(''ipv4'', ''8.8.8.8'')])) \<and>
     example_exclusion_requests = pre @ rq # post \<and>
     rule_warranted no_ipv6 rq (run_allowlist no_ipv6 pre example_allowlist) (xi_rule x)"
proof -
  have inv: "allowlist_inv example_allowlist" and e: "xd_rules example_allowlist = []"
    by (simp_all add: allowlist_inv_def example_allowlist_def)
  from example_allowlist_filter obtain x where
    x: "x \<in> set (snd (apply_exclusions no_ipv6 (xd_rules (run_allowlist no_ipv6 example_exclusion_requests
        example_allowlist)) (Some ''ACME'') [(''ipv4'', ''8.8.8.8'')]))" by (meson ex_in_conv set_empty)
  with suppression_is_accounted_for[OF inv, of no_ipv6 example_exclusion_requests "Some ''ACME''" "[(''ipv4'', ''8.8.8.8'')]"]
  show ?thesis by (auto simp: e)
qed

section \<open>What an analyst's exclusion does\<close>

lemma lower_char_low: "char_code c < 65 \<Longrightarrow> lower_char d = c \<longleftrightarrow> d = c"
proof -
  assume c: "char_code c < 65"
  have "char_code (lower_char d) = char_code d + 32" if "65 \<le> char_code d" "char_code d \<le> 90"
    using that by (simp add: lower_char_def char_code_char_of)
  with c show ?thesis by (auto simp: lower_char_def)
qed

lemma low_chars [simp]:
  "char_code (CHR ''#'') < 65" "char_code (CHR ''?'') < 65" "char_code (CHR ''/'') < 65" "char_code (CHR '':'') < 65"
  "char_code (CHR ''@'') < 65" "char_code (CHR ''.'') < 65"
  by (simp_all add: char_code_def)

lemma before_first_lower: "char_code c < 65 \<Longrightarrow> before_first c (lower s) = lower (before_first c s)"
  by (simp add: before_first_def lower_def takeWhile_map comp_def lower_char_low)

lemma lower_member: "char_code c < 65 \<Longrightarrow> c \<in> set (lower s) \<longleftrightarrow> c \<in> set s"
  unfolding lower_def set_map image_iff using lower_char_low[of c] by metis

lemma after_first_lower: "char_code c < 65 \<Longrightarrow> after_first c (lower s) = lower (after_first c s)"
  by (simp add: after_first_def lower_member) (simp add: lower_def dropWhile_map comp_def lower_char_low map_tl[symmetric])

lemma after_last_lower: "char_code c < 65 \<Longrightarrow> after_last c (lower s) = lower (after_last c s)"
  by (simp add: after_last_def lower_def rev_map takeWhile_map comp_def lower_char_low)

lemma rstrip_char_lower: "char_code c < 65 \<Longrightarrow> rstrip_char c (lower s) = lower (rstrip_char c s)"
  by (simp add: rstrip_char_def lower_def rev_map dropWhile_map comp_def lower_char_low)

lemma is_space_lower [simp]: "is_space (lower_char c) = is_space c"
  by (auto simp: lower_char_def is_space_def char_code_char_of)

lemma strip_lower: "strip (lower s) = lower (strip s)"
  by (simp add: strip_def lstrip_def rstrip_def lower_def rev_map dropWhile_map comp_def)

lemma prefix_lower: "list_all (\<lambda>c. char_code c < 65) p \<Longrightarrow> prefix p (lower s) \<longleftrightarrow> prefix p s"
proof (induction p arbitrary: s)
  case (Cons c p)
  then show ?case by (cases s) (auto simp: lower_def lower_char_low eq_commute[of c])
qed simp

lemma after_scheme_lower: "after_scheme (lower s) = map_option lower (after_scheme s)"
proof (induction s)
  case (Cons c s)
  have "prefix ''://'' (lower (c # s)) \<longleftrightarrow> prefix ''://'' (c # s)" by (rule prefix_lower) simp
  with Cons show ?case by (simp add: lower_def drop_map)
qed simp

lemma case_host_is_the_filters: "case_host_of_url v = Some d \<Longrightarrow> filter_host_of (lower v) = Some d \<and> lower d = d"
  by (auto simp: case_host_of_url_def filter_host_of_def or_null_def after_scheme_lower before_first_lower after_first_lower
      Let_def split: option.splits if_splits)

definition suppressible :: "string list" where
  "suppressible = [''ipv4'', ''ipv6'', ''domain'', ''url'', ''email'', ''sha256'', ''sha1'', ''md5'']"

text \<open>The rule an indicator is turned into covers that indicator.\<close>

lemma ioc_rule_covers:
  assumes "ioc_to_exclusion t v = Some (k, d)" "t \<in> set suppressible" "strip d = d" "ex_type r = k" "ex_value r = d"
  shows "covers six r (t, v)"
proof -
  have n: "strip v \<noteq> []" using assms(1) by (auto simp: ioc_to_exclusion_def Let_def)
  have w: "rule_value r = d" using assms by (simp add: rule_value_def)
  consider (ip) "t \<in> {''ipv4'', ''ipv6''}" | (host) "t \<in> {''domain'', ''url'', ''email''}"
    | (hash) "t \<in> {''sha256'', ''sha1'', ''md5''}"
    using assms(2) unfolding suppressible_def list.set insert_iff empty_iff by argo
  then show ?thesis
  proof cases
    case ip
    then have "k = ''ip'' \<and> d = strip v" using assms(1) n by (elim insertE emptyE) (simp_all add: ioc_to_exclusion_def Let_def)
    with n w assms(4) show ?thesis unfolding covers_ip[OF ip] by simp
  next
    case host
    have "k = ''domain'' \<and> d \<noteq> [] \<and> indicator_host t (lower (strip v)) = Some d \<and> lower d = d"
      using assms(1) n host
    proof (elim insertE emptyE)
      assume "t = ''domain''"
      with assms(1) n show ?thesis by (auto simp: ioc_to_exclusion_def Let_def indicator_host_def)
    next
      assume t: "t = ''url''"
      with assms(1) n have "case_host_of_url (strip v) = Some d" "k = ''domain''"
        by (simp_all add: ioc_to_exclusion_def Let_def)
      moreover from this have "d \<noteq> []" by (auto simp: case_host_of_url_def or_null_def Let_def split: if_splits)
      ultimately show ?thesis using t case_host_is_the_filters by (simp add: indicator_host_def)
    next
      assume t: "t = ''email''"
      with assms(1) n have "CHR ''@'' \<in> set (strip v)" "k = ''domain''"
        and d: "or_null (rstrip_char (CHR ''.'') (lower (strip (after_last (CHR ''@'') (strip v))))) = Some d"
        by (simp_all add: ioc_to_exclusion_def Let_def split: if_splits)
      moreover from d have "d \<noteq> []" "lower d = d" by (auto simp: or_null_def rstrip_char_lower split: if_splits)
      ultimately show ?thesis using t
        by (simp add: indicator_host_def lower_member after_last_lower strip_lower or_null_def split: if_splits)
    qed
    with n w assms(4) show ?thesis unfolding covers_host[OF host] by (auto simp: below_or_equal_def)
  next
    case hash
    then have "k = ''hash'' \<and> d = lower (strip v)" using assms(1) n by (elim insertE emptyE) (simp_all add: ioc_to_exclusion_def Let_def)
    with n w assms(4) show ?thesis unfolding covers_hash[OF hash] by simp
  qed
qed

lemma exclude_ioc_new:
  assumes "exclude_ioc now n i t v s note u sc db = (db', Inr (Excluded_Now m))" "get_incident i (xd_cases db) = Some inc"
  shows "\<exists>k d r. ioc_to_exclusion t v = Some (k, d) \<and> ex_type r = k \<and> ex_value r = d \<and> ex_enabled r \<and>
    ex_customer r = (if s \<noteq> ''global'' then i_customer inc else None) \<and> xd_rules db' = xd_rules db @ [r] \<and>
    cd_iocs (xd_cases db') = cd_iocs (xd_cases (mark_ioc_excluded i v db))"
  using assms
  by (auto simp: exclude_ioc_def raise_http_def reply_def insert_rule_Some mark_ioc_excluded_def audit_exclusion_def add_timeline_def
      Let_def split: sum.splits http_error.splits option.splits if_splits)


lemma covered_is_dropped:
  assumes "r \<in> set (active_rules table customer)" "covers six r ioc"
  shows "ioc \<notin> set (fst (apply_exclusions six table customer iocs))"
  using assms split_iocs_spec[of six "active_rules table customer" iocs] by (auto simp: apply_exclusions_def list_ex_iff)

lemma exclude_ioc_already:
  assumes "exclude_ioc now n i t v s note u sc db = (db', Inr (Already_Excluded m))"
  shows "\<exists>k d r. ioc_to_exclusion t v = Some (k, d) \<and> r \<in> set (xd_rules db) \<and> ex_id r = m \<and> ex_type r = k \<and>
    ex_value r = d \<and> db' = mark_ioc_excluded i v db"
  using assms
  by (auto simp: exclude_ioc_def raise_http_def reply_def Let_def dest!: find_Some_in
      split: sum.splits http_error.splits option.splits if_splits)

text \<open>C35. Excluding an indicator from the table of an incident suppresses it. When \<open>exclude_ioc\<close> succeeds for an
  indicator of a type the filter knows, whose value or host has no white space around it, the rows of the indicator on
  the incident and only those are flagged. If it answers that it created a rule, then on the allowlist as it is right
  after, the filter no longer lets the indicator through for the incident's customer, and, unless the rule was asked
  to be global or the incident has no customer, its result for every other customer is what it was. If it answers that
  the indicator is excluded already, the allowlist stays as it is: the indicator is suppressed if the rule it found is
  enabled and either global or of the incident's customer, which the handler does not check.\<close>

theorem excluded_indicator_is_suppressed:
  assumes "exclude_ioc now n i t v s note u sc db = (db', Inr answer)"
    "get_incident i (xd_cases db) = Some inc" "t \<in> set suppressible"
    "ioc_to_exclusion t v = Some (k, d)" "strip d = d"
  shows "cd_iocs (xd_cases db') =
        map (\<lambda>r. if ir_incident_id r = i \<and> lower (ir_value r) = lower (strip v) then r\<lparr>ir_excluded := True\<rparr> else r)
          (cd_iocs (xd_cases db))
    \<and> (case answer of
         Excluded_Now _ \<Rightarrow>
           (t, v) \<notin> set (fst (apply_exclusions six (xd_rules db') (i_customer inc) iocs)) \<and>
           (s \<noteq> ''global'' \<and> truthy_str (i_customer inc) \<and> customer \<noteq> i_customer inc \<longrightarrow>
              apply_exclusions six (xd_rules db') customer iocs = apply_exclusions six (xd_rules db) customer iocs)
       | Already_Excluded m \<Rightarrow>
           xd_rules db' = xd_rules db \<and>
           (\<exists>r \<in> set (xd_rules db). ex_id r = m \<and> ex_type r = k \<and> ex_value r = d \<and>
              (ex_enabled r \<and> ex_customer r \<in> {None, i_customer inc} \<longrightarrow>
                 (t, v) \<notin> set (fst (apply_exclusions six (xd_rules db') (i_customer inc) iocs)))))"
proof -
  have dropped: "(t, v) \<notin> set (fst (apply_exclusions six table (i_customer inc) iocs))"
    if "r \<in> set table" "ex_type r = k" "ex_value r = d" "ex_enabled r" "ex_customer r \<in> {None, i_customer inc}" for r table
  proof (rule covered_is_dropped)
    show "r \<in> set (active_rules table (i_customer inc))" using that by (auto simp: active_rule)
    show "covers six r (t, v)" by (rule ioc_rule_covers[OF assms(4,3,5) that(2,3)])
  qed
  show ?thesis
  proof (cases answer)
    case (Excluded_Now m)
    from exclude_ioc_new[OF assms(1)[unfolded Excluded_Now] assms(2)] assms(4) obtain r where
      r: "ex_type r = k" "ex_value r = d" "ex_enabled r" "ex_customer r = (if s \<noteq> ''global'' then i_customer inc else None)"
        "xd_rules db' = xd_rules db @ [r]" and c: "cd_iocs (xd_cases db') = cd_iocs (xd_cases (mark_ioc_excluded i v db))"
      by auto
    have "(t, v) \<notin> set (fst (apply_exclusions six (xd_rules db') (i_customer inc) iocs))"
      by (rule dropped[of r]) (use r in auto)
    moreover have "active_rules (xd_rules db') customer = active_rules (xd_rules db) customer"
      if "s \<noteq> ''global'' \<and> truthy_str (i_customer inc) \<and> customer \<noteq> i_customer inc"
      using r that by (auto simp: active_rules_def)
    ultimately show ?thesis using c by (simp add: Excluded_Now apply_exclusions_def mark_ioc_excluded_def)
  next
    case (Already_Excluded m)
    from exclude_ioc_already[OF assms(1)[unfolded Already_Excluded]] assms(4) obtain r where
      r: "r \<in> set (xd_rules db)" "ex_id r = m" "ex_type r = k" "ex_value r = d" and db': "db' = mark_ioc_excluded i v db"
      by auto
    then have x: "xd_rules db' = xd_rules db" by (simp add: mark_ioc_excluded_def)
    have "\<exists>r \<in> set (xd_rules db). ex_id r = m \<and> ex_type r = k \<and> ex_value r = d \<and>
        (ex_enabled r \<and> ex_customer r \<in> {None, i_customer inc} \<longrightarrow>
           (t, v) \<notin> set (fst (apply_exclusions six (xd_rules db') (i_customer inc) iocs)))"
      by (rule bexI[OF _ r(1)]) (use r dropped[of r] x in simp)
    with x show ?thesis by (simp add: Already_Excluded db' mark_ioc_excluded_def)
  qed
qed

definition example_exclude :: "(allowlist_db, exclude_reply) handled" where
  "example_exclude = exclude_ioc 2 6 1 ''ipv4'' ''8.8.8.8'' ''customer'' None (example_user 2 Analyst) None example_allowlist"

lemma example_exclude_created:
  "snd example_exclude = Inr (Excluded_Now 6)" "get_incident 1 (xd_cases example_allowlist) = Some (example_incident 1 Awaiting_Review)"
  "i_customer (example_incident 1 Awaiting_Review) = Some ''ACME''"
  "''ipv4'' \<in> set suppressible" "ioc_to_exclusion ''ipv4'' ''8.8.8.8'' = Some (''ip'', ''8.8.8.8'')"
  by (simp_all add: example_exclude_def allowlist_example_defs exclude_ioc_def require_analyst_def suppressible_def
      require_role_def require_in_scope_def in_scope_def get_incident_def ioc_to_exclusion_def insert_rule_def storable_def
      fits_def reply_def Let_def)

lemma excluded_indicator_is_suppressed_witness:
  "(''ipv4'', ''8.8.8.8'') \<notin> set (fst (apply_exclusions no_ipv6 (xd_rules (fst example_exclude)) (Some ''ACME'') [(''ipv4'', ''8.8.8.8'')])) \<and>
   apply_exclusions no_ipv6 (xd_rules (fst example_exclude)) (Some ''B'') [(''ipv4'', ''8.8.8.8'')] =
     apply_exclusions no_ipv6 (xd_rules example_allowlist) (Some ''B'') [(''ipv4'', ''8.8.8.8'')]"
proof -
  have e: "exclude_ioc 2 6 1 ''ipv4'' ''8.8.8.8'' ''customer'' None (example_user 2 Analyst) None example_allowlist =
    (fst example_exclude, Inr (Excluded_Now 6))"
    using example_exclude_created(1) by (simp add: example_exclude_def prod_eq_iff)
  show ?thesis
    using excluded_indicator_is_suppressed[OF e example_exclude_created(2,4,5), of no_ipv6 "[(''ipv4'', ''8.8.8.8'')]" "Some ''B''"]
    by (simp add: example_incident_def)
qed

section \<open>Two gaps of the review queue\<close>

text \<open>A conflict leaves the suggestion as it was, although the handler means it to count as approved.\<close>

lemma approve_conflict_changes_nothing:
  "snd (approve_suggestion six now n i u db) = Inl e \<Longrightarrow> fst (approve_suggestion six now n i u db) = db"
  by (auto simp: approve_suggestion_def as_admin_def raise_http_def reply_def Let_def
      split: sum.splits http_error.splits option.splits if_splits)

text \<open>The limit is applied before the corroboration test: a suggestion seen under one rule only, with a high
  confidence, hides one that is ready.\<close>

definition example_suggestion :: "uid \<Rightarrow> nat \<Rightarrow> string list \<Rightarrow> suggestion" where
  "example_suggestion i fps rules =
     \<lparr>sg_id = i, sg_value = show_nat i, sg_type = ''ip'', sg_customer = None, sg_fp_count = fps, sg_seen_rules = rules,
      sg_seen_incidents = [0..<fps], sg_last_rule = None, sg_first_seen = 0, sg_last_seen = None,
      sg_confidence = confidence_score fps (length rules), sg_status = ''pending''\<rparr>"

lemma ready_suggestion_is_hidden:
  "is_promotable (example_suggestion 2 3 [''a'', ''b''])"
  "list_suggestions ''pending'' True 1
     \<lparr>xd_rules = [], xd_cases = empty_case_db\<lparr>cd_suggestions :=
        [example_suggestion 1 6 [''a''], example_suggestion 2 3 [''a'', ''b'']]\<rparr>\<rparr> = []"
  by (simp_all add: list_suggestions_def example_suggestion_def is_promotable_def promote_min_fp_def promote_min_rules_def
      confidence_score_def empty_case_db_def less_eq_prod_def)

end
