(* ===== verification/Unicode_Text.thy ===== *)
theory Unicode_Text
  imports Py_Value
begin

text \<open>
  Texts of arbitrary content: what Python's \<open>str\<close>, \<open>bytes\<close> and \<open>re\<close> do where the code looks for
  indicators and payloads. A text is the list of its code points, a byte string the list of its bytes. The codecs
  UTF-8 and UTF-16 are written out; of the Unicode database only ASCII is, the rest (letters, digits, case) is the
  parameter \<open>unicode\<close>. A regular expression is the function that matches it at one position; \<open>scan\<close>
  collects the matches that do not overlap, as \<open>findall\<close> does.
\<close>

type_synonym utext = "nat list"
type_synonym bytes = "nat list"

definition utf :: "string \<Rightarrow> utext" where
  "utf s = map char_code s"

record unicode =
  uc_alnum :: "nat \<Rightarrow> bool"          \<comment> \<open>\<open>isalnum\<close> beyond ASCII\<close>
  uc_decimal :: "nat \<Rightarrow> nat option"   \<comment> \<open>the value of a decimal digit beyond ASCII, \<open>\d\<close>\<close>
  uc_isdigit :: "nat \<Rightarrow> bool"        \<comment> \<open>\<open>isdigit\<close> beyond ASCII\<close>
  uc_lower :: "utext \<Rightarrow> utext"        \<comment> \<open>\<open>lower\<close> of a text that is not ASCII\<close>

section \<open>Character classes\<close>

definition ascii :: "utext \<Rightarrow> bool" where
  "ascii s \<longleftrightarrow> list_all (\<lambda>c. c < 128) s"

definition u_upper :: "nat \<Rightarrow> bool" where "u_upper c \<longleftrightarrow> 65 \<le> c \<and> c \<le> 90"
definition u_lowercase :: "nat \<Rightarrow> bool" where "u_lowercase c \<longleftrightarrow> 97 \<le> c \<and> c \<le> 122"
definition u_letter :: "nat \<Rightarrow> bool" where "u_letter c \<longleftrightarrow> u_upper c \<or> u_lowercase c"
definition u_digit :: "nat \<Rightarrow> bool" where "u_digit c \<longleftrightarrow> 48 \<le> c \<and> c \<le> 57"

definition u_hex :: "nat \<Rightarrow> bool" where
  "u_hex c \<longleftrightarrow> u_digit c \<or> 97 \<le> c \<and> c \<le> 102 \<or> 65 \<le> c \<and> c \<le> 70"

definition u_space :: "nat \<Rightarrow> bool" where
  "u_space c \<longleftrightarrow> 9 \<le> c \<and> c \<le> 13 \<or> 28 \<le> c \<and> c \<le> 32 \<or> c = 133 \<or> c = 160 \<or> c = 5760 \<or>
     8192 \<le> c \<and> c \<le> 8202 \<or> c = 8232 \<or> c = 8233 \<or> c = 8239 \<or> c = 8287 \<or> c = 12288"

definition is_alnum :: "unicode \<Rightarrow> nat \<Rightarrow> bool" where
  "is_alnum uc c \<longleftrightarrow> (if c < 128 then u_letter c \<or> u_digit c else uc_alnum uc c)"

definition is_word :: "unicode \<Rightarrow> nat \<Rightarrow> bool" where
  "is_word uc c \<longleftrightarrow> c = 95 \<or> is_alnum uc c"

definition decimal :: "unicode \<Rightarrow> nat \<Rightarrow> nat option" where
  "decimal uc c = (if c < 128 then (if u_digit c then Some (c - 48) else None) else uc_decimal uc c)"

definition is_decimal :: "unicode \<Rightarrow> nat \<Rightarrow> bool" where
  "is_decimal uc c \<longleftrightarrow> decimal uc c \<noteq> None"

definition is_digit_char :: "unicode \<Rightarrow> nat \<Rightarrow> bool" where
  "is_digit_char uc c \<longleftrightarrow> (if c < 128 then u_digit c else uc_isdigit uc c)"

definition ascii_lower :: "nat \<Rightarrow> nat" where
  "ascii_lower c = (if u_upper c then c + 32 else c)"

definition lower_text :: "unicode \<Rightarrow> utext \<Rightarrow> utext" where
  "lower_text uc s = (if ascii s then map ascii_lower s else uc_lower uc s)"

text \<open>Case folding of a pattern under \<open>IGNORECASE\<close>: beyond ASCII only four characters match a letter.\<close>

definition re_fold :: "nat \<Rightarrow> nat" where
  "re_fold c = (if c = 304 \<or> c = 305 then 105 else if c = 383 then 115 else if c = 8490 then 107 else ascii_lower c)"

definition starts_ci :: "string \<Rightarrow> utext \<Rightarrow> bool" where
  "starts_ci p s \<longleftrightarrow> length p \<le> length s \<and> map re_fold (take (length p) s) = utf p"

definition strip_text :: "utext \<Rightarrow> utext" where
  "strip_text s = rev (dropWhile u_space (rev (dropWhile u_space s)))"

definition hex_value :: "nat \<Rightarrow> nat" where
  "hex_value c = (if u_digit c then c - 48 else if u_upper c then c - 55 else c - 87)"

definition hex_number :: "utext \<Rightarrow> nat" where
  "hex_number s = foldl (\<lambda>a c. 16 * a + hex_value c) 0 s"

section \<open>Scanning\<close>

text \<open>A matcher sees what is before the position, nearest first, and the rest of the text; it answers what it captured
  and how much it matched.\<close>

type_synonym 'a matcher = "utext \<Rightarrow> utext \<Rightarrow> ('a \<times> nat) option"

function scan_from :: "'a matcher \<Rightarrow> utext \<Rightarrow> utext \<Rightarrow> 'a list" where
  "scan_from m past [] = []"
| "scan_from m past (c # s) =
     (case m past (c # s) of
        None \<Rightarrow> scan_from m (c # past) s
      | Some (a, n) \<Rightarrow> a # scan_from m (rev (take (Suc (n - 1)) (c # s)) @ past) (drop (n - 1) s))"
  by pat_completeness auto
termination by (relation "measure (\<lambda>(m, past, s). length s)") auto

definition scan :: "'a matcher \<Rightarrow> utext \<Rightarrow> 'a list" where
  "scan m s = scan_from m [] s"

definition run :: "(nat \<Rightarrow> bool) \<Rightarrow> utext \<Rightarrow> nat" where
  "run p s = length (takeWhile p s)"

section \<open>UTF-8 and UTF-16\<close>

definition continuation :: "nat \<Rightarrow> bool" where
  "continuation b \<longleftrightarrow> 128 \<le> b \<and> b \<le> 191"

definition trail_length :: "nat \<Rightarrow> nat" where
  "trail_length b =
     (if 194 \<le> b \<and> b \<le> 223 then 1 else if 224 \<le> b \<and> b \<le> 239 then 2 else if 240 \<le> b \<and> b \<le> 244 then 3 else 0)"

definition second_ok :: "nat \<Rightarrow> nat \<Rightarrow> bool" where
  "second_ok b c \<longleftrightarrow> continuation c \<and>
     (b = 224 \<longrightarrow> 160 \<le> c) \<and> (b = 237 \<longrightarrow> c \<le> 159) \<and> (b = 240 \<longrightarrow> 144 \<le> c) \<and> (b = 244 \<longrightarrow> c \<le> 143)"

text \<open>The longest start of a well-formed sequence: its decoded character, if it is complete, and its length.\<close>

definition utf8_trail :: "nat \<Rightarrow> bytes \<Rightarrow> nat" where
  "utf8_trail b s =
     (case take (trail_length b) s of
        [] \<Rightarrow> 0
      | c # cs \<Rightarrow> if second_ok b c then Suc (length (takeWhile continuation cs)) else 0)"

definition utf8_char :: "nat \<Rightarrow> bytes \<Rightarrow> nat option \<times> nat" where
  "utf8_char b s =
     (if b < 128 then (Some b, 0)
      else
        (let n = trail_length b; k = utf8_trail b s
         in if 0 < n \<and> k = n then (Some (foldl (\<lambda>a c. a * 64 + c mod 64) (b mod 2 ^ (6 - n)) (take n s)), n)
            else (None, k)))"

function utf8_chars :: "bytes \<Rightarrow> nat option list" where
  "utf8_chars [] = []"
| "utf8_chars (b # s) = fst (utf8_char b s) # utf8_chars (drop (snd (utf8_char b s)) s)"
  by pat_completeness auto
termination by (relation "measure length") auto

definition replacement :: nat where
  "replacement = 65533"

definition utf8_decode_replace :: "bytes \<Rightarrow> utext" where
  "utf8_decode_replace b = map (\<lambda>c. case c of None \<Rightarrow> replacement | Some x \<Rightarrow> x) (utf8_chars b)"

definition utf8_decode_strict :: "bytes \<Rightarrow> utext option" where
  "utf8_decode_strict b = those (utf8_chars b)"

text \<open>\<open>encode("utf-8", errors="replace")\<close>: a lone surrogate becomes a question mark.\<close>

definition utf8_encode_char :: "nat \<Rightarrow> bytes" where
  "utf8_encode_char c =
     (if c < 128 then [c]
      else if c < 2048 then [192 + c div 64, 128 + c mod 64]
      else if 55296 \<le> c \<and> c \<le> 57343 then [63]
      else if c < 65536 then [224 + c div 4096, 128 + c div 64 mod 64, 128 + c mod 64]
      else [240 + c div 262144, 128 + c div 4096 mod 64, 128 + c div 64 mod 64, 128 + c mod 64])"

definition utf8_encode :: "utext \<Rightarrow> bytes" where
  "utf8_encode s = concat (map utf8_encode_char s)"

fun utf16_units :: "bytes \<Rightarrow> nat list option" where
  "utf16_units [] = Some []"
| "utf16_units [b] = None"
| "utf16_units (a # b # s) = map_option (\<lambda>r. (a + 256 * b) # r) (utf16_units s)"

fun utf16_chars :: "nat list \<Rightarrow> utext option" where
  "utf16_chars [] = Some []"
| "utf16_chars (u # s) =
     (if 55296 \<le> u \<and> u \<le> 56319 then
        (case s of
           v # s' \<Rightarrow>
             (if 56320 \<le> v \<and> v \<le> 57343
              then map_option (\<lambda>r. (65536 + (u - 55296) * 1024 + (v - 56320)) # r) (utf16_chars s') else None)
         | [] \<Rightarrow> None)
      else if 56320 \<le> u \<and> u \<le> 57343 then None
      else map_option (\<lambda>r. u # r) (utf16_chars s))"

definition utf16le_decode :: "bytes \<Rightarrow> utext option" where
  "utf16le_decode b = Option.bind (utf16_units b) utf16_chars"

section \<open>Lemmas\<close>

lemma utf8_chars_ascii: "ascii s \<Longrightarrow> utf8_chars s = map Some s"
  by (induction s) (simp_all add: ascii_def utf8_char_def)

lemma utf8_decode_ascii [simp]: "ascii s \<Longrightarrow> utf8_decode_replace s = s"
  by (simp add: utf8_decode_replace_def utf8_chars_ascii comp_def)

lemma utf8_encode_ascii [simp]: "ascii s \<Longrightarrow> utf8_encode s = s"
  by (induction s) (simp_all add: ascii_def utf8_encode_def utf8_encode_char_def)

lemma utf16_ascii: "ascii s \<Longrightarrow> utf16le_decode (concat (map (\<lambda>c. [c, 0]) s)) = Some s"
proof -
  assume a: "ascii s"
  have "utf16_units (concat (map (\<lambda>c. [c, 0]) s)) = Some s" by (induction s) simp_all
  moreover from a have "utf16_chars s = Some s" by (induction s) (simp_all add: ascii_def)
  ultimately show ?thesis by (simp add: utf16le_decode_def)
qed

lemma ascii_append [simp]: "ascii (s @ t) \<longleftrightarrow> ascii s \<and> ascii t"
  by (simp add: ascii_def)

end
