(* ===== verification/Deobfuscation.thy ===== *)
theory Deobfuscation
  imports Unicode_Text "HOL-Library.While_Combinator"
begin

text \<open>
  Decoding of payloads hidden in alert fields, \<open>pipeline/deobfuscate.py\<close>: the detectors of encoded pieces, the
  decoders, the breadth-first search through the layers, and the obfuscation score. SHA-256 and the zlib
  decompressors are the parameter \<open>codecs\<close>; scores are real numbers.
\<close>

record codecs =
  cx_sha256 :: "bytes \<Rightarrow> utext"            \<comment> \<open>the hexadecimal digest\<close>
  cx_gunzip :: "bytes \<Rightarrow> bytes option"     \<comment> \<open>\<open>None\<close>: it raises\<close>
  cx_inflate :: "int \<Rightarrow> bytes \<Rightarrow> bytes option"

definition max_depth :: nat where "max_depth = 4"
definition max_artifacts :: nat where "max_artifacts = 25"
definition min_b64_len :: nat where "min_b64_len = 24"
definition min_hex_len :: nat where "min_hex_len = 32"
definition max_decoded_store :: nat where "max_decoded_store = 8000"
definition snippet_len :: nat where "snippet_len = 240"
definition min_printable_ratio :: rat where "min_printable_ratio = 4/5"

section \<open>Detectors\<close>

definition b64_char :: "nat \<Rightarrow> bool" where
  "b64_char c \<longleftrightarrow> u_letter c \<or> u_digit c \<or> c = 43 \<or> c = 47"

text \<open>A run of at least \<open>k\<close> characters of a class and up to two equals signs after it. Without regard to case
  the class takes in four characters that Unicode folds to \<open>i\<close>, \<open>s\<close> and \<open>k\<close>.\<close>

definition b64_char_ci :: "nat \<Rightarrow> bool" where
  "b64_char_ci c \<longleftrightarrow> b64_char c \<or> c \<in> {0x130, 0x131, 0x17F, 0x212A}"

definition b64_run :: "(nat \<Rightarrow> bool) \<Rightarrow> nat \<Rightarrow> utext \<Rightarrow> utext option" where
  "b64_run p k s =
     (let n = run p s
      in if k \<le> n then Some (take (n + run (\<lambda>c. c = 61) (take 2 (drop n s))) s) else None)"

definition b64_re :: "utext matcher" where
  "b64_re past s = map_option (\<lambda>t. (t, length t)) (b64_run b64_char min_b64_len s)"

definition ps_enc_re :: "utext matcher" where
  "ps_enc_re past s =
     (case find (\<lambda>p. starts_ci p s \<and> 0 < run u_space (drop (length p) s))
             [''-encodedcommand'', ''-enc'', ''-ec'', ''-e''] of
        None \<Rightarrow> None
      | Some p \<Rightarrow>
          (let n = length p + run u_space (drop (length p) s)
           in map_option (\<lambda>t. (t, n + length t)) (b64_run b64_char_ci 20 (drop n s))))"

definition hex_re :: "utext matcher" where
  "hex_re past s =
     (if prefix (utf ''0x'') s \<and> min_hex_len \<le> run u_hex (drop 2 s) then
        (let n = 2 + run u_hex (drop 2 s) in Some (take n s, n))
      else if min_hex_len \<le> run u_hex s then (let n = run u_hex s in Some (take n s, n))
      else None)"

text \<open>Escapes: a fixed start and a number of hexadecimal digits, repeated.\<close>

definition escape_unit :: "string \<Rightarrow> nat \<Rightarrow> utext \<Rightarrow> bool" where
  "escape_unit p k s \<longleftrightarrow> prefix (utf p) s \<and> length s \<ge> length p + k \<and> list_all u_hex (take k (drop (length p) s))"

function escape_run :: "string \<Rightarrow> nat \<Rightarrow> utext \<Rightarrow> nat list" where
  "escape_run p k s =
     (if p \<noteq> [] \<and> escape_unit p k s
      then hex_number (take k (drop (length p) s)) # escape_run p k (drop (length p + k) s) else [])"
  by pat_completeness auto
termination
  by (relation "measure (\<lambda>(p, k, s). length s)") (auto simp: escape_unit_def neq_Nil_conv)

declare escape_run.simps [simp del]

text \<open>The match carries its token and the numbers it spells.\<close>

definition escape_re :: "string \<Rightarrow> nat \<Rightarrow> nat \<Rightarrow> (utext \<times> nat list) matcher" where
  "escape_re p k least past s =
     (let codes = escape_run p k s; n = length codes * (length p + k)
      in if least \<le> length codes then Some ((take n s, codes), n) else None)"

definition pct_re :: "(utext \<times> nat list) matcher" where "pct_re = escape_re ''%'' 2 3"
definition backslash_x_re :: "(utext \<times> nat list) matcher" where "backslash_x_re = escape_re (CHR 0x5C # ''x'') 2 4"
definition backslash_u_re :: "(utext \<times> nat list) matcher" where "backslash_u_re = escape_re (CHR 0x5C # ''u'') 4 3"

definition charcode_ctx_re :: "utext matcher" where
  "charcode_ctx_re past s = (if starts_ci ''[char]'' s then Some ([], 6) else None)"

definition charcode_re :: "unicode \<Rightarrow> nat matcher" where
  "charcode_re uc past s =
     (let skipped = (if starts_ci ''[char]'' s then 6 + run u_space (drop 6 s) else 0);
          digits = takeWhile (is_decimal uc) (take 3 (drop skipped s))
      in if 2 \<le> length digits
         then Some (foldl (\<lambda>a c. 10 * a + the (decimal uc c)) 0 digits, skipped + length digits) else None)"

section \<open>Decoders\<close>

definition printable_ratio :: "bytes \<Rightarrow> rat" where
  "printable_ratio b =
     (if b = [] then 0
      else of_nat (length (filter (\<lambda>c. 9 \<le> c \<and> c \<le> 13 \<or> 32 \<le> c \<and> c \<le> 126) b)) / of_nat (length b))"

definition keep_layer :: "bytes \<Rightarrow> bool" where
  "keep_layer raw \<longleftrightarrow> min_printable_ratio \<le> printable_ratio raw"

definition b64_value :: "nat \<Rightarrow> nat" where
  "b64_value c =
     (if u_upper c then c - 65 else if u_lowercase c then c - 71 else if u_digit c then c + 4
      else if c = 43 then 62 else 63)"

definition join64 :: "nat list \<Rightarrow> nat" where
  "join64 ds = foldl (\<lambda>a d. a * 64 + d) 0 ds"

fun b64_bytes :: "nat list \<Rightarrow> bytes" where
  "b64_bytes (a # b # c # d # r) =
     (let n = join64 [a, b, c, d] in n div 65536 # n div 256 mod 256 # n mod 256 # b64_bytes r)"
| "b64_bytes [a, b, c] = (let n = join64 [a, b, c] in [n div 1024, n div 4 mod 256])"
| "b64_bytes [a, b] = [join64 [a, b] div 16]"
| "b64_bytes _ = []"

text \<open>\<open>b64decode(t, validate=True)\<close>: only the alphabet and the padding that completes the last group; after a
  complete group any number of equals signs is read over.\<close>

definition b64decode :: "utext \<Rightarrow> bytes option" where
  "b64decode t =
     (let body = takeWhile b64_char t; pad = dropWhile b64_char t; left = length body mod 4
      in if list_all (\<lambda>c. c = 61) pad \<and>
            (left = 0 \<and> (body \<noteq> [] \<or> pad = []) \<or> left = 2 \<and> length pad = 2 \<or> left = 3 \<and> length pad = 1)
         then Some (b64_bytes (map b64_value body)) else None)"

definition decode_b64 :: "utext \<Rightarrow> bytes option" where
  "decode_b64 token =
     (let t = strip_text token; pad = (4 - length t mod 4) mod 4
      in case b64decode (t @ replicate pad 61) of
           None \<Rightarrow> None
         | Some raw \<Rightarrow> if length raw < 3 then None else Some raw)"

fun hex_pairs :: "utext \<Rightarrow> bytes" where
  "hex_pairs (a # b # s) = (16 * hex_value a + hex_value b) # hex_pairs s"
| "hex_pairs _ = []"

definition bare_hex :: "utext \<Rightarrow> utext" where
  "bare_hex token = (if starts_ci ''0x'' token then drop 2 token else token)"

definition decode_hex :: "utext \<Rightarrow> bytes option" where
  "decode_hex token =
     (let t = bare_hex token
      in if odd (length t) then None else if list_all u_hex t then Some (hex_pairs t) else None)"

definition maybe_decompress :: "codecs \<Rightarrow> bytes \<Rightarrow> bytes option" where
  "maybe_decompress cx raw =
     (if take 2 raw = [31, 139] then cx_gunzip cx raw
      else (case cx_inflate cx 15 raw of
              Some (b # out) \<Rightarrow> Some (b # out)
            | _ \<Rightarrow> (case cx_inflate cx (- 15) raw of Some (b # out) \<Rightarrow> Some (b # out) | _ \<Rightarrow> None)))"

definition utf16le_if_clean :: "bytes \<Rightarrow> bytes option" where
  "utf16le_if_clean raw =
     (if 0 \<notin> set raw then None else map_option utf8_encode (utf16le_decode raw))"

definition decode_charcodes :: "unicode \<Rightarrow> utext \<Rightarrow> bytes option" where
  "decode_charcodes uc s =
     (if scan charcode_ctx_re s = [] then None
      else
        (let chars = filter (\<lambda>c. 9 \<le> c \<and> c \<le> 126) (scan (charcode_re uc) s)
         in if length chars < 4 then None else Some (utf8_encode chars)))"

text \<open>\<open>a or b\<close> on optional byte strings.\<close>

definition or_else :: "bytes option \<Rightarrow> bytes \<Rightarrow> bytes" where
  "or_else a b = (case a of Some (x # xs) \<Rightarrow> x # xs | _ \<Rightarrow> b)"

section \<open>The candidates of one text\<close>

record found =
  fo_encoding :: string
  fo_field :: string
  fo_bytes :: bytes
  fo_sha :: utext

definition add_found :: "codecs \<Rightarrow> string \<Rightarrow> string \<Rightarrow> bytes \<Rightarrow> found list \<Rightarrow> found list" where
  "add_found cx label encoding decoded fs =
     (let h = cx_sha256 cx decoded
      in if h \<in> fo_sha ` set fs then fs
         else fs @ [\<lparr>fo_encoding = encoding, fo_field = label, fo_bytes = decoded, fo_sha = h\<rparr>])"

definition add_ps :: "codecs \<Rightarrow> string \<Rightarrow> utext \<Rightarrow> found list \<Rightarrow> found list" where
  "add_ps cx label token fs =
     (case decode_b64 token of
        None \<Rightarrow> fs
      | Some b \<Rightarrow> add_found cx label ''powershell-encodedcommand'' (or_else (utf16le_if_clean b) b) fs)"

text \<open>The token is looked up among the hashes.\<close>

definition unwrap :: "codecs \<Rightarrow> bytes \<Rightarrow> bytes" where
  "unwrap cx b = or_else (maybe_decompress cx b) (or_else (utf16le_if_clean b) b)"

definition add_b64 :: "codecs \<Rightarrow> string \<Rightarrow> utext \<Rightarrow> found list \<Rightarrow> found list" where
  "add_b64 cx label token fs =
     (if token \<in> fo_sha ` set fs then fs
      else
        (case decode_b64 token of
           None \<Rightarrow> fs
         | Some b \<Rightarrow>
             if keep_layer (unwrap cx b)
             then add_found cx label (if maybe_decompress cx b \<in> {None, Some []} then ''base64'' else ''base64+gzip'')
                    (unwrap cx b) fs
             else fs))"

definition add_hex :: "codecs \<Rightarrow> string \<Rightarrow> utext \<Rightarrow> found list \<Rightarrow> found list" where
  "add_hex cx label token fs =
     (if length (bare_hex token) \<in> {32, 40, 64} then fs
      else (case decode_hex token of
              None \<Rightarrow> fs
            | Some b \<Rightarrow> if keep_layer b then add_found cx label ''hex'' b fs else fs))"

definition add_pct :: "codecs \<Rightarrow> string \<Rightarrow> utext \<times> nat list \<Rightarrow> found list \<Rightarrow> found list" where
  "add_pct cx label m fs =
     (case utf8_decode_strict (snd m) of
        None \<Rightarrow> fs
      | Some dec \<Rightarrow>
          if dec \<noteq> fst m \<and> 4 \<le> length dec then add_found cx label ''percent'' (utf8_encode dec) fs else fs)"

definition add_escape :: "codecs \<Rightarrow> string \<Rightarrow> utext \<times> nat list \<Rightarrow> found list \<Rightarrow> found list" where
  "add_escape cx label m fs =
     (if snd m \<noteq> [] \<and> snd m \<noteq> fst m then add_found cx label ''backslash-escape'' (utf8_encode (snd m)) fs else fs)"

definition decode_candidates :: "codecs \<Rightarrow> unicode \<Rightarrow> string \<Rightarrow> utext \<Rightarrow> found list" where
  "decode_candidates cx uc label s =
     (let f1 = fold (add_ps cx label) (scan ps_enc_re s) [];
          f2 = fold (add_b64 cx label) (scan b64_re s) f1;
          f3 = fold (add_hex cx label) (scan hex_re s) f2;
          f4 = fold (add_pct cx label) (scan pct_re s) f3;
          f5 = fold (add_escape cx label) (scan backslash_x_re s @ scan backslash_u_re s) f4
      in case decode_charcodes uc s of
           None \<Rightarrow> f5
         | Some cc \<Rightarrow> if keep_layer cc then add_found cx label ''char-array'' cc f5 else f5)"


section \<open>The obfuscation score\<close>

definition markers :: "string list" where
  "markers =
     [''frombase64string'', ''-encodedcommand'', ''-enc '', ''iex'', ''invoke-expression'', ''-join'', ''[char]'',
      ''-bxor'', ''::fromhexstring'', ''downloadstring'', ''downloaddata'', ''[convert]'', ''gzipstream'',
      ''deflatestream'', ''[scriptblock]'', ''${'', [CHR 0x60]]"

definition u_contains :: "string \<Rightarrow> utext \<Rightarrow> bool" where
  "u_contains p s \<longleftrightarrow> list_ex (prefix (utf p)) (suffixes s)"

definition shannon_entropy :: "utext \<Rightarrow> real" where
  "shannon_entropy s =
     - sum_list (map (\<lambda>c. let p = real (count_list s c) / real (length s) in p * log 2 p) (remdups s))"

definition obfuscation_score :: "unicode \<Rightarrow> utext \<Rightarrow> real" where
  "obfuscation_score uc s =
     (if length s < 12 then 0
      else
        (let n = real (length s);
             symbol_component =
               min (real (length (filter (\<lambda>c. \<not> is_alnum uc c \<and> \<not> u_space c) s)) / n / 0.30) 1;
             marker_hits = real (length (filter (\<lambda>m. u_contains m (lower_text uc s)) markers));
             marker_component = min (marker_hits / 5 + min (real (count_list s 96) / n / 0.05) 0.4) 1;
             entropy_component = min (max ((shannon_entropy s - 4) / 2) 0) 1
         in py_round_digits 3 (min (0.45 * symbol_component + 0.35 * marker_component + 0.20 * entropy_component) 1)))"

definition score_band :: "real \<Rightarrow> string" where
  "score_band x =
     (if 0.66 \<le> x then ''heavy'' else if 0.40 \<le> x then ''moderate'' else if 0.18 \<le> x then ''low'' else ''none'')"

section \<open>The search\<close>

text \<open>The normalized alert gives the text of a field where it is a string.\<close>

definition candidate_fields :: "string list" where
  "candidate_fields =
     [''command_line'', ''commandline'', ''process_command_line'', ''command'', ''script'', ''script_block'',
      ''powershell'', ''payload'', ''message'', ''process'', ''parent_command_line'']"

definition collect_fields :: "(string \<Rightarrow> utext option) \<Rightarrow> utext \<Rightarrow> (string \<times> utext) list" where
  "collect_fields normalized raw =
     List.map_filter (\<lambda>f. case normalized f of None \<Rightarrow> None
                        | Some v \<Rightarrow> if strip_text v = [] then None else Some (f, v)) candidate_fields @
     (if strip_text raw = [] then [] else [(''raw'', raw)])"

record artifact =
  ar_layer :: nat
  ar_encoding :: string
  ar_field :: string
  ar_sha :: utext
  ar_size :: nat
  ar_snippet :: utext
  ar_text :: utext

type_synonym work = "string \<times> utext \<times> nat"
type_synonym search = "work list \<times> artifact list"

definition artifact_of :: "nat \<Rightarrow> found \<Rightarrow> artifact" where
  "artifact_of depth f =
     (let t = utf8_decode_replace (fo_bytes f)
      in \<lparr>ar_layer = depth + 1, ar_encoding = fo_encoding f, ar_field = fo_field f, ar_sha = fo_sha f,
          ar_size = length (fo_bytes f), ar_snippet = take snippet_len t, ar_text = take max_decoded_store t\<rparr>)"

definition child :: "nat \<Rightarrow> found \<Rightarrow> work" where
  "child depth f = (fo_field f @ '':L'' @ show_nat (depth + 1), utf8_decode_replace (fo_bytes f), depth + 1)"

text \<open>The hashes seen are those of the artifacts.\<close>

fun take_found :: "nat \<Rightarrow> nat \<Rightarrow> found list \<Rightarrow> search \<Rightarrow> search" where
  "take_found cap depth [] st = st"
| "take_found cap depth (f # fs) (q, as) =
     (if fo_sha f \<in> ar_sha ` set as then take_found cap depth fs (q, as)
      else
        (let as' = as @ [artifact_of depth f]
         in if cap \<le> length as' then (q, as') else take_found cap depth fs (q @ [child depth f], as')))"

definition search_more :: "nat \<Rightarrow> search \<Rightarrow> bool" where
  "search_more cap st \<longleftrightarrow> fst st \<noteq> [] \<and> length (snd st) < cap"

fun search_step :: "codecs \<Rightarrow> unicode \<Rightarrow> nat \<Rightarrow> nat \<Rightarrow> search \<Rightarrow> search" where
  "search_step cx uc deepest cap ((label, s, depth) # q, as) =
     (if deepest \<le> depth then (q, as) else take_found cap depth (decode_candidates cx uc label s) (q, as))"
| "search_step cx uc deepest cap ([], as) = ([], as)"

definition search_layers :: "codecs \<Rightarrow> unicode \<Rightarrow> nat \<Rightarrow> nat \<Rightarrow> (string \<times> utext) list \<Rightarrow> search option" where
  "search_layers cx uc deepest cap scanned =
     while_option (search_more cap) (search_step cx uc deepest cap) (map (\<lambda>(l, s). (l, s, 0)) scanned, [])"

record deob_report =
  dr_artifacts :: "artifact list"
  dr_score :: real
  dr_original_max :: real
  dr_decoded_max :: real
  dr_layers :: nat
  dr_band :: string

definition max_score :: "unicode \<Rightarrow> utext list \<Rightarrow> real" where
  "max_score uc ss = fold max (map (obfuscation_score uc) ss) 0"

text \<open>The outer \<open>None\<close> would be a search that does not end, the inner one is Python's \<open>None\<close>.\<close>

definition analyze ::
  "codecs \<Rightarrow> unicode \<Rightarrow> nat \<Rightarrow> nat \<Rightarrow> (string \<Rightarrow> utext option) \<Rightarrow> utext \<Rightarrow> deob_report option option" where
  "analyze cx uc deepest cap normalized raw =
     (let scanned = collect_fields normalized raw; original = max_score uc (map snd scanned)
      in if scanned = [] then Some None
         else (case search_layers cx uc deepest cap scanned of
                 None \<Rightarrow> None
               | Some (q, as) \<Rightarrow>
                   if as = [] then
                     (if original < 0.40 then Some None
                      else Some (Some \<lparr>dr_artifacts = [], dr_score = original, dr_original_max = original,
                             dr_decoded_max = 0, dr_layers = 0, dr_band = score_band original\<rparr>))
                   else
                     (let decoded = max_score uc (map ar_text as); score = max original decoded
                      in Some (Some \<lparr>dr_artifacts = as, dr_score = score, dr_original_max = original,
                             dr_decoded_max = decoded, dr_layers = length as, dr_band = score_band score\<rparr>))))"

section \<open>Lemmas on the score\<close>

lemma round_to_unit_bounds:
  fixes x :: real
  assumes "0 \<le> x" "x \<le> 1"
  shows "0 \<le> py_round_digits 3 x \<and> py_round_digits 3 x \<le> 1"
proof -
  have "0 \<le> \<lfloor>x * 1000\<rfloor>" using assms by simp
  then have "0 \<le> py_round (x * 1000)" using py_round_bounds[of "x * 1000"] by linarith
  moreover have "py_round (x * 1000) \<le> 1000" using assms by (intro py_round_le) simp
  then have "real_of_int (py_round (x * 1000)) \<le> 1000" by linarith
  ultimately show ?thesis by (simp add: py_round_digits_def)
qed

lemma obfuscation_score_bounds: "0 \<le> obfuscation_score uc s \<and> obfuscation_score uc s \<le> 1"
proof -
  have "0 \<le> 0.45 * min a 1 + 0.35 * min b 1 + 0.20 * min (max e 0) (1::real)" if "0 \<le> a" "0 \<le> b" for a b e
    using that by (intro add_nonneg_nonneg mult_nonneg_nonneg) simp_all
  then show ?thesis
    by (cases "length s < 12") (simp_all add: obfuscation_score_def Let_def round_to_unit_bounds)
qed

lemma max_score_bounds: "0 \<le> max_score uc ss \<and> max_score uc ss \<le> 1"
proof -
  have "0 \<le> fold max xs (a::real) \<and> fold max xs a \<le> 1" if "list_all (\<lambda>x. x \<le> 1) xs" "0 \<le> a" "a \<le> 1" for xs a
    using that by (induction xs arbitrary: a) (auto simp: max_def)
  then show ?thesis by (simp add: max_score_def list_all_iff obfuscation_score_bounds)
qed

section \<open>The search ends\<close>

lemma take_found_count:
  "length (fst (take_found cap d fs (q, as))) + length as \<le> length q + length (snd (take_found cap d fs (q, as)))
   \<and> length as \<le> length (snd (take_found cap d fs (q, as)))
   \<and> (length as < cap \<longrightarrow> length (snd (take_found cap d fs (q, as))) \<le> cap)"
proof (induction fs arbitrary: q as)
  case (Cons f fs)
  show ?case using Cons.IH[of q as] Cons.IH[of "q @ [child d f]" "as @ [artifact_of d f]"] by (auto simp: Let_def)
qed simp

lemma search_step_decreases:
  assumes "search_more cap st"
  shows "length (snd (search_step cx uc dp cap st)) \<le> cap \<and>
    length (fst (search_step cx uc dp cap st)) + (cap - length (snd (search_step cx uc dp cap st))) <
      length (fst st) + (cap - length (snd st))"
proof -
  obtain l s d q as where st: "st = ((l, s, d) # q, as)"
    using assms by (cases st; cases "fst st") (auto simp: search_more_def)
  show ?thesis
    using assms take_found_count[of cap d "decode_candidates cx uc l s" q as]
    by (auto simp: st search_more_def)
qed

lemma search_ends: "\<exists>st. search_layers cx uc dp cap scanned = Some st"
  unfolding search_layers_def
  by (rule measure_while_option_Some[where P = "\<lambda>_. True" and f = "\<lambda>st. length (fst st) + (cap - length (snd st))"])
    (use search_step_decreases in blast)+

section \<open>What the search finds\<close>

subsection \<open>Labels do not matter\<close>

lemma fold_homomorphism: "(\<And>x y. r (g x y) = g' x (r y)) \<Longrightarrow> r (fold g xs y) = fold g' xs (r y)"
  by (induction xs arbitrary: y) simp_all

definition relabel :: "string \<Rightarrow> found list \<Rightarrow> found list" where
  "relabel l fs = map (\<lambda>f. f\<lparr>fo_field := l\<rparr>) fs"

lemma relabel_sha [simp]: "fo_sha ` set (relabel l fs) = fo_sha ` set fs"
  by (auto simp: relabel_def image_iff)

lemma relabel_add [simp]: "relabel l' (add_found cx l e d fs) = add_found cx l' e d (relabel l' fs)"
  by (simp add: add_found_def Let_def) (simp add: relabel_def)

lemma relabel_steps:
  "relabel l' (add_ps cx l t fs) = add_ps cx l' t (relabel l' fs)"
  "relabel l' (add_b64 cx l t fs) = add_b64 cx l' t (relabel l' fs)"
  "relabel l' (add_hex cx l t fs) = add_hex cx l' t (relabel l' fs)"
  "relabel l' (add_pct cx l m fs) = add_pct cx l' m (relabel l' fs)"
  "relabel l' (add_escape cx l m fs) = add_escape cx l' m (relabel l' fs)"
  by (simp_all add: add_ps_def add_b64_def add_hex_def add_pct_def add_escape_def split: option.split)

lemma relabel_folds:
  "relabel l' (fold (add_ps cx l) ts fs) = fold (add_ps cx l') ts (relabel l' fs)"
  "relabel l' (fold (add_b64 cx l) ts fs) = fold (add_b64 cx l') ts (relabel l' fs)"
  "relabel l' (fold (add_hex cx l) ts fs) = fold (add_hex cx l') ts (relabel l' fs)"
  "relabel l' (fold (add_pct cx l) ms fs) = fold (add_pct cx l') ms (relabel l' fs)"
  "relabel l' (fold (add_escape cx l) ms fs) = fold (add_escape cx l') ms (relabel l' fs)"
  by (rule fold_homomorphism[where r = "relabel l'"], rule relabel_steps)+

lemma relabel_candidates: "relabel l' (decode_candidates cx uc l s) = decode_candidates cx uc l' s"
proof -
  have "relabel l' [] = []" by (simp add: relabel_def)
  then show ?thesis unfolding decode_candidates_def Let_def by (simp add: relabel_folds split: option.split)
qed

lemma candidates_relabel:
  assumes "f \<in> set (decode_candidates cx uc l s)"
  shows "\<exists>f' \<in> set (decode_candidates cx uc l' s). fo_bytes f' = fo_bytes f \<and> fo_sha f' = fo_sha f"
  using assms unfolding relabel_candidates[of l' cx uc l s, symmetric] by (force simp: relabel_def)

definition hashed :: "codecs \<Rightarrow> found list \<Rightarrow> bool" where
  "hashed cx fs \<longleftrightarrow> (\<forall>f \<in> set fs. fo_sha f = cx_sha256 cx (fo_bytes f))"

lemma hashed_add [intro]: "hashed cx fs \<Longrightarrow> hashed cx (add_found cx l e d fs)"
  by (auto simp: hashed_def add_found_def Let_def)

lemma hashed_steps:
  "hashed cx fs \<Longrightarrow> hashed cx (add_ps cx l t fs)" "hashed cx fs \<Longrightarrow> hashed cx (add_b64 cx l t fs)"
  "hashed cx fs \<Longrightarrow> hashed cx (add_hex cx l t fs)" "hashed cx fs \<Longrightarrow> hashed cx (add_pct cx l m fs)"
  "hashed cx fs \<Longrightarrow> hashed cx (add_escape cx l m fs)"
  by (auto simp: add_ps_def add_b64_def add_hex_def add_pct_def add_escape_def split: option.split)

lemma fold_keeps: "(\<And>x y. P y \<Longrightarrow> P (g x y)) \<Longrightarrow> P y \<Longrightarrow> P (fold g xs y)"
  by (induction xs arbitrary: y) simp_all

lemma candidates_hashed: "f \<in> set (decode_candidates cx uc l s) \<Longrightarrow> fo_sha f = cx_sha256 cx (fo_bytes f)"
proof -
  have "hashed cx []" by (simp add: hashed_def)
  then have "hashed cx (decode_candidates cx uc l s)"
    unfolding decode_candidates_def Let_def
    by (auto split: option.split intro!: fold_keeps[where P = "hashed cx"] hashed_steps)
  then show "f \<in> set (decode_candidates cx uc l s) \<Longrightarrow> fo_sha f = cx_sha256 cx (fo_bytes f)"
    by (simp add: hashed_def)
qed

subsection \<open>Layers\<close>

text \<open>A layer: what a detector and a decoder make of the text of a field, or of a layer above.\<close>

inductive hidden_layer :: "codecs \<Rightarrow> unicode \<Rightarrow> (string \<times> utext) list \<Rightarrow> nat \<Rightarrow> bytes \<Rightarrow> bool"
  for cx uc scanned where
  first: "(l, s) \<in> set scanned \<Longrightarrow> f \<in> set (decode_candidates cx uc l s) \<Longrightarrow> hidden_layer cx uc scanned 1 (fo_bytes f)"
| deeper: "hidden_layer cx uc scanned n b \<Longrightarrow> f \<in> set (decode_candidates cx uc l (utf8_decode_replace b)) \<Longrightarrow>
    hidden_layer cx uc scanned (Suc n) (fo_bytes f)"

definition source :: "codecs \<Rightarrow> unicode \<Rightarrow> (string \<times> utext) list \<Rightarrow> nat \<Rightarrow> utext \<Rightarrow> bool" where
  "source cx uc scanned d s \<longleftrightarrow>
     d = 0 \<and> s \<in> snd ` set scanned \<or> (\<exists>b. hidden_layer cx uc scanned d b \<and> s = utf8_decode_replace b)"

lemma source_child:
  "source cx uc scanned d s \<Longrightarrow> f \<in> set (decode_candidates cx uc l s) \<Longrightarrow> hidden_layer cx uc scanned (Suc d) (fo_bytes f)"
proof -
  assume s: "source cx uc scanned d s" and f: "f \<in> set (decode_candidates cx uc l s)"
  show ?thesis
  proof (cases "\<exists>b. hidden_layer cx uc scanned d b \<and> s = utf8_decode_replace b")
    case True
    with f show ?thesis by (auto intro: hidden_layer.deeper)
  next
    case False
    with s obtain l' where d: "d = 0" "(l', s) \<in> set scanned" by (auto simp: source_def)
    obtain f' where f': "f' \<in> set (decode_candidates cx uc l' s)" "fo_bytes f' = fo_bytes f"
      using candidates_relabel[OF f] by blast
    from hidden_layer.first[OF d(2) f'(1)] f'(2) d(1) show ?thesis by simp
  qed
qed

text \<open>Every artifact is a layer at the depth it names, once.\<close>

definition describes :: "codecs \<Rightarrow> artifact \<Rightarrow> bytes \<Rightarrow> bool" where
  "describes cx a b \<longleftrightarrow>
     ar_sha a = cx_sha256 cx b \<and> ar_size a = length b \<and>
     ar_text a = take max_decoded_store (utf8_decode_replace b) \<and> ar_snippet a = take snippet_len (utf8_decode_replace b)"

definition sound_search :: "codecs \<Rightarrow> unicode \<Rightarrow> nat \<Rightarrow> nat \<Rightarrow> (string \<times> utext) list \<Rightarrow> search \<Rightarrow> bool" where
  "sound_search cx uc dp cap scanned st \<longleftrightarrow>
     length (snd st) \<le> cap \<and> distinct (map ar_sha (snd st)) \<and> (\<forall>(l, s, d) \<in> set (fst st). source cx uc scanned d s) \<and>
     (\<forall>a \<in> set (snd st). ar_layer a \<le> dp \<and> (\<exists>b. hidden_layer cx uc scanned (ar_layer a) b \<and> describes cx a b))"

lemma artifact_of_simps [simp]:
  "ar_layer (artifact_of d f) = Suc d" "ar_sha (artifact_of d f) = fo_sha f"
  by (simp_all add: artifact_of_def Let_def)

lemma artifact_describes: "fo_sha f = cx_sha256 cx (fo_bytes f) \<Longrightarrow> describes cx (artifact_of d f) (fo_bytes f)"
  by (simp add: describes_def artifact_of_def Let_def)

lemma take_found_sound:
  assumes "\<forall>f \<in> set fs. fo_sha f = cx_sha256 cx (fo_bytes f) \<and> hidden_layer cx uc scanned (Suc d) (fo_bytes f)"
    "sound_search cx uc dp cap scanned (q, as)" "Suc d \<le> dp" "length as < cap"
  shows "sound_search cx uc dp cap scanned (take_found cap d fs (q, as))"
  using assms
proof (induction fs arbitrary: q as)
  case (Cons f fs)
  show ?case
  proof (cases "fo_sha f \<in> ar_sha ` set as")
    case True
    with Cons show ?thesis by simp
  next
    case False
    have f: "describes cx (artifact_of d f) (fo_bytes f)" "hidden_layer cx uc scanned (Suc d) (fo_bytes f)"
      using Cons.prems(1) by (simp_all add: artifact_describes)
    then have "sound_search cx uc dp cap scanned (q, as @ [artifact_of d f])"
      using Cons.prems False by (auto simp: sound_search_def)
    moreover from this f(2) have "sound_search cx uc dp cap scanned (q @ [child d f], as @ [artifact_of d f])"
      by (auto simp: sound_search_def child_def source_def)
    ultimately show ?thesis using Cons False by (auto simp: Let_def)
  qed
qed simp

lemma search_step_sound:
  assumes "search_more cap st" "sound_search cx uc dp cap scanned st"
  shows "sound_search cx uc dp cap scanned (search_step cx uc dp cap st)"
proof -
  obtain l s d q as where st: "st = ((l, s, d) # q, as)"
    using assms(1) by (cases st; cases "fst st") (auto simp: search_more_def)
  have q: "sound_search cx uc dp cap scanned (q, as)" and src: "source cx uc scanned d s"
    using assms(2) by (auto simp: st sound_search_def)
  have "sound_search cx uc dp cap scanned (take_found cap d (decode_candidates cx uc l s) (q, as))" if "d < dp"
    by (rule take_found_sound[OF _ q]) (use assms(1) that src in \<open>auto simp: st search_more_def candidates_hashed source_child\<close>)
  with q show ?thesis by (simp add: st)
qed

lemma search_sound:
  assumes "search_layers cx uc dp cap scanned = Some st"
  shows "sound_search cx uc dp cap scanned st"
proof (rule while_option_rule[where P = "sound_search cx uc dp cap scanned" and b = "search_more cap"
      and c = "search_step cx uc dp cap" and s = "(map (\<lambda>(l, s). (l, s, 0)) scanned, [])"])
  show "sound_search cx uc dp cap scanned (map (\<lambda>(l, s). (l, s, 0)) scanned, [])"
    by (force simp: sound_search_def source_def)
qed (use assms in \<open>simp_all add: search_layers_def search_step_sound\<close>)

lemma hidden_layer_positive: "hidden_layer cx uc scanned n b \<Longrightarrow> Suc 0 \<le> n"
  by (induction rule: hidden_layer.induct) simp_all


text \<open>C36. Decoding ends and stays bounded. For any alert, any decompressors and any bounds, the breadth-first search
  through the encoded layers ends; it reports at most \<open>max_artifacts\<close> artifacts, no hash twice, and each is
  truly a layer of the depth it names, at most \<open>max_depth\<close>: bytes that the detectors and decoders give, step by
  step, from the text of a scanned field, with the hash, size and text of those bytes. The analysis always has a
  result, and its scores lie between 0 and 1.\<close>

theorem decoding_ends_and_is_bounded:
  "\<exists>q as. search_layers cx uc deepest cap (collect_fields normalized raw) = Some (q, as) \<and>
     length as \<le> cap \<and> distinct (map ar_sha as) \<and>
     list_all (\<lambda>a. 1 \<le> ar_layer a \<and> ar_layer a \<le> deepest \<and>
       (\<exists>b. hidden_layer cx uc (collect_fields normalized raw) (ar_layer a) b \<and> describes cx a b)) as \<and>
     (\<exists>r. analyze cx uc deepest cap normalized raw = Some r \<and>
        (r = None \<or> (let d = the r in dr_layers d = length (dr_artifacts d) \<and> length (dr_artifacts d) \<le> cap \<and>
           0 \<le> dr_score d \<and> dr_score d \<le> 1 \<and> dr_original_max d \<le> dr_score d \<and> dr_decoded_max d \<le> dr_score d)))"
proof -
  let ?fs = "collect_fields normalized raw"
  from search_ends obtain q as where s: "search_layers cx uc deepest cap ?fs = Some (q, as)" by fastforce
  from search_sound[OF s] have so: "sound_search cx uc deepest cap ?fs (q, as)" .
  have a: "list_all (\<lambda>a. 1 \<le> ar_layer a \<and> ar_layer a \<le> deepest \<and>
       (\<exists>b. hidden_layer cx uc ?fs (ar_layer a) b \<and> describes cx a b)) as"
    using so by (auto simp: sound_search_def list_all_iff dest: hidden_layer_positive)
  have "\<exists>r. analyze cx uc deepest cap normalized raw = Some r \<and>
        (r = None \<or> (let d = the r in dr_layers d = length (dr_artifacts d) \<and> length (dr_artifacts d) \<le> cap \<and>
           0 \<le> dr_score d \<and> dr_score d \<le> 1 \<and> dr_original_max d \<le> dr_score d \<and> dr_decoded_max d \<le> dr_score d))"
    using so max_score_bounds[of uc "map snd ?fs"] max_score_bounds[of uc "map ar_text as"]
    by (simp add: analyze_def Let_def s sound_search_def le_max_iff_disj)
  with s so a show ?thesis by (auto simp: sound_search_def)
qed


section \<open>Nothing is missed\<close>

text \<open>Below the cap, a text that was taken from the queue has all its layers among the artifacts.\<close>

definition explored :: "codecs \<Rightarrow> unicode \<Rightarrow> nat \<Rightarrow> artifact list \<Rightarrow> utext \<Rightarrow> nat \<Rightarrow> bool" where
  "explored cx uc dp as s d \<longleftrightarrow>
     dp \<le> d \<or> (\<forall>l. \<forall>f \<in> set (decode_candidates cx uc l s). \<exists>a \<in> set as. ar_sha a = fo_sha f \<and> ar_layer a \<le> Suc d)"

definition queued :: "work list \<Rightarrow> utext \<Rightarrow> nat \<Rightarrow> bool" where
  "queued q s d \<longleftrightarrow> (\<exists>l. (l, s, d) \<in> set q)"

definition depth_of :: "work \<Rightarrow> nat" where
  "depth_of w = snd (snd w)"

text \<open>The queue is in the order of depth, and spans at most two depths.\<close>

definition in_order :: "search \<Rightarrow> bool" where
  "in_order st \<longleftrightarrow> sorted (map depth_of (fst st)) \<and>
     (\<forall>w \<in> set (fst st). depth_of w \<le> Suc (depth_of (hd (fst st)))) \<and>
     (fst st \<noteq> [] \<longrightarrow> (\<forall>a \<in> set (snd st). ar_layer a \<le> Suc (depth_of (hd (fst st)))))"

definition complete_search :: "codecs \<Rightarrow> unicode \<Rightarrow> nat \<Rightarrow> nat \<Rightarrow> (string \<times> utext) list \<Rightarrow> search \<Rightarrow> bool" where
  "complete_search cx uc dp cap scanned st \<longleftrightarrow>
     (length (snd st) < cap \<longrightarrow>
        in_order st \<and>
        (\<forall>s \<in> snd ` set scanned. queued (fst st) s 0 \<or> explored cx uc dp (snd st) s 0) \<and>
        (\<forall>a \<in> set (snd st). \<exists>b. ar_sha a = cx_sha256 cx b \<and>
           (queued (fst st) (utf8_decode_replace b) (ar_layer a) \<or>
            explored cx uc dp (snd st) (utf8_decode_replace b) (ar_layer a))))"

text \<open>Taking the candidates of one text, when the cap is not reached.\<close>

lemma take_found_below_cap:
  assumes "take_found cap d fs (q, as) = (q', as')" "length as' < cap"
  shows "\<exists>new. set new \<subseteq> set fs \<and> q' = q @ map (child d) new \<and> as' = as @ map (artifact_of d) new \<and>
    fo_sha ` set fs \<subseteq> ar_sha ` set as'"
  using assms
proof (induction fs arbitrary: q as)
  case (Cons f fs)
  show ?case
  proof (cases "fo_sha f \<in> ar_sha ` set as")
    case True
    with Cons.prems Cons.IH[of q as] obtain new where
      "set new \<subseteq> set fs" "q' = q @ map (child d) new" "as' = as @ map (artifact_of d) new"
      "fo_sha ` set fs \<subseteq> ar_sha ` set as'" by auto
    with True show ?thesis by (intro exI[of _ new]) auto
  next
    case False
    with Cons.prems Cons.IH[of "q @ [child d f]" "as @ [artifact_of d f]"] obtain new where
      "set new \<subseteq> set fs" "q' = q @ map (child d) (f # new)" "as' = as @ map (artifact_of d) (f # new)"
      "fo_sha ` set fs \<subseteq> ar_sha ` set as'" by (auto simp: Let_def split: if_splits)
    with False show ?thesis by (intro exI[of _ "f # new"]) auto
  qed
qed simp

lemma explored_mono: "explored cx uc dp as s d \<Longrightarrow> set as \<subseteq> set as' \<Longrightarrow> explored cx uc dp as' s d"
  unfolding explored_def by blast

lemma in_order_step:
  assumes o: "in_order ((l, s, d) # q, as)" and q': "q' = q @ map (child d) new" and as': "as' = as @ map (artifact_of d) new"
  shows "in_order (q', as') \<and> (\<forall>a \<in> set as'. ar_layer a \<le> Suc d)"
proof -
  have q: "sorted (map depth_of q)" "\<forall>w \<in> set q. d \<le> depth_of w \<and> depth_of w \<le> Suc d" "\<forall>a \<in> set as. ar_layer a \<le> Suc d"
    using o by (auto simp: in_order_def depth_of_def)
  have c: "depth_of (child d f) = Suc d" for f by (simp add: depth_of_def child_def)
  have layers: "\<forall>a \<in> set as'. ar_layer a \<le> Suc d" using q(3) by (auto simp: as')
  have all: "\<forall>w \<in> set q'. d \<le> depth_of w \<and> depth_of w \<le> Suc d" using q(2) c by (auto simp: q')
  have "sorted (map depth_of (map (child d) new))" by (simp add: comp_def c map_replicate_const[of "Suc d"])
  with q(1,2) c have "sorted (map depth_of q')" by (auto simp: q' sorted_append)
  moreover have "d \<le> depth_of (hd q')" if "q' \<noteq> []" using all that by simp
  ultimately show ?thesis using all layers by (fastforce simp: in_order_def)
qed

lemma search_step_complete:
  assumes more: "search_more cap st" and c: "complete_search cx uc dp cap scanned st"
  shows "complete_search cx uc dp cap scanned (search_step cx uc dp cap st)"
proof -
  obtain l s d q as where st: "st = ((l, s, d) # q, as)"
    using more by (cases st; cases "fst st") (auto simp: search_more_def)
  obtain q' as' where st': "search_step cx uc dp cap st = (q', as')" by fastforce
  from more have "length as < cap" by (simp add: st search_more_def)
  with c have o: "in_order ((l, s, d) # q, as)"
    and fields: "\<And>x. x \<in> snd ` set scanned \<Longrightarrow> queued ((l, s, d) # q) x 0 \<or> explored cx uc dp as x 0"
    and arts: "\<And>a. a \<in> set as \<Longrightarrow> \<exists>b. ar_sha a = cx_sha256 cx b \<and>
        (queued ((l, s, d) # q) (utf8_decode_replace b) (ar_layer a) \<or> explored cx uc dp as (utf8_decode_replace b) (ar_layer a))"
    by (auto simp: st complete_search_def)
  show ?thesis
  proof (cases "length as' < cap")
    case True
    obtain new where new: "set new \<subseteq> set (decode_candidates cx uc l s)" "q' = q @ map (child d) new"
      "as' = as @ map (artifact_of d) new" "d < dp \<Longrightarrow> fo_sha ` set (decode_candidates cx uc l s) \<subseteq> ar_sha ` set as'"
    proof (cases "dp \<le> d")
      case True
      with st' that[of "[]"] show ?thesis by (simp add: st)
    next
      case False
      with st' have "take_found cap d (decode_candidates cx uc l s) (q, as) = (q', as')" by (simp add: st)
      from take_found_below_cap[OF this True] that show ?thesis by blast
    qed
    have o': "in_order (q', as')" and layers: "\<forall>a \<in> set as'. ar_layer a \<le> Suc d"
      using in_order_step[OF o new(2,3)] by simp_all
    have s: "explored cx uc dp as' s d"
    proof (cases "dp \<le> d")
      case False
      have "\<exists>a \<in> set as'. ar_sha a = fo_sha f \<and> ar_layer a \<le> Suc d" if f: "f \<in> set (decode_candidates cx uc l' s)" for l' f
      proof -
        obtain f' where "f' \<in> set (decode_candidates cx uc l s)" "fo_sha f' = fo_sha f"
          using candidates_relabel[OF f, of l] by auto
        with new(4) False layers show ?thesis by (force simp: image_subset_iff image_iff)
      qed
      then show ?thesis by (auto simp: explored_def)
    qed (simp add: explored_def)
    have step: "queued q' x k \<or> explored cx uc dp as' x k"
      if "queued ((l, s, d) # q) x k \<or> explored cx uc dp as x k" for x k
    proof -
      have "explored cx uc dp as' x k" if "explored cx uc dp as x k" using that by (rule explored_mono) (simp add: new(3))
      with that s show ?thesis by (auto simp: queued_def new(2))
    qed
    have "\<exists>b. ar_sha a = cx_sha256 cx b \<and> (queued q' (utf8_decode_replace b) (ar_layer a) \<or>
        explored cx uc dp as' (utf8_decode_replace b) (ar_layer a))" if a: "a \<in> set as'" for a
    proof (cases "a \<in> set as")
      case True
      with arts[OF True] step show ?thesis by blast
    next
      case False
      with a new(1,3) obtain f where f: "f \<in> set new" "a = artifact_of d f" "f \<in> set (decode_candidates cx uc l s)" by auto
      then have "queued q' (utf8_decode_replace (fo_bytes f)) (ar_layer a)"
        by (auto simp: queued_def new(2) child_def image_iff)
      with f candidates_hashed[OF f(3)] show ?thesis by auto
    qed
    with o' fields step show ?thesis by (simp add: complete_search_def st')
  qed (simp add: complete_search_def st')
qed

lemma search_complete:
  assumes "search_layers cx uc dp cap scanned = Some st"
  shows "complete_search cx uc dp cap scanned st"
proof (rule while_option_rule[where P = "complete_search cx uc dp cap scanned" and b = "search_more cap"
      and c = "search_step cx uc dp cap" and s = "(map (\<lambda>(l, s). (l, s, 0)) scanned, [])"])
  have "hd (map (\<lambda>(l, s). (l, s, 0)) scanned) \<in> set (map (\<lambda>(l, s). (l, s, 0)) scanned)" if "scanned \<noteq> []"
    using that by (intro hd_in_set) simp
  moreover have "map depth_of (map (\<lambda>(l, s). (l, s, 0)) scanned) = replicate (length scanned) 0"
    by (induction scanned) (auto simp: depth_of_def)
  ultimately have "in_order (map (\<lambda>(l, s). (l, s, 0)) scanned, [])"
    by (auto simp: in_order_def depth_of_def)
  then show "complete_search cx uc dp cap scanned (map (\<lambda>(l, s). (l, s, 0)) scanned, [])"
    by (force simp: complete_search_def queued_def)
qed (use assms in \<open>simp_all add: search_layers_def search_step_complete\<close>)

lemma search_stops: "search_layers cx uc dp cap scanned = Some st \<Longrightarrow> \<not> search_more cap st"
  unfolding search_layers_def by (rule while_option_stop)

lemma layers_are_explored:
  assumes r: "search_layers cx uc dp cap scanned = Some (q, as)" and below: "length as < cap" and inj: "inj (cx_sha256 cx)"
    and h: "hidden_layer cx uc scanned n b" and n: "n \<le> dp"
  shows "\<exists>a \<in> set as. ar_sha a = cx_sha256 cx b \<and> ar_layer a \<le> n"
proof -
  have q: "q = []" using search_stops[OF r] below by (simp add: search_more_def)
  have c: "\<And>s. s \<in> snd ` set scanned \<Longrightarrow> explored cx uc dp as s 0"
    "\<And>a. a \<in> set as \<Longrightarrow> \<exists>b. ar_sha a = cx_sha256 cx b \<and> explored cx uc dp as (utf8_decode_replace b) (ar_layer a)"
    using search_complete[OF r] below by (auto simp: complete_search_def q queued_def)
  show ?thesis using h n
  proof (induction rule: hidden_layer.induct)
    case (first l s f)
    then have "s \<in> snd ` set scanned" by force
    with c(1)[of s] first show ?case by (force simp: explored_def candidates_hashed)
  next
    case (deeper n b f l)
    then obtain a where a: "a \<in> set as" "ar_sha a = cx_sha256 cx b" "ar_layer a \<le> n" by auto
    with c(2)[OF a(1)] inj have "explored cx uc dp as (utf8_decode_replace b) (ar_layer a)"
      by (auto dest: injD)
    with deeper a(3) obtain a' where "a' \<in> set as" "ar_sha a' = fo_sha f" "ar_layer a' \<le> Suc (ar_layer a)"
      unfolding explored_def by (metis Suc_le_lessD leD le_less_trans)
    with a(3) deeper.hyps(2) show ?case by (auto simp: candidates_hashed intro!: bexI[of _ a'])
  qed
qed

text \<open>C37. Decoding is complete below the cap. When the search did not stop at the maximal number of artifacts (and the
  hash has no collisions), the artifacts are exactly the layers down to the maximal depth, one for each, at the
  smallest depth at which it is found.\<close>

theorem decoding_is_complete:
  assumes "search_layers cx uc deepest cap scanned = Some (q, as)" "length as < cap" "inj (cx_sha256 cx)"
  shows "((\<exists>a \<in> set as. describes cx a b) \<longleftrightarrow> (\<exists>n \<le> deepest. hidden_layer cx uc scanned n b)) \<and>
    (\<forall>a \<in> set as. describes cx a b \<longrightarrow>
       hidden_layer cx uc scanned (ar_layer a) b \<and> (\<forall>n. hidden_layer cx uc scanned n b \<longrightarrow> ar_layer a \<le> n))"
proof -
  have so: "\<And>a. a \<in> set as \<Longrightarrow> ar_layer a \<le> deepest \<and> (\<exists>b. hidden_layer cx uc scanned (ar_layer a) b \<and> describes cx a b)"
    and di: "distinct (map ar_sha as)"
    using search_sound[OF assms(1)] by (simp_all add: sound_search_def)
  have same: "describes cx a b \<Longrightarrow> describes cx a b' \<Longrightarrow> b' = b" for a b'
    using assms(3) by (auto simp: describes_def dest: injD)
  have layer: "a \<in> set as \<Longrightarrow> describes cx a b \<Longrightarrow> hidden_layer cx uc scanned (ar_layer a) b" for a
    using so[of a] same[of a] by blast
  have "\<exists>a \<in> set as. describes cx a b" if h: "hidden_layer cx uc scanned n b" "n \<le> deepest" for n
  proof -
    from layers_are_explored[OF assms h] obtain a where a: "a \<in> set as" "ar_sha a = cx_sha256 cx b" by blast
    with so[OF a(1)] assms(3) show ?thesis by (metis describes_def injD)
  qed
  moreover have "ar_layer a \<le> n" if a: "a \<in> set as" "describes cx a b" and h: "hidden_layer cx uc scanned n b" for a n
  proof (cases "n \<le> deepest")
    case True
    from layers_are_explored[OF assms h True] obtain a' where a': "a' \<in> set as" "ar_sha a' = cx_sha256 cx b" "ar_layer a' \<le> n"
      by blast
    have "a' = a" using di a a'(1,2) by (auto simp: describes_def distinct_map inj_on_def)
    with a' show ?thesis by simp
  next
    case False
    with so[OF a(1)] show ?thesis by linarith
  qed
  ultimately show ?thesis using layer so by blast
qed


section \<open>An encoded payload surfaces\<close>

text \<open>Base64 as RFC 4648 has it.\<close>

definition b64_digit :: "nat \<Rightarrow> nat" where
  "b64_digit v =
     (if v < 26 then v + 65 else if v < 52 then v + 71 else if v < 62 then v - 4 else if v = 62 then 43 else 47)"

definition triple :: "nat \<Rightarrow> nat \<Rightarrow> nat \<Rightarrow> nat" where
  "triple a b c = (a * 256 + b) * 256 + c"

definition quad :: "nat \<Rightarrow> nat list" where
  "quad n = [n div 262144 mod 64, n div 4096 mod 64, n div 64 mod 64, n mod 64]"

fun b64_body :: "bytes \<Rightarrow> utext" where
  "b64_body (a # b # c # r) = map b64_digit (quad (triple a b c)) @ b64_body r"
| "b64_body [a, b] = map b64_digit (take 3 (quad (triple a b 0)))"
| "b64_body [a] = map b64_digit (take 2 (quad (triple a 0 0)))"
| "b64_body [] = []"

definition b64_encode :: "bytes \<Rightarrow> utext" where
  "b64_encode b = b64_body b @ replicate ((3 - length b mod 3) mod 3) 61"

definition octets :: "bytes \<Rightarrow> bool" where
  "octets b \<longleftrightarrow> list_all (\<lambda>x. x < 256) b"

lemma b64_digit_char: "v < 64 \<Longrightarrow> b64_char (b64_digit v)"
  by (auto simp: b64_char_def b64_digit_def u_letter_def u_upper_def u_lowercase_def u_digit_def)

lemma b64_value_digit: "v < 64 \<Longrightarrow> b64_value (b64_digit v) = v"
  by (auto simp: b64_value_def b64_digit_def u_upper_def u_lowercase_def u_digit_def)

lemma quad_digits: "x \<in> set (quad n) \<Longrightarrow> x < 64" "length (quad n) = 4"
  by (auto simp: quad_def)

lemma quad_join:
  assumes "n < 16777216"
  shows "quad n = [w, x, y, z] \<Longrightarrow> join64 [w, x] = n div 4096 \<and> join64 [w, x, y] = n div 64 \<and> join64 [w, x, y, z] = n"
proof -
  define p q where "p = n div 64" and "q = p div 64"
  have q: "n div 4096 = q" using div_mult2_eq[of n 64 64] by (simp add: p_def q_def)
  have "n div 262144 = q div 64" using div_mult2_eq[of n 4096 64] by (simp add: q[symmetric])
  moreover have "n div 262144 < 64" using assms by (intro less_mult_imp_div_less) simp
  ultimately have r: "n div 262144 mod 64 = q div 64" by simp
  have j: "q div 64 * 64 + q mod 64 = q" "q * 64 + p mod 64 = p" "p * 64 + n mod 64 = n"
    unfolding q_def p_def by (simp_all only: div_mult_mod_eq)
  assume "quad n = [w, x, y, z]"
  then have "w = q div 64" "x = q mod 64" "y = p mod 64" "z = n mod 64"
    unfolding quad_def r q p_def[symmetric] by simp_all
  moreover have "join64 [w, x] = w * 64 + x" "join64 [w, x, y] = join64 [w, x] * 64 + y"
    "join64 [w, x, y, z] = join64 [w, x, y] * 64 + z" by (simp_all add: join64_def)
  ultimately show ?thesis unfolding q p_def[symmetric] by (simp only: j simp_thms)
qed

lemma quad_ex: "\<exists>w x y z. quad n = [w, x, y, z] \<and> w < 64 \<and> x < 64 \<and> y < 64 \<and> z < 64"
  by (simp add: quad_def)

lemma triple_parts:
  assumes "a < 256" "b < 256" "c < 256"
  shows "triple a b c < 16777216" "triple a b c div 65536 = a" "triple a b c div 256 mod 256 = b" "triple a b c mod 256 = c"
proof -
  have part: "(m * 256 + r) div 256 = m" "(m * 256 + r) mod 256 = r" if "r < 256" for m r :: nat using that by simp_all
  have n: "triple a b c div 256 = a * 256 + b" unfolding triple_def by (rule part(1)) (rule assms(3))
  show "triple a b c div 256 mod 256 = b" unfolding n by (rule part(2)) (rule assms(2))
  show "triple a b c mod 256 = c" unfolding triple_def by (rule part(2)) (rule assms(3))
  have "triple a b c div 65536 = triple a b c div 256 div 256" using div_mult2_eq[of "triple a b c" 256 256] by simp
  also have "\<dots> = a" unfolding n by (rule part(1)) (rule assms(2))
  finally show "triple a b c div 65536 = a" .
qed (use assms in \<open>simp add: triple_def\<close>)

lemma quad_chars: "list_all b64_char (map b64_digit (quad n))" "list_all b64_char (map b64_digit (take k (quad n)))"
  by (auto simp: list_all_iff dest!: in_set_takeD intro!: b64_digit_char quad_digits(1))

lemma b64_body_chars: "list_all b64_char (b64_body b)"
  by (induction b rule: b64_body.induct) (simp_all only: b64_body.simps list_all_append quad_chars list.pred_inject simp_thms)

lemma b64_body_length: "length (b64_body b) = length b div 3 * 4 + (if length b mod 3 = 0 then 0 else length b mod 3 + 1)"
proof (induction b rule: b64_body.induct)
  case (1 a b c r)
  have "length (a # b # c # r) div 3 = Suc (length r div 3)" "length (a # b # c # r) mod 3 = length r mod 3" by simp_all
  with 1 show ?case by (simp only: b64_body.simps length_append length_map quad_digits(2)) simp
qed (simp_all add: quad_digits(2))

lemma b64_bytes_body: "octets b \<Longrightarrow> b64_bytes (map b64_value (b64_body b)) = b"
proof (induction b rule: b64_body.induct)
  case (1 a b c r)
  then have t: "a < 256" "b < 256" "c < 256" and r: "octets r" by (simp_all add: octets_def)
  obtain w x y z where q: "quad (triple a b c) = [w, x, y, z]" "w < 64" "x < 64" "y < 64" "z < 64" using quad_ex by blast
  show ?case using quad_join[OF triple_parts(1)[OF t] q(1)] triple_parts[OF t] 1(1)[OF r] by (simp add: q b64_value_digit)
next
  case (2 a b)
  then have t: "a < 256" "b < 256" "0 < (256::nat)" by (simp_all add: octets_def)
  obtain w x y z where q: "quad (triple a b 0) = [w, x, y, z]" "w < 64" "x < 64" "y < 64" "z < 64" using quad_ex by blast
  have "triple a b 0 div 64 div 1024 = triple a b 0 div 65536" "triple a b 0 div 64 div 4 = triple a b 0 div 256"
    using div_mult2_eq[of "triple a b 0" 64 1024] div_mult2_eq[of "triple a b 0" 64 4] by simp_all
  with quad_join[OF triple_parts(1)[OF t] q(1)] triple_parts[OF t] show ?case by (simp add: q b64_value_digit numeral_3_eq_3)
next
  case (3 a)
  then have t: "a < 256" "0 < (256::nat)" "0 < (256::nat)" by (simp_all add: octets_def)
  obtain w x y z where q: "quad (triple a 0 0) = [w, x, y, z]" "w < 64" "x < 64" "y < 64" "z < 64" using quad_ex by blast
  have "triple a 0 0 div 4096 div 16 = triple a 0 0 div 65536" using div_mult2_eq[of "triple a 0 0" 4096 16] by simp
  with quad_join[OF triple_parts(1)[OF t] q(1)] triple_parts[OF t] show ?case by (simp add: q b64_value_digit numeral_2_eq_2)
qed simp

lemma b64_pad: "b64_char c \<Longrightarrow> c \<noteq> 61 \<and> \<not> u_space c"
  by (auto simp: b64_char_def u_letter_def u_upper_def u_lowercase_def u_digit_def u_space_def)

lemma b64_split:
  assumes "list_all b64_char body"
  shows "takeWhile b64_char (body @ replicate k 61 @ rest) = body @ (if k = 0 then takeWhile b64_char rest else [])"
    "k = 0 \<longrightarrow> rest = [] \<Longrightarrow> dropWhile b64_char (body @ replicate k 61 @ rest) = replicate k 61 @ rest"
proof -
  have e: "\<not> b64_char 61" using b64_pad by blast
  show "takeWhile b64_char (body @ replicate k 61 @ rest) = body @ (if k = 0 then takeWhile b64_char rest else [])"
    using assms e by (cases k) (auto simp: list_all_iff takeWhile_append)
  show "k = 0 \<longrightarrow> rest = [] \<Longrightarrow> dropWhile b64_char (body @ replicate k 61 @ rest) = replicate k 61 @ rest"
    using assms e by (cases k) (auto simp: list_all_iff dropWhile_append)
qed

lemma thirds: "(n::nat) mod 3 = 0 \<or> n mod 3 = 1 \<or> n mod 3 = 2"
  by linarith

lemma body_and_pad:
  "(length (b64_body b) mod 4, (3 - length b mod 3) mod 3) \<in> {(0, 0), (2, 2), (3, 1)}"
  using thirds[of "length b"] by (elim disjE) (simp_all add: b64_body_length mod_Suc)

lemma encode_length: "length (b64_encode b) mod 4 = 0"
  using thirds[of "length b"] by (elim disjE) (simp_all add: b64_encode_def b64_body_length add.assoc)

lemma dropWhile_none: "(\<forall>x \<in> set xs. \<not> p x) \<Longrightarrow> dropWhile p xs = xs"
  by (cases xs) simp_all

text \<open>Decoding undoes encoding.\<close>

lemma decode_b64_encode:
  assumes "octets b" "3 \<le> length b"
  shows "decode_b64 (b64_encode b) = Some b"
proof -
  let ?k = "(3 - length b mod 3) mod 3"
  have c: "list_all b64_char (b64_body b)" by (rule b64_body_chars)
  have "\<forall>x \<in> set (b64_encode b). \<not> u_space x"
    using c b64_pad by (auto simp: b64_encode_def list_all_iff u_space_def)
  then have st: "strip_text (b64_encode b) = b64_encode b" by (simp add: strip_text_def dropWhile_none)
  have tw: "takeWhile b64_char (b64_encode b) = b64_body b" "dropWhile b64_char (b64_encode b) = replicate ?k 61"
    using b64_split[OF c, of ?k "[]"] by (simp_all add: b64_encode_def)
  have "list_all (\<lambda>c. c = 61) (replicate ?k (61::nat))" by (simp add: list_all_iff)
  moreover have "length (b64_body b) mod 4 = 0 \<and> (b64_body b \<noteq> [] \<or> replicate ?k (61::nat) = []) \<or>
      length (b64_body b) mod 4 = 2 \<and> ?k = 2 \<or> length (b64_body b) mod 4 = 3 \<and> ?k = 1"
    using body_and_pad[of b] by (elim insertE emptyE) simp_all
  ultimately have "b64decode (b64_encode b) = Some b"
    unfolding b64decode_def Let_def tw length_replicate by (simp only: if_True simp_thms b64_bytes_body[OF assms(1)])
  then show ?thesis using assms(2) by (simp add: decode_b64_def Let_def st encode_length)
qed

text \<open>Scanning finds the token.\<close>

definition token_char :: "nat \<Rightarrow> bool" where
  "token_char c \<longleftrightarrow> b64_char c \<or> c = 61"

lemma scan_b64_before: "scan_from b64_re past s = scan_from b64_re [] s"
proof (induction s arbitrary: past rule: length_induct)
  case (1 s)
  have ih: "scan_from b64_re b1 t = scan_from b64_re b2 t" if "length t < length s" for b1 b2 t
    using 1 that by metis
  show ?case
  proof (cases s)
    case (Cons c r)
    have m: "b64_re past (c # r) = b64_re [] (c # r)" by (simp add: b64_re_def)
    show ?thesis
    proof (cases "b64_re [] (c # r)")
      case None
      then show ?thesis using m ih[of r "c # past" "[c]"] by (simp add: Cons)
    next
      case (Some p)
      then show ?thesis
        using m ih[of "drop (snd p - 1) r" "rev (take (Suc (snd p - 1)) (c # r)) @ past" "rev (take (Suc (snd p - 1)) (c # r)) @ []"]
        by (cases p) (simp add: Cons)
    qed
  qed simp
qed

lemma run_stops_append: "\<not> p c \<Longrightarrow> run p (xs @ c # ys) = run p xs"
  by (induction xs) (simp_all add: run_def)

lemma run_le: "run p xs \<le> length xs"
  by (simp add: run_def length_takeWhile_le)

lemma b64_run_stops:
  assumes "\<not> token_char c"
  shows "b64_run b64_char k (xs @ c # t) = b64_run b64_char k xs"
proof -
  let ?n = "run b64_char xs"
  have c: "\<not> b64_char c" "c \<noteq> 61" using assms by (simp_all add: token_char_def)
  have "run (\<lambda>c. c = 61) (take 2 (drop ?n xs @ c # t)) = run (\<lambda>c. c = 61) (take 2 (drop ?n xs))"
    using c(2) by (cases "drop ?n xs"; cases "tl (drop ?n xs)") (auto simp: run_def numeral_2_eq_2)
  moreover have "take (?n + run (\<lambda>c. c = 61) (take 2 (drop ?n xs))) (xs @ c # t) =
      take (?n + run (\<lambda>c. c = 61) (take 2 (drop ?n xs))) xs"
  proof -
    have "?n + run (\<lambda>c. c = 61) (take 2 (drop ?n xs)) \<le> length xs"
      using run_le[of b64_char xs] run_le[of "\<lambda>c. c = 61" "take 2 (drop ?n xs)"] by simp linarith
    then show ?thesis by simp
  qed
  ultimately show ?thesis using run_le[of b64_char xs] by (simp add: b64_run_def Let_def run_stops_append[where p = b64_char, OF c(1)])
qed

lemma b64_re_length: "b64_re past s = Some (t, n) \<Longrightarrow> n \<le> length s"
  by (auto simp: b64_re_def b64_run_def Let_def split: if_splits)

lemma scan_b64_after:
  assumes "\<not> token_char c"
  shows "set (scan b64_re s) \<subseteq> set (scan b64_re (pre @ c # s))"
proof (induction pre rule: length_induct)
  case (1 pre)
  show ?case
  proof (cases pre)
    case Nil
    have "b64_re past (c # s) = None" for past
      using assms by (simp add: b64_re_def b64_run_def run_def token_char_def min_b64_len_def)
    then show ?thesis using Nil scan_b64_before[of "[c]" s] by (simp add: scan_def)
  next
    case (Cons x r)
    have m: "b64_re [] (pre @ c # s) = b64_re [] pre" using assms by (simp add: b64_re_def b64_run_stops)
    show ?thesis
    proof (cases "b64_re [] pre")
      case None
      then have "scan b64_re (pre @ c # s) = scan b64_re (r @ c # s)"
        using m scan_b64_before[of "[x]" "r @ c # s"] by (simp add: Cons scan_def)
      with 1 Cons show ?thesis by simp
    next
      case (Some p)
      obtain t n where p: "p = (t, n)" by fastforce
      with Some b64_re_length have "n \<le> length pre" by blast
      then have "set (scan b64_re (drop (n - 1) r @ c # s)) \<subseteq> set (scan b64_re (pre @ c # s))"
        using m Some scan_b64_before[of "rev (take (n - Suc 0) r) @ [x]" "drop (n - Suc 0) r @ c # s"] Cons
        by (auto simp: scan_def p)
      moreover have "length (drop (n - 1) r) < length pre" by (simp add: Cons)
      ultimately show ?thesis using 1 by blast
    qed
  qed
qed

lemma scan_b64_token:
  assumes "octets b" "18 \<le> length b" "rest = [] \<or> \<not> token_char (hd rest)"
  shows "b64_encode b \<in> set (scan b64_re (b64_encode b @ rest))"
proof -
  let ?k = "(3 - length b mod 3) mod 3" and ?s = "b64_encode b @ rest"
  have c: "list_all b64_char (b64_body b)" by (rule b64_body_chars)
  have s: "?s = b64_body b @ replicate ?k 61 @ rest" by (simp add: b64_encode_def)
  have "takeWhile b64_char rest = []" using assms(3) by (cases rest) (auto simp: token_char_def)
  then have n: "run b64_char ?s = length (b64_body b)"
    unfolding run_def s by (simp add: b64_split(1)[OF c] del: append_assoc)
  have "?k \<le> 2" by (simp add: less_Suc_eq_le[symmetric] numeral_2_eq_2[symmetric])
  moreover have "run (\<lambda>c. c = 61) (take 2 (replicate j 61 @ rest)) = j" if "j \<le> 2" for j
    using that assms(3) by (cases rest; cases j; cases "j - 1") (auto simp: run_def token_char_def numeral_2_eq_2)
  ultimately have "run (\<lambda>c. c = 61) (take 2 (drop (length (b64_body b)) ?s)) = ?k" unfolding s by simp
  moreover have "24 \<le> length (b64_body b)"
  proof -
    have "6 \<le> length b div 3" using assms(2) by linarith
    then show ?thesis by (simp add: b64_body_length)
  qed
  ultimately have "b64_run b64_char min_b64_len ?s = Some (b64_encode b)"
    by (simp add: b64_run_def n Let_def min_b64_len_def) (simp add: b64_encode_def)
  then have "b64_re [] ?s = Some (b64_encode b, length (b64_encode b))" by (simp add: b64_re_def)
  moreover have "?s \<noteq> []" using \<open>24 \<le> length (b64_body b)\<close> by (auto simp: b64_encode_def)
  ultimately show ?thesis by (cases ?s) (auto simp: scan_def)
qed


lemma fold_reaches:
  assumes "x \<in> set xs" "P y" and "\<And>x y. P y \<Longrightarrow> P (g x y)" and "\<And>y. P y \<Longrightarrow> Q (g x y)"
    and "\<And>x y. Q y \<Longrightarrow> Q (g x y)"
  shows "Q (fold g xs y)"
  using assms(1,2)
proof (induction xs arbitrary: y)
  case (Cons z xs)
  show ?case
  proof (cases "z = x")
    case True
    with Cons.prems assms(4) have "Q (g z y)" by simp
    then show ?thesis by (simp add: fold_keeps[where P = Q, OF assms(5)])
  next
    case False
    with Cons assms(3) show ?thesis by simp
  qed
qed simp

definition has_hash :: "utext \<Rightarrow> found list \<Rightarrow> bool" where
  "has_hash h fs \<longleftrightarrow> h \<in> fo_sha ` set fs"

lemma has_hash_add: "has_hash h fs \<Longrightarrow> has_hash h (add_found cx l e d fs)" "has_hash (cx_sha256 cx d) (add_found cx l e d fs)"
  by (auto simp: has_hash_def add_found_def Let_def)

lemma has_hash_steps:
  "has_hash h fs \<Longrightarrow> has_hash h (add_ps cx l t fs)" "has_hash h fs \<Longrightarrow> has_hash h (add_b64 cx l t fs)"
  "has_hash h fs \<Longrightarrow> has_hash h (add_hex cx l t fs)" "has_hash h fs \<Longrightarrow> has_hash h (add_pct cx l m fs)"
  "has_hash h fs \<Longrightarrow> has_hash h (add_escape cx l m fs)"
  by (auto simp: add_ps_def add_b64_def add_hex_def add_pct_def add_escape_def has_hash_add split: option.split)

lemma has_hash_folds:
  "has_hash h fs \<Longrightarrow> has_hash h (fold (add_hex cx l) ts fs)" "has_hash h fs \<Longrightarrow> has_hash h (fold (add_pct cx l) ms fs)"
  "has_hash h fs \<Longrightarrow> has_hash h (fold (add_escape cx l) ms fs)"
  by (rule fold_keeps[where P = "has_hash h"]; simp add: has_hash_steps)+

lemma token_is_candidate:
  assumes t: "t \<in> set (scan b64_re s)" "decode_b64 t = Some b" "keep_layer (unwrap cx b)" "t \<notin> range (cx_sha256 cx)"
  shows "has_hash (cx_sha256 cx (unwrap cx b)) (decode_candidates cx uc l s)"
proof -
  let ?Q = "has_hash (cx_sha256 cx (unwrap cx b))"
  have h: "hashed cx (fold (add_ps cx l) ts [])" for ts
    by (rule fold_keeps[where P = "hashed cx"]) (auto simp: hashed_steps, simp add: hashed_def)
  have new: "?Q (add_b64 cx l t fs)" if "hashed cx fs" for fs
  proof -
    have "t \<notin> fo_sha ` set fs" using that t(4) by (auto simp: hashed_def)
    with t(2,3) show ?thesis by (simp add: add_b64_def has_hash_add)
  qed
  have "?Q (fold (add_b64 cx l) (scan b64_re s) (fold (add_ps cx l) (scan ps_enc_re s) []))"
    by (rule fold_reaches[where P = "hashed cx" and Q = ?Q and x = t, OF t(1) h])
      (simp_all add: new hashed_steps has_hash_steps)
  then show ?thesis
    unfolding decode_candidates_def Let_def by (simp add: has_hash_add has_hash_folds split: option.split)
qed

definition utf16_bytes :: "utext \<Rightarrow> bytes" where
  "utf16_bytes s = concat (map (\<lambda>c. [c, 0]) s)"

lemma unwrap_utf16:
  assumes "ascii s" "s \<noteq> []" "maybe_decompress cx (utf16_bytes s) \<in> {None, Some []}"
  shows "unwrap cx (utf16_bytes s) = s"
proof -
  have z: "0 \<in> set (utf16_bytes s)" using assms(2) by (cases s) (auto simp: utf16_bytes_def)
  have "utf16le_if_clean (utf16_bytes s) = Some s"
    using assms(1) z by (simp add: utf16le_if_clean_def) (simp add: utf16_bytes_def utf16_ascii)
  with assms show ?thesis by (cases s) (auto simp: unwrap_def or_else_def)
qed

lemma payload_is_hidden:
  assumes "(l, pre @ b64_encode b @ post) \<in> set scanned" "octets b" "18 \<le> length b"
    "pre = [] \<or> \<not> token_char (last pre)" "post = [] \<or> \<not> token_char (hd post)"
    "keep_layer (unwrap cx b)" "b64_encode b \<notin> range (cx_sha256 cx)" "inj (cx_sha256 cx)"
  shows "hidden_layer cx uc scanned 1 (unwrap cx b)"
proof -
  let ?t = "b64_encode b" and ?u = "unwrap cx b"
  have "?t \<in> set (scan b64_re (?t @ post))" by (rule scan_b64_token[OF assms(2,3,5)])
  moreover have "set (scan b64_re (?t @ post)) \<subseteq> set (scan b64_re (pre @ ?t @ post))"
  proof (cases "pre = []")
    case False
    then have e: "pre @ ?t @ post = butlast pre @ last pre # (?t @ post)" by simp
    show ?thesis unfolding e by (rule scan_b64_after) (use False assms(4) in simp)
  qed simp
  ultimately have "?t \<in> set (scan b64_re (pre @ ?t @ post))" by blast
  moreover have "decode_b64 ?t = Some b" using assms(2,3) by (intro decode_b64_encode) simp_all
  ultimately have "has_hash (cx_sha256 cx ?u) (decode_candidates cx uc l (pre @ ?t @ post))"
    by (rule token_is_candidate[OF _ _ assms(6,7)])
  then obtain f where f: "f \<in> set (decode_candidates cx uc l (pre @ ?t @ post))" "fo_sha f = cx_sha256 cx ?u"
    by (auto simp: has_hash_def)
  then have "cx_sha256 cx (fo_bytes f) = cx_sha256 cx ?u" using candidates_hashed[OF f(1)] by simp
  then have "fo_bytes f = ?u" by (rule injD[OF assms(8)])
  with hidden_layer.first[OF assms(1) f(1)] show ?thesis by simp
qed

text \<open>With one layer allowed the artifacts are no more than the candidates of the fields.\<close>

lemma one_layer_count:
  assumes "search_layers cx uc 1 cap [(l, s)] = Some (q, as)"
  shows "length as \<le> length (decode_candidates cx uc l s)"
proof -
  have so: "sound_search cx uc 1 cap [(l, s)] (q, as)" by (rule search_sound[OF assms])
  have "ar_sha a \<in> fo_sha ` set (decode_candidates cx uc l s)" if a: "a \<in> set as" for a
  proof -
    from so a obtain b where b: "hidden_layer cx uc [(l, s)] (ar_layer a) b" "ar_layer a \<le> 1" "ar_sha a = cx_sha256 cx b"
      by (auto simp: sound_search_def describes_def)
    from b(1,2) obtain f where "f \<in> set (decode_candidates cx uc l s)" "b = fo_bytes f"
      by (cases rule: hidden_layer.cases) (auto dest: hidden_layer_positive)
    with b(3) candidates_hashed show ?thesis by force
  qed
  then have "ar_sha ` set as \<subseteq> fo_sha ` set (decode_candidates cx uc l s)" by blast
  then have "card (ar_sha ` set as) \<le> card (fo_sha ` set (decode_candidates cx uc l s))" by (rule card_mono[rotated]) simp
  moreover have "card (ar_sha ` set as) = length as"
    using so distinct_card[of "map ar_sha as"] by (simp add: sound_search_def)
  moreover have "card (fo_sha ` set (decode_candidates cx uc l s)) \<le> length (decode_candidates cx uc l s)"
    using card_length[of "map fo_sha (decode_candidates cx uc l s)"] by simp
  ultimately show ?thesis by linarith
qed

text \<open>C38. A payload encoded in Base64 surfaces, if the decoder's own limits let it. When a scanned field holds the
  Base64 text of at least 18 bytes, not run together with other characters of the alphabet, what the bytes unwrap to
  (decompressed, else decoded from UTF-16, else as they are) is printable to four fifths, the number of artifacts stays
  below the cap, and the hash has no collisions and does not have the text among its digests, then an artifact of layer 1
  describes exactly the unwrapped bytes. If the bytes are an ASCII script in UTF-16 that does not decompress, as those
  of a PowerShell encoded command are, the artifact's text is the script, cut to the stored length.\<close>

theorem encoded_payload_surfaces:
  assumes "(l, pre @ b64_encode b @ post) \<in> set scanned" "octets b" "18 \<le> length b"
    "pre = [] \<or> \<not> token_char (last pre)" "post = [] \<or> \<not> token_char (hd post)"
    "keep_layer (unwrap cx b)" "b64_encode b \<notin> range (cx_sha256 cx)" "inj (cx_sha256 cx)"
    "search_layers cx uc deepest cap scanned = Some (q, as)" "length as < cap" "1 \<le> deepest"
  shows "\<exists>a \<in> set as. ar_layer a = 1 \<and> describes cx a (unwrap cx b) \<and>
    (b = utf16_bytes s \<and> ascii s \<and> maybe_decompress cx b \<in> {None, Some []} \<longrightarrow> ar_text a = take max_decoded_store s)"
proof -
  let ?u = "unwrap cx b"
  from layers_are_explored[OF assms(9,10,8) payload_is_hidden[OF assms(1-8)] assms(11)] obtain a where
    a: "a \<in> set as" "ar_sha a = cx_sha256 cx ?u" "ar_layer a \<le> 1" by blast
  from search_sound[OF assms(9)] a(1) obtain u where
    u: "hidden_layer cx uc scanned (ar_layer a) u" "describes cx a u" by (auto simp: sound_search_def)
  then have "cx_sha256 cx u = cx_sha256 cx ?u" using a(2) by (simp add: describes_def)
  then have "u = ?u" by (rule injD[OF assms(8)])
  moreover have "ar_layer a = 1" using a(3) hidden_layer_positive[OF u(1)] by simp
  moreover have "ar_text a = take max_decoded_store s"
    if s: "b = utf16_bytes s" "ascii s" "maybe_decompress cx b \<in> {None, Some []}"
  proof -
    have "s \<noteq> []" using assms(3) s(1) by (auto simp: utf16_bytes_def)
    with s have "?u = s" using unwrap_utf16[of s cx] by simp
    with u(2) \<open>u = ?u\<close> s(2) show ?thesis by (simp add: describes_def)
  qed
  ultimately show ?thesis using a(1) u(2) by blast
qed

text \<open>A token whose last group is complete decodes with or without further equals signs; a token with a long s in it,
  which the detector of encoded commands takes, does not decode.\<close>

lemma extra_padding_is_read_over: "b64decode (utf ''AAAA===='') = Some [0, 0, 0]" "b64decode (utf ''AA='') = None"
  by (simp_all add: b64decode_def utf_def char_code_def b64_char_def u_letter_def u_upper_def u_lowercase_def u_digit_def
      b64_value_def join64_def)

text \<open>A command line with the script \<open>"whoami /priv"\<close> encoded.\<close>

definition example_script :: utext where
  "example_script = utf ''whoami /priv''"

definition example_codecs :: codecs where
  "example_codecs = \<lparr>cx_sha256 = (\<lambda>b. 0 # b), cx_gunzip = (\<lambda>_. None), cx_inflate = (\<lambda>_ _. None)\<rparr>"

definition example_unicode :: unicode where
  "example_unicode = \<lparr>uc_alnum = (\<lambda>_. False), uc_decimal = (\<lambda>_. None), uc_isdigit = (\<lambda>_. False), uc_lower = id\<rparr>"

definition example_command :: utext where
  "example_command = utf ''cmd -e '' @ b64_encode (utf16_bytes example_script) @ []"

definition example_cap :: nat where
  "example_cap = Suc (length (decode_candidates example_codecs example_unicode ''command_line'' example_command))"

lemma example_script_codes: "example_script = [119, 104, 111, 97, 109, 105, 32, 47, 112, 114, 105, 118]"
  by (simp add: example_script_def utf_def char_code_def)

lemma example_payload:
  "octets (utf16_bytes example_script)" "18 \<le> length (utf16_bytes example_script)"
  "unwrap example_codecs (utf16_bytes example_script) = example_script" "keep_layer example_script" "ascii example_script"
  "maybe_decompress example_codecs (utf16_bytes example_script) \<in> {None, Some []}"
proof -
  show m: "maybe_decompress example_codecs (utf16_bytes example_script) \<in> {None, Some []}"
    by (simp add: maybe_decompress_def example_codecs_def)
  show a: "ascii example_script" by (simp add: example_script_codes ascii_def)
  show "unwrap example_codecs (utf16_bytes example_script) = example_script"
    by (rule unwrap_utf16[OF a _ m]) (simp add: example_script_codes)
  show "keep_layer example_script"
    by (simp add: keep_layer_def printable_ratio_def min_printable_ratio_def example_script_codes)
  show "octets (utf16_bytes example_script)" "18 \<le> length (utf16_bytes example_script)"
    by (simp_all add: example_script_codes utf16_bytes_def octets_def)
qed

lemma example_hash: "inj (cx_sha256 example_codecs)" "b64_encode b \<notin> range (cx_sha256 example_codecs)"
proof -
  show "inj (cx_sha256 example_codecs)" by (simp add: example_codecs_def inj_def)
  have "0 \<notin> set (b64_encode b)"
    using b64_body_chars[of b] b64_char_def[of 0] by (auto simp: b64_encode_def list_all_iff u_letter_def u_upper_def u_lowercase_def u_digit_def)
  then show "b64_encode b \<notin> range (cx_sha256 example_codecs)" by (auto simp: example_codecs_def)
qed

lemma example_payload_conditions:
  "(''command_line'', utf ''cmd -e '' @ b64_encode (utf16_bytes example_script) @ []) \<in> set [(''command_line'', example_command)]"
  "utf ''cmd -e '' = [] \<or> \<not> token_char (last (utf ''cmd -e ''))" "[] = [] \<or> \<not> token_char (hd [])"
  "keep_layer (unwrap example_codecs (utf16_bytes example_script))"
  by (simp_all add: example_command_def example_payload utf_def char_code_def token_char_def b64_char_def u_letter_def
      u_upper_def u_lowercase_def u_digit_def)

lemma example_search:
  "\<exists>q as. search_layers example_codecs example_unicode 1 example_cap [(''command_line'', example_command)] = Some (q, as) \<and>
     length as < example_cap"
proof -
  obtain q as where s: "search_layers example_codecs example_unicode 1 example_cap [(''command_line'', example_command)] = Some (q, as)"
    using search_ends[of example_codecs example_unicode 1 example_cap "[(''command_line'', example_command)]"] by fastforce
  with one_layer_count[OF s] show ?thesis by (simp add: example_cap_def)
qed

lemmas example_is_hidden = payload_is_hidden[OF example_payload_conditions(1) example_payload(1,2) example_payload_conditions(2-4)
  example_hash(2,1)]

lemma encoded_payload_surfaces_witness:
  "\<exists>q as. search_layers example_codecs example_unicode 1 example_cap [(''command_line'', example_command)] = Some (q, as) \<and>
     (\<exists>a \<in> set as. ar_layer a = 1 \<and> ar_text a = take max_decoded_store example_script)"
proof -
  from example_search obtain q as where
    s: "search_layers example_codecs example_unicode 1 example_cap [(''command_line'', example_command)] = Some (q, as)"
      "length as < example_cap" by blast
  from encoded_payload_surfaces[OF example_payload_conditions(1) example_payload(1,2) example_payload_conditions(2-4)
      example_hash(2,1) s order_refl, of example_script]
  show ?thesis using s(1) example_payload(5,6) by auto
qed

lemma decoding_is_complete_witness:
  "\<exists>q as. search_layers example_codecs example_unicode 1 example_cap [(''command_line'', example_command)] = Some (q, as) \<and>
     (\<exists>a \<in> set as. describes example_codecs a example_script)"
proof -
  from example_search obtain q as where
    s: "search_layers example_codecs example_unicode 1 example_cap [(''command_line'', example_command)] = Some (q, as)"
      "length as < example_cap" by blast
  have "hidden_layer example_codecs example_unicode [(''command_line'', example_command)] 1 example_script"
    using example_is_hidden[of example_unicode] by (simp only: example_payload(3))
  with decoding_is_complete[OF s example_hash(1), of example_script] s(1) show ?thesis by blast
qed

end
