(* ===== verification/Ioc_Extract.thy ===== *)
theory Ioc_Extract
  imports Deobfuscation Url_Safety
begin

text \<open>
  The indicators of an alert, \<open>pipeline/ioc_extract.py\<close>, and how the enrichment step merges in those of
  the decoded payloads (\<open>pipeline/orchestrator.py\<close>). The patterns are matchers over texts of code points; the
  normalized alert gives the text of a field where it is a string.
\<close>

section \<open>Patterns\<close>

definition starts_word :: "unicode \<Rightarrow> utext \<Rightarrow> bool" where
  "starts_word uc s \<longleftrightarrow> (case s of [] \<Rightarrow> False | c # _ \<Rightarrow> is_word uc c)"

text \<open>\<open>\b\<close> next to a word character.\<close>

definition hash_re :: "unicode \<Rightarrow> nat \<Rightarrow> utext matcher" where
  "hash_re uc k past s =
     (if \<not> starts_word uc past \<and> k \<le> length s \<and> list_all u_hex (take k s) \<and> \<not> starts_word uc (drop k s)
      then Some (take k s, k) else None)"

definition md5_re :: "unicode \<Rightarrow> utext matcher" where "md5_re uc = hash_re uc 32"
definition sha1_re :: "unicode \<Rightarrow> utext matcher" where "sha1_re uc = hash_re uc 40"
definition sha256_re :: "unicode \<Rightarrow> utext matcher" where "sha256_re uc = hash_re uc 64"

definition url_char :: "nat \<Rightarrow> bool" where
  "url_char c \<longleftrightarrow> \<not> u_space c \<and> c \<notin> {34, 60, 62}"

definition url_re :: "utext matcher" where
  "url_re past s =
     (case find (\<lambda>p. prefix (utf p) s \<and> 0 < run url_char (drop (length p) s)) [''https://'', ''http://''] of
        None \<Rightarrow> None
      | Some p \<Rightarrow> (let n = length p + run url_char (drop (length p) s) in Some (take n s, n)))"

definition email_local_char :: "nat \<Rightarrow> bool" where
  "email_local_char c \<longleftrightarrow> u_letter c \<or> u_digit c \<or> c \<in> set (utf ''._%+-'')"

definition email_domain_char :: "nat \<Rightarrow> bool" where
  "email_domain_char c \<longleftrightarrow> u_letter c \<or> u_digit c \<or> c \<in> set (utf ''.-'')"

text \<open>The part after the at sign ends at the last dot that has a letter before it and two letters after it.\<close>

definition email_domain_length :: "utext \<Rightarrow> nat option" where
  "email_domain_length d =
     map_option (\<lambda>i. i + 1 + run u_letter (drop (i + 1) d))
       (find (\<lambda>i. d ! i = 46 \<and> 2 \<le> run u_letter (drop (i + 1) d)) (rev [1..<length d]))"

definition email_re :: "utext matcher" where
  "email_re past s =
     (let n = run email_local_char s
      in if 0 < n \<and> prefix [64] (drop n s) then
           (case email_domain_length (takeWhile email_domain_char (drop (n + 1) s)) of
              None \<Rightarrow> None
            | Some k \<Rightarrow> Some (take (n + 1 + k) s, n + 1 + k))
         else None)"

fun dotted_quad :: "unicode \<Rightarrow> nat \<Rightarrow> utext \<Rightarrow> nat option" where
  "dotted_quad uc k s =
     (let n = run (is_decimal uc) s
      in if n = 0 \<or> 3 < n then None
         else (case k of
                 0 \<Rightarrow> if starts_word uc (drop n s) then None else Some n
               | Suc k' \<Rightarrow> if prefix [46] (drop n s) then map_option (\<lambda>m. n + 1 + m) (dotted_quad uc k' (drop (n + 1) s)) else None))"

text \<open>An address pattern carries what is around it.\<close>

record dotted =
  dt_before :: utext
  dt_text :: utext
  dt_after :: utext

definition ip_re :: "unicode \<Rightarrow> dotted matcher" where
  "ip_re uc past s =
     (if starts_word uc past then None
      else map_option (\<lambda>n. (\<lparr>dt_before = rev (take 16 past), dt_text = take n s, dt_after = take 24 (drop n s)\<rparr>, n))
             (dotted_quad uc 3 s))"

section \<open>Tests\<close>

definition email_fields :: "string list" where
  "email_fields =
     [''sender'', ''from'', ''from_addr'', ''from_email'', ''mail_from'', ''return_path'', ''envelope_from'',
      ''recipient'', ''to'', ''rcpt_to'', ''to_email'']"

definition vendor_ref_domains :: "string list" where
  "vendor_ref_domains =
     [''fortinet.com'', ''fortigate.com'', ''microsoft.com'', ''msdn.com'', ''mitre.org'', ''cve.org'', ''iana.org'',
      ''ripe.net'', ''symantec.com'', ''broadcom.com'', ''trendmicro.com'']"

text \<open>\<open>s.split(c, 1)[0]\<close>, \<open>s.split(c, 1)[-1]\<close>, \<open>s.rsplit(c, 1)[-1]\<close> and \<open>s.rsplit(c, 1)[0]\<close>.\<close>

definition u_before :: "nat \<Rightarrow> utext \<Rightarrow> utext" where
  "u_before c s = takeWhile (\<lambda>d. d \<noteq> c) s"

definition u_after :: "nat \<Rightarrow> utext \<Rightarrow> utext" where
  "u_after c s = (if c \<in> set s then tl (dropWhile (\<lambda>d. d \<noteq> c) s) else s)"

definition u_after_last :: "nat \<Rightarrow> utext \<Rightarrow> utext" where
  "u_after_last c s = rev (takeWhile (\<lambda>d. d \<noteq> c) (rev s))"

definition u_before_last :: "nat \<Rightarrow> utext \<Rightarrow> utext" where
  "u_before_last c s = (if c \<in> set s then take (length s - length (u_after_last c s) - 1) s else s)"

definition u_rstrip :: "(nat \<Rightarrow> bool) \<Rightarrow> utext \<Rightarrow> utext" where
  "u_rstrip p s = rev (dropWhile p (rev s))"

text \<open>\<open>s.split(sep, 1)[1]\<close>, \<open>None\<close> where it raises.\<close>

fun u_after_text :: "utext \<Rightarrow> utext \<Rightarrow> utext option" where
  "u_after_text sep [] = None"
| "u_after_text sep (c # s) = (if prefix sep (c # s) then Some (drop (length sep) (c # s)) else u_after_text sep s)"

definition is_vendor_ref_url :: "unicode \<Rightarrow> utext \<Rightarrow> bool" where
  "is_vendor_ref_url uc url =
     (case u_after_text (utf ''//'') url of
        None \<Rightarrow> False
      | Some r \<Rightarrow>
          (let host = lower_text uc (u_before 47 r);
               host = (if prefix (utf ''www.'') host then drop 4 host else host)
           in list_ex (\<lambda>d. host = utf d \<or> suffix (46 # utf d) host) vendor_ref_domains))"

text \<open>An address is read by \<open>ip_address\<close> of the standard library, which accepts ASCII only.\<close>

definition to_string :: "utext \<Rightarrow> string option" where
  "to_string s = (if ascii s then Some (map char_of s) else None)"

definition multicast4 :: "32 word \<Rightarrow> bool" where
  "multicast4 w \<longleftrightarrow> in4 [224, 0, 0, 0] 4 w"

definition is_public_ip :: "scoped_ipv6_syntax \<Rightarrow> utext \<Rightarrow> bool" where
  "is_public_ip six v \<longleftrightarrow>
     (case Option.bind (to_string v) (scoped_address six) of
        None \<Rightarrow> False
      | Some (Addr4 w, z) \<Rightarrow>
          \<not> (private4 w \<or> in4 [127, 0, 0, 0] 8 w \<or> in4 [169, 254, 0, 0] 16 w \<or> multicast4 w \<or> w = 0)
      | Some (Addr6 a, z) \<Rightarrow> \<not> private6 a)"

definition is_message_id_local :: "utext \<Rightarrow> bool" where
  "is_message_id_local l \<longleftrightarrow> 20 < length l \<and> list_all (\<lambda>c. u_hex c \<or> c = 46) l"

text \<open>The version pattern is anchored at the end of the text before the number.\<close>

definition version_prefix :: "unicode \<Rightarrow> utext \<Rightarrow> bool" where
  "version_prefix uc before_text =
     (let r = dropWhile u_space (rev before_text);
          r = (case r of [] \<Rightarrow> [] | c # r' \<Rightarrow> if c = 61 \<or> c = 58 then dropWhile u_space r' else r)
      in list_ex (\<lambda>w. length w \<le> length r \<and> map re_fold (rev (take (length w) r)) = utf w \<and>
                      \<not> starts_word uc (drop (length w) r))
           [''version'', ''ver'', ''rev'', ''build'', ''assembly'', ''v''])"

definition culture_follows :: "utext \<Rightarrow> bool" where
  "culture_follows s \<longleftrightarrow>
     (case dropWhile u_space s of
        c # r \<Rightarrow> c = 44 \<and> (let t = dropWhile u_space r in starts_ci ''culture'' t \<and> prefix [61] (dropWhile u_space (drop 7 t)))
      | [] \<Rightarrow> False)"

definition looks_like_version :: "unicode \<Rightarrow> dotted \<Rightarrow> bool" where
  "looks_like_version uc d \<longleftrightarrow>
     (case rev (dt_before d) of c # e # _ \<Rightarrow> c = 46 \<and> is_digit_char uc e | _ \<Rightarrow> False) \<or>
     (case dt_after d of c # e # _ \<Rightarrow> c = 46 \<and> is_digit_char uc e | _ \<Rightarrow> False) \<or>
     version_prefix uc (dt_before d) \<or>
     culture_follows (dt_after d) \<or> u_contains ''publickeytoken'' (lower_text uc (dt_after d))"

definition domain_of_email :: "unicode \<Rightarrow> utext \<Rightarrow> utext" where
  "domain_of_email uc addr = u_rstrip (\<lambda>c. c = 46) (lower_text uc (strip_text (u_after_last 64 addr)))"

definition domain_of_url :: "unicode \<Rightarrow> utext \<Rightarrow> utext option" where
  "domain_of_url uc url =
     (let after = (case u_after_text (utf ''://'') url of None \<Rightarrow> url | Some r \<Rightarrow> r);
          host = u_before 35 (u_before 63 (u_before 47 after));
          name = lower_text uc (u_before 58 (u_after 64 host))
      in if name = [] then None else Some name)"

section \<open>Extraction\<close>

type_synonym normalized = "string \<Rightarrow> utext option"
type_synonym indicator = "ioc_type \<times> utext"

definition field_text :: "normalized \<Rightarrow> string \<Rightarrow> utext" where
  "field_text nz f = strip_text (case nz f of None \<Rightarrow> [] | Some v \<Rightarrow> v)"

definition structured_iocs :: "scoped_ipv6_syntax \<Rightarrow> normalized \<Rightarrow> indicator list" where
  "structured_iocs six nz =
     map (\<lambda>ip. (Ipv4, ip)) (filter (\<lambda>ip. ip \<noteq> [] \<and> is_public_ip six ip) [field_text nz ''src_ip'', field_text nz ''dst_ip'']) @
     (if field_text nz ''url'' = [] then [] else [(Url, field_text nz ''url'')]) @
     (if field_text nz ''domain'' = [] then [] else [(Domain, field_text nz ''domain'')])"

definition mailboxes :: "normalized \<Rightarrow> utext \<Rightarrow> utext list" where
  "mailboxes nz raw =
     filter (\<lambda>a. \<not> is_message_id_local (u_before_last 64 a))
       (concat (map (\<lambda>f. scan email_re (field_text nz f)) email_fields) @ scan email_re raw)"

definition derived_domains :: "unicode \<Rightarrow> normalized \<Rightarrow> utext \<Rightarrow> utext list" where
  "derived_domains uc nz raw =
     filter (\<lambda>d. d \<noteq> []) (map (domain_of_email uc) (mailboxes nz raw)) @
     List.map_filter (domain_of_url uc)
       ((if field_text nz ''url'' = [] then [] else [field_text nz ''url'']) @ scan url_re raw)"

definition domain_iocs :: "unicode \<Rightarrow> utext list \<Rightarrow> indicator list" where
  "domain_iocs uc ds = map (\<lambda>d. (Domain, d)) (filter (\<lambda>d. 46 \<in> set d \<and> \<not> is_vendor_ref_url uc (utf ''http://'' @ d)) ds)"

definition hash_iocs :: "unicode \<Rightarrow> utext \<Rightarrow> indicator list" where
  "hash_iocs uc raw =
     map (\<lambda>h. (Sha256, lower_text uc h)) (scan (sha256_re uc) raw) @
     map (\<lambda>h. (Sha1, lower_text uc h)) (scan (sha1_re uc) raw) @
     map (\<lambda>h. (Md5, lower_text uc h)) (scan (md5_re uc) raw)"

definition structured_hashes :: "unicode \<Rightarrow> normalized \<Rightarrow> indicator list" where
  "structured_hashes uc nz =
     filter (\<lambda>x. snd x \<noteq> [])
       (map (\<lambda>(f, t). (t, lower_text uc (field_text nz f)))
          [(''file_hash_sha256'', Sha256), (''file_hash_sha1'', Sha1), (''file_hash_md5'', Md5)])"

definition trailing_punctuation :: "nat \<Rightarrow> bool" where
  "trailing_punctuation c \<longleftrightarrow> c \<in> {46, 44, 41, 59, 39, 34}"

definition url_iocs :: "unicode \<Rightarrow> normalized \<Rightarrow> utext \<Rightarrow> indicator list" where
  "url_iocs uc nz raw =
     (if field_text nz ''url'' \<noteq> [] then []
      else map (\<lambda>u. (Url, u)) (filter (\<lambda>u. \<not> is_vendor_ref_url uc u) (map (u_rstrip trailing_punctuation) (scan url_re raw))))"

definition fallback_ips :: "scoped_ipv6_syntax \<Rightarrow> unicode \<Rightarrow> normalized \<Rightarrow> utext \<Rightarrow> indicator list" where
  "fallback_ips six uc nz raw =
     (if field_text nz ''src_ip'' \<noteq> [] \<or> field_text nz ''dst_ip'' \<noteq> [] then []
      else map (\<lambda>d. (Ipv4, dt_text d))
             (filter (\<lambda>d. \<not> looks_like_version uc d \<and> is_public_ip six (dt_text d)) (scan (ip_re uc) raw)))"

definition ioc_key :: "unicode \<Rightarrow> indicator \<Rightarrow> ioc_type \<times> utext" where
  "ioc_key uc i = (fst i, lower_text uc (snd i))"

fun dedupe :: "unicode \<Rightarrow> (ioc_type \<times> utext) list \<Rightarrow> indicator list \<Rightarrow> indicator list" where
  "dedupe uc seen [] = []"
| "dedupe uc seen (i # is) =
     (if ioc_key uc i \<in> set seen then dedupe uc seen is else i # dedupe uc (ioc_key uc i # seen) is)"

definition all_candidates :: "scoped_ipv6_syntax \<Rightarrow> unicode \<Rightarrow> normalized \<Rightarrow> utext \<Rightarrow> indicator list" where
  "all_candidates six uc nz raw =
     structured_iocs six nz @ map (\<lambda>a. (Email_Addr, lower_text uc a)) (mailboxes nz raw) @
     domain_iocs uc (derived_domains uc nz raw) @ hash_iocs uc raw @ structured_hashes uc nz @
     url_iocs uc nz raw @ fallback_ips six uc nz raw"

definition extract_iocs :: "scoped_ipv6_syntax \<Rightarrow> unicode \<Rightarrow> normalized \<Rightarrow> utext \<Rightarrow> indicator list" where
  "extract_iocs six uc nz raw = dedupe uc [] (all_candidates six uc nz raw)"

definition triage_type :: "ioc_type \<Rightarrow> string option" where
  "triage_type t =
     (case t of
        Ipv4 \<Rightarrow> Some ''ip'' | Ipv6 \<Rightarrow> Some ''ip'' | Sha256 \<Rightarrow> Some ''hash'' | Sha1 \<Rightarrow> Some ''hash'' | Md5 \<Rightarrow> Some ''hash''
      | Domain \<Rightarrow> Some ''domain'' | Url \<Rightarrow> Some ''url'' | Email_Addr \<Rightarrow> None)"

definition to_triage_args :: "indicator list \<Rightarrow> (utext \<times> string) list" where
  "to_triage_args iocs = List.map_filter (\<lambda>(t, v). map_option (Pair v) (triage_type t)) iocs"

section \<open>Merging the indicators of decoded payloads\<close>

record decoded_ioc =
  di_type :: ioc_type
  di_value :: utext
  di_layer :: nat
  di_new :: bool

fun merge_values :: "unicode \<Rightarrow> nat \<Rightarrow> indicator list \<Rightarrow> indicator list \<times> decoded_ioc list \<Rightarrow> indicator list \<times> decoded_ioc list" where
  "merge_values uc layer [] acc = acc"
| "merge_values uc layer ((t, v) # is) (iocs, decoded) =
     (let is_new = lower_text uc v \<notin> (\<lambda>i. lower_text uc (snd i)) ` set iocs
      in merge_values uc layer is
           (if is_new then iocs @ [(t, v)] else iocs,
            decoded @ [\<lparr>di_type = t, di_value = v, di_layer = layer, di_new = is_new\<rparr>]))"

definition merge_decoded ::
  "scoped_ipv6_syntax \<Rightarrow> unicode \<Rightarrow> artifact list \<Rightarrow> indicator list \<Rightarrow> indicator list \<times> decoded_ioc list" where
  "merge_decoded six uc arts iocs =
     fold (\<lambda>a. merge_values uc (ar_layer a) (extract_iocs six uc (\<lambda>_. None) (ar_text a))) arts (iocs, [])"

text \<open>The list that goes on to the exclusion filter; \<open>None\<close> would be a search for payloads that does not end. The
  pipeline runs it with the default bounds \<open>max_depth\<close> and \<open>max_artifacts\<close>.\<close>

definition alert_indicators ::
  "scoped_ipv6_syntax \<Rightarrow> codecs \<Rightarrow> unicode \<Rightarrow> nat \<Rightarrow> nat \<Rightarrow> normalized \<Rightarrow> utext \<Rightarrow> indicator list option" where
  "alert_indicators six cx uc deepest cap nz raw =
     map_option (\<lambda>d. case d of
                       None \<Rightarrow> extract_iocs six uc nz raw
                     | Some r \<Rightarrow> fst (merge_decoded six uc (dr_artifacts r) (extract_iocs six uc nz raw)))
       (analyze cx uc deepest cap nz raw)"


section \<open>Lemmas\<close>

lemma scan_from_match: "x \<in> set (scan_from m past s) \<Longrightarrow> \<exists>past' s' n. m past' s' = Some (x, n)"
proof (induction m past s rule: scan_from.induct)
  case (2 m past c s)
  show ?case
  proof (cases "m past (c # s)")
    case None
    with 2 show ?thesis by simp
  next
    case (Some p)
    obtain a n where p: "p = (a, n)" by fastforce
    show ?thesis
    proof (cases "x = a")
      case True
      with Some p show ?thesis by blast
    next
      case False
      with 2 Some p show ?thesis by simp
    qed
  qed
qed simp

lemma scan_match: "x \<in> set (scan m s) \<Longrightarrow> \<exists>past' s' n. m past' s' = Some (x, n)"
  unfolding scan_def by (rule scan_from_match)

lemma ascii_lower_text: "ascii s \<Longrightarrow> lower_text uc s = map ascii_lower s"
  by (simp add: lower_text_def)

definition lower_hex :: "nat \<Rightarrow> bool" where
  "lower_hex c \<longleftrightarrow> u_digit c \<or> 97 \<le> c \<and> c \<le> 102"

lemma hash_match:
  assumes "h \<in> set (scan (hash_re uc k) s)"
  shows "length (lower_text uc h) = k \<and> list_all lower_hex (lower_text uc h)"
proof -
  from scan_match[OF assms] have h: "length h = k" "list_all u_hex h"
    by (auto simp: hash_re_def split: if_splits)
  then have "ascii h" by (auto simp: ascii_def list_all_iff u_hex_def u_digit_def)
  moreover have "lower_hex (ascii_lower c)" if "u_hex c" for c
    using that by (auto simp: u_hex_def lower_hex_def ascii_lower_def u_digit_def u_upper_def)
  ultimately show ?thesis using h by (auto simp: ascii_lower_text list_all_iff)
qed

lemma takeWhile_all: "list_all p (takeWhile p s)"
  by (simp add: list_all_iff) (metis set_takeWhileD)

lemma take_run: "list_all p (take (run p s) s)"
  using takeWhile_all[of p s] takeWhile_eq_take[of p s] by (simp add: run_def)

lemma email_match:
  assumes "a \<in> set (scan email_re s)"
  shows "\<exists>l d. a = l @ 64 # d \<and> l \<noteq> [] \<and> list_all email_local_char l \<and> list_all email_domain_char d \<and> 46 \<in> set d"
proof -
  from scan_match[OF assms] obtain t n k where
    m: "n = run email_local_char t" "0 < n" "prefix [64] (drop n t)"
      "a = take (n + 1 + k) t" "email_domain_length (takeWhile email_domain_char (drop (n + 1) t)) = Some k"
    by (auto simp: email_re_def Let_def split: if_splits option.splits)
  let ?d = "takeWhile email_domain_char (drop (n + 1) t)"
  obtain r where r: "drop n t = 64 # r" using m(3) by (auto simp: prefix_def)
  then have "drop (n + 1) t = r" by (metis drop_drop drop_Suc_Cons drop0 Suc_eq_plus1 add.commute drop_Suc tl_drop list.sel(3))
  then have t: "t = take n t @ 64 # r" and d: "?d = takeWhile email_domain_char r"
    using append_take_drop_id[of n t] r by simp_all
  have n: "n \<le> length t" by (simp add: m(1) run_def length_takeWhile_le)
  have k: "k \<le> length ?d \<and> 46 \<in> set (take k ?d)"
  proof -
    from m(5) obtain i where f: "find (\<lambda>i. ?d ! i = 46 \<and> 2 \<le> run u_letter (drop (i + 1) ?d)) (rev [1..<length ?d]) = Some i"
      and e: "k = i + 1 + run u_letter (drop (i + 1) ?d)"
      unfolding email_domain_length_def by blast
    note i = find_Some_in[OF f]
    have "run u_letter (drop (i + 1) ?d) \<le> length ?d - (i + 1)" using run_le[of u_letter "drop (i + 1) ?d"] by simp
    moreover have "i < length ?d" "?d ! i = 46" using i by simp_all
    moreover have "i < k" using e by simp
    moreover have "k \<le> length ?d" using e calculation(1,2) by linarith
    ultimately show ?thesis by (auto simp: in_set_conv_nth intro!: exI[of _ i])
  qed
  have a: "a = take n t @ 64 # take k r"
  proof -
    have "take (n + 1 + k) (take n t @ 64 # r) = take n t @ 64 # take k r" using n by simp
    with t m(4) show ?thesis by simp
  qed
  have "list_all email_local_char (take n t)" unfolding m(1) by (rule take_run)
  moreover have "?d = take (length ?d) r" using takeWhile_eq_take[of email_domain_char r] d by simp
  then have tk: "take k r = take k ?d" using k by (metis min.absorb1 take_take)
  then have "list_all email_domain_char (take k r)"
    using takeWhile_all[of email_domain_char r] d by (auto simp: list_all_iff dest: in_set_takeD)
  moreover have "take n t \<noteq> []" using m(2) n by auto
  ultimately show ?thesis using a tk k by metis
qed

lemma email_chars:
  "email_local_char c \<or> email_domain_char c \<or> c = 64 \<Longrightarrow> c < 128 \<and> c \<notin> {47, 58, 63, 35}"
  by (auto simp: email_local_char_def email_domain_char_def utf_def char_code_def u_letter_def u_upper_def u_lowercase_def u_digit_def)

lemma email_lower_chars:
  "email_local_char c \<Longrightarrow> email_local_char (ascii_lower c)" "email_domain_char c \<Longrightarrow> email_domain_char (ascii_lower c)"
  by (auto simp: email_local_char_def email_domain_char_def ascii_lower_def u_letter_def u_upper_def u_lowercase_def
      u_digit_def utf_def char_code_def)

lemma rstrip_keeps: "\<not> p x \<Longrightarrow> prefix (a @ [x]) (u_rstrip p (a @ x # b))"
proof -
  assume "\<not> p x"
  then have "dropWhile p (rev (a @ x # b)) = dropWhile p (rev b) @ x # rev a"
    by (induction b rule: rev_induct) simp_all
  then show ?thesis by (simp add: u_rstrip_def)
qed

lemma rstrip_subset: "set (u_rstrip p s) \<subseteq> set s"
  unfolding u_rstrip_def by (auto dest: set_dropWhileD)

lemma http_prefixes: "utf ''https://'' = utf ''https:/'' @ [47]" "utf ''http://'' = utf ''http:/'' @ [47]"
  by (simp_all add: utf_def char_code_def)

lemma url_match:
  assumes "u \<in> set (scan url_re s)"
  shows "(prefix (utf ''https://'') (u_rstrip trailing_punctuation u) \<or> prefix (utf ''http://'') (u_rstrip trailing_punctuation u)) \<and>
    list_all url_char (u_rstrip trailing_punctuation u) \<and> \<not> trailing_punctuation (last (u_rstrip trailing_punctuation u))"
proof -
  from scan_match[OF assms] obtain t p where
    m: "find (\<lambda>p. prefix (utf p) t \<and> 0 < run url_char (drop (length p) t)) [''https://'', ''http://''] = Some p"
      "u = take (length p + run url_char (drop (length p) t)) t"
    by (auto simp: url_re_def Let_def split: option.splits)
  have p: "prefix (utf p) t" "p = ''https://'' \<or> p = ''http://''" using find_Some_in[OF m(1)] by auto
  have lp: "length (utf p) = length p" by (simp add: utf_def)
  obtain r where t: "t = utf p @ r" using p(1) by (auto simp: prefix_def)
  then have u: "u = utf p @ take (run url_char r) r" using m(2) lp by simp
  have "list_all url_char (utf p)" using p(2)
    by (auto simp: utf_def char_code_def url_char_def u_space_def)
  then have c: "list_all url_char u" using take_run[of url_char r] by (simp add: u)
  then have "list_all url_char (u_rstrip trailing_punctuation u)"
    using rstrip_subset[of trailing_punctuation u] by (auto simp: list_all_iff)
  moreover have "\<not> trailing_punctuation 47" by (simp add: trailing_punctuation_def)
  then have "prefix (utf p) (u_rstrip trailing_punctuation u)"
    using rstrip_keeps[of trailing_punctuation 47 "utf ''https:/''" "take (run url_char r) r"]
      rstrip_keeps[of trailing_punctuation 47 "utf ''http:/''" "take (run url_char r) r"] p(2)
    by (auto simp: u http_prefixes)
  moreover from this p(2) have "u_rstrip trailing_punctuation u \<noteq> []" by (auto simp: utf_def)
  then have "\<not> trailing_punctuation (last (u_rstrip trailing_punctuation u))"
    using hd_dropWhile[of trailing_punctuation "rev u"] by (simp add: u_rstrip_def last_rev)
  ultimately show ?thesis using p(2) by auto
qed

text \<open>The domain taken from a URL has none of the characters it is cut off at.\<close>

lemma domain_of_url_host:
  assumes "domain_of_url uc u = Some d"
  shows "\<exists>h. d = lower_text uc h \<and> set h \<inter> {47, 58, 63, 35} = {}"
proof -
  have before_free: "c \<notin> set (u_before c x)" "set (u_before c x) \<subseteq> set x" for c x
    by (auto simp: u_before_def dest: set_takeWhileD)
  have after_sub: "set (u_after c x) \<subseteq> set x" for c x
  proof
    fix y assume "y \<in> set (u_after c x)"
    then have "y \<in> set (tl (dropWhile (\<lambda>d. d \<noteq> c) x)) \<or> y \<in> set x" by (auto simp: u_after_def split: if_splits)
    then show "y \<in> set x" by (metis list.sel(2) list.set_sel(2) set_dropWhileD)
  qed
  define after where "after = (case u_after_text (utf ''://'') u of None \<Rightarrow> u | Some r \<Rightarrow> r)"
  define host where "host = u_before 35 (u_before 63 (u_before 47 after))"
  have "d = lower_text uc (u_before 58 (u_after 64 host))"
    using assms by (simp add: domain_of_url_def Let_def after_def host_def split: if_splits)
  moreover have "set host \<inter> {47, 63, 35} = {}" unfolding host_def
    using before_free(1)[of 35 "u_before 63 (u_before 47 after)"] before_free(2)[of 35 "u_before 63 (u_before 47 after)"]
      before_free(1)[of 63 "u_before 47 after"] before_free(2)[of 63 "u_before 47 after"] before_free(1)[of 47 after] by blast
  then have "set (u_before 58 (u_after 64 host)) \<inter> {47, 58, 63, 35} = {}"
    using before_free[of 58 "u_after 64 host"] after_sub[of 64 host] by blast
  ultimately show ?thesis by blast
qed

lemma dedupe_subset: "set (dedupe uc seen is) \<subseteq> set is"
  by (induction uc seen "is" rule: dedupe.induct) auto

lemma dedupe_keys: "distinct (map (ioc_key uc) (dedupe uc seen is)) \<and> (\<forall>i \<in> set (dedupe uc seen is). ioc_key uc i \<notin> set seen)"
proof (induction "is" arbitrary: seen)
  case (Cons i "is")
  from Cons.IH[of seen] Cons.IH[of "ioc_key uc i # seen"] show ?case by force
qed simp

lemma dedupe_complete: "i \<in> set is \<Longrightarrow> ioc_key uc i \<in> set seen \<or> ioc_key uc i \<in> ioc_key uc ` set (dedupe uc seen is)"
  by (induction uc seen "is" rule: dedupe.induct) auto

section \<open>Well-formed indicators\<close>

text \<open>What an indicator of each type looks like, whatever the alert says; those a parser put into a field of its own
  are taken as they are.\<close>

definition structured :: "unicode \<Rightarrow> normalized \<Rightarrow> indicator \<Rightarrow> bool" where
  "structured uc nz i \<longleftrightarrow> snd i \<noteq> [] \<and>
    (i = (Url, field_text nz ''url'') \<or> i = (Domain, field_text nz ''domain'') \<or>
     i = (Sha256, lower_text uc (field_text nz ''file_hash_sha256'')) \<or>
     i = (Sha1, lower_text uc (field_text nz ''file_hash_sha1'')) \<or> i = (Md5, lower_text uc (field_text nz ''file_hash_md5'')))"

text \<open>The forms are those the patterns and cuts give, and no more. An entry filed as IPv4 is an IPv4 address outside the
  special ranges, or an IPv6 address that is not private. A domain is the lower case of a text with none of slash,
  colon, question mark and hash sign, and it has a dot. A URL has its scheme, no blank, quote or angle bracket, and
  does not end in punctuation. An e-mail address has a local part and a dotted domain around its at sign, no upper-case
  letter. A hash is a lower-case hexadecimal string of the length of its type.\<close>

fun well_typed :: "scoped_ipv6_syntax \<Rightarrow> unicode \<Rightarrow> indicator \<Rightarrow> bool" where
  "well_typed six uc (Ipv4, v) \<longleftrightarrow>
     (\<exists>s. to_string v = Some s \<and>
        ((\<exists>w. parse_ipv4 s = Some w \<and> external (Addr4 w)) \<or>
         (\<exists>a z. parse_ipv4 s = None \<and> six s = Some (a, z) \<and> \<not> private6 a)))"
| "well_typed six uc (Ipv6, v) \<longleftrightarrow> False"
| "well_typed six uc (Domain, v) \<longleftrightarrow> 46 \<in> set v \<and> (\<exists>h. v = lower_text uc h \<and> set h \<inter> {47, 58, 63, 35} = {})"
| "well_typed six uc (Url, v) \<longleftrightarrow>
     (prefix (utf ''https://'') v \<or> prefix (utf ''http://'') v) \<and> list_all url_char v \<and> \<not> trailing_punctuation (last v)"
| "well_typed six uc (Email_Addr, v) \<longleftrightarrow>
     (\<exists>l d. v = l @ 64 # d \<and> l \<noteq> [] \<and> list_all email_local_char l \<and> list_all email_domain_char d \<and> 46 \<in> set d) \<and>
     \<not> list_ex u_upper v"
| "well_typed six uc (Sha256, v) \<longleftrightarrow> length v = 64 \<and> list_all lower_hex v"
| "well_typed six uc (Sha1, v) \<longleftrightarrow> length v = 40 \<and> list_all lower_hex v"
| "well_typed six uc (Md5, v) \<longleftrightarrow> length v = 32 \<and> list_all lower_hex v"

lemma public_ip_typed: "is_public_ip six v \<Longrightarrow> well_typed six uc (Ipv4, v)"
proof -
  assume p: "is_public_ip six v"
  then obtain s where s: "to_string v = Some s" by (cases "to_string v") (auto simp: is_public_ip_def)
  show ?thesis
  proof (cases "parse_ipv4 s")
    case None
    with p s show ?thesis by (auto simp: is_public_ip_def scoped_address_def split: option.splits)
  next
    case (Some w)
    with p s have n: "\<not> private4 w" "\<not> in4 [127, 0, 0, 0] 8 w" "\<not> in4 [169, 254, 0, 0] 16 w" "\<not> multicast4 w" "w \<noteq> 0"
      by (auto simp: is_public_ip_def scoped_address_def)
    moreover have "\<not> in4 [240,0,0,0] 4 w"
    proof
      assume "in4 [240,0,0,0] 4 w"
      moreover from this have "\<not> in4 [192,0,0,9] 32 w \<and> \<not> in4 [192,0,0,10] 32 w" unfolding in4_blocks by auto
      ultimately show False using n(1) unfolding private4_def by blast
    qed
    ultimately have "address_class (Addr4 w) = None" by (simp add: multicast4_def)
    then show ?thesis using s Some unfolding class4_iff by auto
  qed
qed

lemma mailbox_matched: "a \<in> set (mailboxes nz raw) \<Longrightarrow>
   \<exists>l d. a = l @ 64 # d \<and> l \<noteq> [] \<and> list_all email_local_char l \<and> list_all email_domain_char d \<and> 46 \<in> set d"
  by (auto simp: mailboxes_def dest: email_match)

lemma mailbox_ascii: "a \<in> set (mailboxes nz raw) \<Longrightarrow> ascii a \<and> set a \<inter> {47, 58, 63, 35} = {}"
  using mailbox_matched[of a nz raw] email_chars by (fastforce simp: ascii_def list_all_iff)

lemma mailbox_typed: "a \<in> set (mailboxes nz raw) \<Longrightarrow> well_typed six uc (Email_Addr, lower_text uc a)"
proof -
  assume a: "a \<in> set (mailboxes nz raw)"
  then obtain l d where m: "a = l @ 64 # d" "l \<noteq> []" "list_all email_local_char l" "list_all email_domain_char d" "46 \<in> set d"
    using mailbox_matched by blast
  have e: "lower_text uc a = map ascii_lower a" using mailbox_ascii[OF a] by (simp add: ascii_lower_text)
  have f: "ascii_lower 64 = 64" "ascii_lower 46 = 46" by (simp_all add: ascii_lower_def u_upper_def)
  have "map ascii_lower a = map ascii_lower l @ 64 # map ascii_lower d" by (simp add: m(1) f(1))
  moreover have "list_all email_local_char (map ascii_lower l)" "list_all email_domain_char (map ascii_lower d)"
    using m(3,4) email_lower_chars by (auto simp: list_all_iff)
  moreover have "46 \<in> set (map ascii_lower d)" using m(5) f(2) by (metis image_eqI list.set_map)
  moreover have "\<not> list_ex u_upper (map ascii_lower a)" by (auto simp: list_ex_iff ascii_lower_def u_upper_def)
  ultimately show ?thesis using m(2) unfolding e well_typed.simps by (intro conjI exI) auto
qed

lemma email_domain_typed:
  assumes "a \<in> set (mailboxes nz raw)"
  shows "\<exists>h. domain_of_email uc a = lower_text uc h \<and> set h \<inter> {47, 58, 63, 35} = {}"
proof -
  let ?t = "strip_text (u_after_last 64 a)"
  have "set ?t \<subseteq> set a"
    by (auto simp: strip_text_def u_after_last_def dest!: set_dropWhileD set_takeWhileD)
  then have t: "ascii ?t" "set ?t \<inter> {47, 58, 63, 35} = {}"
    using mailbox_ascii[OF assms] by (auto simp: ascii_def list_all_iff)
  have d: "domain_of_email uc a = u_rstrip (\<lambda>c. c = 46) (map ascii_lower ?t)"
    by (simp add: domain_of_email_def ascii_lower_text[OF t(1)])
  have low: "c \<in> set (map ascii_lower ?t) \<Longrightarrow> c < 128 \<and> c \<notin> {47, 58, 63, 35} \<and> \<not> u_upper c" for c
    using t by (auto simp: ascii_def list_all_iff ascii_lower_def u_upper_def)
  have sub: "c \<in> set (domain_of_email uc a) \<Longrightarrow> c < 128 \<and> c \<notin> {47, 58, 63, 35} \<and> \<not> u_upper c" for c
    using low rstrip_subset unfolding d by blast
  then have "lower_text uc (domain_of_email uc a) = domain_of_email uc a"
    by (simp add: lower_text_def ascii_def list_all_iff ascii_lower_def map_idI)
  then show ?thesis using sub by (intro exI[of _ "domain_of_email uc a"]) auto
qed

lemma domain_typed: "i \<in> set (domain_iocs uc (derived_domains uc nz raw)) \<Longrightarrow> well_typed six uc i"
proof -
  assume "i \<in> set (domain_iocs uc (derived_domains uc nz raw))"
  then obtain d where i: "i = (Domain, d)" "46 \<in> set d" "d \<in> set (derived_domains uc nz raw)" by (auto simp: domain_iocs_def)
  then have "\<exists>h. d = lower_text uc h \<and> set h \<inter> {47, 58, 63, 35} = {}"
    unfolding derived_domains_def set_append Un_iff
  proof (elim disjE)
    assume "d \<in> set (filter (\<lambda>d. d \<noteq> []) (map (domain_of_email uc) (mailboxes nz raw)))"
    then obtain a where "a \<in> set (mailboxes nz raw)" "d = domain_of_email uc a" by auto
    then show ?thesis using email_domain_typed by simp
  next
    assume "d \<in> set (List.map_filter (domain_of_url uc) ((if field_text nz ''url'' = [] then [] else [field_text nz ''url'']) @ scan url_re raw))"
    then obtain u where "domain_of_url uc u = Some d" unfolding List.map_filter_def by force
    then show ?thesis by (rule domain_of_url_host)
  qed
  with i(1,2) show ?thesis by auto
qed

lemma candidates_typed:
  assumes "i \<in> set (all_candidates six uc nz raw)"
  shows "well_typed six uc i \<or> structured uc nz i"
proof -
  consider "i \<in> set (structured_iocs six nz)" | a where "a \<in> set (mailboxes nz raw)" "i = (Email_Addr, lower_text uc a)"
    | "i \<in> set (domain_iocs uc (derived_domains uc nz raw))" | "i \<in> set (hash_iocs uc raw)"
    | "i \<in> set (structured_hashes uc nz)" | "i \<in> set (url_iocs uc nz raw)" | "i \<in> set (fallback_ips six uc nz raw)"
    using assms unfolding all_candidates_def set_append set_map Un_iff image_iff by blast
  then show ?thesis
  proof cases
    case 1
    then consider ip where "i = (Ipv4, ip)" "is_public_ip six ip" | "field_text nz ''url'' \<noteq> []" "i = (Url, field_text nz ''url'')"
      | "field_text nz ''domain'' \<noteq> []" "i = (Domain, field_text nz ''domain'')"
      by (auto simp: structured_iocs_def split: if_splits)
    then show ?thesis by cases (use public_ip_typed in \<open>simp_all add: structured_def del: well_typed.simps\<close>)
  next
    case 2
    then show ?thesis using mailbox_typed by simp
  next
    case 3
    then show ?thesis using domain_typed by blast
  next
    case 4
    then show ?thesis by (auto simp: hash_iocs_def sha256_re_def sha1_re_def md5_re_def dest!: hash_match)
  next
    case 5
    then show ?thesis by (auto simp: structured_hashes_def structured_def simp del: filter.simps)
  next
    case 6
    then show ?thesis by (auto simp: url_iocs_def dest!: url_match split: if_splits)
  next
    case 7
    then show ?thesis by (force simp: fallback_ips_def simp del: well_typed.simps intro!: public_ip_typed split: if_splits)
  qed
qed


lemma extract_typed: "list_all (\<lambda>i. well_typed six uc i \<or> structured uc nz i) (extract_iocs six uc nz raw)"
  unfolding list_all_iff extract_iocs_def
proof
  fix i assume "i \<in> set (dedupe uc [] (all_candidates six uc nz raw))"
  then have "i \<in> set (all_candidates six uc nz raw)" using dedupe_subset by blast
  then show "well_typed six uc i \<or> structured uc nz i" by (rule candidates_typed)
qed

lemma raw_extract_typed: "i \<in> set (extract_iocs six uc (\<lambda>_. None) raw) \<Longrightarrow> well_typed six uc i"
proof -
  have "field_text (\<lambda>_. None) f = []" for f by (simp add: field_text_def strip_text_def)
  moreover have "lower_text uc [] = []" by (simp add: lower_text_def ascii_def)
  ultimately have "\<not> structured uc (\<lambda>_. None) i" for i by (auto simp: structured_def)
  then show "i \<in> set (extract_iocs six uc (\<lambda>_. None) raw) \<Longrightarrow> well_typed six uc i"
    using extract_typed[of six uc "\<lambda>_. None" raw] by (auto simp: list_all_iff)
qed

definition lower_values :: "unicode \<Rightarrow> indicator list \<Rightarrow> utext set" where
  "lower_values uc is = (\<lambda>i. lower_text uc (snd i)) ` set is"

lemma merge_values_spec:
  "\<exists>new. fst (merge_values uc layer xs (iocs, decoded)) = iocs @ new \<and> set new \<subseteq> set xs \<and>
     (distinct (map (ioc_key uc) iocs) \<longrightarrow> distinct (map (ioc_key uc) (iocs @ new))) \<and>
     lower_values uc (iocs @ new) = lower_values uc iocs \<union> lower_values uc xs"
proof (induction xs arbitrary: iocs decoded)
  case (Cons i xs)
  obtain t v where i: "i = (t, v)" by fastforce
  show ?case
  proof (cases "lower_text uc v \<in> lower_values uc iocs")
    case True
    let ?d = "decoded @ [\<lparr>di_type = t, di_value = v, di_layer = layer, di_new = False\<rparr>]"
    from Cons.IH[of iocs ?d] obtain new where n: "fst (merge_values uc layer xs (iocs, ?d)) = iocs @ new" "set new \<subseteq> set xs"
      "distinct (map (ioc_key uc) iocs) \<longrightarrow> distinct (map (ioc_key uc) (iocs @ new))"
      "lower_values uc (iocs @ new) = lower_values uc iocs \<union> lower_values uc xs" by blast
    have "fst (merge_values uc layer (i # xs) (iocs, decoded)) = iocs @ new"
      using True n(1) by (simp add: i lower_values_def Let_def)
    moreover have "lower_values uc (i # xs) = insert (lower_text uc v) (lower_values uc xs)" by (simp add: i lower_values_def)
    ultimately show ?thesis using n(2-4) True by (intro exI[of _ new]) auto
  next
    case False
    let ?d = "decoded @ [\<lparr>di_type = t, di_value = v, di_layer = layer, di_new = True\<rparr>]"
    have k: "distinct (map (ioc_key uc) iocs) \<Longrightarrow> distinct (map (ioc_key uc) (iocs @ [(t, v)]))"
      using False by (force simp: ioc_key_def lower_values_def)
    from Cons.IH[of "iocs @ [(t, v)]" ?d] obtain new where
      n: "fst (merge_values uc layer xs (iocs @ [(t, v)], ?d)) = (iocs @ [(t, v)]) @ new" "set new \<subseteq> set xs"
        "distinct (map (ioc_key uc) (iocs @ [(t, v)])) \<longrightarrow> distinct (map (ioc_key uc) ((iocs @ [(t, v)]) @ new))"
        "lower_values uc ((iocs @ [(t, v)]) @ new) = lower_values uc (iocs @ [(t, v)]) \<union> lower_values uc xs" by blast
    have "fst (merge_values uc layer (i # xs) (iocs, decoded)) = iocs @ (t, v) # new"
      using False n(1) by (simp add: i lower_values_def Let_def)
    moreover have "lower_values uc (i # xs) = insert (lower_text uc v) (lower_values uc xs)"
      "lower_values uc (iocs @ [(t, v)]) = insert (lower_text uc v) (lower_values uc iocs)" by (simp_all add: i lower_values_def)
    ultimately show ?thesis using n(2-4) k by (intro exI[of _ "(t, v) # new"]) (simp add: i, blast)
  qed
qed (simp add: lower_values_def)

definition merge_artifact ::
  "scoped_ipv6_syntax \<Rightarrow> unicode \<Rightarrow> artifact \<Rightarrow> indicator list \<times> decoded_ioc list \<Rightarrow> indicator list \<times> decoded_ioc list" where
  "merge_artifact six uc a = merge_values uc (ar_layer a) (extract_iocs six uc (\<lambda>_. None) (ar_text a))"

definition hidden_values :: "scoped_ipv6_syntax \<Rightarrow> unicode \<Rightarrow> artifact \<Rightarrow> utext set" where
  "hidden_values six uc a = lower_values uc (extract_iocs six uc (\<lambda>_. None) (ar_text a))"

lemma merge_artifact_spec:
  "\<exists>new. fst (merge_artifact six uc a acc) = fst acc @ new \<and> list_all (well_typed six uc) new \<and>
     (distinct (map (ioc_key uc) (fst acc)) \<longrightarrow> distinct (map (ioc_key uc) (fst acc @ new))) \<and>
     lower_values uc (fst acc @ new) = lower_values uc (fst acc) \<union> hidden_values six uc a"
proof -
  obtain new where n: "fst (merge_artifact six uc a acc) = fst acc @ new"
    "set new \<subseteq> set (extract_iocs six uc (\<lambda>_. None) (ar_text a))"
    "distinct (map (ioc_key uc) (fst acc)) \<longrightarrow> distinct (map (ioc_key uc) (fst acc @ new))"
    "lower_values uc (fst acc @ new) = lower_values uc (fst acc) \<union> hidden_values six uc a"
    using merge_values_spec[of uc "ar_layer a" "extract_iocs six uc (\<lambda>_. None) (ar_text a)" "fst acc" "snd acc"]
    unfolding merge_artifact_def hidden_values_def prod.collapse by blast
  have "list_all (well_typed six uc) new" unfolding list_all_iff using n(2) raw_extract_typed by blast
  with n show ?thesis by blast
qed

lemma merge_fold_spec:
  "\<exists>new. fst (fold (merge_artifact six uc) arts acc) = fst acc @ new \<and> list_all (well_typed six uc) new \<and>
     (distinct (map (ioc_key uc) (fst acc)) \<longrightarrow> distinct (map (ioc_key uc) (fst acc @ new))) \<and>
     lower_values uc (fst acc @ new) = lower_values uc (fst acc) \<union> (\<Union>a \<in> set arts. hidden_values six uc a)"
proof (induction arts arbitrary: acc)
  case (Cons a arts)
  from merge_artifact_spec[of six uc a acc] obtain n1 where
    n1: "fst (merge_artifact six uc a acc) = fst acc @ n1" "list_all (well_typed six uc) n1"
    "distinct (map (ioc_key uc) (fst acc)) \<longrightarrow> distinct (map (ioc_key uc) (fst acc @ n1))"
    "lower_values uc (fst acc @ n1) = lower_values uc (fst acc) \<union> hidden_values six uc a" by blast
  from Cons.IH[of "merge_artifact six uc a acc"] obtain n2 where
    n2: "fst (fold (merge_artifact six uc) arts (merge_artifact six uc a acc)) = (fst acc @ n1) @ n2" "list_all (well_typed six uc) n2"
    "distinct (map (ioc_key uc) (fst acc @ n1)) \<longrightarrow> distinct (map (ioc_key uc) ((fst acc @ n1) @ n2))"
    "lower_values uc ((fst acc @ n1) @ n2) = lower_values uc (fst acc @ n1) \<union> (\<Union>a \<in> set arts. hidden_values six uc a)"
    unfolding n1(1) by blast
  show ?case
  proof (intro exI[of _ "n1 @ n2"] conjI)
    show "lower_values uc (fst acc @ n1 @ n2) = lower_values uc (fst acc) \<union> (\<Union>a \<in> set (a # arts). hidden_values six uc a)"
      using n1(4) n2(4) by (simp add: Un_assoc)
  qed (use n1(2,3) n2(1-3) in simp_all)
qed simp

lemma merge_decoded_fold: "merge_decoded six uc arts iocs = fold (merge_artifact six uc) arts (iocs, [])"
  by (simp add: merge_decoded_def merge_artifact_def[abs_def])

text \<open>C39. Indicators have the form their pattern gives. The list that goes on to the exclusion filter always exists,
  carries no value twice under one type (in any case of letters), and each entry has the form \<open>well_typed\<close> states for
  its type, unless it is the value that the parser of the alert had put into the field of that type. It begins with
  the indicators of the alert itself, among which every candidate of the fields and patterns is found by type and
  value. The form is no more than that: see the gaps at the end, and for payloads C40.\<close>

theorem indicators_are_well_typed:
  "\<exists>l. alert_indicators six cx uc deepest cap nz raw = Some l \<and>
     list_all (\<lambda>i. well_typed six uc i \<or> structured uc nz i) l \<and> distinct (map (ioc_key uc) l) \<and>
     prefix (extract_iocs six uc nz raw) l \<and>
     ioc_key uc ` set (extract_iocs six uc nz raw) = ioc_key uc ` set (all_candidates six uc nz raw)"
proof -
  let ?x = "extract_iocs six uc nz raw"
  have d: "distinct (map (ioc_key uc) ?x)" using dedupe_keys[of uc "[]" "all_candidates six uc nz raw"] by (simp add: extract_iocs_def)
  have c: "ioc_key uc ` set ?x = ioc_key uc ` set (all_candidates six uc nz raw)"
    using dedupe_subset[of uc "[]" "all_candidates six uc nz raw"] dedupe_complete[of _ "all_candidates six uc nz raw" uc "[]"]
    by (auto simp: extract_iocs_def)
  obtain q as where s: "search_layers cx uc deepest cap (collect_fields nz raw) = Some (q, as)"
    using search_ends[of cx uc deepest cap "collect_fields nz raw"] by fastforce
  have "analyze cx uc deepest cap nz raw \<noteq> None" by (simp add: analyze_def Let_def s)
  then obtain r where r: "analyze cx uc deepest cap nz raw = Some r" by blast
  show ?thesis
  proof (cases r)
    case None
    with r d c extract_typed show ?thesis by (simp add: alert_indicators_def)
  next
    case (Some rep)
    from merge_fold_spec[of six uc "dr_artifacts rep" "(?x, [])"] d obtain new where
      n: "fst (merge_decoded six uc (dr_artifacts rep) ?x) = ?x @ new" "list_all (well_typed six uc) new"
      "distinct (map (ioc_key uc) (?x @ new))"
      unfolding merge_decoded_fold fst_conv by blast
    have "list_all (\<lambda>i. well_typed six uc i \<or> structured uc nz i) (?x @ new)"
      using extract_typed[of six uc nz raw] n(2) unfolding list_all_iff set_append by blast
    with r Some c n(1,3) show ?thesis by (simp add: alert_indicators_def)
  qed
qed

text \<open>C40. An indicator hidden in a payload is reported. When the search for payloads stays below its cap and the hash
  has no collisions, every indicator that the patterns find in the stored text of a layer no deeper than the maximal
  depth (the text is cut to the stored length, deeper layers are not decoded) is, by value in any case of letters,
  among those that go on to the exclusion filter, perhaps under another type.\<close>

theorem hidden_indicators_are_reported:
  assumes "hidden_layer cx uc (collect_fields nz raw) n b" "n \<le> deepest" "inj (cx_sha256 cx)"
    "search_layers cx uc deepest cap (collect_fields nz raw) = Some (q, as)" "length as < cap"
    "(t, v) \<in> set (extract_iocs six uc (\<lambda>_. None) (take max_decoded_store (utf8_decode_replace b)))"
  shows "\<exists>l. alert_indicators six cx uc deepest cap nz raw = Some l \<and> lower_text uc v \<in> lower_values uc l"
proof -
  from layers_are_explored[OF assms(4,5,3,1,2)] obtain a where a: "a \<in> set as" "ar_sha a = cx_sha256 cx b" by blast
  with search_sound[OF assms(4)] obtain b' where b': "describes cx a b'" by (auto simp: sound_search_def)
  then have "cx_sha256 cx b' = cx_sha256 cx b" using a(2) by (simp add: describes_def)
  then have "b' = b" by (rule injD[OF assms(3)])
  with b' have t: "ar_text a = take max_decoded_store (utf8_decode_replace b)" by (simp add: describes_def)
  have "collect_fields nz raw \<noteq> []"
    using assms(1) by (induction rule: hidden_layer.induct) auto
  moreover have "as \<noteq> []" using a(1) by auto
  ultimately obtain r where r: "analyze cx uc deepest cap nz raw = Some (Some r)" "dr_artifacts r = as"
    using assms(4) by (simp add: analyze_def Let_def)
  have "lower_text uc v \<in> hidden_values six uc a"
    using assms(6) by (force simp: lower_values_def hidden_values_def t)
  with a(1) have "lower_text uc v \<in> (\<Union>a \<in> set as. hidden_values six uc a)" by blast
  with merge_fold_spec[of six uc as "(extract_iocs six uc nz raw, [])"]
  have "lower_text uc v \<in> lower_values uc (fst (merge_decoded six uc as (extract_iocs six uc nz raw)))"
    unfolding merge_decoded_fold by force
  with r show ?thesis by (simp add: alert_indicators_def)
qed


text \<open>A command line whose encoded script fetches a URL.\<close>

definition fetch_script :: utext where
  "fetch_script = utf ''http://a.io/x''"

definition fetch_normalized :: normalized where
  "fetch_normalized = (\<lambda>f. if f = ''command_line'' then Some (utf ''cmd -e '' @ b64_encode (utf16_bytes fetch_script) @ []) else None)"

definition no_scoped_ipv6 :: scoped_ipv6_syntax where
  "no_scoped_ipv6 = (\<lambda>_. None)"

lemma fetch_script_codes: "fetch_script = [104, 116, 116, 112, 58, 47, 47, 97, 46, 105, 111, 47, 120]"
  by (simp add: fetch_script_def utf_def char_code_def)

lemma fetch_payload:
  "octets (utf16_bytes fetch_script)" "18 \<le> length (utf16_bytes fetch_script)"
  "unwrap example_codecs (utf16_bytes fetch_script) = fetch_script" "keep_layer fetch_script" "ascii fetch_script"
proof -
  show a: "ascii fetch_script" by (simp add: fetch_script_codes ascii_def)
  show "unwrap example_codecs (utf16_bytes fetch_script) = fetch_script"
    by (rule unwrap_utf16[OF a]) (simp_all add: fetch_script_codes maybe_decompress_def example_codecs_def)
  show "keep_layer fetch_script"
    by (simp add: keep_layer_def printable_ratio_def min_printable_ratio_def fetch_script_codes)
  show "octets (utf16_bytes fetch_script)" "18 \<le> length (utf16_bytes fetch_script)"
    by (simp_all add: fetch_script_codes utf16_bytes_def octets_def)
qed

lemma fetch_fields:
  "collect_fields fetch_normalized [] = [(''command_line'', utf ''cmd -e '' @ b64_encode (utf16_bytes fetch_script) @ [])]"
proof -
  have "strip_text (utf ''cmd -e '' @ b64_encode (utf16_bytes fetch_script) @ []) \<noteq> []"
  proof -
    have c: "\<not> u_space 99" by (simp add: u_space_def)
    have "utf ''cmd -e '' @ b64_encode (utf16_bytes fetch_script) @ [] = 99 # (utf ''md -e '' @ b64_encode (utf16_bytes fetch_script))"
      by (simp add: utf_def char_code_def)
    then show ?thesis using c by (auto simp: strip_text_def)
  qed
  then show ?thesis
    by (simp add: collect_fields_def candidate_fields_def fetch_normalized_def map_filter_def) (simp add: strip_text_def)
qed

lemma fetch_hidden: "hidden_layer example_codecs example_unicode (collect_fields fetch_normalized []) 1 fetch_script"
proof -
  have l: "(''command_line'', utf ''cmd -e '' @ b64_encode (utf16_bytes fetch_script) @ []) \<in> set (collect_fields fetch_normalized [])"
    by (simp add: fetch_fields)
  have k: "keep_layer (unwrap example_codecs (utf16_bytes fetch_script))" by (simp add: fetch_payload)
  from payload_is_hidden[OF l fetch_payload(1,2) example_payload_conditions(2,3) k example_hash(2,1)]
  show ?thesis by (simp only: fetch_payload(3))
qed

lemma fetch_url_found: "fetch_script \<in> set (scan url_re fetch_script)"
  by (simp add: scan_def url_re_def fetch_script_codes utf_def char_code_def run_def url_char_def u_space_def)

lemma fetch_extracted:
  "\<exists>v. (Url, v) \<in> set (extract_iocs no_scoped_ipv6 example_unicode (\<lambda>_. None) fetch_script) \<and>
     lower_text example_unicode v = lower_text example_unicode fetch_script"
proof -
  have "u_rstrip trailing_punctuation fetch_script = fetch_script"
    by (simp add: u_rstrip_def trailing_punctuation_def fetch_script_codes)
  moreover have "\<not> is_vendor_ref_url example_unicode fetch_script"
    by (simp add: is_vendor_ref_url_def fetch_script_codes utf_def char_code_def u_before_def lower_text_def ascii_def
        ascii_lower_def u_upper_def vendor_ref_domains_def suffix_to_prefix)
  moreover have "field_text (\<lambda>_. None) f = []" for f by (simp add: field_text_def strip_text_def)
  ultimately have "(Url, fetch_script) \<in> set (url_iocs example_unicode (\<lambda>_. None) fetch_script)"
    using fetch_url_found by (force simp: url_iocs_def)
  then have "(Url, fetch_script) \<in> set (all_candidates no_scoped_ipv6 example_unicode (\<lambda>_. None) fetch_script)"
    by (simp add: all_candidates_def)
  from dedupe_complete[OF this, of example_unicode "[]"] show ?thesis
    by (force simp: extract_iocs_def ioc_key_def)
qed

definition fetch_cap :: nat where
  "fetch_cap = Suc (length (decode_candidates example_codecs example_unicode ''command_line''
     (utf ''cmd -e '' @ b64_encode (utf16_bytes fetch_script) @ [])))"

lemma hidden_indicators_are_reported_witness:
  "\<exists>l. alert_indicators no_scoped_ipv6 example_codecs example_unicode 1 fetch_cap fetch_normalized [] = Some l \<and>
     lower_text example_unicode fetch_script \<in> lower_values example_unicode l"
proof -
  obtain q as where s: "search_layers example_codecs example_unicode 1 fetch_cap (collect_fields fetch_normalized []) = Some (q, as)"
    using search_ends[of example_codecs example_unicode 1 fetch_cap "collect_fields fetch_normalized []"] by fastforce
  have below: "length as < fetch_cap"
    using one_layer_count[OF s[unfolded fetch_fields]] by (simp add: fetch_cap_def)
  have t: "take max_decoded_store (utf8_decode_replace fetch_script) = fetch_script"
    using fetch_payload(5) by (simp add: max_decoded_store_def fetch_script_codes)
  from fetch_extracted obtain v where v: "(Url, v) \<in> set (extract_iocs no_scoped_ipv6 example_unicode (\<lambda>_. None)
      (take max_decoded_store (utf8_decode_replace fetch_script)))"
    "lower_text example_unicode v = lower_text example_unicode fetch_script" unfolding t by blast
  from hidden_indicators_are_reported[OF fetch_hidden order_refl example_hash(1) s below v(1)] v(2)
  show ?thesis by simp
qed

section \<open>Three gaps\<close>

text \<open>A public IPv6 address in a source or destination field is reported under the type of IPv4 addresses.\<close>

lemma ipv6_is_filed_as_ipv4:
  assumes "to_string (field_text nz ''src_ip'') = Some s" "parse_ipv4 s = None" "six s = Some (a, z)" "\<not> private6 a"
    "field_text nz ''src_ip'' \<noteq> []"
  shows "(Ipv4, field_text nz ''src_ip'') \<in> set (structured_iocs six nz)"
  using assms by (simp add: structured_iocs_def is_public_ip_def scoped_address_def)

text \<open>The punctuation after a URL in a text is cut off for the URL but not for the domain taken from it.\<close>

lemma domain_keeps_punctuation:
  "domain_of_url example_unicode (utf ''http://evil.com).'') = Some (utf ''evil.com).'')"
  "u_rstrip trailing_punctuation (utf ''http://evil.com).'') = utf ''http://evil.com''"
  by (simp_all add: domain_of_url_def utf_def char_code_def u_before_def u_after_def lower_text_def ascii_def ascii_lower_def
      u_upper_def u_rstrip_def trailing_punctuation_def Let_def)

text \<open>Cutting it off can leave a URL without a host.\<close>

lemma url_without_host:
  "utf ''http://).'' \<in> set (scan url_re (utf ''http://).''))"
  "u_rstrip trailing_punctuation (utf ''http://).'') = utf ''http://''"
  by (simp_all add: scan_def url_re_def utf_def char_code_def run_def url_char_def u_space_def u_rstrip_def
      trailing_punctuation_def)

end
