(* ===== verification/Consoles.thy ===== *)
theory Consoles
  imports Case_System
begin

text \<open>
  The response consoles, where people act on endpoints and accounts by hand: per incident
  (\<open>routes/v1actions.py\<close>, \<open>routes/defenderactions.py\<close>) and without one (\<open>routes/v1ops.py\<close>,
  \<open>routes/defenderops.py\<close>). Together with the approval at the gate these are all places that call a response
  operation of a provider; that a committed verdict is mirrored to the provider's alert is a log of its own,
  \<open>cd_mirrored\<close>. The credential store and the provider's answer are fields of \<open>console_env\<close>; every
  call that goes out is recorded in \<open>rd_calls\<close>, whether it then fails or not. Look-ups of endpoints, machines and
  tasks only read at the provider and write nothing. A person's hunt is counted, since it has a right of its own; the
  hunting queries that the model sends by itself (\<open>llm/tools.py\<close>) only read and belong to the model's stages.
\<close>

section \<open>Operations\<close>

datatype console_op =
    V1_Blocklist string string string string          \<comment> \<open>type, value, scan action, risk level\<close>
  | V1_Isolate string string                          \<comment> \<open>endpoint, justification\<close>
  | V1_Restore string string
  | V1_Collect string string "string option" "string option"  \<comment> \<open>path, justification, agent, endpoint\<close>
  | MD_Hunt string string int                         \<comment> \<open>query, format, limit\<close>
  | MD_Isolate string string string                   \<comment> \<open>machine, justification, type\<close>
  | MD_Unisolate string string
  | MD_Scan string string string
  | MD_Blocklist string string string string string   \<comment> \<open>value, type, justification, action, severity\<close>
  | MD_Disable_User string string
  | MD_Enable_User string string
  | MD_Update_Alert string string "string option" "string option" "string option"
      \<comment> \<open>alert, justification, status, classification, determination\<close>

definition op_provider :: "console_op \<Rightarrow> string" where
  "op_provider op =
     (case op of
        V1_Blocklist _ _ _ _ \<Rightarrow> ''vision_one'' | V1_Isolate _ _ \<Rightarrow> ''vision_one''
      | V1_Restore _ _ \<Rightarrow> ''vision_one'' | V1_Collect _ _ _ _ \<Rightarrow> ''vision_one'' | _ \<Rightarrow> ''microsoft_defender'')"

definition op_name :: "console_op \<Rightarrow> string" where
  "op_name op =
     (case op of
        V1_Blocklist _ _ _ _ \<Rightarrow> ''blocklist'' | V1_Isolate _ _ \<Rightarrow> ''isolate'' | V1_Restore _ _ \<Rightarrow> ''restore''
      | V1_Collect _ _ _ _ \<Rightarrow> ''collect_file'' | MD_Hunt _ _ _ \<Rightarrow> ''hunt'' | MD_Isolate _ _ _ \<Rightarrow> ''isolate''
      | MD_Unisolate _ _ \<Rightarrow> ''unisolate'' | MD_Scan _ _ _ \<Rightarrow> ''scan'' | MD_Blocklist _ _ _ _ _ \<Rightarrow> ''blocklist''
      | MD_Disable_User _ _ \<Rightarrow> ''disable_user'' | MD_Enable_User _ _ \<Rightarrow> ''enable_user''
      | MD_Update_Alert _ _ _ _ _ \<Rightarrow> ''update_alert'')"

text \<open>The permission the route asks for; writing a decision back to an alert asks for a signed-in user only.\<close>

definition op_permission :: "console_op \<Rightarrow> string option" where
  "op_permission op =
     (case op of
        V1_Blocklist _ _ _ _ \<Rightarrow> Some ''actions:blocklist'' | V1_Isolate _ _ \<Rightarrow> Some ''actions:isolate''
      | V1_Restore _ _ \<Rightarrow> Some ''actions:isolate'' | V1_Collect _ _ _ _ \<Rightarrow> Some ''actions:collect''
      | MD_Hunt _ _ _ \<Rightarrow> Some ''actions:hunt'' | MD_Isolate _ _ _ \<Rightarrow> Some ''actions:isolate''
      | MD_Unisolate _ _ \<Rightarrow> Some ''actions:isolate'' | MD_Scan _ _ _ \<Rightarrow> Some ''actions:scan''
      | MD_Blocklist _ _ _ _ _ \<Rightarrow> Some ''actions:blocklist'' | MD_Disable_User _ _ \<Rightarrow> Some ''actions:disable_user''
      | MD_Enable_User _ _ \<Rightarrow> Some ''actions:disable_user'' | MD_Update_Alert _ _ _ _ _ \<Rightarrow> None)"

definition among :: "string list \<Rightarrow> string option \<Rightarrow> bool" where
  "among xs v = (case v of None \<Rightarrow> True | Some x \<Rightarrow> x \<in> set xs)"

text \<open>What the request model accepts.\<close>

definition op_valid :: "console_op \<Rightarrow> bool" where
  "op_valid op =
     (case op of
        V1_Blocklist t v a r \<Rightarrow>
          t \<in> set [''ip'', ''domain'', ''url'', ''fileSha1'', ''fileSha256'', ''senderMailAddress''] \<and>
          a \<in> set [''block'', ''log''] \<and> r \<in> set [''high'', ''medium'', ''low'']
      | V1_Collect p j agent endpoint \<Rightarrow> truthy_str agent \<or> truthy_str endpoint
      | MD_Hunt q f n \<Rightarrow> 1 \<le> length q \<and> length q \<le> 8000 \<and> f \<in> set [''json'', ''csv''] \<and> 1 \<le> n \<and> n \<le> 5000
      | MD_Isolate m j t \<Rightarrow> t \<in> set [''Full'', ''Selective'']
      | MD_Scan m j t \<Rightarrow> t \<in> set [''Quick'', ''Full'']
      | MD_Blocklist v t j a s \<Rightarrow>
          t \<in> set [''IpAddress'', ''DomainName'', ''Url'', ''FileSha256'', ''FileSha1''] \<and>
          a \<in> set [''Block'', ''Alert'', ''AlertAndBlock'', ''Audit''] \<and>
          s \<in> set [''Informational'', ''Low'', ''Medium'', ''High'']
      | MD_Update_Alert a j st c d \<Rightarrow>
          among [''new'', ''inProgress'', ''resolved''] st \<and>
          among [''truePositive'', ''falsePositive'', ''informationalExpectedActivity'', ''unknown''] c
      | _ \<Rightarrow> True)"

section \<open>State\<close>

record console_call =
  kc_op :: console_op
  kc_incident :: "uid option"
  kc_customer :: "string option"
  kc_user :: uid

text \<open>An entry of the list \<open>v1_actions\<close> or \<open>defender_actions\<close> in the enrichment of an incident.\<close>

record console_note =
  kn_incident :: uid
  kn_list :: string
  kn_action :: string
  kn_actor :: string

record response_db =
  rd_api :: api_state
  rd_calls :: "console_call list"
  rd_notes :: "console_note list"

text \<open>A provider answers, refuses with its own error and perhaps a status, or the call fails otherwise.\<close>

datatype provider_reply = Answers pyval | Refuses "nat option" | Breaks

record console_env =
  ce_now :: instant
  ce_rbac :: rbac_db
  ce_creds :: "string \<Rightarrow> string option \<Rightarrow> bool option"
    \<comment> \<open>\<open>get_creds(provider, customer)\<close>: whether it has a client id and secret\<close>
  ce_reply :: provider_reply

section \<open>The consoles\<close>

definition permit :: "console_env \<Rightarrow> console_op \<Rightarrow> user \<Rightarrow> http_error + user" where
  "permit env op u = (case op_permission op of None \<Rightarrow> Inr u | Some p \<Rightarrow> require_permission p u (ce_rbac env))"

definition refused_code :: "nat option \<Rightarrow> nat" where
  "refused_code s = (case s of None \<Rightarrow> 502 | Some n \<Rightarrow> if n = 0 then 502 else n)"

text \<open>\<open>_require_task\<close> of the incident console: only these operations look into the multi-status reply.\<close>

definition task_refused :: "console_op \<Rightarrow> pyval \<Rightarrow> nat option" where
  "task_refused op r =
     (if op_name op \<in> set [''isolate'', ''restore'', ''collect_file''] \<and> op_provider op = ''vision_one'' then
        (case parse_response_task r of
           Inl _ \<Rightarrow> Some 500
         | Inr t \<Rightarrow> if rt_ok t then None else Some 502)
      else None)"

definition console_prefix :: "console_op \<Rightarrow> string" where
  "console_prefix op = (if op_provider op = ''vision_one'' then ''v1'' else ''defender'')"

definition log_action :: "instant \<Rightarrow> incident \<Rightarrow> console_op \<Rightarrow> user \<Rightarrow> response_db \<Rightarrow> response_db" where
  "log_action now inc op u db =
     (case rd_api db of
        (cdb, tdb) \<Rightarrow>
          db\<lparr>rd_api := (audit_incident now u (console_prefix op @ ''.'' @ op_name op) inc
                         (add_timeline now (u_email u) (console_prefix op @ ''_'' @ op_name op) (i_id inc) cdb), tdb),
             rd_notes := rd_notes db @
               [\<lparr>kn_incident = i_id inc, kn_list = console_prefix op @ ''_actions'', kn_action = op_name op,
                 kn_actor = u_email u\<rparr>]\<rparr>)"

definition incident_console ::
  "console_env \<Rightarrow> uid \<Rightarrow> console_op \<Rightarrow> user \<Rightarrow> tenant_scope \<Rightarrow> response_db \<Rightarrow> (response_db, unit) handled" where
  "incident_console env i op u scope db =
     (case permit env op u of
        Inl (HTTP c) \<Rightarrow> raise_http db c
      | Inr _ \<Rightarrow>
          if \<not> op_valid op then raise_http db 422
          else
            (case get_incident i (fst (rd_api db)) of
               None \<Rightarrow> raise_http db 404
             | Some inc \<Rightarrow>
                 (case require_in_scope (i_tenant_id inc) scope of
                    Inl (HTTP c) \<Rightarrow> raise_http db c
                  | Inr _ \<Rightarrow>
                      if ce_creds env (op_provider op) (i_customer inc) = None then raise_http db 503
                      else
                        (let sent = db\<lparr>rd_calls := rd_calls db @
                               [\<lparr>kc_op = op, kc_incident = Some i, kc_customer = i_customer inc, kc_user = u_id u\<rparr>]\<rparr>
                         in (case ce_reply env of
                               Refuses s \<Rightarrow> raise_http sent (refused_code s)
                             | Breaks \<Rightarrow> raise_http sent 500
                             | Answers r \<Rightarrow>
                                 (case task_refused op r of
                                    Some c \<Rightarrow> raise_http sent c
                                  | None \<Rightarrow> reply (log_action (ce_now env) inc op u sent) ()))))))"

text \<open>Without an incident the caller names the customer; an alert cannot be updated there. The reply is not looked
  into. The Defender pages need a usable pair of credentials, and always a customer.\<close>

definition global_audit :: "instant \<Rightarrow> user \<Rightarrow> console_op \<Rightarrow> response_db \<Rightarrow> response_db" where
  "global_audit now u op db =
     (case rd_api db of
        (cdb, tdb) \<Rightarrow>
          db\<lparr>rd_api := (cdb\<lparr>cd_audit := audit_log now (Some (u_id u)) (console_prefix op @ ''_'' @ op_name op) None None
                                            (cd_audit cdb)\<rparr>, tdb)\<rparr>)"

definition usable_creds :: "console_env \<Rightarrow> console_op \<Rightarrow> string option \<Rightarrow> bool" where
  "usable_creds env op customer =
     (case ce_creds env (op_provider op) customer of
        None \<Rightarrow> False
      | Some pair \<Rightarrow> op_provider op = ''vision_one'' \<or> pair)"

definition offered_globally :: "console_op \<Rightarrow> string option \<Rightarrow> bool" where
  "offered_globally op customer \<longleftrightarrow>
     op_name op \<noteq> ''update_alert'' \<and> (op_provider op = ''vision_one'' \<or> customer \<noteq> None)"

definition global_console ::
  "console_env \<Rightarrow> string option \<Rightarrow> console_op \<Rightarrow> user \<Rightarrow> response_db \<Rightarrow> (response_db, unit) handled" where
  "global_console env customer op u db =
     (if op_name op = ''update_alert'' then raise_http db 404
      else
        (case permit env op u of
           Inl (HTTP c) \<Rightarrow> raise_http db c
         | Inr _ \<Rightarrow>
             if \<not> op_valid op \<or> \<not> offered_globally op customer then raise_http db 422
             else if \<not> usable_creds env op customer then raise_http db 503
             else
               (let sent = db\<lparr>rd_calls := rd_calls db @
                      [\<lparr>kc_op = op, kc_incident = None, kc_customer = customer, kc_user = u_id u\<rparr>]\<rparr>
                in (case ce_reply env of
                      Refuses s \<Rightarrow> raise_http sent (refused_code s)
                    | Breaks \<Rightarrow> raise_http sent 500
                    | Answers _ \<Rightarrow> reply (global_audit (ce_now env) u op sent) ()))))"

text \<open>Whether the incident's customer has Defender credentials.\<close>

definition defender_status ::
  "console_env \<Rightarrow> uid \<Rightarrow> tenant_scope \<Rightarrow> response_db \<Rightarrow> (response_db, bool \<times> string option) handled" where
  "defender_status env i scope db =
     (case get_incident i (fst (rd_api db)) of
        None \<Rightarrow> raise_http db 404
      | Some inc \<Rightarrow>
          (case require_in_scope (i_tenant_id inc) scope of
             Inl (HTTP c) \<Rightarrow> raise_http db c
           | Inr _ \<Rightarrow> reply db (ce_creds env ''microsoft_defender'' (i_customer inc) = Some True, i_customer inc)))"

section \<open>Requests\<close>

datatype response_request =
    Api request
  | On_Incident console_env uid console_op user tenant_scope
  | At_Large console_env "string option" console_op user

fun response_step :: "response_request \<Rightarrow> response_db \<Rightarrow> response_db" where
  "response_step (Api rq) db = db\<lparr>rd_api := case_step rq (rd_api db)\<rparr>"
| "response_step (On_Incident env i op u scope) db = fst (incident_console env i op u scope db)"
| "response_step (At_Large env customer op u) db = fst (global_console env customer op u db)"

text \<open>The response calls that went out: from the gate, and from the consoles.\<close>

datatype response_call = From_Gate edr_call | From_Console console_call

definition response_calls :: "response_db \<Rightarrow> response_call set" where
  "response_calls db = From_Gate ` set (cd_edr (fst (rd_api db))) \<union> From_Console ` set (rd_calls db)"

text \<open>What the user must hold, by the name of the operation: taking a host off the network and putting it back
  is one right, so is disabling and enabling an account.\<close>

definition right_for :: "string \<Rightarrow> string" where
  "right_for name =
     (if name \<in> set [''isolate'', ''unisolate'', ''restore''] then ''actions:isolate''
      else if name \<in> set [''disable_user'', ''enable_user''] then ''actions:disable_user''
      else if name = ''collect_file'' then ''actions:collect''
      else ''actions:'' @ name)"

definition permitted :: "console_env \<Rightarrow> console_op \<Rightarrow> user \<Rightarrow> bool" where
  "permitted env op u \<longleftrightarrow>
     op_name op = ''update_alert'' \<or> has_permission (resolve_permissions u (ce_rbac env)) (right_for (op_name op))"

text \<open>Who answers for a call: the approval of a checked action, as \<open>authorises\<close> says, or the person at the console.\<close>

fun answers_for :: "response_request \<Rightarrow> response_db \<Rightarrow> response_call \<Rightarrow> bool" where
  "answers_for (Api rq) db (From_Gate c) = authorises rq (rd_api db) c"
| "answers_for (On_Incident env i op u scope) db (From_Console c) =
     (kc_op c = op \<and> kc_user c = u_id u \<and> kc_incident c = Some i \<and> permitted env op u \<and>
      (case get_incident i (fst (rd_api db)) of
         None \<Rightarrow> False
       | Some inc \<Rightarrow> in_scope (i_tenant_id inc) scope \<and> kc_customer c = i_customer inc \<and>
                     ce_creds env (op_provider op) (i_customer inc) \<noteq> None))"
| "answers_for (At_Large env customer op u) db (From_Console c) =
     (kc_op c = op \<and> kc_user c = u_id u \<and> kc_incident c = None \<and> kc_customer c = customer \<and>
      op_name op \<noteq> ''update_alert'' \<and> permitted env op u \<and> ce_creds env (op_provider op) customer \<noteq> None)"
| "answers_for _ db _ = False"

section \<open>Lemmas\<close>

lemma permit_Inr: "permit env op u = Inr v \<Longrightarrow> permitted env op u"
  by (cases op)
     (auto simp: permit_def permitted_def op_permission_def op_name_def right_for_def require_permission_def
       split: if_splits)

lemma log_action_simps [simp]:
  "rd_calls (log_action now inc op u db) = rd_calls db"
  "cd_edr (fst (rd_api (log_action now inc op u db))) = cd_edr (fst (rd_api db))"
  by (simp_all add: log_action_def audit_incident_def add_timeline_def split: prod.split)

lemma global_audit_simps [simp]:
  "rd_calls (global_audit now u op db) = rd_calls db"
  "cd_edr (fst (rd_api (global_audit now u op db))) = cd_edr (fst (rd_api db))"
  by (simp_all add: global_audit_def split: prod.split)

lemma console_inv:
  assumes "case_inv (fst (rd_api db))"
  shows "case_inv (fst (rd_api (log_action now inc op u db)))"
    and "case_inv (fst (rd_api (global_audit now u op db)))"
proof -
  obtain cdb tdb where api: "rd_api db = (cdb, tdb)" by (cases "rd_api db")
  have "case_inv (audit_incident now u a inc (add_timeline now e t i cdb))" for a e t i
    using quietly_inv[of cdb "audit_incident now u a inc (add_timeline now e t i cdb)"] assms by (simp add: api)
  then show "case_inv (fst (rd_api (log_action now inc op u db)))"
    by (simp add: log_action_def api)
  have "quietly cdb (cdb\<lparr>cd_audit := l\<rparr>)" for l by (rule quietly_frame[OF quietly_refl]) simp_all
  then have "case_inv (cdb\<lparr>cd_audit := l\<rparr>)" for l
    using quietly_inv[of cdb "cdb\<lparr>cd_audit := l\<rparr>"] assms by (simp add: api)
  then show "case_inv (fst (rd_api (global_audit now u op db)))"
    by (simp add: global_audit_def api)
qed

lemma response_step_inv: "case_inv (fst (rd_api db)) \<Longrightarrow> case_inv (fst (rd_api (response_step rq db)))"
  by (cases rq)
     (auto simp: case_step_inv incident_console_def global_console_def handled_defs Let_def console_inv
       split: sum.split http_error.split option.split provider_reply.split)

lemma response_step_calls:
  assumes "case_inv (fst (rd_api db))" "c \<in> response_calls (response_step rq db)" "c \<notin> response_calls db"
  shows "answers_for rq db c"
proof (cases rq)
  case (Api q)
  with assms(2,3) obtain e where "c = From_Gate e" "e \<in> set (cd_edr (fst (case_step q (rd_api db))))"
    "e \<notin> set (cd_edr (fst (rd_api db)))" by (auto simp: response_calls_def)
  with Api case_step_calls[OF assms(1), of e q] show ?thesis by simp
next
  case (On_Incident env i op u scope)
  with assms(2,3) show ?thesis
    by (auto simp: response_calls_def incident_console_def handled_defs Let_def require_in_scope_def dest: permit_Inr
        split: sum.splits http_error.splits option.splits provider_reply.splits if_splits)
next
  case (At_Large env customer op u)
  with assms(2,3) show ?thesis
    by (auto simp: response_calls_def global_console_def handled_defs Let_def usable_creds_def dest: permit_Inr
        split: sum.splits http_error.splits option.splits provider_reply.splits if_splits)
qed

interpretation responses: accountable response_step "\<lambda>_. True" "\<lambda>db. case_inv (fst (rd_api db))" response_calls answers_for
  by unfold_locales (use response_step_inv response_step_calls in blast)+

section \<open>Property\<close>


section \<open>Examples\<close>

definition example_console_env :: console_env where
  "example_console_env = \<lparr>ce_now = 95, ce_rbac = example_rbac, ce_creds = (\<lambda>_ _. Some True), ce_reply = Answers PyNone\<rparr>"

definition example_response_db :: response_db where
  "example_response_db = \<lparr>rd_api = example_api, rd_calls = [], rd_notes = []\<rparr>"

definition example_update :: console_op where
  "example_update = MD_Update_Alert ''a1'' ''j'' (Some ''resolved'') (Some ''falsePositive'') None"

definition example_call :: console_call where
  "example_call = \<lparr>kc_op = example_update, kc_incident = Some 7, kc_customer = Some ''ACME'', kc_user = 3\<rparr>"

lemma example_update_sent:
  "rd_calls (fst (incident_console example_console_env 7 example_update (example_user 3 Viewer) None example_response_db)) =
     [example_call]"
  by code_simp

text \<open>A viewer resolves the alert as a false positive at the provider.\<close>

lemma viewer_updates_alert:
  "snd (incident_console example_console_env 7 example_update (example_user 3 Viewer) None example_response_db) = Inr ()"
  by code_simp

text \<open>At large no tenant scope is asked for, and an isolation that the provider's multi-status reply rejects counts as
  done; on an incident the same reply is an error.\<close>

definition rejecting_env :: console_env where
  "rejecting_env = example_console_env\<lparr>ce_reply := Answers (PyList [PyDict [(''status'', PyInt 403)]])\<rparr>"

lemma rejected_isolation_counts_as_done:
  "snd (global_console rejecting_env (Some ''Other'') (V1_Isolate ''pc'' ''j'') (example_user 1 Admin) example_response_db) = Inr ()"
  "snd (incident_console rejecting_env 7 (V1_Isolate ''pc'' ''j'') (example_user 1 Admin) None example_response_db) =
     Inl (HTTP 502)"
  by code_simp+


end
