(* ===== verification/Spec2Isabelle.thy ===== *)
theory Spec2Isabelle
  imports Sensitive Autoclose Tenancy Rbac Sla Case_System Agent_Routing Ti_Lookup Pipeline_Safety Url_Safety
    Customer_Cases Correlation Score_Fusion Exclusion_Admin Ioc_Extract Consoles
begin

text \<open>
  A verification library of the EKSIR back end (\<open>src/backend/isoc_api\<close> and the rule matcher of
  \<open>src/vendor/alert-memory-mcp\<close>), the security operations platform that turns alerts into incidents, proposes a
  verdict and response actions, and waits for a person to approve them.

  \<^bold>\<open>The program.\<close> An alert enters \<open>pipeline/orchestrator.py\<close>: it is parsed, bound to a tenant, matched against the
  auto-close rules, deduplicated against verified past cases, enriched with indicators (less the analysts'
  exclusions) and threat-feed hits, optionally correlated, and put to the deterministic decision gate
  \<open>pipeline/decision.py\<close>. What the gate leaves open goes to the model: a fast classifier, then the deep stages with
  their typed hand-off. The result is scored, response actions are proposed and annotated by the guardrails, and the
  incident waits at the human gate of \<open>routes/cases.py\<close>, where an approval commits the verdict, runs the checked actions,
  feeds the exclusion auto-tuning and may open a customer case. Around it are authentication, tenancy and roles, the
  queue with its service levels, and the customer cases with their mail.

  \<^bold>\<open>How it is modelled.\<close> Tables are lists of records, a route is a function from the caller, the tenant scope and the
  store to the store and the reply or HTTP error (\<open>handled\<close>); a raise rolls back. Exceptions are the left side of a
  sum. Pipeline steps are functions on the state of a run that keep what they changed before an exception. The
  operations of a component run one after the other, in any order and by anybody: its theorems are about all
  sequences of requests. Time, fresh identifiers and tokens are arguments. Code that is not under \<open>src/\<close> (vector store,
  model, mail transport, endpoint products, cryptography, DNS) is a parameter. Identifiers are natural numbers, instants are
  microseconds, floats are the rationals or reals they denote, strings are lists of 8-bit characters.

  \<^bold>\<open>The theories.\<close>
  \<^item> \<open>Eksir_Prelude\<close>: Python's string methods, tables with \<open>get_row\<close> and \<open>upd_row\<close>, shared lemmas and named collections.
    \<open>Py_Value\<close>: JSON values, truthiness, \<open>int\<close>, \<open>round\<close>, the exception sum, handlers. \<open>Enums\<close>: \<open>db/enums.py\<close>.
    \<open>Handler_Rules\<close>: proof rules that follow the branches of a handler.
  \<^item> \<open>Rule_Engine\<close>: the locale of every first-match scan, interpreted by the auto-close rules and the sensitive keywords.
    \<open>Request_System\<close>: the locales of a component as a system of requests with an invariant (\<open>request_system\<close>), with an
    accountable log (\<open>accountable\<close>), with a log that grows at its end (\<open>append_log\<close>, a sublocale of it); interpreted by
    \<open>Tenancy\<close>, \<open>Rbac\<close>, \<open>Guardrails\<close>, \<open>Queue\<close>, \<open>Correlation\<close>, \<open>Case_System\<close>, \<open>Consoles\<close>, \<open>Customer_Cases\<close> and
    \<open>Exclusion_Admin\<close>.
  \<^item> \<open>Auth\<close>: \<open>auth/security.py\<close>, \<open>auth/deps.py\<close>, \<open>auth/mfa.py\<close>, the routes of \<open>routes/auth.py\<close> and the user routes of
    \<open>routes/admin.py\<close>, with the reachable worlds of users, tokens and requests as an inductive relation; revocation, the
    second factor, the last administrator.
  \<^item> \<open>Tenancy\<close>: \<open>auth/tenancy.py\<close> and the tenant routes; the breadth-first walk against reachability, the scope header,
    the forest invariant, slugs. \<open>Rbac\<close>: \<open>auth/permissions.py\<close>, \<open>routes/rbac.py\<close>.
  \<^item> \<open>Retrieval\<close>, \<open>Decision\<close>, \<open>Sensitive\<close>, \<open>Autoclose\<close>: the evidence the decision gate uses and the gate itself.
  \<^item> \<open>Ti_Scoring\<close>, \<open>Ti_Lookup\<close>, \<open>Exclusions\<close>, \<open>Severity_Map\<close>, \<open>Contracts\<close>, \<open>Agent_Routing\<close>, \<open>Score_Fusion\<close>, \<open>Guardrails\<close>:
    \<open>threat_intel/\<close> (\<open>Ti_Lookup\<close> with the classifier \<open>classifier.py\<close>), \<open>exclusions/filter.py\<close>,
    \<open>adapters/connectors/severity.py\<close>, \<open>pipeline/contracts.py\<close> and \<open>budget.py\<close>, \<open>pipeline/agent_routing.py\<close>, \<open>pipeline/scoring.py\<close>, \<open>pipeline/guardrails.py\<close> with \<open>routes/autonomy.py\<close>.
  \<^item> \<open>Incident\<close>: the incident row and the tables around it. \<open>Auto_Tune\<close>: \<open>exclusions/auto_tune.py\<close>. \<open>Entity_Risk\<close>:
    \<open>pipeline/entity_risk.py\<close>. \<open>Sla\<close>: \<open>pipeline/sla.py\<close>. \<open>Queue\<close>: \<open>routes/queue.py\<close>.
  \<^item> \<open>Gate\<close>: approval and rejection with everything they call. \<open>Case_Ops\<close>: the other writing routes of \<open>routes/cases.py\<close>.
    \<open>Case_System\<close>: all of them as one system with its invariant, and whom the roles keep out. \<open>Consoles\<close>: the response
    consoles \<open>routes/v1actions.py\<close>, \<open>routes/defenderactions.py\<close>, \<open>routes/v1ops.py\<close> and \<open>routes/defenderops.py\<close>, where
    people act without the gate; who answers for each response call, wherever it was made.
  \<^item> \<open>Pipeline\<close>, \<open>Pipeline_Safety\<close>: the run of an alert and what it promises: what a closure rests on, that a run
    settles, that it takes no response action and mirrors at most its own verdict to the source of the alert.
  \<^item> \<open>Unicode_Text\<close>: texts as code points, byte strings, UTF-8 and UTF-16, regular expressions as matchers.
    \<open>Deobfuscation\<close>: \<open>pipeline/deobfuscate.py\<close>; the work list of encoded layers ends, stays within its bounds and finds
    every layer. \<open>Ioc_Extract\<close>: \<open>pipeline/ioc_extract.py\<close> and the merge of the indicators of decoded payloads: what is
    reported has the form the patterns give its type, and what a layer within the limits hides is reported.
  \<^item> \<open>Exclusion_Admin\<close>: \<open>routes/exclusions.py\<close> and the analyst's exclusion of \<open>routes/cases.py\<close>: who a suppression rule
    comes from, and that the filter drops what was excluded.
  \<^item> \<open>Correlation\<close>: \<open>pipeline/correlation.py\<close>, \<open>adapters/cluster_store.py\<close> and the cluster view, refined to the fusion of
    blocks of a partition; \<open>seen\<close> is the state read before the lock is taken, \<open>db\<close> the state under it.
    \<open>Customer_Cases\<close>: \<open>routes/customer_cases.py\<close> and the mail. \<open>Url_Safety\<close>: \<open>security/url_safety.py\<close>.

  \<^bold>\<open>Loops.\<close> Every loop of the modelled code is a total function: structural recursion, or a measure (the tenants not
  seen yet in the breadth-first walk and the climb to the root, the slugs not taken, the length of the remaining text
  in the scanners). The search for encoded layers is a \<open>while_option\<close> with the code's limits of depth and number as
  its bounds, and is proved to return. No fuel is used.

  \<^bold>\<open>Not modelled.\<close> Parsing of vendor payloads and OCSF mapping, YARA, prompts and model calls, the embedding store, the connectors
  to external products, webhooks, batch import and the job queue, feed download, forensics, reports and dashboards (read-only aggregates), attack-surface scans, hunts, the LangGraph path, migrations and
  scripts, and the front end: transport, text or code outside \<open>src/\<close>, whose answers the model takes as
  inputs. The Vision One workbench fetch and the Microsoft prefetch of the enrichment, the look-ups of endpoints and tasks
  in the consoles, and the parsing of TAXII objects are left out too. Of
  \<open>routes/customer_cases.py\<close> the comments and watchers, of \<open>routes/cases.py\<close> the read-only views but the
  cluster view, of \<open>worker.py\<close> all jobs but the synthesis are left out.
\<close>

end
